(* ===== verification/Prelude.thy ===== *)
theory Prelude
  imports Main "HOL-Library.Word"
begin

text \<open>
  The shared ground of the library: results of fallible Go code as sums, instants and
  durations of Go's package \<open>time\<close>, the fact collections of the development, and the lemmas
  on lists, options and maps that several components use.

  An instant (\<open>time.Time\<close>) is the number of nanoseconds since the Unix epoch, an \<open>int\<close>; a
  \<open>time.Duration\<close> is an \<open>int\<close> read as a 64-bit signed number of nanoseconds. \<open>Time.Sub\<close>
  saturates at the 64-bit bounds and a product of durations wraps, as in Go.
\<close>

named_theorems op_defs "definitions of the operations of a component"
named_theorems frame_simps "fields an operation leaves unchanged"
named_theorems inv_intros "operations that keep a component's invariant"

section \<open>Results\<close>

text \<open>A Go function that returns \<open>(T, error)\<close> returns \<open>'e + 'a\<close>: \<open>Inl\<close> is the error.\<close>

definition bindE :: "'e + 'a \<Rightarrow> ('a \<Rightarrow> 'e + 'b) \<Rightarrow> 'e + 'b" where
  "bindE r f = (case r of Inl e \<Rightarrow> Inl e | Inr a \<Rightarrow> f a)"

lemma bindE_simps [simp]: "bindE (Inl e) f = Inl e" "bindE (Inr a) f = f a"
  by (simp_all add: bindE_def)

lemma bindE_Inr_iff: "bindE r f = Inr b \<longleftrightarrow> (\<exists>a. r = Inr a \<and> f a = Inr b)"
  by (cases r) auto

lemma bindE_Inl_iff: "bindE r f = Inl e \<longleftrightarrow> r = Inl e \<or> (\<exists>a. r = Inr a \<and> f a = Inl e)"
  by (cases r) auto

definition guardE :: "bool \<Rightarrow> 'e \<Rightarrow> 'e + unit" where
  "guardE b e = (if b then Inr () else Inl e)"

lemma guardE_simps [simp]:
  "guardE True e = Inr ()" "guardE False e = Inl e"
  "guardE b e = Inr u \<longleftrightarrow> b" "guardE b e = Inl e' \<longleftrightarrow> \<not> b \<and> e' = e"
  by (auto simp: guardE_def)

definition is_ok :: "'e + 'a \<Rightarrow> bool" where
  "is_ok r = (case r of Inl _ \<Rightarrow> False | Inr _ \<Rightarrow> True)"

lemma is_ok_simps [simp]: "is_ok (Inl e) = False" "is_ok (Inr a) = True"
  by (simp_all add: is_ok_def)

section \<open>Time\<close>

type_synonym time = int
type_synonym duration = int

definition nanosecond :: duration where "nanosecond = 1"
definition second :: duration where "second = 1000000000"
definition minute :: duration where "minute = 60000000000"
definition hour :: duration where "hour = 3600000000000"

lemmas duration_defs = nanosecond_def second_def minute_def hour_def

definition max_int64 :: int where "max_int64 = 9223372036854775807"
definition min_int64 :: int where "min_int64 = -9223372036854775808"

text \<open>The zero \<open>time.Time\<close>: midnight of 1 January of the year 1, 62135596800 seconds before the epoch.\<close>

definition zero_time :: time where "zero_time = -62135596800000000000"

definition is_zero :: "time \<Rightarrow> bool" where "is_zero t \<longleftrightarrow> t = zero_time"

definition time_after :: "time \<Rightarrow> time \<Rightarrow> bool" where "time_after t u \<longleftrightarrow> u < t"
definition time_before :: "time \<Rightarrow> time \<Rightarrow> bool" where "time_before t u \<longleftrightarrow> t < u"
definition time_add :: "time \<Rightarrow> duration \<Rightarrow> time" where "time_add t d = t + d"

text \<open>\<open>Time.Sub\<close> returns the largest or smallest duration where the difference does not fit.\<close>

definition time_sub :: "time \<Rightarrow> time \<Rightarrow> duration" where
  "time_sub t u = max min_int64 (min max_int64 (t - u))"

definition unix_sec :: "time \<Rightarrow> int" where "unix_sec t = t div 1000000000"

text \<open>Two's-complement wrap of 64-bit integer arithmetic.\<close>

definition wrap64 :: "int \<Rightarrow> int" where
  "wrap64 x = (x + 9223372036854775808) mod 18446744073709551616 - 9223372036854775808"

lemmas time_defs = time_after_def time_before_def time_add_def is_zero_def

lemma time_sub_le_iff:
  "min_int64 \<le> d \<Longrightarrow> d < max_int64 \<Longrightarrow> time_sub t u \<le> d \<longleftrightarrow> t \<le> u + d"
  by (auto simp: time_sub_def min_int64_def max_int64_def)

lemma time_sub_gt_iff:
  "min_int64 \<le> d \<Longrightarrow> d < max_int64 \<Longrightarrow> d < time_sub t u \<longleftrightarrow> u + d < t"
  by (auto simp: time_sub_def min_int64_def max_int64_def)

lemma time_sub_ge_iff:
  "min_int64 < d \<Longrightarrow> d \<le> max_int64 \<Longrightarrow> d \<le> time_sub t u \<longleftrightarrow> u + d \<le> t"
  by (auto simp: time_sub_def min_int64_def max_int64_def)

lemma time_sub_exact:
  "min_int64 \<le> t - u \<Longrightarrow> t - u \<le> max_int64 \<Longrightarrow> time_sub t u = t - u"
  by (simp add: time_sub_def)

lemma wrap64_range: "min_int64 \<le> wrap64 x \<and> wrap64 x \<le> max_int64"
proof -
  have "0 \<le> (x + 9223372036854775808) mod 18446744073709551616"
    and "(x + 9223372036854775808) mod 18446744073709551616 < 18446744073709551616"
    by simp_all
  then show ?thesis unfolding wrap64_def min_int64_def max_int64_def by linarith
qed

lemma wrap64_id: "min_int64 \<le> x \<Longrightarrow> x \<le> max_int64 \<Longrightarrow> wrap64 x = x"
  by (simp add: wrap64_def min_int64_def max_int64_def)

section \<open>Lists\<close>

lemma find_Some_in: "List.find P xs = Some x \<Longrightarrow> x \<in> set xs \<and> P x"
  by (induction xs) (auto split: if_splits)

lemma find_None_all: "List.find P xs = None \<longleftrightarrow> (\<forall>x \<in> set xs. \<not> P x)"
  by (induction xs) auto

lemma find_append: "List.find P (xs @ ys) = (case List.find P xs of Some x \<Rightarrow> Some x | None \<Rightarrow> List.find P ys)"
  by (induction xs) auto

lemma find_map_same:
  assumes "\<And>x. x \<in> set xs \<Longrightarrow> P (f x) = P x"
  shows "List.find P (map f xs) = map_option f (List.find P xs)"
  using assms by (induction xs) auto

lemma find_unique:
  assumes "x \<in> set xs" and "P x" and "\<And>y. y \<in> set xs \<Longrightarrow> P y \<Longrightarrow> y = x"
  shows "List.find P xs = Some x"
proof (cases "List.find P xs")
  case None
  with assms(1,2) show ?thesis by (auto simp: find_None_all)
next
  case (Some y)
  with assms(3) have "y = x" by (blast dest: find_Some_in)
  with Some show ?thesis by simp
qed

text \<open>\<open>slices.Contains\<close>, and the loop that keeps the first occurrence of each element.\<close>

definition contains :: "'a list \<Rightarrow> 'a \<Rightarrow> bool" where
  "contains xs x = List.member xs x"

lemma contains_iff [simp]: "contains xs x \<longleftrightarrow> x \<in> set xs"
  by (simp add: contains_def)

fun dedup_onto :: "'a list \<Rightarrow> 'a list \<Rightarrow> 'a list" where
  "dedup_onto out [] = out"
| "dedup_onto out (x # xs) = (if contains out x then dedup_onto out xs else dedup_onto (out @ [x]) xs)"

lemma set_dedup_onto [simp]: "set (dedup_onto out xs) = set out \<union> set xs"
  by (induction xs arbitrary: out) auto

lemma distinct_dedup_onto: "distinct out \<Longrightarrow> distinct (dedup_onto out xs)"
  by (induction xs arbitrary: out) auto

lemma dedup_onto_id: "distinct (out @ xs) \<Longrightarrow> dedup_onto out xs = out @ xs"
  by (induction xs arbitrary: out) auto

end
