(* ===== verification/GoStd.thy ===== *)
theory GoStd
  imports Prelude
begin

text \<open>
  The parts of Go's standard library the modelled packages use, on byte strings: a Go
  \<open>string\<close> is a sequence of bytes, an Isabelle \<open>string\<close> a list of 8-bit \<open>char\<close>s.
  \<open>strings.Fields\<close> and \<open>strings.TrimSpace\<close> (Unicode white space in its UTF-8 encoding),
  \<open>strings.Join\<close> with a space, \<open>strings.ToLower\<close> (the ASCII letters; other bytes are kept),
  \<open>url.Values.Get\<close>, \<open>url.QueryUnescape\<close>, \<open>hex.EncodeToString\<close>,
  \<open>base64.RawURLEncoding.EncodeToString\<close>, \<open>strconv.Atoi\<close>.
\<close>

section \<open>Character classes\<close>

abbreviation ord_of :: "char \<Rightarrow> nat" where "ord_of c \<equiv> of_char c"

definition is_upper :: "char \<Rightarrow> bool" where "is_upper c \<longleftrightarrow> 65 \<le> ord_of c \<and> ord_of c \<le> 90"
definition is_lower :: "char \<Rightarrow> bool" where "is_lower c \<longleftrightarrow> 97 \<le> ord_of c \<and> ord_of c \<le> 122"
definition is_digit :: "char \<Rightarrow> bool" where "is_digit c \<longleftrightarrow> 48 \<le> ord_of c \<and> ord_of c \<le> 57"
definition is_alnum :: "char \<Rightarrow> bool" where "is_alnum c \<longleftrightarrow> is_upper c \<or> is_lower c \<or> is_digit c"

lemmas char_class_defs = is_upper_def is_lower_def is_digit_def is_alnum_def

definition to_lower_char :: "char \<Rightarrow> char" where
  "to_lower_char c = (if is_upper c then char_of (ord_of c + 32) else c)"

definition to_lower :: "string \<Rightarrow> string" where "to_lower s = map to_lower_char s"

lemma code_char_of: "n < 256 \<Longrightarrow> ord_of (char_of n) = n"
  by simp

lemma to_lower_char_idem [simp]: "to_lower_char (to_lower_char c) = to_lower_char c"
proof (cases "is_upper c")
  case True
  then have "ord_of (to_lower_char c) = ord_of c + 32"
    by (auto simp: to_lower_char_def is_upper_def code_char_of)
  with True have "\<not> is_upper (to_lower_char c)" by (simp add: is_upper_def)
  then show ?thesis by (simp add: to_lower_char_def [of "to_lower_char c"])
qed (simp add: to_lower_char_def)

lemma to_lower_idem [simp]: "to_lower (to_lower s) = to_lower s"
  by (simp add: to_lower_def)

lemma length_to_lower [simp]: "length (to_lower s) = length s"
  by (simp add: to_lower_def)

text \<open>\<open>strings.HasPrefix\<close>, \<open>strings.Contains\<close>, and what stands before the first occurrence of a word.\<close>

fun starts_with :: "string \<Rightarrow> string \<Rightarrow> bool" where
  "starts_with [] s = True"
| "starts_with (a # w) [] = False"
| "starts_with (a # w) (b # s) = (if a = b then starts_with w s else False)"

fun has_infix :: "string \<Rightarrow> string \<Rightarrow> bool" where
  "has_infix w [] = (w = [])"
| "has_infix w (c # s) = (if starts_with w (c # s) then True else has_infix w s)"

fun before_infix :: "string \<Rightarrow> string \<Rightarrow> string" where
  "before_infix w [] = []"
| "before_infix w (c # s) = (if starts_with w (c # s) then [] else c # before_infix w s)"

text \<open>The regular expressions \<open>x(c x)*\<close> over a separator \<open>c\<close> are read off the pieces between separators.\<close>

fun split_on :: "char \<Rightarrow> string \<Rightarrow> string list" where
  "split_on c [] = [[]]"
| "split_on c (x # s) = (if x = c then [] # split_on c s else (case split_on c s of [] \<Rightarrow> [[x]] | w # ws \<Rightarrow> (x # w) # ws))"

fun join_on :: "char \<Rightarrow> string list \<Rightarrow> string" where
  "join_on c [] = []"
| "join_on c [w] = w"
| "join_on c (w # ws) = w @ c # join_on c ws"

lemma split_on_nonempty [simp]: "split_on c s \<noteq> []"
  by (induction s) (auto split: list.splits)

lemma join_split_on: "join_on c (split_on c s) = s"
proof (induction s)
  case (Cons x s)
  note IH = Cons.IH
  show ?case
  proof (cases "split_on c s")
    case (Cons w ws)
    with IH show ?thesis by (cases ws) auto
  qed simp
qed simp

lemma split_on_free: "w \<in> set (split_on c s) \<Longrightarrow> c \<notin> set w"
proof (induction s arbitrary: w)
  case (Cons x s)
  then show ?case by (cases "split_on c s") (auto split: if_splits)
qed simp

lemma split_on_append: "c \<notin> set w \<Longrightarrow> split_on c (w @ c # s) = w # split_on c s"
  by (induction w) auto

lemma split_on_id: "c \<notin> set w \<Longrightarrow> split_on c w = [w]"
  by (induction w) auto

lemma split_join_on: "ws \<noteq> [] \<Longrightarrow> (\<forall>w \<in> set ws. c \<notin> set w) \<Longrightarrow> split_on c (join_on c ws) = ws"
  by (induction c ws rule: join_on.induct) (simp_all add: split_on_append split_on_id)

section \<open>White space\<close>

text \<open>
  The number of bytes of a white-space rune at the front of a string, 0 when there is none:
  the ASCII spaces, U+0085, U+00A0, U+1680, U+2000 to U+200A, U+2028, U+2029, U+202F, U+205F
  and U+3000. A lead byte of UTF-8 never occurs inside another rune, so scanning byte by byte
  finds the runes \<open>unicode.IsSpace\<close> accepts.
\<close>

definition ascii_space :: "nat \<Rightarrow> bool" where
  "ascii_space n \<longleftrightarrow> (9 \<le> n \<and> n \<le> 13) \<or> n = 32"

fun space_len :: "string \<Rightarrow> nat" where
  "space_len [] = 0"
| "space_len [a] = (if ascii_space (ord_of a) then 1 else 0)"
| "space_len [a, b] =
     (if ascii_space (ord_of a) then 1
      else if ord_of a = 0xC2 \<and> (ord_of b = 0x85 \<or> ord_of b = 0xA0) then 2 else 0)"
| "space_len (a # b # c # s) =
     (if ascii_space (ord_of a) then 1
      else if ord_of a = 0xC2 \<and> (ord_of b = 0x85 \<or> ord_of b = 0xA0) then 2
      else if ord_of a = 0xE1 \<and> ord_of b = 0x9A \<and> ord_of c = 0x80 then 3
      else if ord_of a = 0xE2 \<and> ord_of b = 0x80 \<and>
              ((0x80 \<le> ord_of c \<and> ord_of c \<le> 0x8A) \<or> ord_of c = 0xA8 \<or> ord_of c = 0xA9 \<or> ord_of c = 0xAF) then 3
      else if ord_of a = 0xE2 \<and> ord_of b = 0x81 \<and> ord_of c = 0x9F then 3
      else if ord_of a = 0xE3 \<and> ord_of b = 0x80 \<and> ord_of c = 0x80 then 3
      else 0)"

fun str_fields_from :: "string \<Rightarrow> string \<Rightarrow> string list" where
  "str_fields_from acc [] = (if acc = [] then [] else [rev acc])"
| "str_fields_from acc (c # s) =
     (if space_len (c # s) = 0 then str_fields_from (c # acc) s
      else (if acc = [] then [] else [rev acc]) @ str_fields_from [] (drop (space_len (c # s) - 1) s))"

definition str_fields :: "string \<Rightarrow> string list" where "str_fields s = str_fields_from [] s"

lemma str_fields_from_nonempty: "f \<in> set (str_fields_from acc s) \<Longrightarrow> f \<noteq> []"
  by (induction acc s rule: str_fields_from.induct) (auto split: if_splits)

lemma fields_nonempty: "f \<in> set (str_fields s) \<Longrightarrow> f \<noteq> []"
  unfolding str_fields_def by (rule str_fields_from_nonempty)

fun join_space :: "string list \<Rightarrow> string" where
  "join_space [] = []"
| "join_space [s] = s"
| "join_space (s # ss) = s @ '' '' @ join_space ss"

text \<open>A word is a non-empty string of ASCII bytes none of which is a space: what a scope value is.\<close>

definition is_word :: "string \<Rightarrow> bool" where
  "is_word s \<longleftrightarrow> s \<noteq> [] \<and> (\<forall>c \<in> set s. 33 \<le> ord_of c \<and> ord_of c < 127)"

lemma space_len_ascii:
  "ord_of c < 127 \<Longrightarrow> space_len (c # s) = (if ascii_space (ord_of c) then 1 else 0)"
  by (cases "(c # s)" rule: space_len.cases) auto

lemma str_fields_from_word:
  "\<forall>c \<in> set w. 33 \<le> ord_of c \<and> ord_of c < 127 \<Longrightarrow> str_fields_from acc (w @ s) = str_fields_from (rev w @ acc) s"
  by (induction w arbitrary: acc) (auto simp: space_len_ascii ascii_space_def)

lemma str_fields_join_space:
  "(\<forall>w \<in> set ws. is_word w) \<Longrightarrow> str_fields (join_space ws) = ws"
proof (induction ws rule: join_space.induct)
  case (2 s)
  then show ?case
    using str_fields_from_word [of s "[]" "[]"] by (simp add: str_fields_def is_word_def)
next
  case (3 s w ws)
  have sp: "space_len (CHR '' '' # r) = 1" for r
    by (simp add: space_len_ascii ascii_space_def)
  have "str_fields_from [] (s @ '' '' @ join_space (w # ws)) = str_fields_from (rev s) ('' '' @ join_space (w # ws))"
    using 3 str_fields_from_word [of s "[]" "'' '' @ join_space (w # ws)"] by (simp add: is_word_def)
  also have "\<dots> = s # str_fields_from [] (join_space (w # ws))"
    using 3 by (simp add: sp is_word_def)
  finally show ?case using 3 by (simp add: str_fields_def)
qed (simp add: str_fields_def)

fun trim_left :: "string \<Rightarrow> string" where
  "trim_left [] = []"
| "trim_left (c # s) = (if space_len (c # s) = 0 then c # s else trim_left (drop (space_len (c # s) - 1) s))"

text \<open>The trailing runes: the last white-space rune may be one, two or three bytes long.\<close>

fun trim_right_rev :: "nat \<Rightarrow> string \<Rightarrow> string" where
  "trim_right_rev 0 r = r"
| "trim_right_rev (Suc n) r =
     (if r \<noteq> [] \<and> space_len (rev (take 1 r)) = 1 then trim_right_rev n (drop 1 r)
      else if 2 \<le> length r \<and> space_len (rev (take 2 r)) = 2 then trim_right_rev n (drop 2 r)
      else if 3 \<le> length r \<and> space_len (rev (take 3 r)) = 3 then trim_right_rev n (drop 3 r)
      else r)"

definition trim_space :: "string \<Rightarrow> string" where
  "trim_space s = (let l = trim_left s in rev (trim_right_rev (length l) (rev l)))"

section \<open>Forms\<close>

type_synonym form = "string \<Rightarrow> string list"

definition form_get :: "form \<Rightarrow> string \<Rightarrow> string" where
  "form_get q k = (case q k of [] \<Rightarrow> [] | v # _ \<Rightarrow> v)"

definition form_of :: "(string \<times> string list) list \<Rightarrow> form" where
  "form_of kvs = (\<lambda>k. case map_of kvs k of None \<Rightarrow> [] | Some vs \<Rightarrow> vs)"

definition unhex :: "char \<Rightarrow> nat option" where
  "unhex c = (if is_digit c then Some (ord_of c - 48)
     else if 97 \<le> ord_of c \<and> ord_of c \<le> 102 then Some (ord_of c - 87)
     else if 65 \<le> ord_of c \<and> ord_of c \<le> 70 then Some (ord_of c - 55) else None)"

text \<open>\<open>url.QueryUnescape\<close>: a plus sign is a space, \<open>%XX\<close> a byte; a bad escape is an error.\<close>

fun query_unescape :: "string \<Rightarrow> string option" where
  "query_unescape [] = Some []"
| "query_unescape (c # s) =
     (if c = CHR ''%'' then
        (case s of
           a # b # s' \<Rightarrow>
             (case (unhex a, unhex b) of
                (Some x, Some y) \<Rightarrow> map_option (\<lambda>t. char_of (16 * x + y) # t) (query_unescape s')
              | _ \<Rightarrow> None)
         | _ \<Rightarrow> None)
      else if c = CHR ''+'' then map_option (\<lambda>t. CHR '' '' # t) (query_unescape s)
      else map_option (\<lambda>t. c # t) (query_unescape s))"

section \<open>Encodings\<close>

type_synonym byte = "8 word"

definition bytes_of :: "string \<Rightarrow> byte list" where "bytes_of s = map (\<lambda>c. word_of_nat (ord_of c)) s"

lemma length_bytes_of [simp]: "length (bytes_of s) = length s"
  by (simp add: bytes_of_def)

definition hex_digit :: "nat \<Rightarrow> char" where "hex_digit n = ''0123456789abcdef'' ! n"

definition hex_byte :: "byte \<Rightarrow> string" where
  "hex_byte b = [hex_digit (unat b div 16), hex_digit (unat b mod 16)]"

definition hex_encode :: "byte list \<Rightarrow> string" where "hex_encode bs = concat (map hex_byte bs)"

lemma length_hex_encode [simp]: "length (hex_encode bs) = 2 * length bs"
  by (induction bs) (auto simp: hex_encode_def hex_byte_def)

definition b64url_digit :: "nat \<Rightarrow> char" where
  "b64url_digit n = ''ABCDEFGHIJKLMNOPQRSTUVWXYZabcdefghijklmnopqrstuvwxyz0123456789-_'' ! n"

text \<open>\<open>base64.RawURLEncoding\<close>: three bytes to four digits, no padding.\<close>

fun b64url_encode :: "byte list \<Rightarrow> string" where
  "b64url_encode (a # b # c # bs) =
     (let n = uint a * 65536 + uint b * 256 + uint c in
      [b64url_digit (nat (n div 262144)), b64url_digit (nat (n div 4096 mod 64)),
       b64url_digit (nat (n div 64 mod 64)), b64url_digit (nat (n mod 64))] @ b64url_encode bs)"
| "b64url_encode [a, b] =
     (let n = uint a * 65536 + uint b * 256 in
      [b64url_digit (nat (n div 262144)), b64url_digit (nat (n div 4096 mod 64)),
       b64url_digit (nat (n div 64 mod 64))])"
| "b64url_encode [a] =
     (let n = uint a * 65536 in
      [b64url_digit (nat (n div 262144)), b64url_digit (nat (n div 4096 mod 64))])"
| "b64url_encode [] = []"

lemma length_b64url_encode: "length (b64url_encode bs) = (4 * length bs + 2) div 3"
  by (induction bs rule: b64url_encode.induct) (auto simp: Let_def)

section \<open>Numbers\<close>

fun digits_value :: "int \<Rightarrow> string \<Rightarrow> int option" where
  "digits_value n [] = Some n"
| "digits_value n (c # s) = (if is_digit c then digits_value (10 * n + int (ord_of c - 48)) s else None)"

text \<open>\<open>strconv.Atoi\<close> on a 64-bit platform: an optional sign, decimal digits, in range.\<close>

definition atoi :: "string \<Rightarrow> int option" where
  "atoi s =
     (let (neg, ds) = (case s of [] \<Rightarrow> (False, [])
                        | c # r \<Rightarrow> if c = CHR ''-'' then (True, r) else if c = CHR ''+'' then (False, r) else (False, s))
      in if ds = [] then None
         else case digits_value 0 ds of
                None \<Rightarrow> None
              | Some n \<Rightarrow> (let v = (if neg then - n else n) in
                          if min_int64 \<le> v \<and> v \<le> max_int64 then Some v else None))"

end
