(* ===== verification/Sha256.thy ===== *)
theory Sha256
  imports GoStd
begin

text \<open>
  \<open>crypto/sha256.Sum256\<close> of the standard library (FIPS 180-4), which the token, client and
  session packages store credentials under and PKCE is computed with: the message schedule and
  the compression function on 32-bit words, padding, and the digest as 32 bytes.
\<close>

unbundle bit_operations_syntax

type_synonym u32 = "32 word"

definition rotr :: "nat \<Rightarrow> u32 \<Rightarrow> u32" where "rotr n x = drop_bit n x OR push_bit (32 - n) x"

definition ch :: "u32 \<Rightarrow> u32 \<Rightarrow> u32 \<Rightarrow> u32" where "ch x y z = (x AND y) XOR (NOT x AND z)"
definition maj :: "u32 \<Rightarrow> u32 \<Rightarrow> u32 \<Rightarrow> u32" where "maj x y z = (x AND y) XOR (x AND z) XOR (y AND z)"
definition bsig0 :: "u32 \<Rightarrow> u32" where "bsig0 x = rotr 2 x XOR rotr 13 x XOR rotr 22 x"
definition bsig1 :: "u32 \<Rightarrow> u32" where "bsig1 x = rotr 6 x XOR rotr 11 x XOR rotr 25 x"
definition ssig0 :: "u32 \<Rightarrow> u32" where "ssig0 x = rotr 7 x XOR rotr 18 x XOR drop_bit 3 x"
definition ssig1 :: "u32 \<Rightarrow> u32" where "ssig1 x = rotr 17 x XOR rotr 19 x XOR drop_bit 10 x"

text \<open>The round constants, in decimal: the fractional bits of the cube roots of the first 64 primes.\<close>

definition sha_k :: "u32 list" where
  "sha_k = [
    1116352408, 1899447441, 3049323471, 3921009573, 961987163, 1508970993, 2453635748, 2870763221,
    3624381080, 310598401, 607225278, 1426881987, 1925078388, 2162078206, 2614888103, 3248222580,
    3835390401, 4022224774, 264347078, 604807628, 770255983, 1249150122, 1555081692, 1996064986,
    2554220882, 2821834349, 2952996808, 3210313671, 3336571891, 3584528711, 113926993, 338241895,
    666307205, 773529912, 1294757372, 1396182291, 1695183700, 1986661051, 2177026350, 2456956037,
    2730485921, 2820302411, 3259730800, 3345764771, 3516065817, 3600352804, 4094571909, 275423344,
    430227734, 506948616, 659060556, 883997877, 958139571, 1322822218, 1537002063, 1747873779,
    1955562222, 2024104815, 2227730452, 2361852424, 2428436474, 2756734187, 3204031479, 3329325298]"

text \<open>The schedule grows from the newest word: the window holds the last sixteen, newest first.\<close>

fun schedule :: "nat \<Rightarrow> u32 list \<Rightarrow> u32 list \<Rightarrow> u32 list" where
  "schedule 0 w out = rev out"
| "schedule (Suc n) w out =
     (let x = ssig1 (w ! 1) + w ! 6 + ssig0 (w ! 14) + w ! 15
      in schedule n (x # take 15 w) (x # out))"

definition expand :: "u32 list \<Rightarrow> u32 list" where
  "expand m = m @ schedule 48 (rev m) []"

type_synonym sha_state = "u32 \<times> u32 \<times> u32 \<times> u32 \<times> u32 \<times> u32 \<times> u32 \<times> u32"

definition sha_h0 :: sha_state where
  "sha_h0 = (0x6a09e667, 0xbb67ae85, 0x3c6ef372, 0xa54ff53a, 0x510e527f, 0x9b05688c, 0x1f83d9ab, 0x5be0cd19)"

fun sha_round :: "u32 \<times> u32 \<Rightarrow> sha_state \<Rightarrow> sha_state" where
  "sha_round (k, w) (a, b, c, d, e, f, g, h) =
     (let t1 = h + bsig1 e + ch e f g + k + w;
          t2 = bsig0 a + maj a b c
      in (t1 + t2, a, b, c, d + t1, e, f, g))"

fun sha_add :: "sha_state \<Rightarrow> sha_state \<Rightarrow> sha_state" where
  "sha_add (a, b, c, d, e, f, g, h) (a', b', c', d', e', f', g', h') =
     (a + a', b + b', c + c', d + d', e + e', f + f', g + g', h + h')"

definition compress :: "sha_state \<Rightarrow> u32 list \<Rightarrow> sha_state" where
  "compress st blk = sha_add st (fold sha_round (zip sha_k (expand blk)) st)"

fun be_words :: "byte list \<Rightarrow> u32 list" where
  "be_words (a # b # c # d # bs) =
     (push_bit 24 (ucast a) OR push_bit 16 (ucast b) OR push_bit 8 (ucast c) OR ucast d) # be_words bs"
| "be_words _ = []"

definition be_bytes :: "u32 \<Rightarrow> byte list" where
  "be_bytes x = [ucast (drop_bit 24 x), ucast (drop_bit 16 x), ucast (drop_bit 8 x), ucast x]"

definition pad :: "byte list \<Rightarrow> byte list" where
  "pad m = (let l = 8 * int (length m) in
     m @ [0x80] @ replicate ((119 - length m mod 64) mod 64) 0 @
     map (\<lambda>i. word_of_int (l div 256 ^ i)) [7, 6, 5, 4, 3, 2, 1, 0])"

fun sha_blocks :: "nat \<Rightarrow> sha_state \<Rightarrow> u32 list \<Rightarrow> sha_state" where
  "sha_blocks 0 st ws = st"
| "sha_blocks (Suc n) st ws = sha_blocks n (compress st (take 16 ws)) (drop 16 ws)"

fun sha_digest :: "sha_state \<Rightarrow> byte list" where
  "sha_digest (a, b, c, d, e, f, g, h) =
     concat (map be_bytes [a, b, c, d, e, f, g, h])"

definition sha256 :: "byte list \<Rightarrow> byte list" where
  "sha256 m = (let p = pad m in sha_digest (sha_blocks (length p div 64) sha_h0 (be_words p)))"

lemma length_be_bytes [simp]: "length (be_bytes x) = 4"
  by (simp add: be_bytes_def)

lemma length_sha_digest [simp]: "length (sha_digest st) = 32"
  by (cases st rule: sha_digest.cases) simp

lemma length_sha256 [simp]: "length (sha256 m) = 32"
  by (simp add: sha256_def Let_def)

lemma length_pad: "64 dvd length (pad m)"
proof -
  define q r where "q = length m div 64" and "r = length m mod 64"
  have m: "length m = 64 * q + r" and r: "r < 64" by (simp_all add: q_def r_def)
  have "length (pad m) = 64 * q + (r + 9 + (119 - r) mod 64)"
    by (simp add: pad_def Let_def m r)
  moreover have "(119 - r) mod 64 = (if r \<le> 55 then 55 - r else 119 - r)"
    using r by (simp add: mod_if)
  ultimately have "length (pad m) = 64 * q + (if r \<le> 55 then 64 else 128)"
    using r by (simp split: if_splits)
  then show ?thesis by (simp add: dvd_add)
qed

end
