(* ===== verification/OAuthClient.thy ===== *)
theory OAuthClient
  imports Sha256
begin

text \<open>
  Package \<open>internal/oauth/client\<close>: client types and the grants each may hold, registration of
  redirect URIs and origins, exact matching, and client secrets with their rotation overlap
  (\<open>client.go\<close>, \<open>secret.go\<close>).

  \<open>net/url.Parse\<close>, \<open>URL.String\<close> and \<open>net.ParseIP\<close> are arguments of the registration checks,
  through the record \<open>url_lib\<close>; the randomness of a new secret is the list of bytes drawn.
\<close>

section \<open>Client types\<close>

datatype client_type = TypeWeb | TypeNative | TypeSPA | TypeAPI | TypeSAML | TypeOther string

definition client_types :: "client_type list" where
  "client_types = [TypeWeb, TypeNative, TypeSPA, TypeAPI, TypeSAML]"

definition is_public :: "client_type \<Rightarrow> bool" where
  "is_public t \<longleftrightarrow> t = TypeSPA \<or> t = TypeNative"

definition is_confidential :: "client_type \<Rightarrow> bool" where
  "is_confidential t \<longleftrightarrow> t = TypeWeb \<or> t = TypeAPI"

definition valid_type :: "client_type \<Rightarrow> bool" where
  "valid_type t = contains client_types t"

definition grant_authorization_code :: string where "grant_authorization_code = ''authorization_code''"
definition grant_refresh_token :: string where "grant_refresh_token = ''refresh_token''"
definition grant_client_credentials :: string where "grant_client_credentials = ''client_credentials''"

lemmas grant_defs = grant_authorization_code_def grant_refresh_token_def grant_client_credentials_def

definition forbidden_grants :: "string list" where
  "forbidden_grants = [''implicit'', ''password'']"

fun allowed_grants :: "client_type \<Rightarrow> string list" where
  "allowed_grants TypeWeb = [grant_authorization_code, grant_refresh_token, grant_client_credentials]"
| "allowed_grants TypeAPI = [grant_client_credentials, grant_refresh_token]"
| "allowed_grants TypeSPA = [grant_authorization_code, grant_refresh_token]"
| "allowed_grants TypeNative = [grant_authorization_code, grant_refresh_token]"
| "allowed_grants _ = []"

datatype client_error =
    UnknownClientType client_type
  | GrantNeverSupported string
  | PublicClientCredentials client_type string
  | NoOIDCGrants client_type string
  | GrantNotAllowed client_type string
  | OriginEmpty | OriginWhitespace | OriginWildcard | OriginUnparsable | OriginNoHost
  | OriginNotBare | OriginCredentials | OriginCleartext | OriginScheme string
  | RedirectEmpty | RedirectWhitespace | RedirectWildcard | RedirectUnparsable | RedirectRelative
  | RedirectFragment | RedirectCleartext | RedirectCustomScheme string | RedirectSchemeNotReverseDNS string
  | RedirectNoHost | RedirectLinkLocal
  | PostLogout client_error
  | NameRequired | NeedsRedirectURI

fun validate_grants :: "client_type \<Rightarrow> string list \<Rightarrow> client_error + unit" where
  "validate_grants t [] = Inr ()"
| "validate_grants t (g # gs) =
     (if contains forbidden_grants g then Inl (GrantNeverSupported g)
      else if \<not> contains (allowed_grants t) g then
        (if is_public t \<and> g = grant_client_credentials then Inl (PublicClientCredentials t g)
         else if allowed_grants t = [] then Inl (NoOIDCGrants t g)
         else Inl (GrantNotAllowed t g))
      else validate_grants t gs)"

definition validate_grant_types :: "client_type \<Rightarrow> string list \<Rightarrow> client_error + unit" where
  "validate_grant_types t gs =
     (if \<not> valid_type t then Inl (UnknownClientType t) else validate_grants t gs)"

lemma validate_grants_ok_iff:
  "validate_grants t gs = Inr () \<longleftrightarrow> (\<forall>g \<in> set gs. g \<in> set (allowed_grants t) \<and> g \<notin> set forbidden_grants)"
  by (induction gs) auto

lemma public_no_client_credentials:
  "is_public t \<Longrightarrow> grant_client_credentials \<notin> set (allowed_grants t)"
  by (auto simp: is_public_def grant_defs)

section \<open>Registration of origins and redirect URIs\<close>

record parsed_url =
  u_scheme :: string
  u_host :: string
  u_path :: string
  u_raw_query :: string
  u_fragment :: string
  u_user :: bool \<comment> \<open>whether the URL carries user information\<close>
  u_rest :: "string list" \<comment> \<open>the fields that are never read here: \<open>Opaque\<close>, \<open>RawPath\<close>, the user information, ...\<close>

datatype ip_class = Loopback | LinkLocalUnicast | LinkLocalMulticast | OtherIP

text \<open>
  The functions of \<open>net/url\<close> and \<open>net\<close> used: parsing, \<open>URL.Hostname\<close>, \<open>URL.String\<close>, and the
  class of a host that is an IP address (\<open>None\<close> when \<open>net.ParseIP\<close> returns nil).
\<close>

record url_lib =
  parse :: "string \<Rightarrow> parsed_url option"
  hostname :: "parsed_url \<Rightarrow> string"
  url_string :: "parsed_url \<Rightarrow> string"
  ip_of :: "string \<Rightarrow> ip_class option"

definition is_loopback :: "url_lib \<Rightarrow> string \<Rightarrow> bool" where
  "is_loopback lib h =
     (let h = to_lower h in h = ''localhost'' \<or> ip_of lib h = Some Loopback)"

definition canonical :: "url_lib \<Rightarrow> parsed_url \<Rightarrow> string \<Rightarrow> string" where
  "canonical lib u scheme = url_string lib (u\<lparr>u_scheme := scheme, u_host := to_lower (u_host u)\<rparr>)"

definition validate_allowed_origin :: "url_lib \<Rightarrow> string \<Rightarrow> client_error + string" where
  "validate_allowed_origin lib raw =
     (if trim_space raw = [] then Inl OriginEmpty
      else if trim_space raw \<noteq> raw then Inl OriginWhitespace
      else if contains raw (CHR ''*'') then Inl OriginWildcard
      else case parse lib raw of
        None \<Rightarrow> Inl OriginUnparsable
      | Some u \<Rightarrow>
          if u_host u = [] then Inl OriginNoHost
          else if u_path u \<noteq> [] \<or> u_raw_query u \<noteq> [] \<or> u_fragment u \<noteq> [] \<or> contains raw (CHR ''#'')
            then Inl OriginNotBare
          else if u_user u then Inl OriginCredentials
          else (let scheme = to_lower (u_scheme u) in
            if scheme = ''https'' then Inr (scheme @ ''://'' @ to_lower (u_host u))
            else if scheme = ''http'' then
              (if \<not> is_loopback lib (hostname lib u) then Inl OriginCleartext
               else Inr (scheme @ ''://'' @ to_lower (u_host u)))
            else Inl (OriginScheme scheme)))"

definition link_local :: "url_lib \<Rightarrow> string \<Rightarrow> bool" where
  "link_local lib h \<longleftrightarrow> ip_of lib h = Some LinkLocalUnicast \<or> ip_of lib h = Some LinkLocalMulticast"

definition validate_redirect_uri :: "url_lib \<Rightarrow> string \<Rightarrow> client_type \<Rightarrow> client_error + string" where
  "validate_redirect_uri lib raw t =
     (if trim_space raw = [] then Inl RedirectEmpty
      else if trim_space raw \<noteq> raw then Inl RedirectWhitespace
      else if contains raw (CHR ''*'') then Inl RedirectWildcard
      else case parse lib raw of
        None \<Rightarrow> Inl RedirectUnparsable
      | Some u \<Rightarrow>
          if u_scheme u = [] then Inl RedirectRelative
          else if u_fragment u \<noteq> [] \<or> contains raw (CHR ''#'') then Inl RedirectFragment
          else (let scheme = to_lower (u_scheme u) in
            if scheme \<noteq> ''https'' \<and> scheme \<noteq> ''http'' then
              (if t \<noteq> TypeNative then Inl (RedirectCustomScheme scheme)
               else if \<not> contains scheme (CHR ''.'') then Inl (RedirectSchemeNotReverseDNS scheme)
               else Inr (canonical lib u scheme))
            else if scheme = ''http'' \<and> \<not> is_loopback lib (hostname lib u) then Inl RedirectCleartext
            else if hostname lib u = [] then Inl RedirectNoHost
            else if link_local lib (hostname lib u) then Inl RedirectLinkLocal
            else Inr (canonical lib u scheme)))"

section \<open>Applications and exact matching\<close>

record application =
  app_id :: string
  app_org :: string
  app_project :: string
  app_name :: string
  app_type :: client_type
  redirect_uris :: "string list"
  post_logout_uris :: "string list"
  grant_types :: "string list"
  allowed_origins :: "string list"

fun matches_uri :: "string list \<Rightarrow> string \<Rightarrow> bool" where
  "matches_uri [] presented = False"
| "matches_uri (r # rs) presented = (if r = presented then True else matches_uri rs presented)"

definition matches_redirect_uri :: "application \<Rightarrow> string \<Rightarrow> bool" where
  "matches_redirect_uri a presented = matches_uri (redirect_uris a) presented"

definition matches_post_logout_uri :: "application \<Rightarrow> string \<Rightarrow> bool" where
  "matches_post_logout_uri a presented = matches_uri (post_logout_uris a) presented"

definition matches_origin :: "application \<Rightarrow> string \<Rightarrow> bool" where
  "matches_origin a presented =
     (if presented = [] then False else matches_uri (allowed_origins a) presented)"

lemma matches_uri_iff [simp]: "matches_uri us p \<longleftrightarrow> p \<in> set us"
  by (induction us) auto

fun validate_uris :: "url_lib \<Rightarrow> client_type \<Rightarrow> string list \<Rightarrow> client_error + unit" where
  "validate_uris lib t [] = Inr ()"
| "validate_uris lib t (u # us) = bindE (validate_redirect_uri lib u t) (\<lambda>_. validate_uris lib t us)"

fun validate_post_logout :: "url_lib \<Rightarrow> client_type \<Rightarrow> string list \<Rightarrow> client_error + unit" where
  "validate_post_logout lib t [] = Inr ()"
| "validate_post_logout lib t (u # us) =
     (case validate_redirect_uri lib u t of
        Inl e \<Rightarrow> Inl (PostLogout e)
      | Inr _ \<Rightarrow> validate_post_logout lib t us)"

fun validate_origins :: "url_lib \<Rightarrow> string list \<Rightarrow> client_error + unit" where
  "validate_origins lib [] = Inr ()"
| "validate_origins lib (u # us) = bindE (validate_allowed_origin lib u) (\<lambda>_. validate_origins lib us)"

definition validate_application :: "url_lib \<Rightarrow> application \<Rightarrow> client_error + unit" where
  "validate_application lib a =
     (if \<not> valid_type (app_type a) then Inl (UnknownClientType (app_type a))
      else if trim_space (app_name a) = [] then Inl NameRequired
      else bindE (validate_grant_types (app_type a) (grant_types a)) (\<lambda>_.
           bindE (validate_uris lib (app_type a) (redirect_uris a)) (\<lambda>_.
           bindE (validate_post_logout lib (app_type a) (post_logout_uris a)) (\<lambda>_.
           bindE (validate_origins lib (allowed_origins a)) (\<lambda>_.
           if contains (grant_types a) grant_authorization_code \<and> redirect_uris a = []
           then Inl NeedsRedirectURI else Inr ())))))"

lemma validate_uris_ok:
  "validate_uris lib t us = Inr () \<longleftrightarrow> (\<forall>u \<in> set us. \<exists>c. validate_redirect_uri lib u t = Inr c)"
  by (induction us) (auto simp: bindE_Inr_iff)

text \<open>What a registered redirect URI can be: never cleartext off the loopback, never link-local.\<close>

lemma validate_redirect_uri_scheme:
  assumes "validate_redirect_uri lib raw t = Inr c"
  shows "\<exists>u. parse lib raw = Some u \<and> c = canonical lib u (to_lower (u_scheme u)) \<and>
    CHR ''*'' \<notin> set raw \<and> CHR ''#'' \<notin> set raw \<and> u_fragment u = [] \<and>
    (if to_lower (u_scheme u) = ''https'' then hostname lib u \<noteq> [] \<and> \<not> link_local lib (hostname lib u)
     else if to_lower (u_scheme u) = ''http'' then is_loopback lib (hostname lib u)
     else t = TypeNative \<and> CHR ''.'' \<in> set (to_lower (u_scheme u)))"
proof -
  from assms obtain u where u: "parse lib raw = Some u"
    by (simp add: validate_redirect_uri_def split: if_splits option.splits)
  define sch where "sch = to_lower (u_scheme u)"
  note a = assms [unfolded validate_redirect_uri_def u option.case Let_def sch_def [symmetric]]
  from a have c: "c = canonical lib u sch" and raw: "CHR ''*'' \<notin> set raw" "CHR ''#'' \<notin> set raw" "u_fragment u = []"
    by (simp_all split: if_splits)
  from a have "if sch = ''https'' then hostname lib u \<noteq> [] \<and> \<not> link_local lib (hostname lib u)
     else if sch = ''http'' then is_loopback lib (hostname lib u)
     else t = TypeNative \<and> CHR ''.'' \<in> set sch"
    by (cases "sch = ''https''"; cases "sch = ''http''"; simp split: if_splits)
  with u c raw show ?thesis unfolding sch_def by blast
qed

section \<open>Client secrets\<close>

definition secret_bytes :: nat where "secret_bytes = 32"

text \<open>\<open>Hash\<close>: unsalted SHA-256 in hexadecimal, the one stored form of tokens and secrets.\<close>

definition hash_secret :: "string \<Rightarrow> string" where
  "hash_secret plaintext = hex_encode (sha256 (bytes_of plaintext))"

lemma length_hash_secret [simp]: "length (hash_secret s) = 64"
  by (simp add: hash_secret_def)

lemma hash_secret_nonempty [simp]: "hash_secret s \<noteq> []"
  using length_hash_secret [of s] by (metis list.size(3) zero_neq_numeral)

text \<open>\<open>Generate\<close>, from the 32 bytes drawn: the plaintext shown once and the hash to store.\<close>

definition generate_secret :: "byte list \<Rightarrow> string \<times> string" where
  "generate_secret drawn = (let p = b64url_encode drawn in (p, hash_secret p))"

definition verify_secret :: "string \<Rightarrow> string \<Rightarrow> bool" where
  "verify_secret stored presented =
     (if stored = [] \<or> presented = [] then False else hash_secret presented = stored)"

record credentials =
  cred_hash :: string
  cred_previous :: string
  cred_previous_expires :: time

definition default_rotation_overlap :: duration where "default_rotation_overlap = 24 * hour"

definition verify_credentials :: "credentials \<Rightarrow> string \<Rightarrow> time \<Rightarrow> bool" where
  "verify_credentials c presented now =
     (let current = verify_secret (cred_hash c) presented;
          previous = (if cred_previous c \<noteq> [] \<and> time_before now (cred_previous_expires c)
                      then verify_secret (cred_previous c) presented else False)
      in current \<or> previous)"

definition has_secret :: "credentials \<Rightarrow> bool" where "has_secret c \<longleftrightarrow> cred_hash c \<noteq> []"

datatype secret_error = SecretNotSet

definition rotate_secret ::
  "credentials \<Rightarrow> duration \<Rightarrow> time \<Rightarrow> byte list \<Rightarrow> secret_error + string \<times> credentials" where
  "rotate_secret c overlap now drawn =
     (if \<not> has_secret c then Inl SecretNotSet
      else (let (p, h) = generate_secret drawn in
            Inr (p, \<lparr>cred_hash = h, cred_previous = cred_hash c,
                     cred_previous_expires = time_add now overlap\<rparr>)))"

definition rotate_secret_now :: "credentials \<Rightarrow> byte list \<Rightarrow> secret_error + string \<times> credentials" where
  "rotate_secret_now c drawn =
     (if \<not> has_secret c then Inl SecretNotSet
      else (let (p, h) = generate_secret drawn in
            Inr (p, \<lparr>cred_hash = h, cred_previous = [], cred_previous_expires = zero_time\<rparr>)))"

lemmas secret_defs = verify_secret_def verify_credentials_def has_secret_def
  rotate_secret_def rotate_secret_now_def generate_secret_def

lemma verify_credentials_current:
  "cred_hash c = hash_secret s \<Longrightarrow> s \<noteq> [] \<Longrightarrow> verify_credentials c s now"
  by (simp add: secret_defs)

lemma b64url_nonempty: "length bs = 32 \<Longrightarrow> b64url_encode bs \<noteq> []"
  using length_b64url_encode [of bs] by auto

end
