(* ===== verification/TokenAuth.thy ===== *)
theory TokenAuth
  imports OAuthClient
begin

text \<open>
  \<open>internal/oauth/token/auth.go\<close>: OAuth errors, the grants of the token endpoint, client
  authentication, PKCE verification and scope narrowing.

  An error keeps its code, status and \<open>Basic\<close> mark; its description is one constructor of
  \<open>tok_msg\<close> per sentence of the source, so two answers are equal in the model exactly when the
  source writes the same bytes.
\<close>

section \<open>Errors\<close>

datatype tok_msg =
    GrantTypeRequired | GrantRefused string | GrantUnsupported string
  | CredentialsTwice | HeaderMalformed | ClientIdMismatch | ClientIdRequired
  | PublicHasNoSecret | TypeCannotUseEndpoint | AuthenticationRequired | AuthenticationFailed
  | VerifierRequired | VerifierLength | VerifierAlphabet | NoChallenge | VerifierMismatch
  | ScopeNotGranted string | MethodNotPost | BodyUnparsable | GrantNotPermitted string
  | CodeInvalid | RefreshRequired | RefreshInvalid | OpenIDNeedsUser | CouldNotComplete
  | TokenRequired | LifecyclePostOnly | FormUnreadable | ClientAuthRequired
  | NeedsConfidential | AuthNotCompleted | NotRevoked

record oauth_error =
  e_code :: string
  e_msg :: tok_msg
  e_status :: nat
  e_basic :: bool

definition err_invalid_request :: string where "err_invalid_request = ''invalid_request''"
definition err_invalid_client :: string where "err_invalid_client = ''invalid_client''"
definition err_invalid_grant :: string where "err_invalid_grant = ''invalid_grant''"
definition err_unauthorized_client :: string where "err_unauthorized_client = ''unauthorized_client''"
definition err_unsupported_grant :: string where "err_unsupported_grant = ''unsupported_grant_type''"
definition err_invalid_scope :: string where "err_invalid_scope = ''invalid_scope''"
definition err_server_error :: string where "err_server_error = ''server_error''"

lemmas err_code_defs = err_invalid_request_def err_invalid_client_def err_invalid_grant_def
  err_unauthorized_client_def err_unsupported_grant_def err_invalid_scope_def err_server_error_def

definition mk_error :: "string \<Rightarrow> nat \<Rightarrow> bool \<Rightarrow> tok_msg \<Rightarrow> oauth_error" where
  "mk_error c st b m = \<lparr>e_code = c, e_msg = m, e_status = st, e_basic = b\<rparr>"

definition bad_request :: "string \<Rightarrow> tok_msg \<Rightarrow> oauth_error" where
  "bad_request c m = mk_error c 400 False m"

definition unauthorized :: "bool \<Rightarrow> tok_msg \<Rightarrow> oauth_error" where
  "unauthorized b m = mk_error err_invalid_client 401 b m"

definition server_error :: oauth_error where
  "server_error = mk_error err_server_error 500 False CouldNotComplete"

lemmas error_defs = mk_error_def bad_request_def unauthorized_def server_error_def

section \<open>Grants\<close>

definition refused_grants :: "string list" where
  "refused_grants = [''password'', ''implicit'', ''urn:ietf:params:oauth:grant-type:jwt-bearer'',
     ''urn:ietf:params:oauth:grant-type:saml2-bearer'']"

definition supported_grants :: "string list" where
  "supported_grants = [grant_authorization_code, grant_refresh_token, grant_client_credentials]"

definition validate_grant :: "string \<Rightarrow> oauth_error + unit" where
  "validate_grant g =
     (if g = [] then Inl (bad_request err_invalid_request GrantTypeRequired)
      else if contains refused_grants g then Inl (bad_request err_unsupported_grant (GrantRefused g))
      else if contains supported_grants g then Inr ()
      else Inl (bad_request err_unsupported_grant (GrantUnsupported g)))"

lemma validate_grant_ok: "validate_grant g = Inr () \<longleftrightarrow> g \<in> set supported_grants"
  by (auto simp: validate_grant_def supported_grants_def refused_grants_def grant_defs)

section \<open>Client credentials of a request\<close>

text \<open>The parts of an \<open>http.Request\<close> read: \<open>r_basic\<close> is the result of \<open>r.BasicAuth()\<close>, \<open>r_form_ok\<close>
  whether \<open>ParseForm\<close> succeeds, \<open>r_form\<close> the posted form.\<close>

record http_request =
  r_method :: string
  r_form_ok :: bool
  r_form :: form
  r_basic :: "(string \<times> string) option"

record request_credentials =
  rc_client :: string
  rc_secret :: string
  rc_basic :: bool
  rc_presented :: bool

definition parse_credentials :: "http_request \<Rightarrow> form \<Rightarrow> oauth_error + request_credentials" where
  "parse_credentials r f =
     (let form_id = form_get f ''client_id''; form_secret = form_get f ''client_secret'' in
      if r_basic r \<noteq> None \<and> form_secret \<noteq> [] then
        Inl (mk_error err_invalid_request 400 True CredentialsTwice)
      else
        bindE
          (case r_basic r of
             Some (basic_id, basic_secret) \<Rightarrow>
               (case query_unescape basic_id of
                  None \<Rightarrow> Inl (unauthorized True HeaderMalformed)
                | Some i \<Rightarrow>
                    (case query_unescape basic_secret of
                       None \<Rightarrow> Inl (unauthorized True HeaderMalformed)
                     | Some s \<Rightarrow>
                         if form_id \<noteq> [] \<and> form_id \<noteq> i then
                           Inl (mk_error err_invalid_request 400 True ClientIdMismatch)
                         else Inr \<lparr>rc_client = i, rc_secret = s, rc_basic = True, rc_presented = True\<rparr>))
           | None \<Rightarrow>
               if form_secret \<noteq> [] then
                 Inr \<lparr>rc_client = form_id, rc_secret = form_secret, rc_basic = False, rc_presented = True\<rparr>
               else Inr \<lparr>rc_client = form_id, rc_secret = [], rc_basic = False, rc_presented = False\<rparr>)
          (\<lambda>c. if rc_client c = [] then Inl (unauthorized (rc_basic c) ClientIdRequired) else Inr c))"

definition authenticate_client ::
  "application \<Rightarrow> request_credentials \<Rightarrow> credentials \<Rightarrow> time \<Rightarrow> oauth_error + unit" where
  "authenticate_client app c stored now =
     (if is_public (app_type app) then
        (if rc_presented c then Inl (unauthorized (rc_basic c) PublicHasNoSecret) else Inr ())
      else if \<not> is_confidential (app_type app) then
        Inl (mk_error err_unauthorized_client 400 False TypeCannotUseEndpoint)
      else if \<not> rc_presented c then Inl (unauthorized (rc_basic c) AuthenticationRequired)
      else if \<not> verify_credentials stored (rc_secret c) now then
        Inl (unauthorized (rc_basic c) AuthenticationFailed)
      else Inr ())"

text \<open>What an authenticated request has shown, for each kind of client.\<close>

lemma authenticate_client_ok_iff:
  "authenticate_client app c stored now = Inr () \<longleftrightarrow>
     (is_public (app_type app) \<and> \<not> rc_presented c) \<or>
     (is_confidential (app_type app) \<and> rc_presented c \<and> verify_credentials stored (rc_secret c) now)"
  by (auto simp: authenticate_client_def is_public_def is_confidential_def)

lemma parse_credentials_client:
  "parse_credentials r f = Inr c \<Longrightarrow> rc_client c \<noteq> []"
  by (auto simp: parse_credentials_def Let_def bindE_Inr_iff split: if_splits option.splits)

section \<open>PKCE\<close>

definition min_verifier :: nat where "min_verifier = 43"
definition max_verifier :: nat where "max_verifier = 128"

definition verifier_char :: "char \<Rightarrow> bool" where
  "verifier_char c \<longleftrightarrow> is_upper c \<or> is_lower c \<or> is_digit c \<or>
     c = CHR ''-'' \<or> c = CHR ''.'' \<or> c = CHR ''_'' \<or> c = CHR ''~''"

definition is_verifier_alphabet :: "string \<Rightarrow> bool" where
  "is_verifier_alphabet s = list_all verifier_char s"

definition s256 :: "string \<Rightarrow> string" where
  "s256 verifier = b64url_encode (sha256 (bytes_of verifier))"

definition verify_pkce :: "string \<Rightarrow> string \<Rightarrow> oauth_error + unit" where
  "verify_pkce challenge verifier =
     (if verifier = [] then Inl (bad_request err_invalid_grant VerifierRequired)
      else if length verifier < min_verifier \<or> length verifier > max_verifier then
        Inl (bad_request err_invalid_grant VerifierLength)
      else if \<not> is_verifier_alphabet verifier then Inl (bad_request err_invalid_grant VerifierAlphabet)
      else if challenge = [] then Inl (bad_request err_invalid_grant NoChallenge)
      else if s256 verifier \<noteq> challenge then Inl (bad_request err_invalid_grant VerifierMismatch)
      else Inr ())"

lemma length_s256 [simp]: "length (s256 v) = 43"
  by (simp add: s256_def length_b64url_encode)

lemma verify_pkce_ok_iff:
  "verify_pkce challenge verifier = Inr () \<longleftrightarrow>
     43 \<le> length verifier \<and> length verifier \<le> 128 \<and> is_verifier_alphabet verifier \<and>
     challenge = s256 verifier"
proof -
  have "s256 verifier \<noteq> []" using length_s256 [of verifier] by (metis list.size(3) zero_neq_numeral)
  then show ?thesis by (auto simp: verify_pkce_def min_verifier_def max_verifier_def)
qed

section \<open>Scope\<close>

fun narrow_loop :: "string list \<Rightarrow> string list \<Rightarrow> oauth_error + unit" where
  "narrow_loop original [] = Inr ()"
| "narrow_loop original (w # ws) =
     (if \<not> contains original w then Inl (bad_request err_invalid_scope (ScopeNotGranted w))
      else narrow_loop original ws)"

definition narrow_scope :: "string list \<Rightarrow> string list \<Rightarrow> oauth_error + string list" where
  "narrow_scope original requested =
     (if requested = [] then Inr original
      else bindE (narrow_loop original requested) (\<lambda>_. Inr requested))"

definition parse_scope :: "string \<Rightarrow> string list" where
  "parse_scope raw = dedup_onto [] (str_fields raw)"

lemma narrow_loop_ok: "narrow_loop original ws = Inr () \<longleftrightarrow> set ws \<subseteq> set original"
  by (induction ws) auto

lemma narrow_scope_subset: "narrow_scope original requested = Inr s \<Longrightarrow> set s \<subseteq> set original"
  by (auto simp: narrow_scope_def bindE_Inr_iff narrow_loop_ok split: if_splits)

lemma distinct_parse_scope: "distinct (parse_scope raw)"
  by (simp add: parse_scope_def distinct_dedup_onto)

lemma parse_scope_join:
  "distinct ws \<Longrightarrow> \<forall>w \<in> set ws. is_word w \<Longrightarrow> parse_scope (join_space ws) = ws"
  by (simp add: parse_scope_def str_fields_join_space dedup_onto_id)

end
