(* ===== verification/Claims.thy ===== *)
theory Claims
  imports TokenAuth
begin

text \<open>
  \<open>internal/oauth/token/claims.go\<close>: the payloads of the ID token, the access token and the
  client-credentials token, as maps from claim names to JSON values, and the lifetimes of every
  token kind. Role claims are bounded by \<open>max_role_claims\<close> and name the organization a role
  comes from.
\<close>

section \<open>Lifetimes\<close>

definition access_token_lifetime :: duration where "access_token_lifetime = 10 * minute"
definition id_token_lifetime :: duration where "id_token_lifetime = 5 * minute"
definition refresh_token_lifetime :: duration where "refresh_token_lifetime = 14 * 24 * hour"
definition family_lifetime :: duration where "family_lifetime = 90 * 24 * hour"

lemmas lifetime_defs = access_token_lifetime_def id_token_lifetime_def
  refresh_token_lifetime_def family_lifetime_def duration_defs

section \<open>Subject\<close>

datatype json =
    JStr string | JInt int | JBool bool | JTime time | JStrs "string list" | JObj "(string \<times> json) list"

type_synonym claims = "string \<rightharpoonup> json"

record subject =
  s_issuer :: string
  s_audience :: string
  s_client :: string
  s_project :: string
  s_org :: string
  s_user :: string
  s_session :: string
  s_auth_methods :: "string list"
  s_auth_time :: time
  s_nonce :: string
  s_scope :: "string list"
  s_role_keys :: "string list"
  s_role_org :: string
  s_manager_roles :: "string list"

datatype claims_error =
    IssuerRequired | ClientRequired | SubjectRequired | OrganizationRequired
  | NoAuthMethods | ClientCredentialsIncomplete

definition validate_subject :: "subject \<Rightarrow> claims_error + unit" where
  "validate_subject s =
     (if s_issuer s = [] then Inl IssuerRequired
      else if s_client s = [] then Inl ClientRequired
      else if s_user s = [] then Inl SubjectRequired
      else if s_org s = [] then Inl OrganizationRequired
      else Inr ())"

definition max_role_claims :: nat where "max_role_claims = 64"

definition bounded :: "string list \<Rightarrow> string list" where
  "bounded keys = (if length keys \<le> max_role_claims then keys else take max_role_claims keys)"

lemma length_bounded: "length (bounded keys) \<le> 64"
  by (simp add: bounded_def max_role_claims_def)

lemma set_bounded: "set (bounded keys) \<subseteq> set keys"
  by (auto simp: bounded_def dest: in_set_takeD)

definition role_org :: "subject \<Rightarrow> string" where
  "role_org s = (if s_role_org s \<noteq> [] then s_role_org s else s_org s)"

text \<open>A Go map: a key written twice is stored once.\<close>

fun role_claim_from :: "(string \<times> json) list \<Rightarrow> string list \<Rightarrow> string \<Rightarrow> (string \<times> json) list" where
  "role_claim_from out [] org = out"
| "role_claim_from out (k # ks) org =
     role_claim_from (if k \<in> fst ` set out then out else out @ [(k, JObj [(''org_id'', JStr org)])]) ks org"

definition role_claim :: "string list \<Rightarrow> string \<Rightarrow> json" where
  "role_claim keys org = JObj (role_claim_from [] (bounded keys) org)"

lemma role_claim_from_keys:
  "fst ` set (role_claim_from out ks org) = fst ` set out \<union> set ks"
  by (induction out ks org rule: role_claim_from.induct) auto

lemma role_claim_from_distinct:
  "distinct (map fst out) \<Longrightarrow> distinct (map fst (role_claim_from out ks org))"
  by (induction out ks org rule: role_claim_from.induct) auto

lemma role_claim_from_values:
  "(\<forall>v \<in> snd ` set out. v = JObj [(''org_id'', JStr org)]) \<Longrightarrow>
   (\<forall>v \<in> snd ` set (role_claim_from out ks org). v = JObj [(''org_id'', JStr org)])"
proof (induction out ks org rule: role_claim_from.induct)
  case (2 out k ks org)
  then show ?case by (cases "k \<in> fst ` set out") auto
qed simp

definition role_claim_namespace :: "string \<Rightarrow> string" where
  "role_claim_namespace project = ''urn:authservice:iam:org:project:'' @ project @ '':roles''"

definition manager_role_claim :: string where
  "manager_role_claim = ''urn:authservice:manager_roles''"

section \<open>The three payloads\<close>

definition id_token_claims :: "subject \<Rightarrow> time \<Rightarrow> claims_error + claims" where
  "id_token_claims s now =
     bindE (validate_subject s) (\<lambda>_.
       if s_auth_methods s = [] then Inl NoAuthMethods
       else
         let c = [''iss'' \<mapsto> JStr (s_issuer s), ''sub'' \<mapsto> JStr (s_user s), ''aud'' \<mapsto> JStr (s_client s),
                  ''iat'' \<mapsto> JInt (unix_sec now),
                  ''exp'' \<mapsto> JInt (unix_sec (time_add now id_token_lifetime)),
                  ''auth_time'' \<mapsto> JInt (unix_sec (s_auth_time s)),
                  ''amr'' \<mapsto> JStrs (s_auth_methods s), ''org_id'' \<mapsto> JStr (s_org s)];
             c = (if s_nonce s \<noteq> [] then c(''nonce'' \<mapsto> JStr (s_nonce s)) else c);
             c = (if s_session s \<noteq> [] then c(''sid'' \<mapsto> JStr (s_session s)) else c)
         in Inr c)"

definition access_token_claims :: "subject \<Rightarrow> time \<Rightarrow> claims_error + claims" where
  "access_token_claims s now =
     bindE (validate_subject s) (\<lambda>_.
       let c = [''iss'' \<mapsto> JStr (s_issuer s), ''sub'' \<mapsto> JStr (s_user s), ''aud'' \<mapsto> JStr (s_audience s),
                ''iat'' \<mapsto> JInt (unix_sec now),
                ''exp'' \<mapsto> JInt (unix_sec (time_add now access_token_lifetime)),
                ''client_id'' \<mapsto> JStr (s_client s), ''org_id'' \<mapsto> JStr (s_org s),
                ''scope'' \<mapsto> JStr (join_space (s_scope s))];
           c = (if s_session s \<noteq> [] then c(''sid'' \<mapsto> JStr (s_session s)) else c);
           c = (if s_project s \<noteq> []
                then c(role_claim_namespace (s_project s) \<mapsto> role_claim (s_role_keys s) (role_org s)) else c);
           c = (if s_manager_roles s \<noteq> []
                then c(manager_role_claim \<mapsto> JStrs (bounded (s_manager_roles s))) else c)
       in Inr c)"

definition client_credentials_claims :: "subject \<Rightarrow> time \<Rightarrow> claims_error + claims" where
  "client_credentials_claims s now =
     (if s_client s = [] \<or> s_issuer s = [] \<or> s_org s = [] then Inl ClientCredentialsIncomplete
      else
        let c = [''iss'' \<mapsto> JStr (s_issuer s), ''sub'' \<mapsto> JStr (s_client s), ''aud'' \<mapsto> JStr (s_audience s),
                 ''iat'' \<mapsto> JInt (unix_sec now),
                 ''exp'' \<mapsto> JInt (unix_sec (time_add now access_token_lifetime)),
                 ''client_id'' \<mapsto> JStr (s_client s), ''org_id'' \<mapsto> JStr (s_org s),
                 ''scope'' \<mapsto> JStr (join_space (s_scope s))]
        in Inr (if s_project s \<noteq> [] then c(role_claim_namespace (s_project s) \<mapsto> JObj []) else c))"

text \<open>The project claim never overwrites a registered claim: its key starts with \<open>urn:\<close>.\<close>

lemma role_claim_namespace_neq [simp]:
  "role_claim_namespace p \<noteq> ''iss''" "role_claim_namespace p \<noteq> ''sub''"
  "role_claim_namespace p \<noteq> ''aud''" "role_claim_namespace p \<noteq> ''iat''"
  "role_claim_namespace p \<noteq> ''exp''" "role_claim_namespace p \<noteq> ''client_id''"
  "role_claim_namespace p \<noteq> ''org_id''" "role_claim_namespace p \<noteq> ''scope''"
  "role_claim_namespace p \<noteq> ''sid''" "role_claim_namespace p \<noteq> manager_role_claim"
  by (simp_all add: role_claim_namespace_def manager_role_claim_def)

lemma unix_sec_minutes: "unix_sec (time_add now (n * minute)) = unix_sec now + 60 * n"
  by (simp add: unix_sec_def time_add_def minute_def)

end
