(* ===== verification/RefreshStore.thy ===== *)
theory RefreshStore
  imports Claims
begin

text \<open>
  The table \<open>refresh_tokens\<close> and its operations: \<open>internal/oauth/token/refresh.go\<close>,
  \<open>rotation.go\<close>, and the SQL functions and policies they run through (\<open>backend/migrations\<close>).

  A table is the list of its rows. A statement run inside \<open>WithTenant\<close> sees and writes the rows
  of its organization only (the policy \<open>refresh_tokens_tenant_isolation\<close>); the two look-ups by
  hash are SECURITY DEFINER functions and see every row. An \<open>INSERT\<close> checks the primary key,
  the unique hash and the two CHECK constraints. What is drawn at random (a row id, a family id,
  32 token bytes, or the failure to draw them) and the database's \<open>now()\<close> are arguments.
\<close>

section \<open>Rows\<close>

record rt_row =
  rt_id :: string
  rt_user :: string
  rt_client :: string
  rt_org :: string
  rt_session :: "string option"
  rt_family :: string
  rt_replaced_by :: "string option"
  rt_hash :: string
  rt_scope :: "string list"
  rt_expires :: time
  rt_family_expires :: time
  rt_revoked :: bool
  rt_created :: time

type_synonym rt_table = "rt_row list"

text \<open>The Go struct \<open>Refresh\<close>.\<close>

record refresh =
  r_id :: string
  r_user :: string
  r_client :: string
  r_org :: string
  r_session :: string
  r_family :: string
  r_scope :: "string list"
  r_expires :: time

datatype store_error = RefreshNotFound | RefreshReuse | StoreFailure

definition refresh_bytes :: nat where "refresh_bytes = 32"

definition new_refresh_plaintext :: "byte list option \<Rightarrow> store_error + string" where
  "new_refresh_plaintext drawn =
     (case drawn of None \<Rightarrow> Inl StoreFailure | Some bs \<Rightarrow> Inr (b64url_encode bs))"

definition hash_refresh :: "string \<Rightarrow> string" where
  "hash_refresh plaintext = hex_encode (sha256 (bytes_of plaintext))"

lemma hash_refresh_nonempty [simp]: "hash_refresh s \<noteq> []"
  using hash_secret_nonempty [of s] by (simp add: hash_refresh_def hash_secret_def)

definition session_of :: "string \<Rightarrow> string option" where
  "session_of s = (if s \<noteq> [] then Some s else None)"

definition null_string :: "string option \<Rightarrow> string" where
  "null_string v = (case v of None \<Rightarrow> [] | Some s \<Rightarrow> s)"

lemma null_session [simp]: "null_string (session_of s) = s"
  by (simp add: null_string_def session_of_def)

section \<open>Statements\<close>

definition visible :: "string \<Rightarrow> rt_row \<Rightarrow> bool" where "visible org t \<longleftrightarrow> rt_org t = org"

definition row_ok :: "rt_row \<Rightarrow> bool" where
  "row_ok t \<longleftrightarrow> list_ex (\<lambda>c. c \<noteq> CHR '' '') (rt_hash t) \<and> rt_expires t \<le> rt_family_expires t"

definition insert_row :: "string \<Rightarrow> rt_row \<Rightarrow> rt_table \<Rightarrow> store_error + rt_table" where
  "insert_row org t tbl =
     (if rt_org t \<noteq> org then Inl StoreFailure
      else if contains (map rt_id tbl) (rt_id t) then Inl StoreFailure
      else if contains (map rt_hash tbl) (rt_hash t) then Inl StoreFailure
      else if \<not> row_ok t then Inl StoreFailure
      else Inr (tbl @ [t]))"

text \<open>\<open>UPDATE ... SET revoked = true WHERE ...\<close> and the number of rows it touched.\<close>

definition revoke_where :: "string \<Rightarrow> (rt_row \<Rightarrow> bool) \<Rightarrow> rt_table \<Rightarrow> rt_table \<times> nat" where
  "revoke_where org P tbl =
     (map (\<lambda>t. if visible org t \<and> P t then t\<lparr>rt_revoked := True\<rparr> else t) tbl,
      length (filter (\<lambda>t. visible org t \<and> P t) tbl))"

definition token_live :: "time \<Rightarrow> rt_row \<Rightarrow> bool" where
  "token_live at t \<longleftrightarrow> \<not> rt_revoked t \<and> rt_expires t > at \<and> rt_family_expires t > at"

definition refresh_token_by_hash :: "rt_table \<Rightarrow> string \<Rightarrow> time \<Rightarrow> rt_row option" where
  "refresh_token_by_hash tbl hash at = List.find (\<lambda>t. rt_hash t = hash \<and> token_live at t) tbl"

definition find_id :: "rt_table \<Rightarrow> string \<Rightarrow> rt_row option" where
  "find_id tbl i = List.find (\<lambda>t. rt_id t = i) tbl"

section \<open>Issue, look up, revoke\<close>

record fresh =
  f_id :: string
  f_family :: string
  f_bytes :: "byte list option"

text \<open>The row an insertion writes: a new family, or a successor with its family's expiry.\<close>

definition token_row :: "refresh \<Rightarrow> string \<Rightarrow> string \<Rightarrow> string \<Rightarrow> time \<Rightarrow> time \<Rightarrow> time \<Rightarrow> rt_row" where
  "token_row i new_id family plaintext expires family_expires dbnow =
     \<lparr>rt_id = new_id, rt_user = r_user i, rt_client = r_client i, rt_org = r_org i,
      rt_session = session_of (r_session i), rt_family = family, rt_replaced_by = None,
      rt_hash = hash_refresh plaintext, rt_scope = r_scope i, rt_expires = expires,
      rt_family_expires = family_expires, rt_revoked = False, rt_created = dbnow\<rparr>"

lemma token_row_sel [simp]:
  "rt_id (token_row i n f p e fe d) = n" "rt_user (token_row i n f p e fe d) = r_user i"
  "rt_client (token_row i n f p e fe d) = r_client i" "rt_org (token_row i n f p e fe d) = r_org i"
  "rt_session (token_row i n f p e fe d) = session_of (r_session i)"
  "rt_family (token_row i n f p e fe d) = f" "rt_replaced_by (token_row i n f p e fe d) = None"
  "rt_hash (token_row i n f p e fe d) = hash_refresh p" "rt_scope (token_row i n f p e fe d) = r_scope i"
  "rt_expires (token_row i n f p e fe d) = e" "rt_family_expires (token_row i n f p e fe d) = fe"
  "rt_revoked (token_row i n f p e fe d) = False" "rt_created (token_row i n f p e fe d) = d"
  by (simp_all add: token_row_def)

definition issue_refresh ::
  "string \<Rightarrow> refresh \<Rightarrow> string \<Rightarrow> fresh \<Rightarrow> time \<Rightarrow> time \<Rightarrow> rt_table
    \<Rightarrow> store_error + (string \<times> string) \<times> rt_table" where
  "issue_refresh org i family fr now dbnow tbl =
     bindE (new_refresh_plaintext (f_bytes fr)) (\<lambda>p.
       let fam = (if family \<noteq> [] then family else f_family fr)
       in bindE (insert_row org (token_row i (f_id fr) fam p (time_add now refresh_token_lifetime)
                   (time_add now family_lifetime) dbnow) tbl)
            (\<lambda>tbl'. Inr ((p, fam), tbl')))"

definition refresh_of_row :: "rt_row \<Rightarrow> refresh" where
  "refresh_of_row t = \<lparr>r_id = rt_id t, r_user = rt_user t, r_client = rt_client t, r_org = rt_org t,
     r_session = null_string (rt_session t), r_family = rt_family t, r_scope = rt_scope t,
     r_expires = rt_expires t\<rparr>"

lemma refresh_of_row_sel [simp]:
  "r_id (refresh_of_row t) = rt_id t" "r_user (refresh_of_row t) = rt_user t"
  "r_client (refresh_of_row t) = rt_client t" "r_org (refresh_of_row t) = rt_org t"
  "r_session (refresh_of_row t) = null_string (rt_session t)" "r_family (refresh_of_row t) = rt_family t"
  "r_scope (refresh_of_row t) = rt_scope t" "r_expires (refresh_of_row t) = rt_expires t"
  by (simp_all add: refresh_of_row_def)

definition lookup_refresh :: "rt_table \<Rightarrow> string \<Rightarrow> time \<Rightarrow> store_error + refresh" where
  "lookup_refresh tbl presented now =
     (case refresh_token_by_hash tbl (hash_refresh presented) now of
        None \<Rightarrow> Inl RefreshNotFound
      | Some t \<Rightarrow> Inr (refresh_of_row t))"

definition revoke_refresh :: "string \<Rightarrow> string \<Rightarrow> rt_table \<Rightarrow> rt_table" where
  "revoke_refresh org i tbl = fst (revoke_where org (\<lambda>t. rt_id t = i) tbl)"

definition revoke_family :: "string \<Rightarrow> string \<Rightarrow> rt_table \<Rightarrow> rt_table \<times> nat" where
  "revoke_family org family tbl = revoke_where org (\<lambda>t. rt_family t = family \<and> \<not> rt_revoked t) tbl"

definition revoke_for_session_and_client :: "string \<Rightarrow> string \<Rightarrow> string \<Rightarrow> rt_table \<Rightarrow> rt_table \<times> nat" where
  "revoke_for_session_and_client org session client tbl =
     (if session = [] \<or> client = [] then (tbl, 0)
      else revoke_where org (\<lambda>t. rt_session t = Some session \<and> rt_client t = client \<and> \<not> rt_revoked t) tbl)"

definition revoke_for_sessions :: "string \<Rightarrow> string list \<Rightarrow> rt_table \<Rightarrow> rt_table \<times> nat" where
  "revoke_for_sessions org sessions tbl =
     (if sessions = [] then (tbl, 0)
      else revoke_where org
        (\<lambda>t. (case rt_session t of None \<Rightarrow> False | Some s \<Rightarrow> contains sessions s) \<and> \<not> rt_revoked t) tbl)"

definition revoke_all_for_user :: "string \<Rightarrow> string \<Rightarrow> rt_table \<Rightarrow> rt_table \<times> nat" where
  "revoke_all_for_user org user tbl =
     (if user = [] then (tbl, 0)
      else revoke_where org (\<lambda>t. rt_user t = user \<and> \<not> rt_revoked t) tbl)"

text \<open>
  \<open>sweep_refresh_tokens\<close>: which expired rows a \<open>LIMIT\<close> without an order picks is the
  database's choice (\<open>picked\<close>, ids of expired rows, at most \<open>limit\<close> of them); a link to a
  deleted row becomes NULL (\<open>ON DELETE SET NULL\<close>).
\<close>

definition sweep_ok :: "time \<Rightarrow> nat \<Rightarrow> string list \<Rightarrow> rt_table \<Rightarrow> bool" where
  "sweep_ok before limit picked tbl \<longleftrightarrow> length picked \<le> limit \<and> distinct picked \<and>
     (\<forall>i \<in> set picked. \<exists>t \<in> set tbl. rt_id t = i \<and> rt_expires t < before)"

definition sweep_refresh :: "string list \<Rightarrow> rt_table \<Rightarrow> rt_table" where
  "sweep_refresh picked tbl =
     map (\<lambda>t. case rt_replaced_by t of
            Some s \<Rightarrow> if contains picked s then t\<lparr>rt_replaced_by := None\<rparr> else t
          | None \<Rightarrow> t)
       (filter (\<lambda>t. \<not> contains picked (rt_id t)) tbl)"

section \<open>Lineage and rotation\<close>

definition rotation_grace :: duration where "rotation_grace = 30 * second"

record lineage =
  l_id :: string
  l_org :: string
  l_family :: string
  l_revoked :: bool
  l_replaced_by :: string
  l_replaced_at :: time
  l_spent :: bool

definition rotated :: "lineage \<Rightarrow> bool" where "rotated l \<longleftrightarrow> l_replaced_by l \<noteq> []"

definition legitimate_retry :: "lineage \<Rightarrow> time \<Rightarrow> duration \<Rightarrow> bool" where
  "legitimate_retry l now grace =
     (if \<not> rotated l \<or> l_revoked l \<or> l_spent l then False
      else if is_zero (l_replaced_at l) then False
      else time_sub now (l_replaced_at l) \<le> grace)"

text \<open>\<open>refresh_token_lineage\<close>: the row joined with its successor, when the link points at one.\<close>

definition successor_of :: "rt_table \<Rightarrow> rt_row \<Rightarrow> rt_row option" where
  "successor_of tbl t = (case rt_replaced_by t of None \<Rightarrow> None | Some s \<Rightarrow> find_id tbl s)"

definition lineage_of :: "rt_table \<Rightarrow> rt_row \<Rightarrow> lineage" where
  "lineage_of tbl t = \<lparr>l_id = rt_id t, l_org = rt_org t, l_family = rt_family t,
     l_revoked = rt_revoked t, l_replaced_by = null_string (rt_replaced_by t),
     l_replaced_at = (case successor_of tbl t of None \<Rightarrow> zero_time | Some s \<Rightarrow> rt_created s),
     l_spent = (case successor_of tbl t of None \<Rightarrow> False
                | Some s \<Rightarrow> rt_revoked s \<or> rt_replaced_by s \<noteq> None)\<rparr>"

definition lookup_lineage :: "rt_table \<Rightarrow> string \<Rightarrow> store_error + lineage" where
  "lookup_lineage tbl presented =
     (case List.find (\<lambda>t. rt_hash t = hash_refresh presented) tbl of
        None \<Rightarrow> Inl RefreshNotFound
      | Some t \<Rightarrow> Inr (lineage_of tbl t))"

text \<open>\<open>issueInFamily\<close>: the successor row, its expiry capped by the family's.\<close>

definition successor_expiry :: "time \<Rightarrow> time \<Rightarrow> time" where
  "successor_expiry family_expires now =
     (let e = time_add now refresh_token_lifetime in if time_after e family_expires then family_expires else e)"

definition issue_in_family ::
  "string \<Rightarrow> refresh \<Rightarrow> time \<Rightarrow> fresh \<Rightarrow> time \<Rightarrow> time \<Rightarrow> rt_table
    \<Rightarrow> store_error + (string \<times> string) \<times> rt_table" where
  "issue_in_family org i family_expires fr now dbnow tbl =
     bindE (new_refresh_plaintext (f_bytes fr)) (\<lambda>p.
       bindE (insert_row org (token_row i (f_id fr) (r_family i) p (successor_expiry family_expires now)
                family_expires dbnow) tbl)
         (\<lambda>tbl'. Inr ((p, f_id fr), tbl')))"

text \<open>The conditional \<open>UPDATE ... SET replaced_by\<close>: \<open>expected\<close> is the link it must still find.\<close>

definition link_where :: "string \<Rightarrow> string \<Rightarrow> string option \<Rightarrow> string \<Rightarrow> rt_table \<Rightarrow> rt_table \<times> nat" where
  "link_where org i expected new tbl =
     (map (\<lambda>t. if visible org t \<and> rt_id t = i \<and> rt_replaced_by t = expected
               then t\<lparr>rt_replaced_by := Some new\<rparr> else t) tbl,
      length (filter (\<lambda>t. visible org t \<and> rt_id t = i \<and> rt_replaced_by t = expected) tbl))"

definition rotate_refresh ::
  "string \<Rightarrow> refresh \<Rightarrow> string \<Rightarrow> fresh \<Rightarrow> time \<Rightarrow> time \<Rightarrow> rt_table
    \<Rightarrow> store_error + string \<times> rt_table" where
  "rotate_refresh org presented supersede fr now dbnow tbl =
     (case List.find (\<lambda>t. visible org t \<and> rt_id t = r_id presented) tbl of
        None \<Rightarrow> Inl StoreFailure
      | Some t \<Rightarrow>
          if \<not> time_after (rt_family_expires t) now then Inl RefreshNotFound
          else bindE (issue_in_family org presented (rt_family_expires t) fr now dbnow tbl) (\<lambda>((p, i), tbl1).
            let tbl2 = (if supersede \<noteq> [] then revoke_refresh org supersede tbl1 else tbl1);
                (tbl3, affected) = link_where org (r_id presented) (session_of supersede) i tbl2
            in if affected = 0 then Inl RefreshReuse else Inr (p, tbl3)))"

end
