(* ===== verification/RefreshInv.thy ===== *)
theory RefreshInv
  imports RefreshStore
begin

text \<open>
  The invariant of the refresh-token table and its preservation by every operation of
  \<open>RefreshStore\<close>: unique ids and hashes, every family sharing one owner and one absolute
  expiry, links that stay inside the family and never shorten a lifetime, and at most one
  usable tip (a live row not yet replaced) in each family.
\<close>

section \<open>The invariant\<close>

definition wf_table :: "rt_table \<Rightarrow> bool" where
  "wf_table tbl \<longleftrightarrow> distinct (map rt_id tbl) \<and> distinct (map rt_hash tbl) \<and> (\<forall>t \<in> set tbl. row_ok t \<and> rt_session t \<noteq> Some [])"

definition same_owner :: "rt_row \<Rightarrow> rt_row \<Rightarrow> bool" where
  "same_owner t u \<longleftrightarrow> rt_org t = rt_org u \<and> rt_user t = rt_user u \<and> rt_client t = rt_client u \<and>
     rt_session t = rt_session u \<and> rt_family_expires t = rt_family_expires u"

definition family_agrees :: "rt_table \<Rightarrow> bool" where
  "family_agrees tbl \<longleftrightarrow> (\<forall>t \<in> set tbl. \<forall>u \<in> set tbl. rt_family t = rt_family u \<longrightarrow> same_owner t u)"

definition links_ok :: "rt_table \<Rightarrow> bool" where
  "links_ok tbl \<longleftrightarrow> (\<forall>t \<in> set tbl. \<forall>s. rt_replaced_by t = Some s \<longrightarrow>
     s \<noteq> [] \<and> s \<noteq> rt_id t \<and>
     (\<exists>u \<in> set tbl. rt_id u = s \<and> rt_family u = rt_family t \<and> rt_expires t \<le> rt_expires u))"

definition tip :: "time \<Rightarrow> rt_row \<Rightarrow> bool" where
  "tip now t \<longleftrightarrow> token_live now t \<and> rt_replaced_by t = None"

definition single_tip :: "time \<Rightarrow> rt_table \<Rightarrow> bool" where
  "single_tip now tbl \<longleftrightarrow> (\<forall>t \<in> set tbl. \<forall>u \<in> set tbl.
     rt_family t = rt_family u \<and> tip now t \<and> tip now u \<longrightarrow> t = u)"

definition expiry_bounded :: "time \<Rightarrow> rt_table \<Rightarrow> bool" where
  "expiry_bounded now tbl \<longleftrightarrow> (\<forall>t \<in> set tbl. rt_expires t \<le> now + refresh_token_lifetime)"

definition refresh_inv :: "time \<Rightarrow> rt_table \<Rightarrow> bool" where
  "refresh_inv now tbl \<longleftrightarrow> wf_table tbl \<and> family_agrees tbl \<and> links_ok tbl \<and>
     single_tip now tbl \<and> expiry_bounded now tbl"

lemma refresh_inv_empty [simp]: "refresh_inv now []"
  by (simp add: refresh_inv_def wf_table_def family_agrees_def links_ok_def single_tip_def expiry_bounded_def)

lemma wf_unique_id:
  "wf_table tbl \<Longrightarrow> t \<in> set tbl \<Longrightarrow> u \<in> set tbl \<Longrightarrow> rt_id t = rt_id u \<Longrightarrow> t = u"
  by (auto simp: wf_table_def distinct_map inj_on_def)

lemma wf_unique_hash:
  "wf_table tbl \<Longrightarrow> t \<in> set tbl \<Longrightarrow> u \<in> set tbl \<Longrightarrow> rt_hash t = rt_hash u \<Longrightarrow> t = u"
  by (auto simp: wf_table_def distinct_map inj_on_def)

lemma find_id_Some: "wf_table tbl \<Longrightarrow> t \<in> set tbl \<Longrightarrow> find_id tbl (rt_id t) = Some t"
  unfolding find_id_def by (rule find_unique) (auto dest: wf_unique_id)

lemma token_live_antimono: "token_live now' t \<Longrightarrow> now \<le> now' \<Longrightarrow> token_live now t"
  by (auto simp: token_live_def)

lemma single_tip_later: "single_tip now tbl \<Longrightarrow> now \<le> now' \<Longrightarrow> single_tip now' tbl"
  unfolding single_tip_def tip_def by (blast intro: token_live_antimono)

lemma refresh_inv_later: "refresh_inv now tbl \<Longrightarrow> now \<le> now' \<Longrightarrow> refresh_inv now' tbl"
  by (auto simp: refresh_inv_def expiry_bounded_def intro: single_tip_later)

section \<open>Updates that keep the identity of every row\<close>

text \<open>
  \<open>keeps f\<close>: an update of rows that writes \<open>revoked\<close> and \<open>replaced_by\<close> only. \<open>retires f\<close>: one
  that in addition makes no row a tip and writes no link.
\<close>

definition keeps :: "(rt_row \<Rightarrow> rt_row) \<Rightarrow> bool" where
  "keeps f \<longleftrightarrow> (\<forall>t. rt_id (f t) = rt_id t \<and> rt_hash (f t) = rt_hash t \<and> rt_family (f t) = rt_family t \<and>
     rt_org (f t) = rt_org t \<and> rt_user (f t) = rt_user t \<and> rt_client (f t) = rt_client t \<and>
     rt_session (f t) = rt_session t \<and> rt_scope (f t) = rt_scope t \<and> rt_created (f t) = rt_created t \<and>
     rt_expires (f t) = rt_expires t \<and> rt_family_expires (f t) = rt_family_expires t)"

definition retires :: "(rt_row \<Rightarrow> rt_row) \<Rightarrow> bool" where
  "retires f \<longleftrightarrow> keeps f \<and> (\<forall>t. rt_replaced_by (f t) = rt_replaced_by t) \<and>
     (\<forall>t. rt_revoked t \<longrightarrow> rt_revoked (f t))"

lemma keeps_fields:
  assumes "keeps f"
  shows "rt_id (f t) = rt_id t" "rt_hash (f t) = rt_hash t" "rt_family (f t) = rt_family t"
    "rt_org (f t) = rt_org t" "rt_user (f t) = rt_user t" "rt_client (f t) = rt_client t"
    "rt_session (f t) = rt_session t" "rt_expires (f t) = rt_expires t"
    "rt_family_expires (f t) = rt_family_expires t" "rt_created (f t) = rt_created t"
  using assms by (simp_all add: keeps_def)

lemma keeps_wf: "keeps f \<Longrightarrow> wf_table (map f tbl) = wf_table tbl"
  by (simp add: wf_table_def row_ok_def keeps_fields comp_def)

lemma keeps_family: "keeps f \<Longrightarrow> family_agrees (map f tbl) = family_agrees tbl"
  by (simp add: family_agrees_def same_owner_def keeps_fields)

lemma keeps_expiry: "keeps f \<Longrightarrow> expiry_bounded now (map f tbl) = expiry_bounded now tbl"
  by (simp add: expiry_bounded_def keeps_fields)

lemma retires_links:
  assumes "retires f" and "links_ok tbl"
  shows "links_ok (map f tbl)"
proof -
  have k: "keeps f" using assms(1) by (simp add: retires_def)
  have r: "rt_replaced_by (f t) = rt_replaced_by t" for t using assms(1) by (simp add: retires_def)
  show ?thesis using assms(2) by (simp add: links_ok_def r keeps_fields [OF k])
qed

lemma retires_tip: "retires f \<Longrightarrow> tip now (f t) \<Longrightarrow> tip now t"
  by (auto simp: retires_def tip_def token_live_def keeps_def)

lemma retires_single_tip:
  assumes "retires f" and "single_tip now tbl"
  shows "single_tip now (map f tbl)"
proof -
  have "keeps f" using assms(1) by (simp add: retires_def)
  then show ?thesis using assms(2) retires_tip [OF assms(1)]
    unfolding single_tip_def by (simp add: keeps_fields) metis
qed

lemma retires_inv: "retires f \<Longrightarrow> refresh_inv now tbl \<Longrightarrow> refresh_inv now (map f tbl)"
  by (simp add: refresh_inv_def retires_links retires_single_tip keeps_wf keeps_family keeps_expiry retires_def)

lemma retires_revoke: "retires (\<lambda>t. if P t then t\<lparr>rt_revoked := True\<rparr> else t)"
  by (simp add: retires_def keeps_def)

lemma fst_revoke_where:
  "fst (revoke_where org P tbl) = map (\<lambda>t. if visible org t \<and> P t then t\<lparr>rt_revoked := True\<rparr> else t) tbl"
  by (simp add: revoke_where_def)

lemma revoke_where_inv [inv_intros]: "refresh_inv now tbl \<Longrightarrow> refresh_inv now (fst (revoke_where org P tbl))"
  unfolding fst_revoke_where by (rule retires_inv [OF retires_revoke])

text \<open>Every revocation of the store is one of these updates.\<close>

lemma revocations_inv [inv_intros]:
  assumes "refresh_inv now tbl"
  shows "refresh_inv now (revoke_refresh org i tbl)"
    "refresh_inv now (fst (revoke_family org fam tbl))"
    "refresh_inv now (fst (revoke_for_session_and_client org s c tbl))"
    "refresh_inv now (fst (revoke_for_sessions org ss tbl))"
    "refresh_inv now (fst (revoke_all_for_user org u tbl))"
  using assms
  by (auto simp: revoke_refresh_def revoke_family_def revoke_for_session_and_client_def
      revoke_for_sessions_def revoke_all_for_user_def intro: revoke_where_inv)

section \<open>Insertion\<close>

lemma insert_row_ok:
  "insert_row org t tbl = Inr tbl' \<longleftrightarrow>
     rt_org t = org \<and> rt_id t \<notin> rt_id ` set tbl \<and> rt_hash t \<notin> rt_hash ` set tbl \<and> row_ok t \<and> tbl' = tbl @ [t]"
  by (auto simp: insert_row_def)

lemma wf_append: "wf_table (tbl @ [t]) \<longleftrightarrow>
   wf_table tbl \<and> rt_id t \<notin> rt_id ` set tbl \<and> rt_hash t \<notin> rt_hash ` set tbl \<and> row_ok t \<and> rt_session t \<noteq> Some []"
  by (auto simp: wf_table_def)

lemma issue_refreshE:
  assumes "issue_refresh org i fam fr now dbnow tbl = Inr ((p, fam'), tbl')"
  obtains bs row where "f_bytes fr = Some bs" "p = b64url_encode bs"
    "fam' = (if fam \<noteq> [] then fam else f_family fr)"
    "row = token_row i (f_id fr) fam' p (now + refresh_token_lifetime) (now + family_lifetime) dbnow"
    "tbl' = tbl @ [row]" "r_org i = org" "f_id fr \<notin> rt_id ` set tbl" "hash_refresh p \<notin> rt_hash ` set tbl"
    "row_ok row"
  using assms
  by (auto simp: issue_refresh_def new_refresh_plaintext_def bindE_Inr_iff insert_row_ok Let_def time_add_def
      split: option.splits)

lemma issue_refresh_inv [inv_intros]:
  assumes inv: "refresh_inv now tbl" and iss: "issue_refresh org i [] fr now dbnow tbl = Inr ((p, fam), tbl')"
    and fresh: "f_family fr \<notin> rt_family ` set tbl"
  shows "refresh_inv now tbl'"
proof -
  from iss obtain row where
    row: "tbl' = tbl @ [row]" "rt_id row \<notin> rt_id ` set tbl" "rt_hash row \<notin> rt_hash ` set tbl" "row_ok row"
      "rt_family row = f_family fr" "rt_replaced_by row = None" "rt_expires row = now + refresh_token_lifetime"
      "rt_session row \<noteq> Some []"
    by (elim issue_refreshE) (auto simp: session_of_def)
  have nf: "rt_family t \<noteq> rt_family row" "rt_family row \<noteq> rt_family t" if "t \<in> set tbl" for t
    using fresh row(5) that by (metis image_eqI)+
  have "wf_table tbl'" "expiry_bounded now tbl'"
    using inv row by (auto simp: refresh_inv_def wf_append expiry_bounded_def)
  moreover have "family_agrees tbl'"
    using inv nf unfolding row(1) refresh_inv_def family_agrees_def same_owner_def
    by (simp only: set_append set_simps Un_iff insert_iff empty_iff) blast
  moreover have "single_tip now tbl'"
    using inv nf unfolding row(1) refresh_inv_def single_tip_def
    by (simp only: set_append set_simps Un_iff insert_iff empty_iff) blast
  moreover have "links_ok tbl'"
    using inv row(1,6) by (auto simp: refresh_inv_def links_ok_def)
  ultimately show ?thesis by (simp add: refresh_inv_def)
qed

section \<open>Rotation\<close>

definition rot_update :: "string \<Rightarrow> string \<Rightarrow> string \<Rightarrow> string \<Rightarrow> rt_row \<Rightarrow> rt_row" where
  "rot_update org i old new t =
     (let t' = (if old \<noteq> [] \<and> visible org t \<and> rt_id t = old then t\<lparr>rt_revoked := True\<rparr> else t)
      in if visible org t' \<and> rt_id t' = i \<and> rt_replaced_by t' = session_of old
         then t'\<lparr>rt_replaced_by := Some new\<rparr> else t')"

lemma keeps_rot_update: "keeps (rot_update org i old new)"
  by (simp add: keeps_def rot_update_def Let_def)

lemma rotate_refreshE:
  assumes "rotate_refresh org pr old fr now dbnow tbl = Inr (p, tbl')"
  obtains t row where "t \<in> set tbl" "rt_org t = org" "rt_id t = r_id pr" "now < rt_family_expires t"
    "f_bytes fr \<noteq> None" "p = b64url_encode (the (f_bytes fr))"
    "row = token_row pr (f_id fr) (r_family pr) p (successor_expiry (rt_family_expires t) now)
      (rt_family_expires t) dbnow"
    "r_org pr = org" "f_id fr \<notin> rt_id ` set tbl" "hash_refresh p \<notin> rt_hash ` set tbl" "row_ok row"
    "tbl' = map (rot_update org (r_id pr) old (f_id fr)) (tbl @ [row])"
    "\<exists>u \<in> set (tbl @ [row]). visible org u \<and> rt_id u = r_id pr \<and> rt_replaced_by u = session_of old"
proof -
  from assms obtain t where t: "List.find (\<lambda>t. visible org t \<and> rt_id t = r_id pr) tbl = Some t"
    and ft: "now < rt_family_expires t"
    by (auto simp: rotate_refresh_def time_after_def split: option.splits if_splits)
  from assms [unfolded rotate_refresh_def t option.case] ft
  obtain p' i' tbl1 where iss: "issue_in_family org pr (rt_family_expires t) fr now dbnow tbl = Inr ((p', i'), tbl1)"
    by (auto simp: bindE_Inr_iff time_after_def)
  define row where "row = token_row pr (f_id fr) (r_family pr) p' (successor_expiry (rt_family_expires t) now)
    (rt_family_expires t) dbnow"
  from iss obtain bs where new: "f_bytes fr = Some bs" "p' = b64url_encode bs" "i' = f_id fr"
    and ins: "insert_row org row tbl = Inr tbl1"
    by (auto simp: issue_in_family_def new_refresh_plaintext_def bindE_Inr_iff row_def split: option.splits)
  note ins = ins [unfolded insert_row_ok]
  let ?r = "\<lambda>t. if old \<noteq> [] \<and> visible org t \<and> rt_id t = old then t\<lparr>rt_revoked := True\<rparr> else t"
  have tbl2: "(if old \<noteq> [] then revoke_refresh org old tbl1 else tbl1) = map ?r tbl1"
    by (simp add: revoke_refresh_def fst_revoke_where)
  have lk: "fst (link_where org (r_id pr) (session_of old) (f_id fr) (map ?r tbl1)) =
      map (rot_update org (r_id pr) old (f_id fr)) tbl1"
    by (simp add: link_where_def rot_update_def Let_def)
  from assms [unfolded rotate_refresh_def t option.case] ft iss new
  have res: "p = p'" "tbl' = map (rot_update org (r_id pr) old (f_id fr)) tbl1"
    and aff: "snd (link_where org (r_id pr) (session_of old) (f_id fr) (map ?r tbl1)) \<noteq> 0"
    by (auto simp: time_after_def tbl2 lk [symmetric] Let_def split: if_splits prod.splits)
  have same: "visible org (?r u) \<and> rt_id (?r u) = r_id pr \<and> rt_replaced_by (?r u) = session_of old \<longleftrightarrow>
      visible org u \<and> rt_id u = r_id pr \<and> rt_replaced_by u = session_of old" for u
    by (simp add: visible_def)
  have "snd (link_where org (r_id pr) (session_of old) (f_id fr) (map ?r tbl1)) =
      length (filter (\<lambda>u. visible org u \<and> rt_id u = r_id pr \<and> rt_replaced_by u = session_of old) tbl1)"
    unfolding link_where_def snd_conv filter_map length_map comp_def same ..
  with aff have some: "\<exists>u \<in> set tbl1. visible org u \<and> rt_id u = r_id pr \<and> rt_replaced_by u = session_of old"
    by (auto simp: filter_empty_conv)
  have "t \<in> set tbl" "rt_org t = org" "rt_id t = r_id pr"
    using find_Some_in [OF t] by (auto simp: visible_def)
  then show thesis
    using that [of t row] ft new ins res some by (auto simp: row_def)
qed

text \<open>
  What the presented row has to satisfy for a rotation to keep the invariant: it is the live
  row of its family the request names, and either it was not replaced (\<open>old\<close> empty), or its
  successor \<open>old\<close> is untouched.
\<close>

definition rotatable :: "time \<Rightarrow> rt_table \<Rightarrow> refresh \<Rightarrow> string \<Rightarrow> bool" where
  "rotatable now tbl pr old \<longleftrightarrow> (\<exists>t \<in> set tbl. token_live now t \<and> pr = (refresh_of_row t)\<lparr>r_scope := r_scope pr\<rparr> \<and>
     (old = [] \<and> rt_replaced_by t = None \<or>
      rt_replaced_by t = Some old \<and>
      (\<forall>u \<in> set tbl. rt_id u = old \<longrightarrow> \<not> rt_revoked u \<and> rt_replaced_by u = None)))"

lemma rotatableE:
  assumes "rotatable now tbl pr old"
  obtains t where "t \<in> set tbl" "token_live now t" "pr = (refresh_of_row t)\<lparr>r_scope := r_scope pr\<rparr>"
    "r_id pr = rt_id t" "r_family pr = rt_family t" "r_org pr = rt_org t" "r_user pr = rt_user t"
    "r_client pr = rt_client t" "r_session pr = null_string (rt_session t)"
    "old = [] \<and> rt_replaced_by t = None \<or>
      rt_replaced_by t = Some old \<and>
      (\<forall>u \<in> set tbl. rt_id u = old \<longrightarrow> \<not> rt_revoked u \<and> rt_replaced_by u = None)"
proof -
  from assms obtain t where t: "t \<in> set tbl" "token_live now t" "pr = (refresh_of_row t)\<lparr>r_scope := r_scope pr\<rparr>"
    and link: "old = [] \<and> rt_replaced_by t = None \<or> rt_replaced_by t = Some old \<and>
      (\<forall>u \<in> set tbl. rt_id u = old \<longrightarrow> \<not> rt_revoked u \<and> rt_replaced_by u = None)"
    unfolding rotatable_def by blast
  have "r_id pr = rt_id t" "r_family pr = rt_family t" "r_org pr = rt_org t" "r_user pr = rt_user t"
    "r_client pr = rt_client t" "r_session pr = null_string (rt_session t)"
    by (subst t(3), simp)+
  with t link that show thesis by blast
qed

lemma rot_update_other: "rt_id t \<noteq> i \<Longrightarrow> rt_id t \<noteq> old \<Longrightarrow> rot_update org i old new t = t"
  by (simp add: rot_update_def Let_def)

lemma rot_update_tip: "tip now (rot_update org i old new t) \<Longrightarrow> tip now t"
  by (auto simp: rot_update_def Let_def tip_def token_live_def split: if_splits)

lemma rot_update_links:
  assumes links: "links_ok tbl" and t: "t \<in> set tbl" "rt_id t = i"
    and row: "rt_id row \<notin> rt_id ` set tbl" "rt_id row \<noteq> []" "rt_replaced_by row = None"
      "rt_family row = rt_family t" "rt_expires t \<le> rt_expires row" and wf: "wf_table tbl"
  shows "links_ok (map (rot_update org i old (rt_id row)) (tbl @ [row]))"
proof -
  let ?f = "rot_update org i old (rt_id row)"
  note k = keeps_fields [OF keeps_rot_update, of org i old "rt_id row"]
  have "s \<noteq> [] \<and> s \<noteq> rt_id u \<and>
      (\<exists>v \<in> set (tbl @ [row]). rt_id v = s \<and> rt_family v = rt_family u \<and> rt_expires u \<le> rt_expires v)"
    if u: "u \<in> set (tbl @ [row])" and s: "rt_replaced_by (?f u) = Some s" for u s
  proof (cases "rt_replaced_by u = Some s")
    case True
    with u row(3) have "u \<in> set tbl" by auto
    with True links show ?thesis by (force simp: links_ok_def)
  next
    case False
    with s have su: "s = rt_id row" "rt_id u = i"
      by (auto simp: rot_update_def Let_def split: if_splits)
    with u t row(1) have "u \<in> set tbl" by auto
    with su t wf have "u = t" by (auto dest: wf_unique_id)
    with su row t show ?thesis by auto
  qed
  then show ?thesis unfolding links_ok_def set_map ball_simps bex_simps k by blast
qed

lemma family_agrees_append:
  assumes "family_agrees tbl" "t \<in> set tbl" "rt_family row = rt_family t" "same_owner row t"
  shows "family_agrees (tbl @ [row])"
proof -
  have "same_owner u row \<and> same_owner row u" if "u \<in> set tbl" "rt_family u = rt_family row" for u
  proof -
    have "same_owner u t" using assms(1-3) that by (simp add: family_agrees_def)
    with assms(4) show ?thesis by (simp add: same_owner_def)
  qed
  moreover have "same_owner row row" by (simp add: same_owner_def)
  ultimately show ?thesis using assms(1) unfolding family_agrees_def
    by (auto simp: set_append)
qed

lemma rot_update_no_tip:
  assumes inv: "refresh_inv now tbl" and t: "t \<in> set tbl" "token_live now t" "rt_org t = org"
    and link: "old = [] \<and> rt_replaced_by t = None \<or> rt_replaced_by t = Some old \<and>
      (\<forall>u \<in> set tbl. rt_id u = old \<longrightarrow> \<not> rt_revoked u \<and> rt_replaced_by u = None)"
    and v: "v \<in> set tbl" "rt_family v = rt_family t"
  shows "\<not> tip now (rot_update org (rt_id t) old new v)"
proof
  assume "tip now (rot_update org (rt_id t) old new v)"
  moreover from this have tv: "tip now v" by (rule rot_update_tip)
  moreover have single: "u = v" if "u \<in> set tbl" "tip now u" "rt_family u = rt_family t" for u
    using inv that v tv by (auto simp: refresh_inv_def single_tip_def)
  ultimately show False
  proof (cases "old = []")
    case True
    with link inv t(1) have "rt_replaced_by t = None" by (auto simp: refresh_inv_def links_ok_def)
    with t single [of t] have "t = v" by (simp add: tip_def)
    with \<open>tip now (rot_update org (rt_id t) old new v)\<close> True t(3) \<open>rt_replaced_by t = None\<close> show False
      by (simp add: rot_update_def visible_def session_of_def tip_def)
  next
    case False
    with link have sl: "rt_replaced_by t = Some old" by auto
    with inv t(1) obtain u where u: "u \<in> set tbl" "rt_id u = old" "rt_family u = rt_family t"
      "rt_expires t \<le> rt_expires u" "old \<noteq> rt_id t"
      unfolding refresh_inv_def links_ok_def by blast
    then have own: "same_owner u t" using inv t(1) by (auto simp: refresh_inv_def family_agrees_def)
    with u link False t(2) have "tip now u" by (auto simp: tip_def token_live_def same_owner_def)
    with single u have "u = v" by blast
    with \<open>tip now (rot_update org (rt_id t) old new v)\<close> u own t(3) False show False
      by (simp add: rot_update_def visible_def tip_def token_live_def same_owner_def)
  qed
qed

lemma rotate_refresh_inv [inv_intros]:
  assumes inv: "refresh_inv now tbl" and rot: "rotate_refresh org pr old fr now dbnow tbl = Inr (p, tbl')"
    and ok: "rotatable now tbl pr old" and fid: "f_id fr \<noteq> []"
  shows "refresh_inv now tbl'"
proof -
  from ok obtain t where t: "t \<in> set tbl" "token_live now t"
    and prt: "r_id pr = rt_id t" "r_family pr = rt_family t" "r_org pr = rt_org t" "r_user pr = rt_user t"
      "r_client pr = rt_client t" "r_session pr = null_string (rt_session t)"
    and link: "old = [] \<and> rt_replaced_by t = None \<or> rt_replaced_by t = Some old \<and>
      (\<forall>u \<in> set tbl. rt_id u = old \<longrightarrow> \<not> rt_revoked u \<and> rt_replaced_by u = None)"
    by (rule rotatableE) metis
  from inv have wf: "wf_table tbl" and fam: "family_agrees tbl" and lk: "links_ok tbl"
    and st: "single_tip now tbl" and eb: "expiry_bounded now tbl"
    by (simp_all add: refresh_inv_def)
  from rot obtain t' row where
    t': "t' \<in> set tbl" "rt_id t' = r_id pr" "rt_org t' = org" "now < rt_family_expires t'" and
    rw: "row = token_row pr (f_id fr) (r_family pr) p (successor_expiry (rt_family_expires t') now)
      (rt_family_expires t') dbnow" "row_ok row"
      "f_id fr \<notin> rt_id ` set tbl" "hash_refresh p \<notin> rt_hash ` set tbl" and
    tbl': "tbl' = map (rot_update org (rt_id t) old (f_id fr)) (tbl @ [row])"
    unfolding prt(1) by (elim rotate_refreshE) (auto simp: prt)
  have [simp]: "t' = t" using wf t' t(1) prt(1) by (auto dest: wf_unique_id)
  let ?f = "rot_update org (rt_id t) old (f_id fr)"
  note k = keeps_fields [OF keeps_rot_update, of org "rt_id t" old "f_id fr"]
  have "session_of (null_string (rt_session t)) = rt_session t"
    using wf t(1) by (cases "rt_session t") (auto simp: wf_table_def session_of_def null_string_def)
  then have owner: "same_owner row t" using rw(1) prt by (simp add: same_owner_def)
  have exp: "rt_expires t \<le> rt_expires row" "rt_expires row \<le> now + refresh_token_lifetime"
    using eb t(1) wf rw(1) by (auto simp: successor_expiry_def Let_def time_defs expiry_bounded_def wf_table_def row_ok_def)
  have row: "rt_id row = f_id fr" "rt_replaced_by row = None" "rt_family row = rt_family t"
    "rt_hash row = hash_refresh p" "rt_session row \<noteq> Some []"
    using rw(1) prt by (auto simp: session_of_def)
  have "wf_table tbl'" "expiry_bounded now tbl'"
    unfolding tbl' keeps_wf [OF keeps_rot_update] keeps_expiry [OF keeps_rot_update]
    using wf rw row eb exp by (auto simp: wf_append expiry_bounded_def)
  moreover have "family_agrees tbl'"
    unfolding tbl' keeps_family [OF keeps_rot_update]
    by (rule family_agrees_append [OF fam t(1) row(3) owner])
  moreover have "links_ok tbl'"
    using rot_update_links [of tbl t "rt_id t" row org old] lk wf t(1) rw(3) row fid exp(1)
    unfolding tbl' by simp
  moreover have "single_tip now tbl'"
  proof -
    have no: "\<not> tip now (?f v)" if "v \<in> set tbl" "rt_family v = rt_family t" for v
      using rot_update_no_tip [OF inv t(1,2) _ link that] t'(3) by simp
    then show ?thesis
      using st row(3) unfolding tbl' single_tip_def set_map ball_simps k set_append
      by (auto dest: rot_update_tip)
  qed
  ultimately show ?thesis by (simp add: refresh_inv_def)
qed

section \<open>The sweep\<close>

definition unlink :: "string list \<Rightarrow> rt_row \<Rightarrow> rt_row" where
  "unlink picked t = (case rt_replaced_by t of
     Some s \<Rightarrow> if contains picked s then t\<lparr>rt_replaced_by := None\<rparr> else t | None \<Rightarrow> t)"

lemma sweep_refresh_unlink:
  "sweep_refresh picked tbl = map (unlink picked) (filter (\<lambda>t. rt_id t \<notin> set picked) tbl)"
  by (simp add: sweep_refresh_def unlink_def cong: map_cong)

lemma keeps_unlink: "keeps (unlink picked)"
  by (simp add: keeps_def unlink_def split: option.splits)

lemma unlink_revoked [simp]: "rt_revoked (unlink picked t) = rt_revoked t"
  by (simp add: unlink_def split: option.splits)

lemma unlink_replaced:
  "rt_replaced_by (unlink picked t) = Some s \<longleftrightarrow> rt_replaced_by t = Some s \<and> s \<notin> set picked"
  by (auto simp: unlink_def split: option.splits)

lemma wf_filter: "wf_table tbl \<Longrightarrow> wf_table (filter P tbl)"
  by (auto simp: wf_table_def distinct_map_filter)

lemma sweep_refresh_inv [inv_intros]:
  assumes inv: "refresh_inv now tbl" and sw: "sweep_ok before limit picked tbl" and late: "before \<le> now"
  shows "refresh_inv now (sweep_refresh picked tbl)"
proof -
  note k = keeps_fields [OF keeps_unlink, of picked]
  let ?g = "filter (\<lambda>t. rt_id t \<notin> set picked) tbl"
  have live: "unlink picked t = t" if t: "t \<in> set tbl" "token_live now t" for t
  proof (rule ccontr)
    assume "unlink picked t \<noteq> t"
    then obtain s where s: "rt_replaced_by t = Some s" "s \<in> set picked"
      by (auto simp: unlink_def split: option.splits if_splits)
    with sw obtain v where v: "v \<in> set tbl" "rt_id v = s" "rt_expires v < before" by (auto simp: sweep_ok_def)
    from inv t s obtain u where u: "u \<in> set tbl" "rt_id u = s" "rt_expires t \<le> rt_expires u"
      unfolding refresh_inv_def links_ok_def by blast
    with v inv have "u = v" by (auto simp: refresh_inv_def dest: wf_unique_id)
    with u v late t show False by (simp add: token_live_def)
  qed
  have tip: "tip now t \<and> unlink picked t = t" if "t \<in> set tbl" "tip now (unlink picked t)" for t
  proof -
    from that have "token_live now t" by (simp add: tip_def token_live_def k)
    with that live show ?thesis by simp
  qed
  have "wf_table (sweep_refresh picked tbl)" "expiry_bounded now (sweep_refresh picked tbl)"
    "family_agrees (sweep_refresh picked tbl)"
    using inv by (auto simp: sweep_refresh_unlink keeps_wf [OF keeps_unlink] k
        refresh_inv_def wf_filter expiry_bounded_def family_agrees_def same_owner_def)
  moreover have "single_tip now (sweep_refresh picked tbl)"
    using inv tip unfolding sweep_refresh_unlink refresh_inv_def single_tip_def set_map ball_simps k
    by (metis filter_is_subset subsetD)
  moreover have "links_ok (sweep_refresh picked tbl)"
    using inv unfolding sweep_refresh_unlink refresh_inv_def links_ok_def set_map ball_simps bex_simps k unlink_replaced
    by (simp add: Bex_def) metis
  ultimately show ?thesis by (simp add: refresh_inv_def)
qed

end
