(* ===== verification/AuthorizeParams.thy ===== *)
theory AuthorizeParams
  imports OAuthClient
begin

text \<open>
  \<open>internal/oauth/authorize/params.go\<close>: the two phases in which \<open>/oauth/authorize\<close> reads its
  query. Phase 1 reads what decides whether a redirect is possible at all; phase 2 everything
  else. A query is a \<open>url.Values\<close>, every value of every parameter kept.
\<close>

section \<open>Errors and bounds\<close>

datatype auth_msg =
    ParamRepeated string nat | ParamTooLong string | ParamRequired string
  | ResponseTypeCode | StateTooLong | ChallengeRequired | ChallengeLength | ChallengeAlphabet
  | MethodRequired | MethodNotS256 string | TooManyScopes | UnknownScope string | OpenIDRequired
  | OfflineNotAllowed | NonceTooLong | TooManyPrompts | UnknownPrompt string | NoneCombined
  | MaxAgeMalformed | CodeGrantNotPermitted | NoActiveSession | CodeNotIssued | RequestNotContinued

record auth_error =
  ae_code :: string
  ae_msg :: auth_msg

definition oauth_err :: "string \<Rightarrow> auth_msg \<Rightarrow> auth_error" where
  "oauth_err c m = \<lparr>ae_code = c, ae_msg = m\<rparr>"

definition max_param_length :: nat where "max_param_length = 2048"
definition max_scope_values :: nat where "max_scope_values = 32"
definition min_code_challenge :: nat where "min_code_challenge = 43"
definition max_code_challenge :: nat where "max_code_challenge = 128"
definition max_state_length :: nat where "max_state_length = 1024"
definition max_nonce_length :: nat where "max_nonce_length = 1024"
definition max_prompt_values :: nat where "max_prompt_values = 4"

lemmas param_bounds = max_param_length_def max_scope_values_def min_code_challenge_def
  max_code_challenge_def max_state_length_def max_nonce_length_def max_prompt_values_def

definition scope_openid :: string where "scope_openid = ''openid''"
definition scope_offline_access :: string where "scope_offline_access = ''offline_access''"

definition supported_scopes :: "string list" where
  "supported_scopes = [scope_openid, ''profile'', ''email'', scope_offline_access]"

definition prompt_none :: string where "prompt_none = ''none''"
definition prompt_login :: string where "prompt_login = ''login''"

definition supported_prompts :: "string list" where
  "supported_prompts = [prompt_none, prompt_login, ''consent'', ''select_account'']"

section \<open>Parameters\<close>

definition single_param :: "form \<Rightarrow> string \<Rightarrow> auth_msg + string" where
  "single_param q name =
     (if length (q name) > 1 then Inl (ParamRepeated name (length (q name)))
      else case q name of
             [] \<Rightarrow> Inr []
           | v # _ \<Rightarrow> if length v > max_param_length then Inl (ParamTooLong name) else Inr v)"

definition single_oauth :: "form \<Rightarrow> string \<Rightarrow> auth_error + string" where
  "single_oauth q name =
     (case single_param q name of Inl m \<Rightarrow> Inl (oauth_err ''invalid_request'' m) | Inr v \<Rightarrow> Inr v)"

record phase1 =
  p1_client :: string
  p1_redirect :: string

definition parse_phase1 :: "form \<Rightarrow> auth_msg + phase1" where
  "parse_phase1 q =
     bindE (single_param q ''client_id'') (\<lambda>c.
       if c = [] then Inl (ParamRequired ''client_id'')
       else bindE (single_param q ''redirect_uri'') (\<lambda>r.
         if r = [] then Inl (ParamRequired ''redirect_uri'')
         else Inr \<lparr>p1_client = c, p1_redirect = r\<rparr>))"

record auth_request =
  ar_client :: string
  ar_redirect :: string
  ar_scope :: "string list"
  ar_state :: string
  ar_challenge :: string
  ar_nonce :: string
  ar_prompt :: "string list"
  ar_max_age :: "duration option"

definition has_prompt :: "auth_request \<Rightarrow> string \<Rightarrow> bool" where
  "has_prompt r p = contains (ar_prompt r) p"

definition is_base64url_char :: "char \<Rightarrow> bool" where
  "is_base64url_char c \<longleftrightarrow> is_upper c \<or> is_lower c \<or> is_digit c \<or> c = CHR ''-'' \<or> c = CHR ''_''"

definition is_base64url :: "string \<Rightarrow> bool" where
  "is_base64url s \<longleftrightarrow> list_all is_base64url_char s \<and> s \<noteq> []"

definition validate_pkce :: "string \<Rightarrow> string \<Rightarrow> auth_error + unit" where
  "validate_pkce challenge pkce_method =
     (if challenge = [] then Inl (oauth_err ''invalid_request'' ChallengeRequired)
      else if length challenge < min_code_challenge \<or> length challenge > max_code_challenge then
        Inl (oauth_err ''invalid_request'' ChallengeLength)
      else if \<not> is_base64url challenge then Inl (oauth_err ''invalid_request'' ChallengeAlphabet)
      else if pkce_method \<noteq> ''S256'' then
        (if pkce_method = [] then Inl (oauth_err ''invalid_request'' MethodRequired)
         else Inl (oauth_err ''invalid_request'' (MethodNotS256 pkce_method)))
      else Inr ())"

text \<open>The loop shared by \<open>parseScope\<close> and \<open>parsePrompt\<close>: refuse an unknown value, keep the first of equals.\<close>

fun collect_known :: "string list \<Rightarrow> (string \<Rightarrow> 'e) \<Rightarrow> string list \<Rightarrow> string list \<Rightarrow> 'e + string list" where
  "collect_known known unknown out [] = Inr out"
| "collect_known known unknown out (v # vs) =
     (if \<not> contains known v then Inl (unknown v)
      else collect_known known unknown (if \<not> contains out v then out @ [v] else out) vs)"

definition parse_auth_scope :: "form \<Rightarrow> bool \<Rightarrow> auth_error + string list" where
  "parse_auth_scope q allows_refresh =
     bindE (single_oauth q ''scope'') (\<lambda>raw.
       let fs = str_fields raw in
       if length fs > max_scope_values then Inl (oauth_err ''invalid_scope'' TooManyScopes)
       else bindE (collect_known supported_scopes (\<lambda>v. oauth_err ''invalid_scope'' (UnknownScope v)) [] fs) (\<lambda>scope.
         if \<not> contains scope scope_openid then Inl (oauth_err ''invalid_scope'' OpenIDRequired)
         else if contains scope scope_offline_access \<and> \<not> allows_refresh then
           Inl (oauth_err ''invalid_scope'' OfflineNotAllowed)
         else Inr scope))"

definition parse_prompt :: "form \<Rightarrow> auth_error + string list" where
  "parse_prompt q =
     bindE (single_oauth q ''prompt'') (\<lambda>raw.
       if raw = [] then Inr []
       else let fs = str_fields raw in
         if length fs > max_prompt_values then Inl (oauth_err ''invalid_request'' TooManyPrompts)
         else bindE (collect_known supported_prompts (\<lambda>v. oauth_err ''invalid_request'' (UnknownPrompt v)) [] fs) (\<lambda>prompt.
           if contains prompt prompt_none \<and> length prompt > 1 then Inl (oauth_err ''invalid_request'' NoneCombined)
           else Inr prompt))"

text \<open>\<open>time.Duration(seconds) * time.Second\<close> is a 64-bit product.\<close>

definition parse_max_age :: "form \<Rightarrow> auth_error + duration option" where
  "parse_max_age q =
     bindE (single_oauth q ''max_age'') (\<lambda>raw.
       if raw = [] then Inr None
       else case atoi raw of
              None \<Rightarrow> Inl (oauth_err ''invalid_request'' MaxAgeMalformed)
            | Some seconds \<Rightarrow> if seconds < 0 then Inl (oauth_err ''invalid_request'' MaxAgeMalformed)
                              else Inr (Some (wrap64 (seconds * second))))"

definition parse_phase2 :: "form \<Rightarrow> phase1 \<Rightarrow> bool \<Rightarrow> auth_error + auth_request" where
  "parse_phase2 q p1 allows_refresh =
     bindE (single_oauth q ''response_type'') (\<lambda>rt.
       if rt \<noteq> ''code'' then Inl (oauth_err ''unsupported_response_type'' ResponseTypeCode)
       else bindE (single_oauth q ''state'') (\<lambda>state.
         if state = [] then Inl (oauth_err ''invalid_request'' (ParamRequired ''state''))
         else if length state > max_state_length then Inl (oauth_err ''invalid_request'' StateTooLong)
         else bindE (single_oauth q ''code_challenge'') (\<lambda>challenge.
           bindE (single_oauth q ''code_challenge_method'') (\<lambda>m.
           bindE (validate_pkce challenge m) (\<lambda>_.
           bindE (parse_auth_scope q allows_refresh) (\<lambda>scope.
           bindE (single_oauth q ''nonce'') (\<lambda>nonce.
             if length nonce > max_nonce_length then Inl (oauth_err ''invalid_request'' NonceTooLong)
             else bindE (parse_prompt q) (\<lambda>prompt.
               bindE (parse_max_age q) (\<lambda>max_age.
                 Inr \<lparr>ar_client = p1_client p1, ar_redirect = p1_redirect p1, ar_scope = scope,
                      ar_state = state, ar_challenge = challenge, ar_nonce = nonce,
                      ar_prompt = prompt, ar_max_age = max_age\<rparr>)))))))))"

section \<open>What a parsed request guarantees\<close>

lemma single_param_ok:
  "single_param q name = Inr v \<longleftrightarrow> (q name = [] \<and> v = [] \<or> q name = [v] \<and> length v \<le> 2048)"
  by (cases "q name") (auto simp: single_param_def max_param_length_def Suc_le_eq)

lemma single_oauth_ok: "single_oauth q name = Inr v \<longleftrightarrow> single_param q name = Inr v"
  by (auto simp: single_oauth_def split: sum.splits)

lemma collect_known_ok:
  "collect_known known unknown out vs = Inr r \<Longrightarrow> distinct out \<Longrightarrow> set out \<subseteq> set known \<Longrightarrow>
     distinct r \<and> set r \<subseteq> set known \<and> set r = set out \<union> set vs"
proof (induction vs arbitrary: out)
  case (Cons v vs)
  from Cons.prems(1) have v: "v \<in> set known"
    and rest: "collect_known known unknown (if v \<in> set out then out else out @ [v]) vs = Inr r"
    by (auto split: if_splits)
  from Cons.IH [OF rest] Cons.prems v show ?case by (auto split: if_splits)
qed auto

lemma parse_phase1_ok:
  "parse_phase1 q = Inr p \<Longrightarrow> q ''client_id'' = [p1_client p] \<and> q ''redirect_uri'' = [p1_redirect p] \<and>
     p1_client p \<noteq> [] \<and> p1_redirect p \<noteq> []"
  by (auto simp: parse_phase1_def bindE_Inr_iff single_param_ok split: if_splits)

definition request_valid :: "bool \<Rightarrow> auth_request \<Rightarrow> bool" where
  "request_valid allows_refresh r \<longleftrightarrow>
     43 \<le> length (ar_challenge r) \<and> length (ar_challenge r) \<le> 128 \<and> is_base64url (ar_challenge r) \<and>
     ar_state r \<noteq> [] \<and> length (ar_state r) \<le> 1024 \<and> length (ar_nonce r) \<le> 1024 \<and>
     distinct (ar_scope r) \<and> set (ar_scope r) \<subseteq> set supported_scopes \<and> scope_openid \<in> set (ar_scope r) \<and>
     (scope_offline_access \<in> set (ar_scope r) \<longrightarrow> allows_refresh) \<and>
     set (ar_prompt r) \<subseteq> set supported_prompts \<and>
     (prompt_none \<in> set (ar_prompt r) \<longrightarrow> ar_prompt r = [prompt_none])"

lemma parse_auth_scope_ok:
  assumes "parse_auth_scope q ar = Inr s"
  shows "distinct s \<and> set s \<subseteq> set supported_scopes \<and> scope_openid \<in> set s \<and>
    (scope_offline_access \<in> set s \<longrightarrow> ar)"
  using assms
  by (auto simp: parse_auth_scope_def bindE_Inr_iff Let_def split: if_splits dest!: collect_known_ok)

lemma parse_prompt_ok:
  assumes "parse_prompt q = Inr p"
  shows "set p \<subseteq> set supported_prompts \<and> (prompt_none \<in> set p \<longrightarrow> p = [prompt_none])"
proof -
  have "p = [x]" if "x \<in> set p" "\<not> 1 < length p" for x :: string
    using that by (cases p) auto
  then show ?thesis using assms
    by (auto simp: parse_prompt_def bindE_Inr_iff Let_def split: if_splits dest!: collect_known_ok)
qed

lemma validate_pkce_ok:
  "validate_pkce c m = Inr () \<longleftrightarrow> m = ''S256'' \<and> is_base64url c \<and> 43 \<le> length c \<and> length c \<le> 128"
  by (auto simp: validate_pkce_def param_bounds is_base64url_def)

lemma parse_phase2_request:
  assumes "parse_phase2 q p1 ar = Inr r"
  shows "request_valid ar r \<and> ar_client r = p1_client p1 \<and> ar_redirect r = p1_redirect p1"
proof -
  from assms obtain rt st m c s n p ma where *:
    "st \<noteq> []" "length st \<le> 1024" "validate_pkce c m = Inr ()"
    "parse_auth_scope q ar = Inr s" "length n \<le> 1024" "parse_prompt q = Inr p"
    "r = \<lparr>ar_client = p1_client p1, ar_redirect = p1_redirect p1, ar_scope = s,
          ar_state = st, ar_challenge = c, ar_nonce = n, ar_prompt = p, ar_max_age = ma\<rparr>"
    by (auto simp: parse_phase2_def bindE_Inr_iff param_bounds split: if_splits)
  show ?thesis
    using *(1,2,3,5) parse_auth_scope_ok [OF *(4)] parse_prompt_ok [OF *(6)]
    by (simp add: request_valid_def *(7) validate_pkce_ok)
qed

lemma parse_max_age_exact:
  assumes "parse_max_age q = Inr (Some d)" and "atoi (form_get q ''max_age'') = Some s"
    and "s \<le> 9223372036"
  shows "d = s * second"
proof -
  have "wrap64 (s * 1000000000) = s * 1000000000" if "0 \<le> s"
    using that assms(3) by (intro wrap64_id) (simp_all add: min_int64_def max_int64_def)
  then show ?thesis using assms(1,2)
    by (auto simp: parse_max_age_def bindE_Inr_iff single_oauth_ok single_param_ok form_get_def
        second_def split: if_splits option.splits)
qed

end
