(* ===== verification/Redis.thy ===== *)
theory Redis
  imports GoStd
begin

text \<open>
  The Redis client (\<open>go-redis\<close>) the services call. Its code is not part of the repository, so
  its commands are a record of functions every component takes as an argument, and what the
  components rely on is the locale \<open>redis\<close>, which states the documented behaviour: a key holds
  what the last command that completed wrote, until its time to live has passed (with Redis's
  millisecond granularity); a command that reports an error has been executed or has not;
  no command touches a key it does not name. \<open>rd_contents st t k\<close> is what a read at time \<open>t\<close>
  finds under \<open>k\<close>.

  \<open>ttl_redis\<close> is a concrete store with these laws, unreachable whenever \<open>down\<close> says so.
\<close>

record ('s, 'v) redis_ops =
  rd_contents :: "'s \<Rightarrow> time \<Rightarrow> string \<Rightarrow> 'v option"
  rd_get :: "time \<Rightarrow> string \<Rightarrow> 's \<Rightarrow> unit + 'v option"
  rd_set :: "time \<Rightarrow> string \<Rightarrow> 'v \<Rightarrow> duration \<Rightarrow> 's \<Rightarrow> (unit + unit) \<times> 's"
  rd_setnx :: "time \<Rightarrow> string \<Rightarrow> 'v \<Rightarrow> duration \<Rightarrow> 's \<Rightarrow> (unit + bool) \<times> 's"
  rd_getdel :: "time \<Rightarrow> string \<Rightarrow> 's \<Rightarrow> (unit + 'v option) \<times> 's"
  rd_del :: "time \<Rightarrow> string \<Rightarrow> 's \<Rightarrow> (unit + unit) \<times> 's"

definition millisecond :: duration where "millisecond = 1000000"

text \<open>\<open>holds_for ct st' now k v ttl\<close>: \<open>k\<close> holds \<open>v\<close> from \<open>now\<close> until its time to live has passed.\<close>

definition holds_for :: "('s \<Rightarrow> time \<Rightarrow> string \<Rightarrow> 'v option) \<Rightarrow> 's \<Rightarrow> time \<Rightarrow> string \<Rightarrow> 'v \<Rightarrow> duration \<Rightarrow> bool" where
  "holds_for ct st now k v ttl \<longleftrightarrow>
     (\<forall>t \<ge> now. ct st t k = Some v \<or> ct st t k = None) \<and>
     (\<forall>t. now \<le> t \<and> t < now + ttl - millisecond \<longrightarrow> ct st t k = Some v) \<and>
     (\<forall>t \<ge> now + max ttl millisecond. ct st t k = None)"

definition same_at :: "('s \<Rightarrow> time \<Rightarrow> string \<Rightarrow> 'v option) \<Rightarrow> time \<Rightarrow> string \<Rightarrow> 's \<Rightarrow> 's \<Rightarrow> bool" where
  "same_at ct now k st st' \<longleftrightarrow> (\<forall>t \<ge> now. ct st' t k = ct st t k)"

definition gone_at :: "('s \<Rightarrow> time \<Rightarrow> string \<Rightarrow> 'v option) \<Rightarrow> time \<Rightarrow> string \<Rightarrow> 's \<Rightarrow> bool" where
  "gone_at ct now k st \<longleftrightarrow> (\<forall>t \<ge> now. ct st t k = None)"

locale redis =
  fixes rd :: "('s, 'v) redis_ops"
  assumes expiry: "rd_contents rd st t k = None \<Longrightarrow> t \<le> t' \<Longrightarrow> rd_contents rd st t' k = None"
    and steady: "rd_contents rd st t k = Some v \<Longrightarrow> t \<le> t' \<Longrightarrow>
      rd_contents rd st t' k = Some v \<or> rd_contents rd st t' k = None"
    and get: "rd_get rd now k st = Inr r \<Longrightarrow> r = rd_contents rd st now k"
    and set_ok: "rd_set rd now k v ttl st = (Inr u, st') \<Longrightarrow> 0 < ttl \<Longrightarrow>
      holds_for (rd_contents rd) st' now k v ttl"
    and set_err: "rd_set rd now k v ttl st = (Inl e, st') \<Longrightarrow> 0 < ttl \<Longrightarrow>
      same_at (rd_contents rd) now k st st' \<or> holds_for (rd_contents rd) st' now k v ttl"
    and set_other: "rd_set rd now k v ttl st = (ru, st') \<Longrightarrow> k' \<noteq> k \<Longrightarrow>
      same_at (rd_contents rd) now k' st st'"
    and setnx_ok: "rd_setnx rd now k v ttl st = (Inr b, st') \<Longrightarrow> 0 < ttl \<Longrightarrow>
      (if rd_contents rd st now k = None then b \<and> holds_for (rd_contents rd) st' now k v ttl
       else \<not> b \<and> same_at (rd_contents rd) now k st st')"
    and setnx_err: "rd_setnx rd now k v ttl st = (Inl e, st') \<Longrightarrow> 0 < ttl \<Longrightarrow>
      same_at (rd_contents rd) now k st st' \<or>
      rd_contents rd st now k = None \<and> holds_for (rd_contents rd) st' now k v ttl"
    and setnx_other: "rd_setnx rd now k v ttl st = (rb, st') \<Longrightarrow> k' \<noteq> k \<Longrightarrow>
      same_at (rd_contents rd) now k' st st'"
    and getdel_ok: "rd_getdel rd now k st = (Inr r, st') \<Longrightarrow>
      r = rd_contents rd st now k \<and> gone_at (rd_contents rd) now k st'"
    and getdel_err: "rd_getdel rd now k st = (Inl e, st') \<Longrightarrow>
      same_at (rd_contents rd) now k st st' \<or> gone_at (rd_contents rd) now k st'"
    and getdel_other: "rd_getdel rd now k st = (ro, st') \<Longrightarrow> k' \<noteq> k \<Longrightarrow>
      same_at (rd_contents rd) now k' st st'"
    and del_ok: "rd_del rd now k st = (Inr u, st') \<Longrightarrow> gone_at (rd_contents rd) now k st'"
    and del_err: "rd_del rd now k st = (Inl e, st') \<Longrightarrow>
      same_at (rd_contents rd) now k st st' \<or> gone_at (rd_contents rd) now k st'"
    and del_other: "rd_del rd now k st = (ru, st') \<Longrightarrow> k' \<noteq> k \<Longrightarrow> same_at (rd_contents rd) now k' st st'"
begin

text \<open>Two reads-and-deletes of one key: the second finds nothing, whatever came between them
  as long as nobody wrote the key.\<close>

lemma getdel_once:
  assumes "rd_getdel rd now k st = (Inr (Some v), st1)"
    and "same_at (rd_contents rd) now k st1 st2" and "now \<le> later"
    and "rd_getdel rd later k st2 = (Inr r, st3)"
  shows "r = None"
  using assms getdel_ok [OF assms(1)] getdel_ok [OF assms(4)]
  by (auto simp: gone_at_def same_at_def)

end

section \<open>A concrete store\<close>

type_synonym 'v ttl_map = "string \<Rightarrow> ('v \<times> time) option"

definition ttl_contents :: "'v ttl_map \<Rightarrow> time \<Rightarrow> string \<Rightarrow> 'v option" where
  "ttl_contents st t k = (case st k of None \<Rightarrow> None | Some (v, until) \<Rightarrow> if t < until then Some v else None)"

definition ttl_redis :: "(time \<Rightarrow> bool) \<Rightarrow> ('v ttl_map, 'v) redis_ops" where
  "ttl_redis down =
     \<lparr>rd_contents = ttl_contents,
      rd_get = (\<lambda>now k st. if down now then Inl () else Inr (ttl_contents st now k)),
      rd_set = (\<lambda>now k v ttl st. if down now then (Inl (), st) else (Inr (), st(k \<mapsto> (v, now + ttl)))),
      rd_setnx = (\<lambda>now k v ttl st.
        if down now then (Inl (), st)
        else if ttl_contents st now k = None then (Inr True, st(k \<mapsto> (v, now + ttl))) else (Inr False, st)),
      rd_getdel = (\<lambda>now k st. if down now then (Inl (), st) else (Inr (ttl_contents st now k), st(k := None))),
      rd_del = (\<lambda>now k st. if down now then (Inl (), st) else (Inr (), st(k := None)))\<rparr>"

lemmas ttl_defs = ttl_redis_def ttl_contents_def holds_for_def same_at_def gone_at_def millisecond_def

interpretation ttl: redis "ttl_redis down"
  by unfold_locales (auto simp: ttl_defs split: option.splits if_splits)

end
