(* ===== verification/CodeStore.thy ===== *)
theory CodeStore
  imports AuthorizeParams Redis
begin

text \<open>
  \<open>internal/oauth/authorize/store.go\<close>: authorization codes and interrupted authorization requests
  in Redis. A code is spent by one \<open>GETDEL\<close>, so it is redeemed at most once; the pending request
  of a login can be read often and loaded once.

  A stored value is \<open>Blob v\<close>, the JSON of a value \<open>v\<close> of the Go type, or \<open>Unreadable\<close>, bytes
  \<open>json.Unmarshal\<close> refuses. Codes and pending requests have different key prefixes; each is a
  store of its own here.
\<close>

section \<open>Values\<close>

datatype 'v blob = Blob 'v | Unreadable

record auth_code =
  ac_client :: string
  ac_redirect :: string
  ac_user :: string
  ac_org :: string
  ac_session :: string
  ac_scope :: "string list"
  ac_nonce :: string
  ac_challenge :: string
  ac_auth_methods :: "string list"
  ac_auth_time :: time
  ac_issued :: time

datatype code_error = CodeNotFound | CodeTTLRefused | CodeStoreFailure

datatype pending_error = PendingNotFound | PendingStoreFailure

definition code_ttl :: duration where "code_ttl = 30 * second"
definition pending_ttl :: duration where "pending_ttl = 10 * minute"
definition code_bytes :: nat where "code_bytes = 32"

definition code_key :: "string \<Rightarrow> string" where "code_key c = ''oauth:code:'' @ c"
definition pending_key :: "string \<Rightarrow> string" where "pending_key i = ''oauth:pending:'' @ i"

lemma code_key_inj [simp]: "code_key a = code_key b \<longleftrightarrow> a = b"
  by (simp add: code_key_def)

text \<open>\<open>opaque\<close>, from the 32 bytes drawn, or the failure to draw them.\<close>

definition opaque :: "byte list option \<Rightarrow> string option" where
  "opaque drawn = map_option b64url_encode drawn"

section \<open>Codes\<close>

definition issue_code ::
  "('s, auth_code blob) redis_ops \<Rightarrow> time \<Rightarrow> auth_code \<Rightarrow> duration \<Rightarrow> byte list option \<Rightarrow> 's
    \<Rightarrow> (code_error + string) \<times> 's" where
  "issue_code rd now c ttl drawn st =
     (if ttl \<le> 0 \<or> ttl > minute then (Inl CodeTTLRefused, st)
      else case opaque drawn of
        None \<Rightarrow> (Inl CodeStoreFailure, st)
      | Some code \<Rightarrow>
          (case rd_setnx rd now (code_key code) (Blob c) ttl st of
             (Inl _, st') \<Rightarrow> (Inl CodeStoreFailure, st')
           | (Inr ok, st') \<Rightarrow> if \<not> ok then (Inl CodeStoreFailure, st') else (Inr code, st')))"

definition redeem_code ::
  "('s, auth_code blob) redis_ops \<Rightarrow> time \<Rightarrow> string \<Rightarrow> 's \<Rightarrow> (code_error + auth_code) \<times> 's" where
  "redeem_code rd now code st =
     (if code = [] then (Inl CodeNotFound, st)
      else case rd_getdel rd now (code_key code) st of
        (Inl _, st') \<Rightarrow> (Inl CodeStoreFailure, st')
      | (Inr None, st') \<Rightarrow> (Inl CodeNotFound, st')
      | (Inr (Some Unreadable), st') \<Rightarrow> (Inl CodeStoreFailure, st')
      | (Inr (Some (Blob c)), st') \<Rightarrow> (Inr c, st'))"

section \<open>Pending requests\<close>

definition save_pending ::
  "('s, auth_request blob) redis_ops \<Rightarrow> time \<Rightarrow> auth_request \<Rightarrow> duration \<Rightarrow> byte list option \<Rightarrow> 's
    \<Rightarrow> (pending_error + string) \<times> 's" where
  "save_pending rd now r ttl drawn st =
     (case opaque drawn of
        None \<Rightarrow> (Inl PendingStoreFailure, st)
      | Some i \<Rightarrow>
          (case rd_set rd now (pending_key i) (Blob r) ttl st of
             (Inl _, st') \<Rightarrow> (Inl PendingStoreFailure, st')
           | (Inr _, st') \<Rightarrow> (Inr i, st')))"

definition peek_pending ::
  "('s, auth_request blob) redis_ops \<Rightarrow> time \<Rightarrow> string \<Rightarrow> 's \<Rightarrow> pending_error + auth_request" where
  "peek_pending rd now i st =
     (if i = [] then Inl PendingNotFound
      else case rd_get rd now (pending_key i) st of
        Inl _ \<Rightarrow> Inl PendingStoreFailure
      | Inr None \<Rightarrow> Inl PendingNotFound
      | Inr (Some Unreadable) \<Rightarrow> Inl PendingStoreFailure
      | Inr (Some (Blob r)) \<Rightarrow> Inr r)"

definition load_pending ::
  "('s, auth_request blob) redis_ops \<Rightarrow> time \<Rightarrow> string \<Rightarrow> 's \<Rightarrow> (pending_error + auth_request) \<times> 's" where
  "load_pending rd now i st =
     (if i = [] then (Inl PendingNotFound, st)
      else case rd_getdel rd now (pending_key i) st of
        (Inl _, st') \<Rightarrow> (Inl PendingStoreFailure, st')
      | (Inr None, st') \<Rightarrow> (Inl PendingNotFound, st')
      | (Inr (Some Unreadable), st') \<Rightarrow> (Inl PendingStoreFailure, st')
      | (Inr (Some (Blob r)), st') \<Rightarrow> (Inr r, st'))"

section \<open>Single use\<close>

text \<open>
  Redemptions of several callers arrive at Redis in some order; a trace is the list of their
  instants and codes, and \<open>redeem_all\<close> the answers in that order.
\<close>

fun redeem_all ::
  "('s, auth_code blob) redis_ops \<Rightarrow> (time \<times> string) list \<Rightarrow> 's \<Rightarrow> (code_error + auth_code) list \<times> 's" where
  "redeem_all rd [] st = ([], st)"
| "redeem_all rd ((t, c) # cs) st =
     (case redeem_code rd t c st of (r, st') \<Rightarrow>
        (case redeem_all rd cs st' of (rs, st'') \<Rightarrow> (r # rs, st'')))"

definition successes_for :: "string \<Rightarrow> (time \<times> string) list \<Rightarrow> (code_error + auth_code) list \<Rightarrow> nat" where
  "successes_for code cs rs = length (filter (\<lambda>((t, c), r). c = code \<and> is_ok r) (zip cs rs))"

context redis
begin

lemma gone_persists: "gone_at (rd_contents rd) t k st \<Longrightarrow> t \<le> t' \<Longrightarrow> gone_at (rd_contents rd) t' k st"
  by (auto simp: gone_at_def)

end

context redis
begin

lemma getdel_gone:
  assumes "gone_at (rd_contents rd) t k st" and "t \<le> now" and "rd_getdel rd now k' st = (ro, st')"
  shows "gone_at (rd_contents rd) now k st'"
proof (cases "k' = k")
  case True
  then show ?thesis using assms getdel_ok [of now k st _ st'] getdel_err [of now k st _ st']
    by (cases ro) (auto simp: gone_at_def same_at_def)
next
  case False
  then show ?thesis using assms getdel_other [OF assms(3), of k]
    by (auto simp: gone_at_def same_at_def)
qed

end

lemma redeem_code_gone:
  assumes "redis rd" "gone_at (rd_contents rd) t (code_key code) st" "t \<le> now"
    and "redeem_code rd now c st = (r, st')"
  shows "gone_at (rd_contents rd) now (code_key code) st' \<and> (c = code \<longrightarrow> \<not> is_ok r)"
proof (cases "c = []")
  case True
  then show ?thesis using assms redis.gone_persists [OF assms(1-3)] by (auto simp: redeem_code_def)
next
  case False
  obtain ro st1 where g: "rd_getdel rd now (code_key c) st = (ro, st1)" by (cases "rd_getdel rd now (code_key c) st")
  from False assms(4) g have "st' = st1"
    by (auto simp: redeem_code_def split: sum.splits option.splits blob.splits)
  moreover have "ro = Inr r' \<Longrightarrow> c = code \<Longrightarrow> r' = None" for r'
    using redis.getdel_ok [OF assms(1), of now "code_key c" st r' st1] g assms(2,3) by (auto simp: gone_at_def)
  ultimately show ?thesis
    using redis.getdel_gone [OF assms(1-3) g] False assms(4) g
    by (auto simp: redeem_code_def split: sum.splits option.splits blob.splits)
qed

lemma redeem_all_gone:
  assumes "redis rd" "gone_at (rd_contents rd) t (code_key code) st"
    "sorted (map fst cs)" "\<forall>tc \<in> set cs. t \<le> fst tc" "redeem_all rd cs st = (rs, st')"
  shows "successes_for code cs rs = 0"
  using assms(2-)
proof (induction cs arbitrary: t st rs)
  case (Cons tc cs)
  obtain t1 c where tc: "tc = (t1, c)" by (cases tc)
  obtain r st1 where r: "redeem_code rd t1 c st = (r, st1)" by (cases "redeem_code rd t1 c st")
  obtain rs' st2 where rs': "redeem_all rd cs st1 = (rs', st2)" by (cases "redeem_all rd cs st1")
  from Cons.prems tc r rs' have rs: "rs = r # rs'" "st' = st2" by auto
  from Cons.prems tc have "t \<le> t1" by auto
  from redeem_code_gone [OF assms(1) Cons.prems(1) this r]
  have g: "gone_at (rd_contents rd) t1 (code_key code) st1" "c = code \<longrightarrow> \<not> is_ok r" by auto
  have "successes_for code cs rs' = 0"
    using Cons.IH [OF g(1)] Cons.prems rs' tc rs by auto
  with g(2) show ?case by (auto simp: successes_for_def rs tc)
qed (simp add: successes_for_def)

lemma redeem_all_at_most_once:
  assumes "redis rd" "sorted (map fst cs)" "redeem_all rd cs st = (rs, st')"
  shows "successes_for code cs rs \<le> 1"
  using assms(2-)
proof (induction cs arbitrary: st rs)
  case (Cons tc cs)
  obtain t1 c where tc: "tc = (t1, c)" by (cases tc)
  obtain r st1 where r: "redeem_code rd t1 c st = (r, st1)" by (cases "redeem_code rd t1 c st")
  obtain rs' st2 where rs': "redeem_all rd cs st1 = (rs', st2)" by (cases "redeem_all rd cs st1")
  from Cons.prems tc r rs' have rs: "rs = r # rs'" "st' = st2" by auto
  show ?case
  proof (cases "c = code \<and> is_ok r")
    case True
    then have "gone_at (rd_contents rd) t1 (code_key code) st1"
      using r redis.getdel_ok [OF assms(1), of t1 "code_key code" st]
      by (auto simp: redeem_code_def is_ok_def split: if_splits prod.splits sum.splits option.splits blob.splits)
    from redeem_all_gone [OF assms(1) this _ _ rs'] Cons.prems tc
    have "successes_for code cs rs' = 0" by auto
    then show ?thesis by (auto simp: successes_for_def rs tc)
  next
    case False
    with Cons.IH [of st1 rs'] rs' Cons.prems tc rs(2) show ?thesis by (auto simp: successes_for_def rs)
  qed
qed (simp add: successes_for_def)

text \<open>A code issued is redeemed to exactly what it bound, by the first redemption in its lifetime.\<close>

lemma issue_then_redeem:
  assumes "redis rd" and iss: "issue_code rd now c ttl drawn st = (Inr code, st1)" and "code \<noteq> []"
    and quiet: "same_at (rd_contents rd) now (code_key code) st1 st2"
    and t: "now \<le> t" "t < now + ttl - millisecond"
    and red: "rd_getdel rd t (code_key code) st2 = (Inr ro, st3)"
  shows "redeem_code rd t code st2 = (Inr c, st3)"
proof -
  from iss have "0 < ttl" "rd_setnx rd now (code_key code) (Blob c) ttl st = (Inr True, st1)"
    by (auto simp: issue_code_def split: if_splits option.splits prod.splits sum.splits)
  with redis.setnx_ok [OF assms(1), of now "code_key code" "Blob c" ttl st True st1]
  have "holds_for (rd_contents rd) st1 now (code_key code) (Blob c) ttl" by (auto split: if_splits)
  with quiet t have "rd_contents rd st2 t (code_key code) = Some (Blob c)"
    by (auto simp: holds_for_def same_at_def)
  with redis.getdel_ok [OF assms(1) red] red assms(3) show ?thesis by (simp add: redeem_code_def)
qed

end
