(* ===== verification/AuditLog.thy ===== *)
theory AuditLog
  imports Claims
begin

text \<open>
  The audit log (\<open>internal/audit/audit.go\<close>, with the key list of
  \<open>internal/observability/logging.go\<close>) and the tenant transaction it commits with
  (\<open>internal/storage/postgres/postgres.go\<close>): the redaction of a payload, the checks of
  \<open>Writer.Write\<close>, and \<open>WithTenant\<close> as a function that keeps the old state unless its body and
  its commit succeed.
\<close>

section \<open>Transactions\<close>

text \<open>
  What a transaction meets: nothing, a failing BEGIN, a failing \<open>set_config\<close>, a COMMIT that
  failed, or a COMMIT that was applied although its answer got lost.
\<close>

datatype tx_fault = TxOk | BeginFails | ScopeFails | CommitFails | CommitLost

datatype 'e tx_error = EmptyOrg | BeginFailed | ScopeFailed | CommitFailed | InBody 'e

definition with_scope ::
  "tx_fault \<Rightarrow> string \<Rightarrow> (string \<Rightarrow> 'w \<Rightarrow> 'e + 'a \<times> 'w) \<Rightarrow> 'w \<Rightarrow> ('e tx_error + 'a) \<times> 'w" where
  "with_scope fault org body w =
     (if fault = BeginFails then (Inl BeginFailed, w)
      else if fault = ScopeFails then (Inl ScopeFailed, w)
      else case body org w of
        Inl e \<Rightarrow> (Inl (InBody e), w)
      | Inr (a, w') \<Rightarrow>
          if fault = CommitFails then (Inl CommitFailed, w)
          else if fault = CommitLost then (Inl CommitFailed, w')
          else (Inr a, w'))"

definition with_tenant ::
  "tx_fault \<Rightarrow> string \<Rightarrow> (string \<Rightarrow> 'w \<Rightarrow> 'e + 'a \<times> 'w) \<Rightarrow> 'w \<Rightarrow> ('e tx_error + 'a) \<times> 'w" where
  "with_tenant fault org body w =
     (if org = [] then (Inl EmptyOrg, w) else with_scope fault org body w)"

lemma with_tenant_ok:
  "with_tenant fault org body w = (Inr a, w') \<longleftrightarrow> org \<noteq> [] \<and> fault = TxOk \<and> body org w = Inr (a, w')"
  by (cases fault) (auto simp: with_tenant_def with_scope_def split: sum.splits prod.splits)

lemma with_tenant_err:
  assumes "with_tenant fault org body w = (Inl e, w')"
  shows "w' = w \<or> fault = CommitLost \<and> (\<exists>a. body org w = Inr (a, w'))"
  using assms by (auto simp: with_tenant_def with_scope_def split: sum.splits prod.splits if_splits)

text \<open>What the state after a transaction can be, whatever happened.\<close>

lemma with_tenant_state:
  "snd (with_tenant fault org body w) = w \<or>
     (\<exists>a. body org w = Inr (a, snd (with_tenant fault org body w)))"
  by (auto simp: with_tenant_def with_scope_def split: sum.splits prod.splits)

section \<open>Redaction\<close>

definition sensitive_keys :: "string list" where
  "sensitive_keys = [''password'', ''password_hash'', ''new_password'', ''current_password'', ''secret'',
     ''client_secret'', ''client_secret_hash'', ''token'', ''access_token'', ''refresh_token'', ''id_token'',
     ''id_token_hint'', ''token_hash'', ''code'', ''code_verifier'', ''code_challenge'', ''authorization'',
     ''cookie'', ''set-cookie'', ''private_key'', ''privatekey'', ''totp_secret'', ''recovery_code'',
     ''recovery_codes'', ''api_key'', ''apikey'', ''credential'', ''credentials'', ''assertion'',
     ''saml_response'', ''attributes'', ''resource_attributes'', ''subject_attributes'']"

definition key_separator :: "char \<Rightarrow> bool" where
  "key_separator c \<longleftrightarrow> c = CHR ''.'' \<or> c = CHR ''/'' \<or> c = CHR '':'' \<or> c = CHR ''-''"

text \<open>The part after the last separator, empty when there is no separator or nothing after it.\<close>

definition last_segment :: "string \<Rightarrow> string" where
  "last_segment k = (if list_ex key_separator k then rev (takeWhile (\<lambda>c. \<not> key_separator c) (rev k)) else [])"

definition is_sensitive_key :: "string \<Rightarrow> bool" where
  "is_sensitive_key key =
     (let k = to_lower (trim_space key) in
      contains sensitive_keys k \<or> (last_segment k \<noteq> [] \<and> contains sensitive_keys (last_segment k)))"

text \<open>
  A payload is a Go \<open>map[string]any\<close>: a value is another such map or anything else. Only the former
  is descended into.
\<close>

datatype payload = Leaf json | Nested "(string \<times> payload) list"

definition redacted :: json where "redacted = JStr ''[REDACTED]''"

fun redact_value :: "payload \<Rightarrow> payload" and redact_payload :: "(string \<times> payload) list \<Rightarrow> (string \<times> payload) list" where
  "redact_value (Leaf j) = Leaf j"
| "redact_value (Nested kvs) = Nested (redact_payload kvs)"
| "redact_payload [] = []"
| "redact_payload ((k, v) # kvs) =
     (k, if is_sensitive_key k then Leaf redacted else redact_value v) # redact_payload kvs"

text \<open>Every (key, leaf) of a payload, at any depth.\<close>

fun leaves_value :: "string \<Rightarrow> payload \<Rightarrow> (string \<times> json) list" and leaves :: "(string \<times> payload) list \<Rightarrow> (string \<times> json) list" where
  "leaves_value k (Leaf j) = [(k, j)]"
| "leaves_value k (Nested kvs) = leaves kvs"
| "leaves [] = []"
| "leaves ((k, v) # kvs) = leaves_value k v @ leaves kvs"

lemma redact_leaves:
  "(\<forall>k. \<not> is_sensitive_key k \<longrightarrow> (\<forall>(k', j) \<in> set (leaves_value k (redact_value v)). is_sensitive_key k' \<longrightarrow> j = redacted))"
  "\<forall>(k', j) \<in> set (leaves (redact_payload kvs)). is_sensitive_key k' \<longrightarrow> j = redacted"
  by (induction v and kvs rule: redact_value_redact_payload.induct) (auto split: if_splits)

definition payload_clean :: "(string \<times> payload) list \<Rightarrow> bool" where
  "payload_clean kvs \<longleftrightarrow> (\<forall>(k, j) \<in> set (leaves kvs). is_sensitive_key k \<longrightarrow> j = redacted)"

lemma redact_payload_clean: "payload_clean (redact_payload kvs)"
  using redact_leaves(2) [of kvs] by (simp add: payload_clean_def)

lemma redact_idem:
  "redact_value (redact_value v) = redact_value v"
  "redact_payload (redact_payload kvs) = redact_payload kvs"
  by (induction v and kvs rule: redact_value_redact_payload.induct) auto

lemma redact_keys: "map fst (redact_payload kvs) = map fst kvs"
  by (induction kvs) (auto split: prod.splits)

section \<open>Events\<close>

record audit_event =
  ev_org :: string
  ev_actor :: string
  ev_type :: string
  ev_payload :: "(string \<times> payload) list"

datatype audit_error = EventTypeRequired | OrgMismatch | OrgInInstanceScope | EventNotStored

text \<open>
  \<open>Writer.Write\<close> inside a transaction of tenant \<open>tx_org\<close> (empty: instance scope); \<open>stored\<close> says
  whether the INSERT succeeds. Forwarding to a SIEM never changes the outcome and is left out.
\<close>

definition write_event ::
  "bool \<Rightarrow> string \<Rightarrow> audit_event \<Rightarrow> audit_event list \<Rightarrow> audit_error + audit_event list" where
  "write_event stored tx_org e log =
     (if ev_type e = [] then Inl EventTypeRequired
      else if tx_org \<noteq> [] \<and> ev_org e \<noteq> [] \<and> ev_org e \<noteq> tx_org then Inl OrgMismatch
      else if tx_org = [] \<and> ev_org e \<noteq> [] then Inl OrgInInstanceScope
      else if \<not> stored then Inl EventNotStored
      else Inr (log @ [e\<lparr>ev_org := tx_org, ev_payload := redact_payload (ev_payload e)\<rparr>]))"

definition event_token_issued :: string where "event_token_issued = ''token.issued''"
definition event_token_revoked :: string where "event_token_revoked = ''token.revoked''"
definition event_refresh_reuse :: string where "event_refresh_reuse = ''token.refresh.reuse_detected''"

lemmas event_types = event_token_issued_def event_token_revoked_def event_refresh_reuse_def

lemma write_event_ok:
  "write_event stored org e log = Inr log' \<Longrightarrow>
     log' = log @ [e\<lparr>ev_org := org, ev_payload := redact_payload (ev_payload e)\<rparr>] \<and> stored \<and> ev_type e \<noteq> []"
  by (auto simp: write_event_def split: if_splits)

text \<open>No event of the log carries the value of a sensitive key, and each is filed under its transaction's tenant.\<close>

definition log_clean :: "audit_event list \<Rightarrow> bool" where
  "log_clean log \<longleftrightarrow> (\<forall>e \<in> set log. payload_clean (ev_payload e))"

lemma write_event_clean [inv_intros]:
  "write_event stored org e log = Inr log' \<Longrightarrow> log_clean log \<Longrightarrow> log_clean log'"
  by (auto dest!: write_event_ok simp: log_clean_def redact_payload_clean)

end
