(* ===== verification/TokenHandler.thy ===== *)
theory TokenHandler
  imports RefreshInv CodeStore AuditLog
begin

text \<open>
  \<open>POST /oauth/token\<close> (\<open>internal/oauth/token/handler.go\<close>): authentication of the client, the three
  grants, reuse detection with the kill of a family, rotation, issuance, and the HTTP answer.

  The state of the service the handler reads and writes is the record \<open>token_world\<close>: the refresh
  tokens, the authorization codes in Redis, the audit log and the counters. What it calls is the
  record \<open>token_env\<close>: the client registry, the session check, the MFA mandate, the role source,
  the signer, Redis, and for each database step whether it fails. \<open>te_fresh\<close> is what the request
  draws at random. An absent optional collaborator (\<open>nil\<close>) is \<open>None\<close>; the refresh store, the
  observer and the database are always wired.
\<close>

section \<open>Collaborators and state\<close>

record role_claims =
  rcl_keys :: "string list"
  rcl_manager :: "string list"
  rcl_org :: string

datatype tx_step = KillTx | RotateTx | IssueTx | AuditTx

record 's token_env =
  te_issuer :: string
  te_client :: "string \<Rightarrow> application option"
  te_credentials :: "application \<Rightarrow> credentials option"
  te_redis :: "('s, auth_code blob) redis_ops"
  te_live :: "(string \<Rightarrow> time \<Rightarrow> bool) option"
  te_mandate :: "(string \<Rightarrow> string \<Rightarrow> time \<Rightarrow> bool option) option"
  te_roles :: "(string \<Rightarrow> string \<Rightarrow> string \<Rightarrow> role_claims option) option"
  te_sign :: "claims \<Rightarrow> string \<Rightarrow> string option"
  te_audit :: bool
  te_lineage_ok :: bool
  te_lookup_ok :: bool
  te_fault :: "tx_step \<Rightarrow> tx_fault"
  te_stored :: "tx_step \<Rightarrow> bool"
  te_fresh :: fresh
  te_dbnow :: time

record 's token_world =
  tw_tokens :: rt_table
  tw_codes :: 's
  tw_events :: "audit_event list"
  tw_reuse :: nat
  tw_issued :: "string list"
  tw_denied :: "(string \<times> string) list"

record tok_response =
  tr_access :: string
  tr_type :: string
  tr_expires :: int
  tr_id :: string
  tr_refresh :: string
  tr_scope :: string

text \<open>A Go \<open>error\<close> of a grant: an OAuth \<open>Error\<close>, or any other error.\<close>

datatype tok_failure = Oauth oauth_error | Plain claims_error

definition type_access_token :: string where "type_access_token = ''at+jwt''"
definition type_jwt :: string where "type_jwt = ''JWT''"

definition invalid_grant :: "tok_msg \<Rightarrow> tok_failure" where
  "invalid_grant m = Oauth (bad_request err_invalid_grant m)"

definition internal_failure :: tok_failure where "internal_failure = Oauth server_error"

definition expires_in :: int where "expires_in = access_token_lifetime div second"

section \<open>Issuance\<close>

definition roles_for :: "'s token_env \<Rightarrow> subject \<Rightarrow> application \<Rightarrow> subject" where
  "roles_for env s app =
     (case te_roles env of
        None \<Rightarrow> s
      | Some for_token \<Rightarrow>
          if s_user s = [] then s
          else case for_token (s_org s) (s_user s) (app_project app) of
                 None \<Rightarrow> s
               | Some r \<Rightarrow> s\<lparr>s_role_keys := rcl_keys r, s_manager_roles := rcl_manager r, s_role_org := rcl_org r\<rparr>)"

definition sign_claims :: "'s token_env \<Rightarrow> claims \<Rightarrow> string \<Rightarrow> tok_failure + string" where
  "sign_claims env c typ = (case te_sign env c typ of None \<Rightarrow> Inl internal_failure | Some j \<Rightarrow> Inr j)"

definition plain :: "claims_error + 'a \<Rightarrow> tok_failure + 'a" where
  "plain r = (case r of Inl e \<Rightarrow> Inl (Plain e) | Inr a \<Rightarrow> Inr a)"

definition minted :: "subject \<Rightarrow> application \<Rightarrow> string list \<Rightarrow> refresh" where
  "minted s app scope = \<lparr>r_id = [], r_user = s_user s, r_client = app_id app, r_org = s_org s,
     r_session = s_session s, r_family = [], r_scope = scope, r_expires = zero_time\<rparr>"

definition mint_refresh ::
  "'s token_env \<Rightarrow> application \<Rightarrow> subject \<Rightarrow> string list \<Rightarrow> time \<Rightarrow> 's token_world
    \<Rightarrow> (tok_failure + string) \<times> 's token_world" where
  "mint_refresh env app s scope now w =
     (case with_tenant (te_fault env IssueTx) (s_org s)
             (\<lambda>org w. bindE (issue_refresh org (minted s app scope) [] (te_fresh env) now (te_dbnow env) (tw_tokens w))
                (\<lambda>((p, fam), tbl). Inr (p, w\<lparr>tw_tokens := tbl\<rparr>))) w of
        (Inl _, w') \<Rightarrow> (Inl internal_failure, w')
      | (Inr p, w') \<Rightarrow> (Inr p, w'))"

text \<open>The tokens of \<open>issue\<close> that need no database: the access token and the ID token.\<close>

definition signed_tokens ::
  "'s token_env \<Rightarrow> subject \<Rightarrow> string list \<Rightarrow> bool \<Rightarrow> time \<Rightarrow> tok_failure + tok_response" where
  "signed_tokens env s scope with_id now =
     bindE (plain (access_token_claims s now)) (\<lambda>ac.
     bindE (sign_claims env ac type_access_token) (\<lambda>access.
       let out = \<lparr>tr_access = access, tr_type = ''Bearer'', tr_expires = expires_in,
                  tr_id = [], tr_refresh = [], tr_scope = join_space scope\<rparr>
       in if with_id \<and> contains scope ''openid'' then
            bindE (plain (id_token_claims s now)) (\<lambda>ic.
            bindE (sign_claims env ic type_jwt) (\<lambda>idt. Inr (out\<lparr>tr_id := idt\<rparr>)))
          else Inr out))"

definition issue_tokens ::
  "'s token_env \<Rightarrow> application \<Rightarrow> subject \<Rightarrow> string list \<Rightarrow> bool \<Rightarrow> bool \<Rightarrow> time \<Rightarrow> 's token_world
    \<Rightarrow> (tok_failure + tok_response) \<times> 's token_world" where
  "issue_tokens env app s scope with_id mint now w =
     (let s = roles_for env s app in
      case signed_tokens env s scope with_id now of
        Inl e \<Rightarrow> (Inl e, w)
      | Inr out \<Rightarrow>
          if mint \<and> contains scope ''offline_access'' then
            (case mint_refresh env app s scope now w of
               (Inl e, w') \<Rightarrow> (Inl e, w')
             | (Inr p, w') \<Rightarrow> (Inr (out\<lparr>tr_refresh := p\<rparr>), w'))
          else (Inr out, w))"

section \<open>authorization_code\<close>

definition code_subject :: "'s token_env \<Rightarrow> application \<Rightarrow> auth_code \<Rightarrow> subject" where
  "code_subject env app c =
     \<lparr>s_issuer = te_issuer env, s_audience = te_issuer env, s_client = app_id app, s_project = app_project app,
      s_org = ac_org c, s_user = ac_user c, s_session = ac_session c, s_auth_methods = ac_auth_methods c,
      s_auth_time = ac_auth_time c, s_nonce = ac_nonce c, s_scope = ac_scope c,
      s_role_keys = [], s_role_org = [], s_manager_roles = []\<rparr>"

definition authorization_code ::
  "'s token_env \<Rightarrow> application \<Rightarrow> form \<Rightarrow> time \<Rightarrow> 's token_world
    \<Rightarrow> (tok_failure + tok_response \<times> string) \<times> 's token_world" where
  "authorization_code env app f now w =
     (case redeem_code (te_redis env) now (form_get f ''code'') (tw_codes w) of (r, st) \<Rightarrow>
       let w = w\<lparr>tw_codes := st\<rparr> in
       case r of
         Inl _ \<Rightarrow> (Inl (invalid_grant CodeInvalid), w)
       | Inr c \<Rightarrow>
           if ac_client c \<noteq> app_id app then (Inl (invalid_grant CodeInvalid), w)
           else if ac_redirect c \<noteq> form_get f ''redirect_uri'' then (Inl (invalid_grant CodeInvalid), w)
           else case verify_pkce (ac_challenge c) (form_get f ''code_verifier'') of
             Inl e \<Rightarrow> (Inl (Oauth e), w)
           | Inr _ \<Rightarrow>
               (case issue_tokens env app (code_subject env app c) (ac_scope c) True True now w of
                  (Inl e, w') \<Rightarrow> (Inl e, w')
                | (Inr out, w') \<Rightarrow> (Inr (out, ac_user c), w')))"

section \<open>refresh_token\<close>

text \<open>\<open>int(now.Sub(at).Seconds())\<close>: whole seconds, towards zero.\<close>

definition whole_seconds :: "duration \<Rightarrow> int" where
  "whole_seconds d = (if 0 \<le> d then d div second else - (- d div second))"

definition reuse_event :: "lineage \<Rightarrow> application \<Rightarrow> nat \<Rightarrow> time \<Rightarrow> audit_event" where
  "reuse_event l app revoked now =
     \<lparr>ev_org = l_org l, ev_actor = [], ev_type = event_refresh_reuse,
      ev_payload = [(''family_id'', Leaf (JStr (l_family l))), (''client_id'', Leaf (JStr (app_id app))),
        (''tokens_revoked'', Leaf (JInt (int revoked))),
        (''seconds_after_rotation'', Leaf (JInt (whole_seconds (time_sub now (l_replaced_at l)))))]\<rparr>"

definition kill_body ::
  "'s token_env \<Rightarrow> lineage \<Rightarrow> application \<Rightarrow> time \<Rightarrow> string \<Rightarrow> 's token_world \<Rightarrow> audit_error + unit \<times> 's token_world" where
  "kill_body env l app now org w =
     (case revoke_family org (l_family l) (tw_tokens w) of (tbl, revoked) \<Rightarrow>
        let w = w\<lparr>tw_tokens := tbl\<rparr> in
        if \<not> te_audit env then Inr ((), w)
        else bindE (write_event (te_stored env KillTx) org (reuse_event l app revoked now) (tw_events w))
               (\<lambda>log. Inr ((), w\<lparr>tw_events := log\<rparr>)))"

definition kill_family ::
  "'s token_env \<Rightarrow> lineage \<Rightarrow> application \<Rightarrow> time \<Rightarrow> 's token_world \<Rightarrow> 's token_world" where
  "kill_family env l app now w =
     (case with_tenant (te_fault env KillTx) (l_org l) (kill_body env l app now) w of
        (_, w') \<Rightarrow> w'\<lparr>tw_reuse := tw_reuse w' + 1\<rparr>)"

text \<open>The answer (reuse, supersede); the world changes when a family is killed.\<close>

definition detect_reuse ::
  "'s token_env \<Rightarrow> string \<Rightarrow> application \<Rightarrow> time \<Rightarrow> 's token_world
    \<Rightarrow> (tok_failure + bool \<times> string) \<times> 's token_world" where
  "detect_reuse env presented app now w =
     (if \<not> te_lineage_ok env then (Inl internal_failure, w)
      else case lookup_lineage (tw_tokens w) presented of
        Inl _ \<Rightarrow> (Inr (False, []), w)
      | Inr l \<Rightarrow>
          if \<not> rotated l then (Inr (False, []), w)
          else if legitimate_retry l now rotation_grace then (Inr (False, l_replaced_by l), w)
          else if l_revoked l then (Inr (True, []), w)
          else (Inr (True, []), kill_family env l app now w))"

definition rotate ::
  "'s token_env \<Rightarrow> refresh \<Rightarrow> string list \<Rightarrow> string \<Rightarrow> time \<Rightarrow> 's token_world
    \<Rightarrow> (tok_failure + string) \<times> 's token_world" where
  "rotate env stored scope supersede now w =
     (case with_tenant (te_fault env RotateTx) (r_org stored)
             (\<lambda>org w. bindE (rotate_refresh org (stored\<lparr>r_scope := scope\<rparr>) supersede (te_fresh env) now (te_dbnow env) (tw_tokens w))
                (\<lambda>(p, tbl). Inr (p, w\<lparr>tw_tokens := tbl\<rparr>))) w of
        (Inl e, w') \<Rightarrow>
          (if e = InBody RefreshReuse \<or> e = InBody RefreshNotFound then (Inl (invalid_grant RefreshInvalid), w')
           else (Inl internal_failure, w'))
      | (Inr p, w') \<Rightarrow> (Inr p, w'))"

definition refresh_subject :: "'s token_env \<Rightarrow> application \<Rightarrow> refresh \<Rightarrow> string list \<Rightarrow> subject" where
  "refresh_subject env app stored scope =
     \<lparr>s_issuer = te_issuer env, s_audience = te_issuer env, s_client = app_id app, s_project = app_project app,
      s_org = r_org stored, s_user = r_user stored, s_session = r_session stored, s_auth_methods = [],
      s_auth_time = zero_time, s_nonce = [], s_scope = scope,
      s_role_keys = [], s_role_org = [], s_manager_roles = []\<rparr>"

definition session_gone :: "'s token_env \<Rightarrow> refresh \<Rightarrow> time \<Rightarrow> bool" where
  "session_gone env stored now \<longleftrightarrow>
     (case te_live env of None \<Rightarrow> False | Some live \<Rightarrow> r_session stored \<noteq> [] \<and> \<not> live (r_session stored) now)"

definition mandate_check :: "'s token_env \<Rightarrow> refresh \<Rightarrow> time \<Rightarrow> tok_failure + unit" where
  "mandate_check env stored now =
     (case te_mandate env of
        None \<Rightarrow> Inr ()
      | Some unmet \<Rightarrow>
          (case unmet (r_org stored) (r_user stored) now of
             None \<Rightarrow> Inl internal_failure
           | Some u \<Rightarrow> if u then Inl (invalid_grant RefreshInvalid) else Inr ()))"

definition lift_oauth :: "oauth_error + 'a \<Rightarrow> tok_failure + 'a" where
  "lift_oauth r = (case r of Inl e \<Rightarrow> Inl (Oauth e) | Inr a \<Rightarrow> Inr a)"

text \<open>The checks between reuse detection and issuance: they read and change nothing.\<close>

definition refresh_checks ::
  "'s token_env \<Rightarrow> string \<Rightarrow> application \<Rightarrow> form \<Rightarrow> time \<Rightarrow> rt_table \<Rightarrow> tok_failure + refresh \<times> string list" where
  "refresh_checks env presented app f now tbl =
     (case (if te_lookup_ok env then lookup_refresh tbl presented now else Inl StoreFailure) of
        Inl _ \<Rightarrow> Inl (invalid_grant RefreshInvalid)
      | Inr stored \<Rightarrow>
          if r_client stored \<noteq> app_id app then Inl (invalid_grant RefreshInvalid)
          else if session_gone env stored now then Inl (invalid_grant RefreshInvalid)
          else bindE (mandate_check env stored now) (\<lambda>_.
               bindE (lift_oauth (narrow_scope (r_scope stored) (parse_scope (form_get f ''scope'')))) (\<lambda>scope.
                 Inr (stored, scope))))"

definition refresh_token ::
  "'s token_env \<Rightarrow> application \<Rightarrow> form \<Rightarrow> time \<Rightarrow> 's token_world
    \<Rightarrow> (tok_failure + tok_response \<times> string) \<times> 's token_world" where
  "refresh_token env app f now w =
     (let presented = form_get f ''refresh_token'' in
      if presented = [] then (Inl (Oauth (bad_request err_invalid_request RefreshRequired)), w)
      else case detect_reuse env presented app now w of
        (Inl e, w) \<Rightarrow> (Inl e, w)
      | (Inr (reuse, supersede), w) \<Rightarrow>
          if reuse then (Inl (invalid_grant RefreshInvalid), w)
          else case refresh_checks env presented app f now (tw_tokens w) of
            Inl e \<Rightarrow> (Inl e, w)
          | Inr (stored, scope) \<Rightarrow>
              (case issue_tokens env app (refresh_subject env app stored scope) scope False False now w of
                 (Inl e, w) \<Rightarrow> (Inl e, w)
               | (Inr out, w) \<Rightarrow>
                   (case rotate env stored scope supersede now w of
                      (Inl e, w) \<Rightarrow> (Inl e, w)
                    | (Inr p, w) \<Rightarrow> (Inr (out\<lparr>tr_refresh := p\<rparr>, r_user stored), w))))"

section \<open>client_credentials\<close>

definition client_credentials ::
  "'s token_env \<Rightarrow> application \<Rightarrow> form \<Rightarrow> time \<Rightarrow> tok_failure + tok_response" where
  "client_credentials env app f now =
     (let scope = parse_scope (form_get f ''scope'') in
      if contains scope ''openid'' then Inl (Oauth (bad_request err_invalid_scope OpenIDNeedsUser))
      else bindE (plain (client_credentials_claims
             \<lparr>s_issuer = te_issuer env, s_audience = te_issuer env, s_client = app_id app,
              s_project = app_project app, s_org = app_org app, s_user = [], s_session = [],
              s_auth_methods = [], s_auth_time = zero_time, s_nonce = [], s_scope = scope,
              s_role_keys = [], s_role_org = [], s_manager_roles = []\<rparr> now)) (\<lambda>c.
           bindE (sign_claims env c type_access_token) (\<lambda>access.
             Inr \<lparr>tr_access = access, tr_type = ''Bearer'', tr_expires = expires_in, tr_id = [],
                  tr_refresh = [], tr_scope = join_space scope\<rparr>)))"

section \<open>The endpoint\<close>

datatype tok_body = Tokens tok_response | Refused string tok_msg

record http_answer =
  a_status :: nat
  a_headers :: "(string \<times> string) list"
  a_body :: tok_body

definition no_store :: "(string \<times> string) list" where
  "no_store = [(''Content-Type'', ''application/json''), (''Cache-Control'', ''no-store''), (''Pragma'', ''no-cache'')]"

definition respond :: "tok_response \<Rightarrow> http_answer" where
  "respond out = \<lparr>a_status = 200, a_headers = no_store, a_body = Tokens out\<rparr>"

definition as_oauth :: "tok_failure \<Rightarrow> oauth_error" where
  "as_oauth e = (case e of Plain _ \<Rightarrow> server_error
     | Oauth oe \<Rightarrow> if e_status oe = 0 then oe\<lparr>e_status := 400\<rparr> else oe)"

definition answer_error :: "oauth_error \<Rightarrow> http_answer" where
  "answer_error oe = \<lparr>a_status = e_status oe,
     a_headers = no_store @ (if e_status oe = 401 \<and> e_basic oe then [(''WWW-Authenticate'', ''Basic realm='' @ [CHR 0x22] @ ''token'' @ [CHR 0x22])] else []),
     a_body = Refused (e_code oe) (e_msg oe)\<rparr>"

definition fail :: "string \<Rightarrow> tok_failure \<Rightarrow> 's token_world \<Rightarrow> http_answer \<times> 's token_world" where
  "fail grant e w = (answer_error (as_oauth e), w\<lparr>tw_denied := tw_denied w @ [(grant, e_code (as_oauth e))]\<rparr>)"

definition issued_event :: "application \<Rightarrow> string \<Rightarrow> string \<Rightarrow> string \<Rightarrow> audit_event" where
  "issued_event app user grant scope =
     \<lparr>ev_org = app_org app, ev_actor = user, ev_type = event_token_issued,
      ev_payload = [(''client_id'', Leaf (JStr (app_id app))), (''grant'', Leaf (JStr grant)),
        (''scope'', Leaf (JStr scope))]\<rparr>"

definition audit_issued ::
  "'s token_env \<Rightarrow> application \<Rightarrow> string \<Rightarrow> string \<Rightarrow> string \<Rightarrow> 's token_world \<Rightarrow> 's token_world" where
  "audit_issued env app user grant scope w =
     (if \<not> te_audit env then w
      else snd (with_tenant (te_fault env AuditTx) (app_org app)
        (\<lambda>org w. bindE (write_event (te_stored env AuditTx) org (issued_event app user grant scope) (tw_events w))
           (\<lambda>log. Inr ((), w\<lparr>tw_events := log\<rparr>))) w))"

text \<open>Everything before the grant: who is calling, with what credentials, and may it use this grant.\<close>

definition identify ::
  "'s token_env \<Rightarrow> http_request \<Rightarrow> time \<Rightarrow> (string \<times> tok_failure) + application \<times> string" where
  "identify env r now =
     (if r_method r \<noteq> ''POST'' then Inl ([], Oauth (mk_error err_invalid_request 405 False MethodNotPost))
      else if \<not> r_form_ok r then Inl ([], Oauth (bad_request err_invalid_request BodyUnparsable))
      else let f = r_form r; grant = form_get f ''grant_type'' in
        case validate_grant grant of
          Inl e \<Rightarrow> Inl (grant, Oauth e)
        | Inr _ \<Rightarrow>
            (case parse_credentials r f of
               Inl e \<Rightarrow> Inl (grant, Oauth e)
             | Inr c \<Rightarrow>
                 (case te_client env (rc_client c) of
                    None \<Rightarrow> Inl (grant, Oauth (unauthorized (rc_basic c) AuthenticationFailed))
                  | Some app \<Rightarrow>
                      (case te_credentials env app of
                         None \<Rightarrow> Inl (grant, internal_failure)
                       | Some stored \<Rightarrow>
                           (case authenticate_client app c stored now of
                              Inl e \<Rightarrow> Inl (grant, Oauth e)
                            | Inr _ \<Rightarrow>
                                if \<not> contains (grant_types app) grant then
                                  Inl (grant, Oauth (bad_request err_unauthorized_client (GrantNotPermitted grant)))
                                else Inr (app, grant))))))"

definition run_grant ::
  "'s token_env \<Rightarrow> application \<Rightarrow> string \<Rightarrow> form \<Rightarrow> time \<Rightarrow> 's token_world
    \<Rightarrow> (tok_failure + tok_response \<times> string) \<times> 's token_world" where
  "run_grant env app grant f now w =
     (if grant = grant_authorization_code then authorization_code env app f now w
      else if grant = grant_refresh_token then refresh_token env app f now w
      else (bindE (client_credentials env app f now) (\<lambda>out. Inr (out, [])), w))"

definition serve_token ::
  "'s token_env \<Rightarrow> http_request \<Rightarrow> time \<Rightarrow> 's token_world \<Rightarrow> http_answer \<times> 's token_world" where
  "serve_token env r now w =
     (case identify env r now of
        Inl (grant, e) \<Rightarrow> fail grant e w
      | Inr (app, grant) \<Rightarrow>
          (case run_grant env app grant (r_form r) now w of
             (Inl e, w') \<Rightarrow> fail grant e w'
           | (Inr (out, user), w') \<Rightarrow>
               let w'' = audit_issued env app user grant (tr_scope out) w'
               in (respond out, w''\<lparr>tw_issued := tw_issued w'' @ [grant]\<rparr>)))"

end
