(* ===== verification/TokenFacts.thy ===== *)
theory TokenFacts
  imports TokenHandler
begin

text \<open>
  What the token endpoint does to the refresh-token table: every request keeps the table's
  invariant, and the shape of a successful refresh.
\<close>

section \<open>Effects of the database steps\<close>

lemma mint_refresh_effect:
  "snd (mint_refresh env app s scope now w) = w \<or>
   (\<exists>p fam tbl. issue_refresh (s_org s) (minted s app scope) [] (te_fresh env) now (te_dbnow env) (tw_tokens w) = Inr ((p, fam), tbl)
      \<and> snd (mint_refresh env app s scope now w) = w\<lparr>tw_tokens := tbl\<rparr>)"
proof -
  let ?body = "\<lambda>org w. bindE (issue_refresh org (minted s app scope) [] (te_fresh env) now (te_dbnow env) (tw_tokens w))
                (\<lambda>((p, fam), tbl). Inr (p, w\<lparr>tw_tokens := tbl\<rparr>))"
  have "snd (mint_refresh env app s scope now w) = snd (with_tenant (te_fault env IssueTx) (s_org s) ?body w)"
    by (simp add: mint_refresh_def split: prod.splits sum.splits)
  then show ?thesis
    using with_tenant_state [of "te_fault env IssueTx" "s_org s" ?body w]
    by (auto simp: bindE_Inr_iff split: prod.splits)
qed

lemma mint_refresh_ok:
  "mint_refresh env app s scope now w = (Inr p, w') \<Longrightarrow>
   \<exists>fam tbl. issue_refresh (s_org s) (minted s app scope) [] (te_fresh env) now (te_dbnow env) (tw_tokens w) = Inr ((p, fam), tbl)
      \<and> w' = w\<lparr>tw_tokens := tbl\<rparr> \<and> s_org s \<noteq> []"
  by (auto simp: mint_refresh_def with_tenant_ok bindE_Inr_iff split: prod.splits sum.splits)

lemma rotate_effect:
  "snd (rotate env stored scope old now w) = w \<or>
   (\<exists>p tbl. rotate_refresh (r_org stored) (stored\<lparr>r_scope := scope\<rparr>) old (te_fresh env) now (te_dbnow env) (tw_tokens w) = Inr (p, tbl)
      \<and> snd (rotate env stored scope old now w) = w\<lparr>tw_tokens := tbl\<rparr>)"
proof -
  let ?body = "\<lambda>org w. bindE (rotate_refresh org (stored\<lparr>r_scope := scope\<rparr>) old (te_fresh env) now (te_dbnow env) (tw_tokens w))
                (\<lambda>(p, tbl). Inr (p, w\<lparr>tw_tokens := tbl\<rparr>))"
  have "snd (rotate env stored scope old now w) = snd (with_tenant (te_fault env RotateTx) (r_org stored) ?body w)"
    by (simp add: rotate_def split: prod.splits sum.splits)
  then show ?thesis
    using with_tenant_state [of "te_fault env RotateTx" "r_org stored" ?body w]
    by (auto simp: bindE_Inr_iff split: prod.splits)
qed

lemma rotate_ok:
  "rotate env stored scope old now w = (Inr p, w') \<Longrightarrow>
   \<exists>tbl. rotate_refresh (r_org stored) (stored\<lparr>r_scope := scope\<rparr>) old (te_fresh env) now (te_dbnow env) (tw_tokens w) = Inr (p, tbl)
      \<and> w' = w\<lparr>tw_tokens := tbl\<rparr>"
  by (auto simp: rotate_def with_tenant_ok bindE_Inr_iff split: prod.splits sum.splits if_splits)

lemma kill_family_effect:
  "tw_tokens (kill_family env l app now w) = tw_tokens w \<or>
   tw_tokens (kill_family env l app now w) = fst (revoke_family (l_org l) (l_family l) (tw_tokens w))"
  using with_tenant_state [of "te_fault env KillTx" "l_org l" "kill_body env l app now" w]
  by (auto simp: kill_family_def kill_body_def Let_def bindE_Inr_iff split: prod.splits if_splits)

lemma detect_reuse_effect:
  "tw_tokens (snd (detect_reuse env p app now w)) = tw_tokens w \<or>
   (\<exists>l. lookup_lineage (tw_tokens w) p = Inr l \<and>
     tw_tokens (snd (detect_reuse env p app now w)) = fst (revoke_family (l_org l) (l_family l) (tw_tokens w)))"
  using kill_family_effect [of env _ app now w] by (fastforce simp: detect_reuse_def split: sum.splits)

lemma detect_reuse_pass:
  "detect_reuse env p app now w = (Inr (False, old), w') \<Longrightarrow> w' = w \<and>
     ((\<exists>e. lookup_lineage (tw_tokens w) p = Inl e) \<and> old = [] \<or>
      (\<exists>l. lookup_lineage (tw_tokens w) p = Inr l \<and>
        (if rotated l then legitimate_retry l now rotation_grace \<and> old = l_replaced_by l else old = [])))"
  by (auto simp: detect_reuse_def split: sum.splits if_splits)

lemma lookup_refreshE:
  assumes "lookup_refresh tbl p now = Inr r"
  obtains t where "t \<in> set tbl" "rt_hash t = hash_refresh p" "token_live now t" "r = refresh_of_row t"
proof -
  from assms obtain t where t: "List.find (\<lambda>t. rt_hash t = hash_refresh p \<and> token_live now t) tbl = Some t"
    and r: "r = refresh_of_row t"
    by (auto simp: lookup_refresh_def refresh_token_by_hash_def split: option.splits)
  from find_Some_in [OF t] r show thesis by (intro that [of t]) auto
qed

lemma lookup_lineage_row:
  assumes "wf_table tbl" "t \<in> set tbl" "rt_hash t = hash_refresh p"
  shows "lookup_lineage tbl p = Inr (lineage_of tbl t)"
proof -
  have "List.find (\<lambda>t. rt_hash t = hash_refresh p) tbl = Some t"
    using assms by (intro find_unique) (auto dest: wf_unique_hash)
  then show ?thesis by (simp add: lookup_lineage_def)
qed

text \<open>The link between the two reads of a refresh: a token that passes detection may be rotated.\<close>

lemma pass_rotatable:
  assumes inv: "refresh_inv now (tw_tokens w)"
    and pass: "detect_reuse env p app now w = (Inr (False, old), w')"
    and look: "lookup_refresh (tw_tokens w) p now = Inr stored"
  shows "rotatable now (tw_tokens w) (stored\<lparr>r_scope := scope\<rparr>) old"
proof -
  let ?tbl = "tw_tokens w"
  from look obtain t where t: "t \<in> set ?tbl" "rt_hash t = hash_refresh p" "token_live now t" "stored = refresh_of_row t"
    by (rule lookup_refreshE)
  from inv have wf: "wf_table ?tbl" and lk: "links_ok ?tbl" by (simp_all add: refresh_inv_def)
  from detect_reuse_pass [OF pass] lookup_lineage_row [OF wf t(1,2)]
  have d: "if rotated (lineage_of ?tbl t) then legitimate_retry (lineage_of ?tbl t) now rotation_grace
      \<and> old = null_string (rt_replaced_by t) else old = []"
    by (auto simp: lineage_of_def)
  have "old = [] \<and> rt_replaced_by t = None \<or> rt_replaced_by t = Some old \<and>
      (\<forall>u \<in> set ?tbl. rt_id u = old \<longrightarrow> \<not> rt_revoked u \<and> rt_replaced_by u = None)"
  proof (cases "rt_replaced_by t")
    case None
    with d show ?thesis by (auto simp: rotated_def lineage_of_def null_string_def legitimate_retry_def split: if_splits)
  next
    case (Some s)
    with lk t(1) have "s \<noteq> []" by (auto simp: links_ok_def)
    moreover from lk t(1) Some obtain u where u: "u \<in> set ?tbl" "rt_id u = s" by (auto simp: links_ok_def)
    moreover from u wf have "find_id ?tbl s = Some u" using find_id_Some by blast
    ultimately have "old = s \<and> \<not> rt_revoked u \<and> rt_replaced_by u = None"
      using d Some by (auto simp: rotated_def lineage_of_def null_string_def legitimate_retry_def successor_of_def split: if_splits)
    with u wf Some show ?thesis by (auto dest: wf_unique_id)
  qed
  with t show ?thesis unfolding rotatable_def
    by (intro bexI [of _ t]) (auto simp: refresh_of_row_def)
qed

section \<open>The effect of a request on the table\<close>

text \<open>
  One request changes the table by at most one of these steps: a new family, a rotation of a
  rotatable token, or the kill of a family.
\<close>

inductive table_step :: "time \<Rightarrow> fresh \<Rightarrow> time \<Rightarrow> rt_table \<Rightarrow> rt_table \<Rightarrow> bool"
  for now fr dbnow tbl where
  unchanged: "table_step now fr dbnow tbl tbl"
| new_family: "issue_refresh org i [] fr now dbnow tbl = Inr ((p, fam), tbl') \<Longrightarrow> table_step now fr dbnow tbl tbl'"
| rotation: "rotatable now tbl pr old \<Longrightarrow> rotate_refresh org pr old fr now dbnow tbl = Inr (p, tbl') \<Longrightarrow>
    table_step now fr dbnow tbl tbl'"
| kill: "table_step now fr dbnow tbl (fst (revoke_family org fam tbl))"

lemma issue_tokens_step:
  "table_step now (te_fresh env) (te_dbnow env) (tw_tokens w) (tw_tokens (snd (issue_tokens env app s scope wid mint now w)))"
proof (cases "snd (issue_tokens env app s scope wid mint now w) = w")
  case False
  then have "snd (issue_tokens env app s scope wid mint now w) = snd (mint_refresh env app (roles_for env s app) scope now w)"
    by (auto simp: issue_tokens_def Let_def split: sum.splits prod.splits if_splits)
  with mint_refresh_effect [of env app "roles_for env s app" scope now w] show ?thesis
    by (auto intro: table_step.intros)
qed (simp add: unchanged)

lemma issue_tokens_no_mint: "snd (issue_tokens env app s scope wid False now w) = w"
  by (simp add: issue_tokens_def Let_def split: sum.splits)

lemma authorization_code_step:
  "table_step now (te_fresh env) (te_dbnow env) (tw_tokens w) (tw_tokens (snd (authorization_code env app f now w)))"
proof -
  obtain r st where r: "redeem_code (te_redis env) now (form_get f ''code'') (tw_codes w) = (r, st)" by fastforce
  have *: "snd (authorization_code env app f now w) = w\<lparr>tw_codes := st\<rparr> \<or>
    (\<exists>s scope wid. snd (authorization_code env app f now w) = snd (issue_tokens env app s scope wid True now (w\<lparr>tw_codes := st\<rparr>)))"
    unfolding authorization_code_def r prod.case Let_def
    by (auto split: sum.splits prod.splits) (metis snd_conv)+
  then show ?thesis
    using issue_tokens_step [of now env "w\<lparr>tw_codes := st\<rparr>" app _ _ _ True] by (auto simp: unchanged)
qed

lemma detect_reuse_step:
  "table_step now fr dbnow (tw_tokens w) (tw_tokens (snd (detect_reuse env p app n w)))"
  using detect_reuse_effect [of env p app n w] by (auto intro: table_step.intros)

lemma refresh_checksE:
  assumes "refresh_checks env presented app f now tbl = Inr (stored, scope)"
  shows "lookup_refresh tbl presented now = Inr stored" "r_client stored = app_id app"
    "\<not> session_gone env stored now" "mandate_check env stored now = Inr ()"
    "narrow_scope (r_scope stored) (parse_scope (form_get f ''scope'')) = Inr scope"
  using assms by (auto simp: refresh_checks_def lift_oauth_def bindE_Inr_iff split: sum.splits if_splits)

text \<open>How a refresh runs once its token passed detection: nothing is written before the rotation.\<close>

lemma refresh_token_cases:
  assumes "form_get f ''refresh_token'' \<noteq> []"
    and "detect_reuse env (form_get f ''refresh_token'') app now w = (Inr (False, old), w)"
    and "refresh_checks env (form_get f ''refresh_token'') app f now (tw_tokens w) = Inr (stored, scope)"
  shows "refresh_token env app f now w =
    (case issue_tokens env app (refresh_subject env app stored scope) scope False False now w of
       (Inl e, _) \<Rightarrow> (Inl e, w)
     | (Inr out, _) \<Rightarrow>
         (case rotate env stored scope old now w of
            (Inl e, w') \<Rightarrow> (Inl e, w')
          | (Inr p, w') \<Rightarrow> (Inr (out\<lparr>tr_refresh := p\<rparr>, r_user stored), w')))"
proof -
  obtain r where "issue_tokens env app (refresh_subject env app stored scope) scope False False now w = (r, w)"
    using issue_tokens_no_mint [of env app "refresh_subject env app stored scope" scope False now w]
    by (metis prod.collapse)
  with assms show ?thesis by (simp add: refresh_token_def split: sum.splits prod.splits)
qed

lemma rotate_step:
  assumes inv: "refresh_inv now (tw_tokens w)"
    and pass: "detect_reuse env p app now w = (Inr (False, old), w)"
    and look: "lookup_refresh (tw_tokens w) p now = Inr stored"
  shows "table_step now (te_fresh env) (te_dbnow env) (tw_tokens w) (tw_tokens (snd (rotate env stored scope old now w)))"
  using rotate_effect [of env stored scope old now w] pass_rotatable [OF inv pass look, of scope]
  by (auto intro: table_step.intros)

lemma refresh_token_step:
  assumes inv: "refresh_inv now (tw_tokens w)"
  shows "table_step now (te_fresh env) (te_dbnow env) (tw_tokens w) (tw_tokens (snd (refresh_token env app f now w)))"
proof -
  let ?p = "form_get f ''refresh_token''"
  obtain d w1 where d: "detect_reuse env ?p app now w = (d, w1)" by fastforce
  show ?thesis
  proof (cases "?p \<noteq> [] \<and> (\<exists>old. d = Inr (False, old)) \<and> is_ok (refresh_checks env ?p app f now (tw_tokens w1))")
    case True
    then obtain old stored scope where *: "?p \<noteq> []" "d = Inr (False, old)"
      "refresh_checks env ?p app f now (tw_tokens w1) = Inr (stored, scope)"
      by (auto simp: is_ok_def split: sum.splits)
    with d detect_reuse_pass have w1: "w1 = w" by blast
    show ?thesis
      using rotate_step [OF inv, of env ?p app old stored scope] refresh_token_cases [of f env app now w old stored scope]
        refresh_checksE(1) [OF *(3)] * d w1
      by (auto simp: unchanged split: sum.splits prod.splits)
  next
    case False
    then have "snd (refresh_token env app f now w) = w \<or> snd (refresh_token env app f now w) = w1"
      by (auto simp: refresh_token_def d Let_def is_ok_def split: sum.splits)
    then show ?thesis
      using detect_reuse_step [of now "te_fresh env" "te_dbnow env" w env ?p app now] d by (auto simp: unchanged)
  qed
qed

lemma audit_issued_effect: "\<exists>log. audit_issued env app u g s w = w\<lparr>tw_events := log\<rparr>"
proof -
  let ?body = "\<lambda>org w. bindE (write_event (te_stored env AuditTx) org (issued_event app u g s) (tw_events w))
           (\<lambda>log. Inr ((), w\<lparr>tw_events := log\<rparr>))"
  have "\<exists>log. snd (with_tenant (te_fault env AuditTx) (app_org app) ?body w) = w\<lparr>tw_events := log\<rparr>"
    using with_tenant_state [of "te_fault env AuditTx" "app_org app" ?body w]
    by (auto simp: bindE_Inr_iff intro: exI [of _ "tw_events w"]) metis
  then show ?thesis by (auto simp: audit_issued_def intro: exI [of _ "tw_events w"])
qed

lemma audit_issued_tokens [frame_simps]: "tw_tokens (audit_issued env app u g s w) = tw_tokens w"
  using audit_issued_effect [of env app u g s w] by auto

lemma fail_tokens [frame_simps]: "tw_tokens (snd (fail g e w)) = tw_tokens w"
  by (simp add: fail_def)

lemma run_grant_step:
  "refresh_inv now (tw_tokens w) \<Longrightarrow>
   table_step now (te_fresh env) (te_dbnow env) (tw_tokens w) (tw_tokens (snd (run_grant env app g f now w)))"
  by (simp add: run_grant_def authorization_code_step refresh_token_step unchanged)

lemma serve_token_tokens:
  "tw_tokens (snd (serve_token env r now w)) =
     (case identify env r now of Inl _ \<Rightarrow> tw_tokens w
      | Inr (app, g) \<Rightarrow> tw_tokens (snd (run_grant env app g (r_form r) now w)))"
  by (simp add: serve_token_def frame_simps Let_def split: sum.splits prod.splits)

lemma serve_token_step:
  "refresh_inv now (tw_tokens w) \<Longrightarrow>
   table_step now (te_fresh env) (te_dbnow env) (tw_tokens w) (tw_tokens (snd (serve_token env r now w)))"
  by (auto simp: serve_token_tokens run_grant_step unchanged split: sum.splits)

section \<open>What a step keeps\<close>

definition fresh_for :: "fresh \<Rightarrow> rt_table \<Rightarrow> bool" where
  "fresh_for fr tbl \<longleftrightarrow> f_id fr \<noteq> [] \<and> f_family fr \<noteq> [] \<and> f_family fr \<notin> rt_family ` set tbl"

lemma table_step_inv:
  "table_step now fr dbnow tbl tbl' \<Longrightarrow> refresh_inv now tbl \<Longrightarrow> fresh_for fr tbl \<Longrightarrow> refresh_inv now tbl'"
  by (induction rule: table_step.induct)
    (auto simp: fresh_for_def intro: issue_refresh_inv rotate_refresh_inv revocations_inv)

definition family_dead :: "string \<Rightarrow> rt_table \<Rightarrow> bool" where
  "family_dead fam tbl \<longleftrightarrow> (\<forall>t \<in> set tbl. rt_family t = fam \<longrightarrow> rt_revoked t)"

lemma rot_update_revoked: "rt_revoked t \<Longrightarrow> rt_revoked (rot_update org i old new t)"
  by (simp add: rot_update_def Let_def)

text \<open>The absolute expiry of a family, once set, is the expiry of every later member.\<close>

definition family_capped :: "string \<Rightarrow> time \<Rightarrow> rt_table \<Rightarrow> bool" where
  "family_capped fam cap tbl \<longleftrightarrow> (\<forall>t \<in> set tbl. rt_family t = fam \<longrightarrow> rt_family_expires t = cap)"

end
