(* ===== verification/TokenProps.thy ===== *)
theory TokenProps
  imports TokenFacts
begin

text \<open>
  The properties of the token endpoint: single use and binding of authorization codes, the course
  of a refresh, reuse detection, what a caller that is not identified can change, and the
  audit log. The concrete environment of the witnesses comes first.
\<close>

section \<open>A concrete environment\<close>

definition demo_app :: application where
  "demo_app = \<lparr>app_id = ''web'', app_org = ''org'', app_project = ''prj'', app_name = ''Web'', app_type = TypeSPA,
     redirect_uris = [''https://a/cb''], post_logout_uris = [],
     grant_types = [grant_authorization_code, grant_refresh_token], allowed_origins = []\<rparr>"

definition demo_env :: "auth_code blob ttl_map token_env" where
  "demo_env = \<lparr>te_issuer = ''iss'', te_client = (\<lambda>i. if i = ''web'' then Some demo_app else None),
     te_credentials = (\<lambda>_. Some \<lparr>cred_hash = [], cred_previous = [], cred_previous_expires = zero_time\<rparr>),
     te_redis = ttl_redis (\<lambda>_. False), te_live = Some (\<lambda>s _. s = ''ses''), te_mandate = Some (\<lambda>_ _ _. Some False),
     te_roles = Some (\<lambda>_ _ _. Some \<lparr>rcl_keys = [''admin''], rcl_manager = [], rcl_org = []\<rparr>),
     te_sign = (\<lambda>_ typ. Some (''signed-'' @ typ)), te_audit = True, te_lineage_ok = True, te_lookup_ok = True,
     te_fault = (\<lambda>_. TxOk), te_stored = (\<lambda>_. True),
     te_fresh = \<lparr>f_id = ''r1'', f_family = ''fam1'', f_bytes = Some (replicate 32 1)\<rparr>, te_dbnow = 1000\<rparr>"

definition demo_verifier :: string where
  "demo_verifier = ''dBjftJeZ4CVP-mB92K27uhbUJU1p1r_wW1gFWFOEjXk''"

definition demo_code :: auth_code where
  "demo_code = \<lparr>ac_client = ''web'', ac_redirect = ''https://a/cb'', ac_user = ''usr'', ac_org = ''org'',
     ac_session = ''ses'', ac_scope = [''openid'', ''offline_access''], ac_nonce = [],
     ac_challenge = s256 demo_verifier, ac_auth_methods = [''pwd''], ac_auth_time = 500, ac_issued = 900\<rparr>"

definition demo_world :: "rt_table \<Rightarrow> auth_code blob ttl_map token_world" where
  "demo_world tbl = \<lparr>tw_tokens = tbl, tw_codes = [code_key ''abc'' \<mapsto> (Blob demo_code, 30000000000)],
     tw_events = [], tw_reuse = 0, tw_issued = [], tw_denied = []\<rparr>"

definition demo_form :: form where
  "demo_form = form_of [(''grant_type'', [''authorization_code'']), (''client_id'', [''web'']), (''code'', [''abc'']),
     (''redirect_uri'', [''https://a/cb'']), (''code_verifier'', [demo_verifier])]"

lemmas demo_defs = demo_app_def demo_env_def demo_code_def demo_world_def demo_form_def

text \<open>A family of two: \<open>r0\<close> was rotated into \<open>r1\<close> at time 100.\<close>

definition demo_row :: "string \<Rightarrow> string \<Rightarrow> string option \<Rightarrow> time \<Rightarrow> rt_row" where
  "demo_row i h next created = \<lparr>rt_id = i, rt_user = ''usr'', rt_client = ''web'', rt_org = ''org'', rt_session = Some ''ses'',
     rt_family = ''fam0'', rt_replaced_by = next, rt_hash = h, rt_scope = [''openid'', ''offline_access''],
     rt_expires = 100000000000, rt_family_expires = 200000000000, rt_revoked = False, rt_created = created\<rparr>"

definition demo_family :: rt_table where
  "demo_family = [demo_row ''r0'' (hash_refresh ''old'') (Some ''s0'') 0, demo_row ''s0'' ''other'' None 100]"

lemma hex_digit_not_space: "n < 16 \<Longrightarrow> hex_digit n \<noteq> CHR '' ''"
proof -
  assume "n < 16"
  then have "hex_digit n \<in> set ''0123456789abcdef''" unfolding hex_digit_def by (intro nth_mem) simp
  then show ?thesis by auto
qed

lemma hash_refresh_row_ok: "list_ex (\<lambda>c. c \<noteq> CHR '' '') (hash_refresh s)"
proof -
  obtain b bs where b: "sha256 (bytes_of s) = b # bs"
    using length_sha256 [of "bytes_of s"] by (cases "sha256 (bytes_of s)") auto
  have "unat b < 2 ^ LENGTH(8)" by (rule unsigned_less)
  then have "unat b div 16 < 16" by simp
  then show ?thesis
    using hex_digit_not_space [of "unat b div 16"] by (simp add: hash_refresh_def b hex_encode_def hex_byte_def)
qed

lemma length_hash_refresh: "length (hash_refresh s) = 64"
  by (simp add: hash_refresh_def)

lemma hash_refresh_neq [simp]: "length h \<noteq> 64 \<Longrightarrow> hash_refresh s \<noteq> h" "length h \<noteq> 64 \<Longrightarrow> h \<noteq> hash_refresh s"
  using length_hash_refresh [of s] by auto

lemma demo_family_inv: "refresh_inv now demo_family" if "0 \<le> now"
  using that
  by (simp add: demo_family_def demo_row_def refresh_inv_def wf_table_def row_ok_def hash_refresh_row_ok
      family_agrees_def same_owner_def links_ok_def single_tip_def tip_def expiry_bounded_def lifetime_defs)

section \<open>The invariant of the refresh-token table\<close>

text \<open>
  C1. Whatever request the token endpoint serves, and whatever of its collaborators fails, the
  table of refresh tokens keeps its invariant: ids and hashes stay unique, a family keeps one
  owner and one absolute expiry, links stay inside the family, and no family has two usable tips.
  The ids drawn by the request are fresh.
\<close>

theorem serve_token_invariant:
  assumes "refresh_inv now (tw_tokens w)" and "fresh_for (te_fresh env) (tw_tokens w)"
  shows "refresh_inv now (tw_tokens (snd (serve_token env r now w)))"
  using table_step_inv [OF serve_token_step] assms by blast

theorem serve_token_invariant_witness:
  "refresh_inv 1000 (tw_tokens (snd (serve_token demo_env
     \<lparr>r_method = ''POST'', r_form_ok = True, r_form = demo_form, r_basic = None\<rparr> 1000 (demo_world demo_family))))"
proof (rule serve_token_invariant)
  show "refresh_inv 1000 (tw_tokens (demo_world demo_family))"
    using demo_family_inv [of 1000] by (simp add: demo_world_def)
  show "fresh_for (te_fresh demo_env) (tw_tokens (demo_world demo_family))"
    by (simp add: fresh_for_def demo_defs demo_family_def demo_row_def)
qed

section \<open>Authorization codes\<close>

lemma redeem_state:
  "rd_getdel rd now (code_key c) st = (ro, st') \<Longrightarrow> c \<noteq> [] \<Longrightarrow> snd (redeem_code rd now c st) = st'"
  by (auto simp: redeem_code_def split: sum.splits option.splits blob.splits)

lemma issue_tokens_codes [frame_simps]:
  "tw_codes (snd (issue_tokens env app s scope wid mint now w)) = tw_codes w"
  using mint_refresh_effect [of env app "roles_for env s app" scope now w]
  by (auto simp: issue_tokens_def Let_def split: sum.splits prod.splits)

lemma authorization_code_codes:
  "tw_codes (snd (authorization_code env app f now w)) =
     snd (redeem_code (te_redis env) now (form_get f ''code'') (tw_codes w))"
proof -
  obtain r st where r: "redeem_code (te_redis env) now (form_get f ''code'') (tw_codes w) = (r, st)" by fastforce
  show ?thesis
    using issue_tokens_codes [of env app _ _ True True now "w\<lparr>tw_codes := st\<rparr>"]
    by (auto simp: authorization_code_def r Let_def split: sum.splits prod.splits) (metis snd_conv token_world.select_convs(2) token_world.surjective token_world.update_convs(2))+
qed

text \<open>
  C4. An authorization code is spent by the first request that presents it, before the client,
  the redirect URI or the verifier is looked at: whatever that request's outcome, any later
  request with the same code, from any client, is answered that the code is not valid.
\<close>

theorem authorization_code_single_use:
  assumes "redis (te_redis env)"
    and "rd_getdel (te_redis env) now (code_key (form_get f ''code'')) (tw_codes w) = (Inr v, st)"
    and "form_get f' ''code'' = form_get f ''code''" and "now \<le> now'"
    and "tw_codes w' = tw_codes (snd (authorization_code env app f now w))"
  shows "fst (authorization_code env app' f' now' w') = Inl (invalid_grant CodeInvalid)"
proof (cases "form_get f ''code'' = []")
  case True
  then show ?thesis using assms(3) by (simp add: authorization_code_def redeem_code_def)
next
  case False
  let ?c = "form_get f ''code''"
  have "tw_codes w' = st"
    using assms(5) authorization_code_codes [of env app f now w] redeem_state [OF assms(2) False] by simp
  then have gone: "gone_at (rd_contents (te_redis env)) now (code_key ?c) (tw_codes w')"
    using redis.getdel_ok [OF assms(1,2)] by simp
  obtain r st' where r: "redeem_code (te_redis env) now' ?c (tw_codes w') = (r, st')" by fastforce
  with redeem_code_gone [OF assms(1) gone assms(4) r] have "\<not> is_ok r" by simp
  with r assms(3) show ?thesis by (auto simp: authorization_code_def is_ok_def Let_def split: sum.splits)
qed

theorem authorization_code_single_use_witness:
  "fst (authorization_code demo_env demo_app demo_form 2000
     (snd (authorization_code demo_env demo_app (form_of [(''code'', [''abc''])]) 1000 (demo_world []))))
   = Inl (invalid_grant CodeInvalid)"
proof (rule authorization_code_single_use)
  show "redis (te_redis demo_env)" by (simp add: demo_env_def ttl.redis_axioms)
  show "rd_getdel (te_redis demo_env) 1000 (code_key (form_get (form_of [(''code'', [''abc''])]) ''code''))
      (tw_codes (demo_world [])) = (Inr (Some (Blob demo_code)), (tw_codes (demo_world []))(code_key ''abc'' := None))"
    by (simp add: demo_env_def demo_world_def ttl_defs form_get_def form_of_def)
qed (simp_all add: form_get_def form_of_def demo_form_def)

lemma issue_tokens_ok:
  assumes "issue_tokens env app s scope wid mint now w = (Inr out, w')"
  shows "\<exists>ac. access_token_claims (roles_for env s app) now = Inr ac \<and>
      te_sign env ac type_access_token = Some (tr_access out)"
    "tr_scope out = join_space scope"
    "\<not> (wid \<and> ''openid'' \<in> set scope) \<longrightarrow> tr_id out = []"
    "if mint \<and> ''offline_access'' \<in> set scope
     then mint_refresh env app (roles_for env s app) scope now w = (Inr (tr_refresh out), w')
     else tr_refresh out = [] \<and> w' = w"
  using assms
  by (auto simp: issue_tokens_def signed_tokens_def sign_claims_def plain_def bindE_Inr_iff Let_def
      split: sum.splits prod.splits if_splits option.splits)

lemma roles_for_keeps [simp]:
  "s_org (roles_for env s app) = s_org s" "s_user (roles_for env s app) = s_user s"
  "s_session (roles_for env s app) = s_session s" "s_client (roles_for env s app) = s_client s"
  "s_issuer (roles_for env s app) = s_issuer s" "s_scope (roles_for env s app) = s_scope s"
  by (simp_all add: roles_for_def split: option.splits)

text \<open>
  C5. A code buys tokens only for the client and the redirect URI it was issued to, and only with
  the verifier whose S256 challenge it carries; what is signed are the claims of the user, session
  and scope the code was bound to, and a refresh token is minted exactly when \<open>offline_access\<close> was
  granted, as a live row of that user, client and session.
\<close>

theorem authorization_code_binding:
  assumes "redis (te_redis env)"
    and "authorization_code env app f now w = (Inr (out, user), w')"
  shows "\<exists>c. rd_contents (te_redis env) (tw_codes w) now (code_key (form_get f ''code'')) = Some (Blob c) \<and>
    ac_client c = app_id app \<and> ac_redirect c = form_get f ''redirect_uri'' \<and>
    ac_challenge c = s256 (form_get f ''code_verifier'') \<and> 43 \<le> length (form_get f ''code_verifier'') \<and>
    user = ac_user c \<and> tr_scope out = join_space (ac_scope c) \<and>
    (\<exists>ac. access_token_claims (roles_for env (code_subject env app c) app) now = Inr ac \<and>
       te_sign env ac type_access_token = Some (tr_access out)) \<and>
    (if ''offline_access'' \<in> set (ac_scope c) then
       \<exists>row. tw_tokens w' = tw_tokens w @ [row] \<and> rt_hash row = hash_refresh (tr_refresh out) \<and>
         rt_user row = ac_user c \<and> rt_client row = app_id app \<and> rt_org row = ac_org c \<and>
         rt_session row = session_of (ac_session c) \<and> rt_scope row = ac_scope c \<and> \<not> rt_revoked row
     else tr_refresh out = [] \<and> tw_tokens w' = tw_tokens w)"
proof -
  obtain r st where r: "redeem_code (te_redis env) now (form_get f ''code'') (tw_codes w) = (r, st)" by fastforce
  let ?w = "w\<lparr>tw_codes := st\<rparr>"
  from assms(2) obtain c where c: "r = Inr c" "ac_client c = app_id app" "ac_redirect c = form_get f ''redirect_uri''"
    "verify_pkce (ac_challenge c) (form_get f ''code_verifier'') = Inr ()" "user = ac_user c"
    and iss: "issue_tokens env app (code_subject env app c) (ac_scope c) True True now ?w = (Inr out, w')"
    by (auto simp: authorization_code_def r Let_def split: sum.splits prod.splits if_splits)
  note i = issue_tokens_ok [OF iss]
  have cont: "rd_contents (te_redis env) (tw_codes w) now (code_key (form_get f ''code'')) = Some (Blob c)"
    using r c(1) redis.getdel_ok [OF assms(1), of now "code_key (form_get f ''code'')" "tw_codes w"]
    by (auto simp: redeem_code_def split: if_splits prod.splits sum.splits option.splits blob.splits)
  have row: "\<exists>row. tw_tokens w' = tw_tokens w @ [row] \<and> rt_hash row = hash_refresh (tr_refresh out) \<and>
      rt_user row = ac_user c \<and> rt_client row = app_id app \<and> rt_org row = ac_org c \<and>
      rt_session row = session_of (ac_session c) \<and> rt_scope row = ac_scope c \<and> \<not> rt_revoked row"
    if "''offline_access'' \<in> set (ac_scope c)"
  proof -
    from i(4) that have "mint_refresh env app (roles_for env (code_subject env app c) app) (ac_scope c) now ?w
        = (Inr (tr_refresh out), w')" by simp
    from mint_refresh_ok [OF this] show ?thesis
      by (elim exE conjE issue_refreshE) (auto simp: minted_def code_subject_def)
  qed
  show ?thesis
    using cont c i row by (intro exI [of _ c]) (auto simp: verify_pkce_ok_iff split: if_splits)
qed

lemma demo_verifier_ok: "verify_pkce (s256 demo_verifier) demo_verifier = Inr ()"
  unfolding verify_pkce_ok_iff demo_verifier_def by (intro conjI refl; code_simp)

lemma demo_minted: "is_ok (issue_refresh ''org'' i [] (te_fresh demo_env) 1000 1000 [])" if "r_org i = ''org''"
  using that hash_refresh_row_ok
  by (simp add: issue_refresh_def new_refresh_plaintext_def demo_env_def insert_row_def row_ok_def
      time_add_def lifetime_defs Let_def)

lemma demo_exchange:
  "\<exists>out w'. authorization_code demo_env demo_app demo_form 1000 (demo_world []) = (Inr (out, ''usr''), w')"
proof -
  have [simp]: "te_redis demo_env = ttl_redis (\<lambda>_. False)" "te_fault demo_env IssueTx = TxOk" "te_dbnow demo_env = 1000"
    "tw_tokens (demo_world [] \<lparr>tw_codes := st\<rparr>) = []" for st
    by (simp_all add: demo_env_def demo_world_def)
  have red: "redeem_code (ttl_redis (\<lambda>_. False)) 1000 ''abc'' (tw_codes (demo_world [])) =
      (Inr demo_code, (tw_codes (demo_world []))(code_key ''abc'' := None))"
    by (simp add: redeem_code_def ttl_defs demo_world_def)
  have form: "form_get demo_form ''code'' = ''abc''" "form_get demo_form ''redirect_uri'' = ''https://a/cb''"
    "form_get demo_form ''code_verifier'' = demo_verifier"
    by (simp_all add: demo_form_def form_get_def form_of_def)
  let ?s = "roles_for demo_env (code_subject demo_env demo_app demo_code) demo_app"
  let ?scope = "[''openid'', ''offline_access'']"
  let ?w = "(demo_world [])\<lparr>tw_codes := (tw_codes (demo_world []))(code_key ''abc'' := None)\<rparr>"
  have code: "ac_client demo_code = ''web''" "ac_redirect demo_code = ''https://a/cb''" "ac_user demo_code = ''usr''"
    "ac_challenge demo_code = s256 demo_verifier" "ac_scope demo_code = ?scope" "app_id demo_app = ''web''"
    by (simp_all add: demo_code_def demo_app_def)
  have "is_ok (signed_tokens demo_env ?s ?scope True 1000)"
    by (simp add: signed_tokens_def plain_def sign_claims_def access_token_claims_def id_token_claims_def
        validate_subject_def roles_for_def code_subject_def demo_defs Let_def)
  then obtain out where sig: "signed_tokens demo_env ?s ?scope True 1000 = Inr out"
    by (auto simp: is_ok_def split: sum.splits)
  have so: "s_org (code_subject demo_env demo_app demo_code) = ''org''" by (simp add: code_subject_def demo_code_def)
  obtain p fam tbl where iss: "issue_refresh ''org'' (minted ?s demo_app ?scope) [] (te_fresh demo_env) 1000 1000 [] = Inr ((p, fam), tbl)"
    using demo_minted [of "minted ?s demo_app ?scope"] so by (auto simp: minted_def is_ok_def split: sum.splits)
  have "mint_refresh demo_env demo_app ?s ?scope 1000 ?w = (Inr p, ?w\<lparr>tw_tokens := tbl\<rparr>)"
    by (simp add: mint_refresh_def with_tenant_def with_scope_def so iss)
  then show ?thesis
    by (simp add: authorization_code_def form red code demo_verifier_ok issue_tokens_def Let_def sig)
qed

theorem authorization_code_binding_witness:
  "\<exists>out w' row. authorization_code demo_env demo_app demo_form 1000 (demo_world []) = (Inr (out, ''usr''), w') \<and>
     tw_tokens w' = [row] \<and> rt_client row = ''web'' \<and> rt_session row = Some ''ses'' \<and>
     rt_hash row = hash_refresh (tr_refresh out)"
proof -
  obtain out w' where ex: "authorization_code demo_env demo_app demo_form 1000 (demo_world []) = (Inr (out, ''usr''), w')"
    using demo_exchange by blast
  have "redis (te_redis demo_env)" by (simp add: demo_env_def ttl.redis_axioms)
  from authorization_code_binding [OF this ex] obtain c where
    c: "rd_contents (te_redis demo_env) (tw_codes (demo_world [])) 1000 (code_key (form_get demo_form ''code'')) = Some (Blob c)"
    and r: "if ''offline_access'' \<in> set (ac_scope c) then
       \<exists>row. tw_tokens w' = tw_tokens (demo_world []) @ [row] \<and> rt_hash row = hash_refresh (tr_refresh out) \<and>
         rt_user row = ac_user c \<and> rt_client row = app_id demo_app \<and> rt_org row = ac_org c \<and>
         rt_session row = session_of (ac_session c) \<and> rt_scope row = ac_scope c \<and> \<not> rt_revoked row
     else tr_refresh out = [] \<and> tw_tokens w' = tw_tokens (demo_world [])"
    by blast
  from c have "c = demo_code"
    by (simp add: demo_env_def demo_world_def ttl_defs form_get_def form_of_def demo_form_def)
  with r ex show ?thesis
    by (auto simp: demo_code_def demo_app_def demo_world_def session_of_def)
qed

section \<open>Refresh\<close>

text \<open>
  C3. A refresh that succeeds presented the live token of the calling client, its session still
  lives, and its scope is not widened; the answer's refresh token is a new live row of the same
  family, owner and absolute expiry, the presented row now links to it, and no ID token is issued.
\<close>

theorem refresh_success:
  assumes inv: "refresh_inv now (tw_tokens w)"
    and run: "refresh_token env app f now w = (Inr (out, user), w')"
  shows "\<exists>t \<in> set (tw_tokens w). \<exists>row \<in> set (tw_tokens w').
    rt_hash t = hash_refresh (form_get f ''refresh_token'') \<and> token_live now t \<and> rt_client t = app_id app \<and>
    \<not> session_gone env (refresh_of_row t) now \<and> user = rt_user t \<and>
    rt_hash row = hash_refresh (tr_refresh out) \<and> rt_family row = rt_family t \<and> same_owner row t \<and>
    \<not> rt_revoked row \<and> rt_replaced_by row = None \<and> set (rt_scope row) \<subseteq> set (rt_scope t) \<and>
    tr_scope out = join_space (rt_scope row) \<and> tr_id out = [] \<and>
    (\<exists>t' \<in> set (tw_tokens w'). rt_id t' = rt_id t \<and> rt_replaced_by t' = Some (rt_id row))"
proof -
  let ?p = "form_get f ''refresh_token''" and ?tbl = "tw_tokens w"
  from run obtain old stored scope w1 where d: "?p \<noteq> []" "detect_reuse env ?p app now w = (Inr (False, old), w1)"
    "refresh_checks env ?p app f now (tw_tokens w1) = Inr (stored, scope)"
    by (auto simp: refresh_token_def Let_def split: sum.splits prod.splits if_splits)
  with detect_reuse_pass have "w1 = w" by blast
  note d = d [unfolded this]
  note chk = refresh_checksE [OF d(3)]
  from run refresh_token_cases [OF d] obtain out0 p w2 where
    iss: "issue_tokens env app (refresh_subject env app stored scope) scope False False now w = (Inr out0, w2)"
    and rot: "rotate env stored scope old now w = (Inr p, w')"
    and out: "out = out0\<lparr>tr_refresh := p\<rparr>" "user = r_user stored"
    by (auto split: sum.splits prod.splits)
  from rotate_ok [OF rot] obtain tbl' where
    r: "rotate_refresh (r_org stored) (stored\<lparr>r_scope := scope\<rparr>) old (te_fresh env) now (te_dbnow env) ?tbl = Inr (p, tbl')"
    and w': "w' = w\<lparr>tw_tokens := tbl'\<rparr>" by blast
  from chk(1) obtain t where t: "t \<in> set ?tbl" "rt_hash t = hash_refresh ?p" "token_live now t" "stored = refresh_of_row t"
    by (rule lookup_refreshE)
  from inv have wf: "wf_table ?tbl" and lk: "links_ok ?tbl" by (simp_all add: refresh_inv_def)
  have old: "old = [] \<or> old \<in> rt_id ` set ?tbl"
    using pass_rotatable [OF inv d(2) chk(1), of scope] t(4) wf lk t(1)
    by (elim rotatableE) (auto simp: links_ok_def dest: wf_unique_id)
  let ?f = "rot_update (r_org stored) (rt_id t) old (f_id (te_fresh env))"
  from r obtain t0 row where row: "t0 \<in> set ?tbl" "rt_id t0 = rt_id t" "f_id (te_fresh env) \<notin> rt_id ` set ?tbl"
    "row = token_row (stored\<lparr>r_scope := scope\<rparr>) (f_id (te_fresh env)) (rt_family t) p
       (successor_expiry (rt_family_expires t0) now) (rt_family_expires t0) (te_dbnow env)"
    "tbl' = map ?f (?tbl @ [row])"
    and upd: "\<exists>u \<in> set (?tbl @ [row]). visible (r_org stored) u \<and> rt_id u = rt_id t \<and> rt_replaced_by u = session_of old"
    by (elim rotate_refreshE) (auto simp: t(4))
  have t0: "t0 = t" using wf_unique_id [OF wf row(1) t(1) row(2)] .
  have fr: "?f row = row"
    using row(3,4) t(1) old by (auto simp: rot_update_def Let_def)
  have "session_of (null_string (rt_session t)) = rt_session t"
    using wf t(1) by (cases "rt_session t") (auto simp: wf_table_def session_of_def null_string_def)
  then have own: "same_owner row t" using row(4) t(4) t0 by (simp add: same_owner_def)
  have link: "rt_replaced_by (?f t) = Some (rt_id row)"
  proof -
    from upd row(3,4) t(1) obtain u where u: "u \<in> set ?tbl" "visible (r_org stored) u" "rt_id u = rt_id t"
      "rt_replaced_by u = session_of old" by auto
    with wf t(1) have "u = t" by (auto dest: wf_unique_id)
    with u row(4) show ?thesis by (simp add: rot_update_def Let_def visible_def)
  qed
  show ?thesis
  proof (rule bexI [of _ t], rule bexI [of _ row], intro conjI)
    show "\<exists>t' \<in> set (tw_tokens w'). rt_id t' = rt_id t \<and> rt_replaced_by t' = Some (rt_id row)"
      using t(1) link by (auto simp: w' row(5) keeps_fields [OF keeps_rot_update])
    show "row \<in> set (tw_tokens w')" using fr by (simp add: w' row(5))
  qed (use t own row(4) chk out issue_tokens_ok [OF iss] narrow_scope_subset [OF chk(5)] in auto)
qed

section \<open>Reuse\<close>

lemma revoke_family_dead: "family_dead fam (fst (revoke_family org fam tbl))"
  if "\<forall>t \<in> set tbl. rt_family t = fam \<longrightarrow> rt_org t = org"
proof -
  have "rt_revoked (if visible org t \<and> rt_family t = fam \<and> \<not> rt_revoked t then t\<lparr>rt_revoked := True\<rparr> else t)"
    if "t \<in> set tbl" "rt_family t = fam" for t
    using that \<open>\<forall>t \<in> set tbl. rt_family t = fam \<longrightarrow> rt_org t = org\<close> by (cases "rt_revoked t") (simp_all add: visible_def)
  moreover have "keeps (\<lambda>t. if visible org t \<and> rt_family t = fam \<and> \<not> rt_revoked t then t\<lparr>rt_revoked := True\<rparr> else t)"
    using retires_revoke [of "\<lambda>t. visible org t \<and> rt_family t = fam \<and> \<not> rt_revoked t"] by (simp add: retires_def)
  ultimately show ?thesis
    unfolding family_dead_def revoke_family_def fst_revoke_where set_map ball_simps by (metis (no_types, lifting) keeps_fields(3))
qed

definition kill_log :: "'s token_env \<Rightarrow> lineage \<Rightarrow> application \<Rightarrow> nat \<Rightarrow> time \<Rightarrow> audit_event list" where
  "kill_log env l app n now =
     (if te_audit env then [(reuse_event l app n now)\<lparr>ev_payload := redact_payload (ev_payload (reuse_event l app n now))\<rparr>]
      else [])"

lemma kill_family_ok:
  assumes "l_org l \<noteq> []" "te_fault env KillTx = TxOk" "te_stored env KillTx"
  shows "kill_family env l app now w =
    w\<lparr>tw_tokens := fst (revoke_family (l_org l) (l_family l) (tw_tokens w)),
      tw_events := tw_events w @ kill_log env l app (snd (revoke_family (l_org l) (l_family l) (tw_tokens w))) now,
      tw_reuse := tw_reuse w + 1\<rparr>"
proof -
  obtain tbl n where "revoke_family (l_org l) (l_family l) (tw_tokens w) = (tbl, n)" by fastforce
  then show ?thesis
    using assms
    by (simp add: kill_family_def kill_body_def with_tenant_def with_scope_def write_event_def reuse_event_def
        kill_log_def event_types Let_def)
qed

text \<open>
  C6. A token that was rotated away and comes back outside a legitimate retry kills its family:
  every token of the family is revoked, the newest included, in one transaction with an audit event
  that counts them, the reuse counter moves, and the request is refused like any invalid token.
\<close>

theorem reuse_kills_family:
  assumes inv: "refresh_inv now (tw_tokens w)" and t: "t \<in> set (tw_tokens w)"
    and pres: "rt_hash t = hash_refresh (form_get f ''refresh_token'')" "form_get f ''refresh_token'' \<noteq> []"
    and old: "rt_replaced_by t \<noteq> None" "\<not> rt_revoked t"
      "\<not> legitimate_retry (lineage_of (tw_tokens w) t) now rotation_grace"
    and ok: "rt_org t \<noteq> []" "te_lineage_ok env" "te_fault env KillTx = TxOk" "te_stored env KillTx"
    and run: "refresh_token env app f now w = (res, w')"
  shows "res = Inl (invalid_grant RefreshInvalid) \<and> family_dead (rt_family t) (tw_tokens w') \<and>
    tw_reuse w' = tw_reuse w + 1 \<and>
    tw_events w' = tw_events w @ kill_log env (lineage_of (tw_tokens w) t) app
      (length (filter (\<lambda>u. rt_org u = rt_org t \<and> rt_family u = rt_family t \<and> \<not> rt_revoked u) (tw_tokens w))) now"
proof -
  let ?l = "lineage_of (tw_tokens w) t"
  from inv have wf: "wf_table (tw_tokens w)" and fam: "family_agrees (tw_tokens w)" and lk: "links_ok (tw_tokens w)"
    by (simp_all add: refresh_inv_def)
  have l: "l_org ?l = rt_org t" "l_family ?l = rt_family t" "l_revoked ?l = rt_revoked t"
    by (simp_all add: lineage_of_def)
  have rot: "rotated ?l"
    using lk t old(1) by (auto simp: rotated_def lineage_of_def null_string_def links_ok_def)
  have det: "detect_reuse env (form_get f ''refresh_token'') app now w = (Inr (True, []), kill_family env ?l app now w)"
    using ok(2) lookup_lineage_row [OF wf t pres(1)] rot old(2,3) l(3) by (simp add: detect_reuse_def)
  from run pres(2) det have res: "res = Inl (invalid_grant RefreshInvalid)" "w' = kill_family env ?l app now w"
    by (auto simp: refresh_token_def)
  have "\<forall>u \<in> set (tw_tokens w). rt_family u = rt_family t \<longrightarrow> rt_org u = rt_org t"
    using fam t unfolding family_agrees_def same_owner_def by blast
  note dead = revoke_family_dead [OF this]
  have n: "snd (revoke_family (rt_org t) (rt_family t) (tw_tokens w)) =
      length (filter (\<lambda>u. rt_org u = rt_org t \<and> rt_family u = rt_family t \<and> \<not> rt_revoked u) (tw_tokens w))"
    by (simp add: revoke_family_def revoke_where_def visible_def)
  have "w' = w\<lparr>tw_tokens := fst (revoke_family (rt_org t) (rt_family t) (tw_tokens w)),
      tw_events := tw_events w @ kill_log env ?l app (snd (revoke_family (rt_org t) (rt_family t) (tw_tokens w))) now,
      tw_reuse := tw_reuse w + 1\<rparr>"
    using kill_family_ok [of ?l env app now w] ok(1,3,4) unfolding res(2) l by blast
  then show ?thesis using res(1) dead n by simp
qed

definition demo_refresh_form :: form where
  "demo_refresh_form = form_of [(''grant_type'', [''refresh_token'']), (''client_id'', [''web'']), (''refresh_token'', [''old''])]"

lemma demo_lineage:
  "lineage_of demo_family (demo_row ''r0'' (hash_refresh ''old'') (Some ''s0'') 0) =
     \<lparr>l_id = ''r0'', l_org = ''org'', l_family = ''fam0'', l_revoked = False, l_replaced_by = ''s0'',
      l_replaced_at = 100, l_spent = False\<rparr>"
  by (simp add: lineage_of_def successor_of_def find_id_def demo_family_def demo_row_def null_string_def)

theorem reuse_kills_family_witness:
  "\<exists>w'. refresh_token demo_env demo_app demo_refresh_form 60000000000 (demo_world demo_family)
      = (Inl (invalid_grant RefreshInvalid), w') \<and> family_dead ''fam0'' (tw_tokens w') \<and> tw_reuse w' = 1 \<and>
      length (tw_events w') = 1"
proof -
  let ?t = "demo_row ''r0'' (hash_refresh ''old'') (Some ''s0'') 0"
  obtain res w' where run: "refresh_token demo_env demo_app demo_refresh_form 60000000000 (demo_world demo_family) = (res, w')"
    by fastforce
  have tk: "tw_tokens (demo_world demo_family) = demo_family" "tw_reuse (demo_world demo_family) = 0"
    "tw_events (demo_world demo_family) = []" by (simp_all add: demo_world_def)
  have fg: "form_get demo_refresh_form ''refresh_token'' = ''old''"
    by (simp add: demo_refresh_form_def form_get_def form_of_def)
  have t: "rt_org ?t = ''org''" "rt_family ?t = ''fam0''" "rt_hash ?t = hash_refresh ''old''"
    "rt_replaced_by ?t = Some ''s0''" "\<not> rt_revoked ?t"
    by (simp_all add: demo_row_def)
  have "res = Inl (invalid_grant RefreshInvalid) \<and> family_dead (rt_family ?t) (tw_tokens w') \<and>
    tw_reuse w' = tw_reuse (demo_world demo_family) + 1 \<and>
    tw_events w' = tw_events (demo_world demo_family) @ kill_log demo_env (lineage_of (tw_tokens (demo_world demo_family)) ?t) demo_app
      (length (filter (\<lambda>u. rt_org u = rt_org ?t \<and> rt_family u = rt_family ?t \<and> \<not> rt_revoked u)
        (tw_tokens (demo_world demo_family)))) 60000000000"
  proof (rule reuse_kills_family [OF _ _ _ _ _ _ _ _ _ _ _ run])
    show "refresh_inv 60000000000 (tw_tokens (demo_world demo_family))" by (simp add: tk demo_family_inv)
    show "?t \<in> set (tw_tokens (demo_world demo_family))" unfolding tk by (simp add: demo_family_def)
    show "\<not> legitimate_retry (lineage_of (tw_tokens (demo_world demo_family)) ?t) 60000000000 rotation_grace"
      by (simp add: tk demo_lineage legitimate_retry_def rotated_def is_zero_def zero_time_def time_sub_def
        min_int64_def max_int64_def rotation_grace_def second_def)
  qed (simp_all add: t fg demo_env_def)
  with run show ?thesis by (simp add: t tk) (simp add: kill_log_def demo_env_def)
qed

text \<open>
  Once every token of a family is revoked, no request that presents one of them obtains
  tokens, whatever the client, the time and the collaborators.
\<close>

theorem dead_family_refused:
  assumes "wf_table (tw_tokens w)" and "family_dead fam (tw_tokens w)"
    and "t \<in> set (tw_tokens w)" and "rt_family t = fam"
    and "rt_hash t = hash_refresh (form_get f ''refresh_token'')"
  shows "\<not> is_ok (fst (refresh_token env app f now w))"
proof (rule ccontr)
  assume "\<not> ?thesis"
  then obtain out u w' where run: "refresh_token env app f now w = (Inr (out, u), w')"
    by (auto simp: is_ok_def split: sum.splits) (metis prod.collapse)
  then obtain old stored scope w1 where d:
    "detect_reuse env (form_get f ''refresh_token'') app now w = (Inr (False, old), w1)"
    "refresh_checks env (form_get f ''refresh_token'') app f now (tw_tokens w1) = Inr (stored, scope)"
    by (auto simp: refresh_token_def Let_def split: sum.splits prod.splits if_splits)
  with detect_reuse_pass have "w1 = w" by blast
  with refresh_checksE(1) [OF d(2)] obtain t' where
    "t' \<in> set (tw_tokens w)" "rt_hash t' = hash_refresh (form_get f ''refresh_token'')" "token_live now t'"
    by (auto elim: lookup_refreshE)
  with assms show False by (auto simp: family_dead_def token_live_def dest: wf_unique_hash)
qed

definition demo_dead :: rt_table where
  "demo_dead = map (rt_revoked_update (\<lambda>_. True)) demo_family"

theorem dead_family_refused_witness:
  "\<not> is_ok (fst (refresh_token demo_env demo_app demo_refresh_form 200 (demo_world demo_dead)))"
proof (rule dead_family_refused [where t = "(demo_row ''r0'' (hash_refresh ''old'') (Some ''s0'') 0)\<lparr>rt_revoked := True\<rparr>"])
  have "wf_table demo_family" using demo_family_inv [of 0] by (simp add: refresh_inv_def)
  then show "wf_table (tw_tokens (demo_world demo_dead))"
    using keeps_wf [of "rt_revoked_update (\<lambda>_. True)" demo_family] by (simp add: demo_world_def demo_dead_def keeps_def)
  show "family_dead ''fam0'' (tw_tokens (demo_world demo_dead))"
    by (simp add: demo_world_def demo_dead_def family_dead_def)
qed (simp_all add: demo_world_def demo_dead_def demo_family_def demo_row_def demo_refresh_form_def form_get_def form_of_def)

text \<open>
  C7. Every reason for refusing a refresh token gives the same answer, byte for byte: a token that
  is unknown, expired or revoked, another client's, one whose session ended, one whose owner has an
  unmet MFA mandate, and one that was rotated away are not told apart by the client that asks.
\<close>

theorem refresh_refusal_uniform:
  assumes idf: "identify env r now = Inr (app, grant_refresh_token)"
    and pres: "form_get (r_form r) ''refresh_token'' = p" "p \<noteq> []"
    and up: "te_lineage_ok env" "\<forall>m og u n. te_mandate env = Some m \<longrightarrow> m og u n \<noteq> None"
    and wf: "wf_table (tw_tokens w)"
    and bad: "\<forall>t \<in> set (tw_tokens w). rt_hash t = hash_refresh p \<longrightarrow>
      \<not> token_live now t \<or> rt_client t \<noteq> app_id app \<or> session_gone env (refresh_of_row t) now \<or>
      mandate_check env (refresh_of_row t) now \<noteq> Inr () \<or>
      (rotated (lineage_of (tw_tokens w) t) \<and> \<not> legitimate_retry (lineage_of (tw_tokens w) t) now rotation_grace)"
  shows "fst (serve_token env r now w) = answer_error (bad_request err_invalid_grant RefreshInvalid)"
proof -
  let ?bad = "Inl (invalid_grant RefreshInvalid)"
  obtain d w1 where d: "detect_reuse env p app now w = (d, w1)" by fastforce
  from d up(1) have dr: "\<exists>b old. d = Inr (b, old)" by (auto simp: detect_reuse_def split: sum.splits if_splits)
  have "fst (refresh_token env app (r_form r) now w) = ?bad"
  proof (cases "\<exists>old. d = Inr (False, old)")
    case False
    with dr obtain old where "d = Inr (True, old)" by (metis (full_types))
    with d pres show ?thesis by (simp add: refresh_token_def Let_def)
  next
    case True
    then obtain old where old: "d = Inr (False, old)" by blast
    with d have w1: "w1 = w" using detect_reuse_pass by blast
    have "refresh_checks env p app (r_form r) now (tw_tokens w) = ?bad"
    proof (cases "lookup_refresh (tw_tokens w) p now")
      case (Inl e)
      then show ?thesis by (simp add: refresh_checks_def)
    next
      case (Inr stored)
      then obtain t where t: "t \<in> set (tw_tokens w)" "rt_hash t = hash_refresh p" "token_live now t" "stored = refresh_of_row t"
        by (rule lookup_refreshE)
      from detect_reuse_pass [OF d [unfolded old]] lookup_lineage_row [OF wf t(1,2)]
      have "\<not> (rotated (lineage_of (tw_tokens w) t) \<and> \<not> legitimate_retry (lineage_of (tw_tokens w) t) now rotation_grace)"
        by (auto split: if_splits)
      with bad t have "rt_client t \<noteq> app_id app \<or> session_gone env stored now \<or> mandate_check env stored now \<noteq> Inr ()"
        by blast
      moreover have "mandate_check env stored now \<noteq> Inr () \<Longrightarrow> mandate_check env stored now = ?bad"
      proof -
        assume refused: "mandate_check env stored now \<noteq> Inr ()"
        then obtain m where m: "te_mandate env = Some m" by (auto simp: mandate_check_def split: option.splits)
        with up(2) obtain u where "m (r_org stored) (r_user stored) now = Some u" by blast
        with refused m show ?thesis by (cases u) (simp_all add: mandate_check_def)
      qed
      ultimately have "rt_client t \<noteq> app_id app \<or> session_gone env stored now \<or> mandate_check env stored now = ?bad"
        by blast
      with Inr t(4) show ?thesis by (auto simp: refresh_checks_def)
    qed
    with d old w1 pres show ?thesis by (simp add: refresh_token_def Let_def)
  qed
  then obtain w2 where "refresh_token env app (r_form r) now w = (?bad, w2)" by (metis prod.collapse)
  then show ?thesis
    using idf
    by (simp add: serve_token_def run_grant_def grant_defs fail_def as_oauth_def invalid_grant_def error_defs)
qed

definition demo_request :: "form \<Rightarrow> http_request" where
  "demo_request f = \<lparr>r_method = ''POST'', r_form_ok = True, r_form = f, r_basic = None\<rparr>"

lemma demo_identified:
  "identify demo_env (demo_request demo_refresh_form) now = Inr (demo_app, grant_refresh_token)"
  by (simp add: identify_def demo_request_def demo_refresh_form_def form_get_def form_of_def validate_grant_def
      refused_grants_def supported_grants_def grant_defs parse_credentials_def demo_env_def demo_app_def
      authenticate_client_def is_public_def Let_def)

theorem refresh_refusal_uniform_witness:
  "fst (serve_token demo_env (demo_request demo_refresh_form) 200 (demo_world demo_dead)) =
     answer_error (bad_request err_invalid_grant RefreshInvalid)"
proof (rule refresh_refusal_uniform [OF demo_identified, where p = "''old''"])
  have "wf_table demo_family" using demo_family_inv [of 0] by (simp add: refresh_inv_def)
  then show "wf_table (tw_tokens (demo_world demo_dead))"
    using keeps_wf [of "rt_revoked_update (\<lambda>_. True)" demo_family] by (simp add: demo_world_def demo_dead_def keeps_def)
  show "\<forall>t \<in> set (tw_tokens (demo_world demo_dead)). rt_hash t = hash_refresh ''old'' \<longrightarrow>
      \<not> token_live 200 t \<or> rt_client t \<noteq> app_id demo_app \<or> session_gone demo_env (refresh_of_row t) 200 \<or>
      mandate_check demo_env (refresh_of_row t) 200 \<noteq> Inr () \<or>
      (rotated (lineage_of (tw_tokens (demo_world demo_dead)) t) \<and>
       \<not> legitimate_retry (lineage_of (tw_tokens (demo_world demo_dead)) t) 200 rotation_grace)"
    by (simp add: demo_world_def demo_dead_def token_live_def)
  show "\<forall>m og u n. te_mandate demo_env = Some m \<longrightarrow> m og u n \<noteq> None" by (auto simp: demo_env_def)
qed (simp_all add: demo_env_def demo_request_def demo_refresh_form_def form_get_def form_of_def)

section \<open>Callers that are not identified, and client credentials\<close>

text \<open>
  A request that does not get past client authentication changes nothing but the denial
  counter: no code is spent, no token row is written, nothing enters the audit log; and it is
  answered with an error that carries no token and may not be cached.
\<close>

theorem unidentified_request_harmless:
  assumes "identify env r now = Inl (g, e)" and "serve_token env r now w = (a, w')"
  shows "w' = w\<lparr>tw_denied := tw_denied w @ [(g, e_code (as_oauth e))]\<rparr> \<and>
    a = answer_error (as_oauth e) \<and> a_status a \<noteq> 200 \<and> (''Cache-Control'', ''no-store'') \<in> set (a_headers a)"
proof -
  have "e_status (as_oauth e) \<noteq> 200"
    using assms(1)
    by (auto simp: identify_def as_oauth_def error_defs internal_failure_def Let_def validate_grant_def
        parse_credentials_def authenticate_client_def split: if_splits sum.splits option.splits prod.splits)
  then show ?thesis using assms by (auto simp: serve_token_def fail_def answer_error_def no_store_def)
qed

theorem unidentified_request_harmless_witness:
  "\<exists>a w'. serve_token demo_env ((demo_request demo_refresh_form)\<lparr>r_method := ''GET''\<rparr>) 200 (demo_world []) = (a, w') \<and>
     tw_codes w' = tw_codes (demo_world []) \<and> a_status a = 405"
proof -
  obtain a w' where run: "serve_token demo_env ((demo_request demo_refresh_form)\<lparr>r_method := ''GET''\<rparr>) 200 (demo_world []) = (a, w')"
    by fastforce
  have "identify demo_env ((demo_request demo_refresh_form)\<lparr>r_method := ''GET''\<rparr>) 200
      = Inl ([], Oauth (mk_error err_invalid_request 405 False MethodNotPost))"
    by (simp add: identify_def demo_request_def)
  from unidentified_request_harmless [OF this run] run show ?thesis
    by (simp add: answer_error_def as_oauth_def mk_error_def)
qed

text \<open>
  Client authentication is what its type demands: a request is identified only as a client
  that exists, whose type is public and which presented no secret, or confidential and which
  presented a current secret (or the previous one before its overlap ended), and only for a grant
  that this service supports and the client holds.
\<close>

theorem identified_client:
  assumes "identify env r now = Inr (app, g)"
  shows "\<exists>c stored. parse_credentials r (r_form r) = Inr c \<and> te_client env (rc_client c) = Some app \<and>
    te_credentials env app = Some stored \<and> g = form_get (r_form r) ''grant_type'' \<and>
    g \<in> set supported_grants \<and> g \<in> set (grant_types app) \<and>
    (is_public (app_type app) \<and> \<not> rc_presented c \<or>
     is_confidential (app_type app) \<and> rc_presented c \<and> rc_secret c \<noteq> [] \<and>
       (hash_secret (rc_secret c) = cred_hash stored \<or>
        hash_secret (rc_secret c) = cred_previous stored \<and> now < cred_previous_expires stored))"
proof -
  from assms obtain c stored where *: "parse_credentials r (r_form r) = Inr c"
    "te_client env (rc_client c) = Some app" "te_credentials env app = Some stored"
    "authenticate_client app c stored now = Inr ()" "g = form_get (r_form r) ''grant_type''"
    "validate_grant g = Inr ()" "g \<in> set (grant_types app)"
    by (auto simp: identify_def Let_def split: if_splits sum.splits option.splits)
  show ?thesis
    using * validate_grant_ok [of g]
    by (intro exI [of _ c] exI [of _ stored])
      (auto simp: authenticate_client_ok_iff verify_credentials_def verify_secret_def time_before_def Let_def split: if_splits)
qed

theorem identified_client_witness:
  "grant_refresh_token \<in> set (grant_types demo_app) \<and> is_public (app_type demo_app)"
  using identified_client [OF demo_identified [of 200]] by (auto simp: demo_app_def is_confidential_def)

lemma client_credentials_claims_ok:
  assumes "client_credentials_claims s now = Inr c"
  shows "c ''sub'' = Some (JStr (s_client s)) \<and> c ''client_id'' = Some (JStr (s_client s)) \<and>
    c ''org_id'' = Some (JStr (s_org s)) \<and> c ''sid'' = None \<and> c ''exp'' = Some (JInt (unix_sec now + 600))"
proof -
  have "unix_sec (time_add now access_token_lifetime) = unix_sec now + 600"
    using unix_sec_minutes [of now 10] by (simp add: access_token_lifetime_def)
  then show ?thesis
    using assms role_claim_namespace_neq [of "s_project s", THEN not_sym]
    by (auto simp: client_credentials_claims_def Let_def split: if_splits)
qed

text \<open>
  The client-credentials grant signs one access token about the client itself: no ID token,
  no refresh token, never the \<open>openid\<close> scope, and the state of the service does not change.
\<close>

theorem client_credentials_grant:
  assumes "run_grant env app grant_client_credentials f now w = (Inr (out, user), w')"
  shows "w' = w \<and> user = [] \<and> tr_id out = [] \<and> tr_refresh out = [] \<and>
    ''openid'' \<notin> set (parse_scope (form_get f ''scope'')) \<and>
    (\<exists>c. te_sign env c type_access_token = Some (tr_access out) \<and>
      c ''sub'' = Some (JStr (app_id app)) \<and> c ''client_id'' = Some (JStr (app_id app)) \<and>
      c ''org_id'' = Some (JStr (app_org app)) \<and> c ''sid'' = None \<and>
      c ''exp'' = Some (JInt (unix_sec now + 600)))"
proof -
  from assms have cc: "client_credentials env app f now = Inr out" "w' = w" "user = []"
    by (auto simp: run_grant_def grant_defs bindE_Inr_iff split: sum.splits)
  then show ?thesis
    by (auto simp: client_credentials_def plain_def sign_claims_def bindE_Inr_iff Let_def
        split: if_splits sum.splits option.splits dest!: client_credentials_claims_ok)
qed

definition demo_api_app :: application where
  "demo_api_app = demo_app\<lparr>app_id := ''api'', app_type := TypeAPI, grant_types := [grant_client_credentials]\<rparr>"

theorem client_credentials_grant_witness:
  "\<exists>out. run_grant demo_env demo_api_app grant_client_credentials (form_of [(''scope'', [''read write''])]) 1000 (demo_world [])
     = (Inr (out, []), demo_world []) \<and> tr_refresh out = []"
proof -
  have sc: "parse_scope ''read write'' = [''read'', ''write'']" by code_simp
  have "is_ok (fst (run_grant demo_env demo_api_app grant_client_credentials (form_of [(''scope'', [''read write''])]) 1000 (demo_world [])))"
    by (simp add: run_grant_def grant_defs client_credentials_def form_get_def form_of_def sc client_credentials_claims_def
        plain_def sign_claims_def demo_env_def demo_app_def demo_api_app_def)
  then obtain out user w' where run: "run_grant demo_env demo_api_app grant_client_credentials
      (form_of [(''scope'', [''read write''])]) 1000 (demo_world []) = (Inr (out, user), w')"
    by (auto simp: is_ok_def split: sum.splits) (metis prod.collapse)
  from client_credentials_grant [OF this] run show ?thesis by auto
qed

section \<open>The audit log\<close>

definition extends_log :: "audit_event list \<Rightarrow> audit_event list \<Rightarrow> bool" where
  "extends_log old new \<longleftrightarrow> (\<exists>e. new = old \<or> new = old @ [e] \<and> payload_clean (ev_payload e) \<and>
     ev_type e \<in> {event_token_issued, event_refresh_reuse})"

lemma extends_log_refl [simp]: "extends_log l l"
  by (simp add: extends_log_def)

lemma write_event_extends:
  "write_event st org e log = Inr log' \<Longrightarrow> ev_type e \<in> {event_token_issued, event_refresh_reuse} \<Longrightarrow> extends_log log log'"
  by (auto dest!: write_event_ok simp: extends_log_def redact_payload_clean)

lemma audit_issued_extends: "extends_log (tw_events w) (tw_events (audit_issued env app u g s w))"
proof -
  let ?body = "\<lambda>org w. bindE (write_event (te_stored env AuditTx) org (issued_event app u g s) (tw_events w))
           (\<lambda>log. Inr ((), w\<lparr>tw_events := log\<rparr>))"
  have ty: "ev_type (issued_event app u g s) = event_token_issued" by (simp add: issued_event_def)
  define w2 where "w2 = snd (with_tenant (te_fault env AuditTx) (app_org app) ?body w)"
  have "w2 = w \<or> (\<exists>a. ?body (app_org app) w = Inr (a, w2))"
    unfolding w2_def by (rule with_tenant_state)
  then have "extends_log (tw_events w) (tw_events w2)"
  proof (elim disjE exE)
    fix a assume "?body (app_org app) w = Inr (a, w2)"
    then obtain log where "write_event (te_stored env AuditTx) (app_org app) (issued_event app u g s) (tw_events w) = Inr log"
      "w2 = w\<lparr>tw_events := log\<rparr>" by (auto simp: bindE_Inr_iff)
    with ty show ?thesis by (auto dest: write_event_extends)
  qed simp
  then show ?thesis by (simp add: audit_issued_def w2_def)
qed

lemma reuse_event_type [simp]: "ev_type (reuse_event l app n now) = event_refresh_reuse"
  by (simp add: reuse_event_def)

lemma kill_family_cases:
  "kill_family env l app now w \<in>
     {w\<lparr>tw_reuse := tw_reuse w + 1\<rparr>,
      w\<lparr>tw_tokens := fst (revoke_family (l_org l) (l_family l) (tw_tokens w)),
        tw_events := tw_events w @ kill_log env l app (snd (revoke_family (l_org l) (l_family l) (tw_tokens w))) now,
        tw_reuse := tw_reuse w + 1\<rparr>}"
proof -
  obtain tbl n where rf: "revoke_family (l_org l) (l_family l) (tw_tokens w) = (tbl, n)" by fastforce
  have body: "kill_body env l app now (l_org l) w = Inr (a, w') \<Longrightarrow>
      w' = w\<lparr>tw_tokens := tbl, tw_events := tw_events w @ kill_log env l app n now\<rparr>" for a w'
    by (auto simp: kill_body_def rf kill_log_def bindE_Inr_iff reuse_event_def Let_def dest!: write_event_ok split: if_splits)
  have "snd (with_tenant (te_fault env KillTx) (l_org l) (kill_body env l app now) w)
      \<in> {w, w\<lparr>tw_tokens := tbl, tw_events := tw_events w @ kill_log env l app n now\<rparr>}"
    using with_tenant_state [of "te_fault env KillTx" "l_org l" "kill_body env l app now" w] body by auto
  then show ?thesis by (auto simp: kill_family_def rf split: prod.splits)
qed

text \<open>
  The kill of a family and its audit event are one: either the tokens are revoked and the
  event that says so is stored, or neither happened. The alarm counter moves in both cases.
\<close>

theorem kill_is_atomic:
  "kill_family env l app now w \<in>
     {w\<lparr>tw_reuse := tw_reuse w + 1\<rparr>,
      w\<lparr>tw_tokens := fst (revoke_family (l_org l) (l_family l) (tw_tokens w)),
        tw_events := tw_events w @ kill_log env l app (snd (revoke_family (l_org l) (l_family l) (tw_tokens w))) now,
        tw_reuse := tw_reuse w + 1\<rparr>}"
  by (rule kill_family_cases)

lemma kill_family_extends: "extends_log (tw_events w) (tw_events (kill_family env l app now w))"
proof -
  have "extends_log (tw_events w) (tw_events w @ kill_log env l app n now)" for n
    by (auto simp: kill_log_def extends_log_def redact_payload_clean)
  then show ?thesis using kill_family_cases [of env l app now w] by auto
qed

lemma refresh_token_extends: "extends_log (tw_events w) (tw_events (snd (refresh_token env app f now w)))"
proof -
  obtain d w1 where d: "detect_reuse env (form_get f ''refresh_token'') app now w = (d, w1)" by fastforce
  then have w1: "w1 = w \<or> (\<exists>l. w1 = kill_family env l app now w \<and> d = Inr (True, []))"
    by (auto simp: detect_reuse_def split: if_splits sum.splits)
  then show ?thesis
  proof (elim disjE exE conjE)
    fix l assume "w1 = kill_family env l app now w" "d = Inr (True, [])"
    with d show ?thesis by (simp add: refresh_token_def Let_def kill_family_extends)
  next
    assume w1: "w1 = w"
    have "tw_events (snd (rotate env st sc o' now w)) = tw_events w" for st sc o'
      using rotate_effect [of env st sc o' now w] by auto
    then have ev: "tw_events w2 = tw_events w" if "rotate env st sc o' now w = (r, w2)" for st sc o' r w2
      using that by (metis snd_conv)
    have iss: "w2 = w" if "issue_tokens env app s sc wid False now w = (r, w2)" for s sc wid r w2
      using issue_tokens_no_mint [of env app s sc wid now w] that by simp
    have "tw_events (snd (refresh_token env app f now w)) = tw_events w"
      using d w1 by (auto simp: refresh_token_def Let_def dest: ev iss split: sum.splits prod.splits)
    then show ?thesis by simp
  qed
qed

lemma authorization_code_events: "tw_events (snd (authorization_code env app f now w)) = tw_events w"
proof -
  obtain r st where r: "redeem_code (te_redis env) now (form_get f ''code'') (tw_codes w) = (r, st)" by fastforce
  have "tw_events (snd (issue_tokens env app s sc wid m now w')) = tw_events w'" for s sc wid m w'
    using mint_refresh_effect [of env app "roles_for env s app" sc now w']
    by (auto simp: issue_tokens_def Let_def split: sum.splits prod.splits)
  then have "tw_events w2 = tw_events w'" if "issue_tokens env app s sc wid m now w' = (r', w2)" for s sc wid m w' r' w2
    using that by (metis snd_conv)
  then show ?thesis
    by (fastforce simp: authorization_code_def r Let_def split: sum.splits prod.splits)
qed

lemma run_grant_extends: "extends_log (tw_events w) (tw_events (snd (run_grant env app g f now w)))"
  by (simp add: run_grant_def authorization_code_events refresh_token_extends)

text \<open>
  The log is append-only and holds no credential: a request adds at most two events, an
  issuance or a detected reuse, each filed under its transaction's tenant after redaction, so that a
  log in which no sensitive key carries a value stays such a log.
\<close>

theorem serve_token_log:
  assumes "log_clean (tw_events w)"
  shows "\<exists>new. tw_events (snd (serve_token env r now w)) = tw_events w @ new \<and> length new \<le> 2 \<and>
    log_clean (tw_events (snd (serve_token env r now w)))"
proof -
  have app: "\<exists>new. b = a @ new \<and> length new \<le> 1 \<and> (log_clean a \<longrightarrow> log_clean b)" if "extends_log a b" for a b
    using that by (auto simp: extends_log_def log_clean_def)
  have fl: "tw_events (snd (fail g e w')) = tw_events w'" for g e and w' :: "'a token_world"
    by (simp add: fail_def)
  show ?thesis
  proof (cases "identify env r now")
    case (Inl ge)
    then show ?thesis using assms fl by (cases ge) (simp add: serve_token_def)
  next
    case (Inr ag)
    obtain a g where ag: "ag = (a, g)" by fastforce
    obtain res w1 where run: "run_grant env a g (r_form r) now w = (res, w1)" by fastforce
    from run_grant_extends [of w env a g "r_form r" now] run have e1: "extends_log (tw_events w) (tw_events w1)" by simp
    have e2: "extends_log (tw_events w1) (tw_events (snd (serve_token env r now w)))"
      using Inr ag run fl [of g _ w1] audit_issued_extends [of w1 env a _ g _]
      by (cases res) (auto simp: serve_token_def Let_def split: prod.splits)
    from app [OF e1] obtain n1 where n1: "tw_events w1 = tw_events w @ n1" "length n1 \<le> 1" "log_clean (tw_events w1)"
      using assms by blast
    from app [OF e2] n1(3) obtain n2 where "tw_events (snd (serve_token env r now w)) = tw_events w1 @ n2"
      "length n2 \<le> 1" "log_clean (tw_events (snd (serve_token env r now w)))" by blast
    with n1 show ?thesis by (intro exI [of _ "n1 @ n2"]) simp
  qed
qed

theorem serve_token_log_witness:
  "log_clean (tw_events (snd (serve_token demo_env (demo_request demo_refresh_form) 60000000000 (demo_world demo_family))))"
  using serve_token_log [of "demo_world demo_family" demo_env "demo_request demo_refresh_form" 60000000000]
  by (auto simp: demo_world_def log_clean_def)

end
