(* ===== verification/RefreshProtocol.thy ===== *)
theory RefreshProtocol
  imports TokenProps
begin

text \<open>
  The life of the refresh-token table as a state machine whose steps are single transactions. A refresh
  is two of them, the look-up of the presented token and its rotation, and whatever other requests do may happen in
  between: the requests that have looked a token up and not yet rotated it are part of the state. The other
  steps are the insertion of a new family, the revocations (reuse, log-out, session revocation,
  password change, RFC 7009), the hourly sweep and the passing of time. The second section shows that a
  request that runs undisturbed is a run of these steps.
\<close>

section \<open>Transactions in any order\<close>

text \<open>
  A request in flight: the clock it read when it began, and the token as it was looked up, with the scope it will
  be rotated to. Ids and families are drawn at random; the state records those drawn so far, so that none is drawn twice.
\<close>

record in_flight =
  fl_clock :: time
  fl_token :: refresh

record table_state =
  ps_now :: time
  ps_table :: rt_table
  ps_flight :: "in_flight list"
  ps_families :: "string list"
  ps_ids :: "string list"

text \<open>
  Two over-approximations make the runs more, never fewer: a request never leaves the flight, so it may rotate again,
  and \<open>old\<close>, the successor a retry supersedes, was read in a transaction still earlier and is any string here.
\<close>

inductive service_step :: "table_state \<Rightarrow> table_state \<Rightarrow> bool" where
  issue: "issue_refresh org i [] fr clock dbnow (ps_table s) = Inr ((p, fam), tbl') \<Longrightarrow> clock \<le> ps_now s \<Longrightarrow>
    f_id fr \<noteq> [] \<Longrightarrow> f_id fr \<notin> set (ps_ids s) \<Longrightarrow> f_family fr \<notin> set (ps_families s) \<Longrightarrow>
    service_step s (s\<lparr>ps_table := tbl', ps_families := f_family fr # ps_families s, ps_ids := f_id fr # ps_ids s\<rparr>)"
| read_token: "t \<in> set (ps_table s) \<Longrightarrow> token_live clock t \<Longrightarrow> clock \<le> ps_now s \<Longrightarrow>
    service_step s (s\<lparr>ps_flight := \<lparr>fl_clock = clock, fl_token = (refresh_of_row t)\<lparr>r_scope := scope\<rparr>\<rparr> # ps_flight s\<rparr>)"
| rotate_token: "fl \<in> set (ps_flight s) \<Longrightarrow>
    rotate_refresh (r_org (fl_token fl)) (fl_token fl) old fr (fl_clock fl) dbnow (ps_table s) = Inr (p, tbl') \<Longrightarrow>
    f_id fr \<noteq> [] \<Longrightarrow> f_id fr \<notin> set (ps_ids s) \<Longrightarrow>
    service_step s (s\<lparr>ps_table := tbl', ps_ids := f_id fr # ps_ids s\<rparr>)"
| revocation: "tbl' \<in> {revoke_refresh org i (ps_table s), fst (revoke_family org fam (ps_table s)),
      fst (revoke_for_session_and_client org se c (ps_table s)), fst (revoke_for_sessions org ss (ps_table s)),
      fst (revoke_all_for_user org u (ps_table s))} \<Longrightarrow>
    service_step s (s\<lparr>ps_table := tbl'\<rparr>)"
| sweep: "sweep_ok before limit picked (ps_table s) \<Longrightarrow> before \<le> ps_now s \<Longrightarrow>
    service_step s (s\<lparr>ps_table := sweep_refresh picked (ps_table s)\<rparr>)"
| tick: "ps_now s \<le> now' \<Longrightarrow> service_step s (s\<lparr>ps_now := now'\<rparr>)"

inductive_cases service_stepE: "service_step s s'"

definition start_state :: "time \<Rightarrow> table_state" where
  "start_state now = \<lparr>ps_now = now, ps_table = [], ps_flight = [], ps_families = [], ps_ids = []\<rparr>"

definition reachable_state :: "table_state \<Rightarrow> bool" where
  "reachable_state s \<longleftrightarrow> (\<exists>now. service_step\<^sup>*\<^sup>* (start_state now) s)"

text \<open>Links that stay inside their family; whether a family has one tip is not kept by overlapping requests (\<open>RefreshRaces\<close>).\<close>

definition links_inside :: "rt_table \<Rightarrow> bool" where
  "links_inside tbl \<longleftrightarrow> (\<forall>t \<in> set tbl. \<forall>s. rt_replaced_by t = Some s \<longrightarrow>
     s \<noteq> [] \<and> s \<noteq> rt_id t \<and> (\<exists>u \<in> set tbl. rt_id u = s \<and> rt_family u = rt_family t))"

text \<open>A token in flight still describes its row, if the row is still there.\<close>

definition describes :: "in_flight \<Rightarrow> rt_row \<Rightarrow> bool" where
  "describes fl t \<longleftrightarrow> (rt_id t = r_id (fl_token fl) \<longrightarrow> fl_token fl = (refresh_of_row t)\<lparr>r_scope := r_scope (fl_token fl)\<rparr>)"

definition state_inv :: "table_state \<Rightarrow> bool" where
  "state_inv s \<longleftrightarrow>
     wf_table (ps_table s) \<and> family_agrees (ps_table s) \<and> links_inside (ps_table s) \<and> expiry_bounded (ps_now s) (ps_table s) \<and>
     rt_family ` set (ps_table s) \<subseteq> set (ps_families s) \<and> rt_id ` set (ps_table s) \<subseteq> set (ps_ids s) \<and>
     (\<forall>fl \<in> set (ps_flight s). fl_clock fl \<le> ps_now s \<and> r_id (fl_token fl) \<in> set (ps_ids s) \<and> (\<forall>t \<in> set (ps_table s). describes fl t))"

lemma revocation_families:
  "tbl' \<in> {revoke_refresh org i tbl, fst (revoke_family org fam tbl),
      fst (revoke_for_session_and_client org s c tbl), fst (revoke_for_sessions org ss tbl),
      fst (revoke_all_for_user org u tbl)} \<Longrightarrow> \<exists>P. tbl' = map (\<lambda>t. if P t then t\<lparr>rt_revoked := True\<rparr> else t) tbl"
proof -
  have nop: "\<exists>P. tbl = map (\<lambda>t. if P t then t\<lparr>rt_revoked := True\<rparr> else t) tbl"
    by (rule exI [of _ "\<lambda>_. False"]) simp
  have rw: "\<exists>P. fst (revoke_where org Q tbl) = map (\<lambda>t. if P t then t\<lparr>rt_revoked := True\<rparr> else t) tbl" for Q
    unfolding fst_revoke_where by (rule exI [of _ "\<lambda>t. visible org t \<and> Q t"]) (rule refl)
  have "\<exists>P. revoke_refresh org i tbl = map (\<lambda>t. if P t then t\<lparr>rt_revoked := True\<rparr> else t) tbl"
    "\<exists>P. fst (revoke_family org fam tbl) = map (\<lambda>t. if P t then t\<lparr>rt_revoked := True\<rparr> else t) tbl"
    unfolding revoke_refresh_def revoke_family_def by (rule rw)+
  moreover have "\<exists>P. fst (revoke_for_session_and_client org s c tbl) = map (\<lambda>t. if P t then t\<lparr>rt_revoked := True\<rparr> else t) tbl"
    using nop rw by (cases "s = [] \<or> c = []") (simp_all add: revoke_for_session_and_client_def)
  moreover have "\<exists>P. fst (revoke_for_sessions org ss tbl) = map (\<lambda>t. if P t then t\<lparr>rt_revoked := True\<rparr> else t) tbl"
    using nop rw by (cases "ss = []") (simp_all add: revoke_for_sessions_def)
  moreover have "\<exists>P. fst (revoke_all_for_user org u tbl) = map (\<lambda>t. if P t then t\<lparr>rt_revoked := True\<rparr> else t) tbl"
    using nop rw by (cases "u = []") (simp_all add: revoke_all_for_user_def)
  ultimately show "tbl' \<in> {revoke_refresh org i tbl, fst (revoke_family org fam tbl),
      fst (revoke_for_session_and_client org s c tbl), fst (revoke_for_sessions org ss tbl),
      fst (revoke_all_for_user org u tbl)} \<Longrightarrow> ?thesis"
    by (elim insertE emptyE) (simp_all only:)
qed

section \<open>The invariant\<close>

lemma keeps_describes: "keeps f \<Longrightarrow> describes fl t \<Longrightarrow> describes fl (f t)"
  by (simp add: describes_def refresh_of_row_def keeps_def)

text \<open>What an update of rows that writes no link keeps.\<close>

lemma keeps_state_inv:
  assumes "state_inv s" "keeps f" "\<forall>t. rt_replaced_by (f t) = rt_replaced_by t"
  shows "state_inv (s\<lparr>ps_table := map f (ps_table s)\<rparr>)"
proof -
  note k = keeps_fields [OF assms(2)]
  have "links_inside (map f (ps_table s))" using assms(1,3) by (simp add: state_inv_def links_inside_def k)
  with assms(1) show ?thesis
    by (simp add: state_inv_def keeps_wf [OF assms(2)] keeps_family [OF assms(2)] keeps_expiry [OF assms(2)] image_image k keeps_describes [OF assms(2)])
qed

lemma links_inside_update:
  assumes links: "links_inside tbl" and wf: "wf_table tbl" and t: "t \<in> set tbl" "rt_id t = i"
    and row: "rt_id row \<notin> rt_id ` set tbl" "rt_id row \<noteq> []" "rt_replaced_by row = None" "rt_family row = rt_family t"
  shows "links_inside (map (rot_update org i old (rt_id row)) (tbl @ [row]))"
proof -
  let ?f = "rot_update org i old (rt_id row)"
  note k = keeps_fields [OF keeps_rot_update, of org i old "rt_id row"]
  have "s \<noteq> [] \<and> s \<noteq> rt_id u \<and> (\<exists>v \<in> set (tbl @ [row]). rt_id v = s \<and> rt_family v = rt_family u)"
    if u: "u \<in> set (tbl @ [row])" and s: "rt_replaced_by (?f u) = Some s" for u s
  proof (cases "rt_replaced_by u = Some s")
    case True
    with u row(3) have "u \<in> set tbl" by auto
    with True links show ?thesis by (force simp: links_inside_def)
  next
    case False
    with s have su: "s = rt_id row" "rt_id u = i" by (auto simp: rot_update_def Let_def split: if_splits)
    with u t row(1) have "u \<in> set tbl" by auto
    with su t wf have "u = t" by (auto dest: wf_unique_id)
    with su row t show ?thesis by auto
  qed
  then show ?thesis unfolding links_inside_def set_map ball_simps bex_simps k by blast
qed

lemma issue_step_inv:
  assumes inv: "state_inv s" and iss: "issue_refresh org i [] fr clock dbnow (ps_table s) = Inr ((p, fam), tbl')"
    and at: "clock \<le> ps_now s" and fresh: "f_id fr \<notin> set (ps_ids s)" "f_family fr \<notin> set (ps_families s)"
  shows "state_inv (s\<lparr>ps_table := tbl', ps_families := f_family fr # ps_families s, ps_ids := f_id fr # ps_ids s\<rparr>)"
proof -
  from iss obtain row where
    row: "tbl' = ps_table s @ [row]" "rt_id row \<notin> rt_id ` set (ps_table s)" "rt_hash row \<notin> rt_hash ` set (ps_table s)" "row_ok row"
      "rt_id row = f_id fr" "rt_family row = f_family fr" "rt_replaced_by row = None" "rt_expires row = clock + refresh_token_lifetime"
      "rt_session row \<noteq> Some []"
    by (elim issue_refreshE) (auto simp: session_of_def)
  from inv have wf: "wf_table (ps_table s)" and fa: "family_agrees (ps_table s)" and li: "links_inside (ps_table s)"
    and ex: "expiry_bounded (ps_now s) (ps_table s)"
    and used: "rt_family ` set (ps_table s) \<subseteq> set (ps_families s)" "rt_id ` set (ps_table s) \<subseteq> set (ps_ids s)"
    and fl: "\<forall>fl \<in> set (ps_flight s). fl_clock fl \<le> ps_now s \<and> r_id (fl_token fl) \<in> set (ps_ids s) \<and> (\<forall>t \<in> set (ps_table s). describes fl t)"
    by (simp_all add: state_inv_def)
  have nf: "rt_family t \<noteq> rt_family row" "rt_family row \<noteq> rt_family t" if "t \<in> set (ps_table s)" for t
    using fresh(2) used(1) row(6) that by (metis image_subset_iff)+
  have "wf_table tbl'" "expiry_bounded (ps_now s) tbl'" using wf ex row at by (auto simp: wf_append expiry_bounded_def)
  moreover have "family_agrees tbl'"
    using fa nf unfolding row(1) family_agrees_def same_owner_def
    by (simp only: set_append set_simps Un_iff insert_iff empty_iff) blast
  moreover have "links_inside tbl'" using li row(1,7) by (auto simp: links_inside_def)
  moreover have "describes f row" if "f \<in> set (ps_flight s)" for f
    using fl that fresh(1) row(5) unfolding describes_def by metis
  ultimately show ?thesis using used fl row by (auto simp: state_inv_def)
qed

lemma rotate_step_inv:
  assumes inv: "state_inv s" and fl: "fl \<in> set (ps_flight s)"
    and rot: "rotate_refresh (r_org (fl_token fl)) (fl_token fl) old fr (fl_clock fl) dbnow (ps_table s) = Inr (p, tbl')"
    and fid: "f_id fr \<noteq> []" "f_id fr \<notin> set (ps_ids s)"
  shows "state_inv (s\<lparr>ps_table := tbl', ps_ids := f_id fr # ps_ids s\<rparr>)"
proof -
  let ?tbl = "ps_table s" and ?pr = "fl_token fl" and ?f = "rot_update (r_org (fl_token fl)) (r_id (fl_token fl)) old (f_id fr)"
  note k = keeps_fields [OF keeps_rot_update, of "r_org ?pr" "r_id ?pr" old "f_id fr"]
  from inv have wf: "wf_table ?tbl" and fa: "family_agrees ?tbl" and li: "links_inside ?tbl" and ex: "expiry_bounded (ps_now s) ?tbl"
    and used: "rt_family ` set ?tbl \<subseteq> set (ps_families s)" "rt_id ` set ?tbl \<subseteq> set (ps_ids s)"
    and fls: "\<forall>fl \<in> set (ps_flight s). fl_clock fl \<le> ps_now s \<and> r_id (fl_token fl) \<in> set (ps_ids s) \<and> (\<forall>t \<in> set ?tbl. describes fl t)"
    by (simp_all add: state_inv_def)
  from rot obtain t row where t: "t \<in> set ?tbl" "rt_org t = r_org ?pr" "rt_id t = r_id ?pr"
    and rw: "row = token_row ?pr (f_id fr) (r_family ?pr) p (successor_expiry (rt_family_expires t) (fl_clock fl)) (rt_family_expires t) dbnow"
      "f_id fr \<notin> rt_id ` set ?tbl" "hash_refresh p \<notin> rt_hash ` set ?tbl" "row_ok row"
    and tbl': "tbl' = map ?f (?tbl @ [row])"
    by (rule rotate_refreshE) metis
  have pr: "?pr = (refresh_of_row t)\<lparr>r_scope := r_scope ?pr\<rparr>" using fls fl t by (auto simp: describes_def)
  have fields: "r_family ?pr = rt_family t" "r_user ?pr = rt_user t" "r_client ?pr = rt_client t" "r_session ?pr = null_string (rt_session t)"
    by (subst pr, simp)+
  have "session_of (null_string (rt_session t)) = rt_session t"
    using wf t(1) by (cases "rt_session t") (auto simp: wf_table_def session_of_def null_string_def)
  then have owner: "same_owner row t" using rw(1) fields t by (simp add: same_owner_def)
  have row: "rt_id row = f_id fr" "rt_replaced_by row = None" "rt_family row = rt_family t" "rt_hash row = hash_refresh p" "rt_session row \<noteq> Some []"
    using rw(1) fields by (auto simp: session_of_def)
  have le: "fl_clock fl \<le> ps_now s" using fls fl by blast
  have "rt_expires row \<le> fl_clock fl + refresh_token_lifetime" using rw(1) by (auto simp: successor_expiry_def Let_def time_defs)
  with le have exp: "rt_expires row \<le> ps_now s + refresh_token_lifetime" by simp
  have "wf_table tbl'" "expiry_bounded (ps_now s) tbl'"
    unfolding tbl' keeps_wf [OF keeps_rot_update] keeps_expiry [OF keeps_rot_update]
    using wf rw row ex exp by (auto simp: wf_append expiry_bounded_def)
  moreover have "family_agrees tbl'"
    unfolding tbl' keeps_family [OF keeps_rot_update] by (rule family_agrees_append [OF fa t(1) row(3) owner])
  moreover have "links_inside tbl'"
    using links_inside_update [OF li wf t(1,3), of row "r_org ?pr" old] rw(2) row fid(1) unfolding tbl' by simp
  moreover have "rt_family ` set tbl' \<subseteq> set (ps_families s)" using used(1) row(3) t(1) by (auto simp: tbl' k)
  moreover have "rt_id ` set tbl' \<subseteq> set (f_id fr # ps_ids s)" using used(2) row(1) by (auto simp: tbl' k)
  moreover have "describes g u" if g: "g \<in> set (ps_flight s)" and u: "u \<in> set tbl'" for g u
  proof -
    from u obtain v where v: "v \<in> set (?tbl @ [row])" "u = ?f v" unfolding tbl' set_map by (rule imageE)
    have "describes g row" using fls g fid(2) row(1) unfolding describes_def by metis
    with v(1) fls g have "describes g v" by auto
    then show ?thesis unfolding v(2) by (rule keeps_describes [OF keeps_rot_update])
  qed
  ultimately show ?thesis using fls by (auto simp: state_inv_def)
qed

lemma sweep_step_inv:
  assumes inv: "state_inv s"
  shows "state_inv (s\<lparr>ps_table := sweep_refresh picked (ps_table s)\<rparr>)"
proof -
  note k = keeps_fields [OF keeps_unlink, of picked]
  have "links_inside (sweep_refresh picked (ps_table s))"
    using inv unfolding sweep_refresh_unlink state_inv_def links_inside_def set_map ball_simps bex_simps k unlink_replaced
    by (simp add: Bex_def) metis
  with inv show ?thesis
    by (auto simp: state_inv_def sweep_refresh_unlink keeps_wf [OF keeps_unlink] k wf_filter expiry_bounded_def family_agrees_def same_owner_def
        intro: keeps_describes [OF keeps_unlink])
qed

lemma service_step_inv: "service_step s s' \<Longrightarrow> state_inv s \<Longrightarrow> state_inv s'"
proof (induction rule: service_step.induct)
  case (issue org i fr clock dbnow s p fam tbl')
  from issue_step_inv [OF issue(6,1,2,4,5)] show ?case .
next
  case (read_token t s clock scope)
  have "describes \<lparr>fl_clock = clock, fl_token = (refresh_of_row t)\<lparr>r_scope := scope\<rparr>\<rparr> u" if "u \<in> set (ps_table s)" for u
    using read_token(1,4) that by (auto simp: describes_def state_inv_def dest: wf_unique_id)
  with read_token show ?case by (auto simp: state_inv_def)
next
  case (rotate_token fl s old fr dbnow p tbl')
  from rotate_step_inv [OF rotate_token(5,1,2,3,4)] show ?case .
next
  case (revocation tbl' org i s fam se c ss u)
  from revocation_families [OF revocation(1)] obtain P where "tbl' = map (\<lambda>t. if P t then t\<lparr>rt_revoked := True\<rparr> else t) (ps_table s)" by blast
  with keeps_state_inv [OF revocation(2), of "\<lambda>t. if P t then t\<lparr>rt_revoked := True\<rparr> else t"] show ?case by (simp add: keeps_def)
next
  case (sweep before limit picked s)
  show ?case by (rule sweep_step_inv [OF sweep(3)])
next
  case (tick s now')
  then show ?case by (fastforce simp: state_inv_def expiry_bounded_def)
qed

lemma reachable_inv: "reachable_state s \<Longrightarrow> state_inv s"
proof -
  assume "reachable_state s"
  then obtain now where "service_step\<^sup>*\<^sup>* (start_state now) s" by (auto simp: reachable_state_def)
  then show ?thesis
    by (induction rule: rtranclp_induct)
      (simp add: state_inv_def start_state_def wf_table_def family_agrees_def links_inside_def expiry_bounded_def, blast intro: service_step_inv)
qed

section \<open>A request as a run\<close>

text \<open>
  A request to the token endpoint that nothing overlaps is a run of these steps: a look-up and a rotation,
  an insertion, a revocation, or nothing.
\<close>

lemma request_runs:
  assumes "table_step clock fr dbnow (ps_table s) tbl'" "clock \<le> ps_now s"
    and "f_id fr \<noteq> []" "f_id fr \<notin> set (ps_ids s)" "f_family fr \<notin> set (ps_families s)"
  shows "\<exists>s'. service_step\<^sup>*\<^sup>* s s' \<and> ps_table s' = tbl' \<and> ps_now s' = ps_now s"
  using assms(1)
proof cases
  case unchanged
  then show ?thesis by blast
next
  case (new_family org i p fam)
  from r_into_rtranclp [of service_step, OF service_step.issue [OF this assms(2-5)]] show ?thesis by (intro exI conjI) (assumption, simp_all)
next
  case (rotation pr old org p)
  from rotation(1) obtain t where t: "t \<in> set (ps_table s)" "token_live clock t" "pr = (refresh_of_row t)\<lparr>r_scope := r_scope pr\<rparr>"
    by (rule rotatableE)
  let ?fl = "\<lparr>fl_clock = clock, fl_token = pr\<rparr>"
  let ?s1 = "s\<lparr>ps_flight := ?fl # ps_flight s\<rparr>"
  have "service_step s ?s1" using service_step.read_token [OF t(1,2) assms(2), of "r_scope pr"] t(3) by simp
  moreover have "r_org pr = org" using rotation(2) by (elim rotate_refreshE)
  with rotation(2) have "service_step ?s1 (?s1\<lparr>ps_table := tbl', ps_ids := f_id fr # ps_ids ?s1\<rparr>)"
    using assms(3,4) by (intro service_step.rotate_token [of ?fl _ old fr dbnow p]) simp_all
  ultimately have "service_step\<^sup>*\<^sup>* s (?s1\<lparr>ps_table := tbl', ps_ids := f_id fr # ps_ids ?s1\<rparr>)"
    by (meson converse_rtranclp_into_rtranclp rtranclp.rtrancl_refl)
  then show ?thesis by (intro exI conjI) (assumption, simp_all)
next
  case (kill org fam)
  have "service_step s (s\<lparr>ps_table := tbl'\<rparr>)" unfolding kill by (rule service_step.revocation) blast
  from r_into_rtranclp [of service_step, OF this] show ?thesis by (intro exI conjI) (assumption, simp_all)
qed

lemma serve_token_runs:
  assumes "tw_tokens w = ps_table s" "refresh_inv now (tw_tokens w)" "now \<le> ps_now s"
    and "f_id (te_fresh env) \<noteq> []" "f_id (te_fresh env) \<notin> set (ps_ids s)" "f_family (te_fresh env) \<notin> set (ps_families s)"
  shows "\<exists>s'. service_step\<^sup>*\<^sup>* s s' \<and> ps_table s' = tw_tokens (snd (serve_token env r now w)) \<and> ps_now s' = ps_now s"
  using serve_token_step [OF assms(2), of env r] assms(3-6) unfolding assms(1) by (rule request_runs)

section \<open>What every interleaving keeps\<close>

text \<open>
  C2. Whatever the order of the transactions, those of requests that overlap included, the table stays in order: ids and hashes
  are unique, all tokens of a family have one owner, session and absolute expiry, a link never leaves its family, and no token lives longer
  than fourteen days from now.
\<close>

theorem refresh_families_consistent:
  assumes "reachable_state s"
  shows "wf_table (ps_table s) \<and> family_agrees (ps_table s) \<and> links_inside (ps_table s) \<and> expiry_bounded (ps_now s) (ps_table s)"
  using reachable_inv [OF assms] by (simp add: state_inv_def)

lemma demo_reachable:
  "\<exists>t. reachable_state \<lparr>ps_now = 1000, ps_table = [t], ps_flight = [], ps_families = [''fam1''], ps_ids = [f_id (te_fresh demo_env)]\<rparr> \<and>
     rt_family t = ''fam1'' \<and> rt_family_expires t = 1000 + family_lifetime"
proof -
  have "is_ok (issue_refresh ''org'' (minted (code_subject demo_env demo_app demo_code) demo_app []) [] (te_fresh demo_env) 1000 1000 [])"
    by (rule demo_minted) (simp add: minted_def code_subject_def demo_code_def)
  then obtain p fam tbl where iss: "issue_refresh ''org'' (minted (code_subject demo_env demo_app demo_code) demo_app [])
      [] (te_fresh demo_env) 1000 1000 [] = Inr ((p, fam), tbl)"
    by (auto simp: is_ok_def split: sum.splits)
  then obtain t where t: "tbl = [t]" "rt_family t = ''fam1''" "rt_family_expires t = 1000 + family_lifetime"
    by (elim issue_refreshE) (auto simp: demo_env_def minted_def code_subject_def demo_code_def)
  have "service_step (start_state 1000) \<lparr>ps_now = 1000, ps_table = tbl, ps_flight = [], ps_families = [''fam1''], ps_ids = [f_id (te_fresh demo_env)]\<rparr>"
    using service_step.issue [of "''org''" _ "te_fresh demo_env" 1000 1000 "start_state 1000", unfolded start_state_def] iss
    by (simp add: start_state_def demo_env_def)
  then show ?thesis using t unfolding reachable_state_def by blast
qed

theorem refresh_families_consistent_witness:
  "\<exists>t. reachable_state \<lparr>ps_now = 1000, ps_table = [t], ps_flight = [], ps_families = [''fam1''], ps_ids = [f_id (te_fresh demo_env)]\<rparr> \<and>
     wf_table [t] \<and> expiry_bounded 1000 [t]"
  using demo_reachable refresh_families_consistent by fastforce

lemma service_step_capped:
  assumes "service_step s s'" "state_inv s" "fam \<in> set (ps_families s)" "family_capped fam cap (ps_table s)"
  shows "fam \<in> set (ps_families s') \<and> ps_now s \<le> ps_now s' \<and> family_capped fam cap (ps_table s')"
  using assms(1)
proof cases
  case (issue org i fr clock dbnow p f tbl')
  from issue(2) obtain row where "tbl' = ps_table s @ [row]" "rt_family row = f_family fr" by (elim issue_refreshE) auto
  with issue(1,6) assms(3,4) show ?thesis by (auto simp: family_capped_def)
next
  case (rotate_token fl old fr dbnow p tbl')
  let ?pr = "fl_token fl"
  from rotate_token(3) obtain t row where t: "t \<in> set (ps_table s)" "rt_id t = r_id ?pr"
    and row: "row = token_row ?pr (f_id fr) (r_family ?pr) p (successor_expiry (rt_family_expires t) (fl_clock fl)) (rt_family_expires t) dbnow"
      "tbl' = map (rot_update (r_org ?pr) (r_id ?pr) old (f_id fr)) (ps_table s @ [row])"
    by (rule rotate_refreshE) metis
  have "describes fl t" using assms(2) rotate_token(2) t(1) by (auto simp: state_inv_def)
  then have pr: "?pr = (refresh_of_row t)\<lparr>r_scope := r_scope ?pr\<rparr>" using t(2) by (simp add: describes_def)
  have "r_family ?pr = rt_family t" by (subst pr) simp
  with row t(1) assms(3,4) show ?thesis unfolding rotate_token(1)
    by (auto simp: family_capped_def keeps_fields [OF keeps_rot_update])
next
  case (revocation tbl' org i f a c ss u)
  from revocation_families [OF revocation(2)] obtain P where "tbl' = map (\<lambda>t. if P t then t\<lparr>rt_revoked := True\<rparr> else t) (ps_table s)" by blast
  with assms(3,4) show ?thesis unfolding revocation(1) by (auto simp: family_capped_def)
next
  case (sweep before limit picked)
  with assms(3,4) show ?thesis by (auto simp: family_capped_def sweep_refresh_unlink keeps_fields [OF keeps_unlink])
qed (use assms in auto)

lemma service_steps_capped:
  assumes "service_step\<^sup>*\<^sup>* s s'" "state_inv s" "fam \<in> set (ps_families s)" "family_capped fam cap (ps_table s)"
  shows "state_inv s' \<and> fam \<in> set (ps_families s') \<and> ps_now s \<le> ps_now s' \<and> family_capped fam cap (ps_table s')"
  using assms(1)
proof (induction rule: rtranclp_induct)
  case base
  then show ?case using assms by simp
next
  case (step y z)
  with service_step_inv [OF step(2)] service_step_capped [OF step(2)] show ?case by fastforce
qed

text \<open>
  C8. Refreshing cannot extend an authentication for ever: the absolute expiry a family got when it
  was issued is the absolute expiry of every later member, in whatever order the transactions of overlapping requests commit, and
  from that instant on none of its tokens is live.
\<close>

theorem family_lifetime_absolute:
  assumes "reachable_state s" and "family_capped fam cap (ps_table s)" and "fam \<in> set (ps_families s)"
    and "service_step\<^sup>*\<^sup>* s s'"
  shows "family_capped fam cap (ps_table s') \<and>
    (cap \<le> ps_now s' \<longrightarrow> (\<forall>t \<in> set (ps_table s'). rt_family t = fam \<longrightarrow> \<not> token_live (ps_now s') t))"
  using service_steps_capped [OF assms(4) reachable_inv [OF assms(1)] assms(3,2)]
  by (auto simp: family_capped_def token_live_def)

theorem family_lifetime_absolute_witness:
  "\<exists>t s. reachable_state s \<and> ps_table s = [t] \<and> rt_family t = ''fam1'' \<and> \<not> token_live (1000 + family_lifetime) t"
proof -
  obtain t s where t: "reachable_state s" "ps_now s = 1000" "ps_table s = [t]" "''fam1'' \<in> set (ps_families s)" "rt_family t = ''fam1''"
    "rt_family_expires t = 1000 + family_lifetime"
    using demo_reachable by fastforce
  let ?s = "s\<lparr>ps_now := 1000 + family_lifetime\<rparr>"
  have tick: "service_step s ?s" using t(2) by (intro service_step.tick) (simp add: lifetime_defs)
  have capped: "family_capped ''fam1'' (1000 + family_lifetime) (ps_table s)" using t(3,6) by (simp add: family_capped_def)
  from family_lifetime_absolute [OF t(1) capped t(4) r_into_rtranclp [of service_step, OF tick]] t show ?thesis by auto
qed

end
