(* ===== verification/HashVectors.thy ===== *)
theory HashVectors
  imports RefreshStore
begin

text \<open>
  The SHA-256 digests of two concrete refresh tokens (the encodings of 32 zero bytes and of 32 one
  bytes), computed in stages, so that witnesses can insert one token beside the other: their
  stored hashes differ.
\<close>

section \<open>Staged evaluation\<close>

lemmas round_defs = bsig0_def bsig1_def ch_def maj_def rotr_def Let_def
lemmas sched_defs = ssig0_def ssig1_def rotr_def

lemma hash_refresh_block:
  assumes "be_words (pad (bytes_of s)) = blk" "length blk = 16" "length s < 56"
    and "sha_add sha_h0 (fold sha_round (zip sha_k (expand blk)) sha_h0) = (a, b, c, d, e, f, g, h)"
  shows "\<exists>bs. hash_refresh s = hex_byte (ucast (drop_bit 24 a)) @ bs"
proof -
  have "(119 - length s) mod 64 = 55 - length s"
    using assms(3) by (simp add: mod_if)
  then have "length (pad (bytes_of s)) = 64" using assms(3) by (simp add: pad_def Let_def)
  then have "sha_blocks (length (pad (bytes_of s)) div 64) sha_h0 (be_words (pad (bytes_of s))) = (a, b, c, d, e,
    f, g, h)"
    using assms by (simp add: compress_def)
  then show ?thesis by (simp add: hash_refresh_def sha256_def Let_def hex_encode_def be_bytes_def)
qed

definition sched_window :: "u32 list \<Rightarrow> u32 list" where
  "sched_window w = (ssig1 (w ! 1) + w ! 6 + ssig0 (w ! 14) + w ! 15) # take 15 w"

lemma schedule_window: "schedule (Suc n) w out = schedule n (sched_window w) (hd (sched_window w) # out)"
  by (simp add: Let_def sched_window_def)

section \<open>Zero bytes\<close>

definition token_zero :: string where "token_zero = ''AAAAAAAAAAAAAAAAAAAAAAAAAAAAAAAAAAAAAAAAAAA''"

lemma token_zero_encoded: "b64url_encode (replicate 32 0) = token_zero"
  unfolding token_zero_def by code_simp

lemma block_zero: "be_words (pad (bytes_of token_zero)) =
  [0x41414141, 0x41414141, 0x41414141, 0x41414141, 0x41414141, 0x41414141, 0x41414141, 0x41414141, 0x41414141,
    0x41414141, 0x41414180, 0x0, 0x0, 0x0, 0x0, 0x158]"
  unfolding token_zero_def by code_simp

lemma windows_zero_1:
  "sched_window [0x158, 0x0, 0x0, 0x0, 0x0, 0x41414180, 0x41414141, 0x41414141, 0x41414141, 0x41414141, 0x41414141,
    0x41414141, 0x41414141, 0x41414141, 0x41414141, 0x41414141] =
    [0x5d7d7d7c, 0x158, 0x0, 0x0, 0x0, 0x0, 0x41414180, 0x41414141, 0x41414141, 0x41414141, 0x41414141, 0x41414141,
    0x41414141, 0x41414141, 0x41414141, 0x41414141]"
  "sched_window [0x5d7d7d7c, 0x158, 0x0, 0x0, 0x0, 0x0, 0x41414180, 0x41414141, 0x41414141, 0x41414141, 0x41414141,
    0x41414141, 0x41414141, 0x41414141, 0x41414141, 0x41414141] =
    [0x5e047dbb, 0x5d7d7d7c, 0x158, 0x0, 0x0, 0x0, 0x0, 0x41414180, 0x41414141, 0x41414141, 0x41414141, 0x41414141,
    0x41414141, 0x41414141, 0x41414141, 0x41414141]"
  "sched_window [0x5e047dbb, 0x5d7d7d7c, 0x158, 0x0, 0x0, 0x0, 0x0, 0x41414180, 0x41414141, 0x41414141, 0x41414141,
    0x41414141, 0x41414141, 0x41414141, 0x41414141, 0x41414141] =
    [0x2d433689, 0x5e047dbb, 0x5d7d7d7c, 0x158, 0x0, 0x0, 0x0, 0x0, 0x41414180, 0x41414141, 0x41414141, 0x41414141,
    0x41414141, 0x41414141, 0x41414141, 0x41414141]"
  "sched_window [0x2d433689, 0x5e047dbb, 0x5d7d7d7c, 0x158, 0x0, 0x0, 0x0, 0x0, 0x41414180, 0x41414141, 0x41414141,
    0x41414141, 0x41414141, 0x41414141, 0x41414141, 0x41414141] =
    [0xcdb98218, 0x2d433689, 0x5e047dbb, 0x5d7d7d7c, 0x158, 0x0, 0x0, 0x0, 0x0, 0x41414180, 0x41414141, 0x41414141,
    0x41414141, 0x41414141, 0x41414141, 0x41414141]"
  "sched_window [0xcdb98218, 0x2d433689, 0x5e047dbb, 0x5d7d7d7c, 0x158, 0x0, 0x0, 0x0, 0x0, 0x41414180, 0x41414141,
    0x41414141, 0x41414141, 0x41414141, 0x41414141, 0x41414141] =
    [0x19db1fff, 0xcdb98218, 0x2d433689, 0x5e047dbb, 0x5d7d7d7c, 0x158, 0x0, 0x0, 0x0, 0x0, 0x41414180, 0x41414141,
    0x41414141, 0x41414141, 0x41414141, 0x41414141]"
  "sched_window [0x19db1fff, 0xcdb98218, 0x2d433689, 0x5e047dbb, 0x5d7d7d7c, 0x158, 0x0, 0x0, 0x0, 0x0, 0x41414180,
    0x41414141, 0x41414141, 0x41414141, 0x41414141, 0x41414141] =
    [0xdb84d46, 0x19db1fff, 0xcdb98218, 0x2d433689, 0x5e047dbb, 0x5d7d7d7c, 0x158, 0x0, 0x0, 0x0, 0x0, 0x41414180,
    0x41414141, 0x41414141, 0x41414141, 0x41414141]"
  "sched_window [0xdb84d46, 0x19db1fff, 0xcdb98218, 0x2d433689, 0x5e047dbb, 0x5d7d7d7c, 0x158, 0x0, 0x0, 0x0, 0x0,
    0x41414180, 0x41414141, 0x41414141, 0x41414141, 0x41414141] =
    [0x84256a4, 0xdb84d46, 0x19db1fff, 0xcdb98218, 0x2d433689, 0x5e047dbb, 0x5d7d7d7c, 0x158, 0x0, 0x0, 0x0, 0x0,
    0x41414180, 0x41414141, 0x41414141, 0x41414141]"
  "sched_window [0x84256a4, 0xdb84d46, 0x19db1fff, 0xcdb98218, 0x2d433689, 0x5e047dbb, 0x5d7d7d7c, 0x158, 0x0, 0x0,
    0x0, 0x0, 0x41414180, 0x41414141, 0x41414141, 0x41414141] =
    [0xa8c2632f, 0x84256a4, 0xdb84d46, 0x19db1fff, 0xcdb98218, 0x2d433689, 0x5e047dbb, 0x5d7d7d7c, 0x158, 0x0, 0x0,
    0x0, 0x0, 0x41414180, 0x41414141, 0x41414141]"
  "sched_window [0xa8c2632f, 0x84256a4, 0xdb84d46, 0x19db1fff, 0xcdb98218, 0x2d433689, 0x5e047dbb, 0x5d7d7d7c,
    0x158, 0x0, 0x0, 0x0, 0x0, 0x41414180, 0x41414141, 0x41414141] =
    [0xdbc54fb2, 0xa8c2632f, 0x84256a4, 0xdb84d46, 0x19db1fff, 0xcdb98218, 0x2d433689, 0x5e047dbb, 0x5d7d7d7c,
    0x158, 0x0, 0x0, 0x0, 0x0, 0x41414180, 0x41414141]"
  "sched_window [0xdbc54fb2, 0xa8c2632f, 0x84256a4, 0xdb84d46, 0x19db1fff, 0xcdb98218, 0x2d433689, 0x5e047dbb,
    0x5d7d7d7c, 0x158, 0x0, 0x0, 0x0, 0x0, 0x41414180, 0x41414141] =
    [0x4527448e, 0xdbc54fb2, 0xa8c2632f, 0x84256a4, 0xdb84d46, 0x19db1fff, 0xcdb98218, 0x2d433689, 0x5e047dbb,
    0x5d7d7d7c, 0x158, 0x0, 0x0, 0x0, 0x0, 0x41414180]"
  "sched_window [0x4527448e, 0xdbc54fb2, 0xa8c2632f, 0x84256a4, 0xdb84d46, 0x19db1fff, 0xcdb98218, 0x2d433689,
    0x5e047dbb, 0x5d7d7d7c, 0x158, 0x0, 0x0, 0x0, 0x0, 0x41414180] =
    [0x1d148b61, 0x4527448e, 0xdbc54fb2, 0xa8c2632f, 0x84256a4, 0xdb84d46, 0x19db1fff, 0xcdb98218, 0x2d433689,
    0x5e047dbb, 0x5d7d7d7c, 0x158, 0x0, 0x0, 0x0, 0x0]"
  "sched_window [0x1d148b61, 0x4527448e, 0xdbc54fb2, 0xa8c2632f, 0x84256a4, 0xdb84d46, 0x19db1fff, 0xcdb98218,
    0x2d433689, 0x5e047dbb, 0x5d7d7d7c, 0x158, 0x0, 0x0, 0x0, 0x0] =
    [0x64a2c3e5, 0x1d148b61, 0x4527448e, 0xdbc54fb2, 0xa8c2632f, 0x84256a4, 0xdb84d46, 0x19db1fff, 0xcdb98218,
    0x2d433689, 0x5e047dbb, 0x5d7d7d7c, 0x158, 0x0, 0x0, 0x0]"
  by (simp_all add: sched_window_def sched_defs)

lemma windows_zero_2:
  "sched_window [0x64a2c3e5, 0x1d148b61, 0x4527448e, 0xdbc54fb2, 0xa8c2632f, 0x84256a4, 0xdb84d46, 0x19db1fff,
    0xcdb98218, 0x2d433689, 0x5e047dbb, 0x5d7d7d7c, 0x158, 0x0, 0x0, 0x0] =
    [0xe2943550, 0x64a2c3e5, 0x1d148b61, 0x4527448e, 0xdbc54fb2, 0xa8c2632f, 0x84256a4, 0xdb84d46, 0x19db1fff,
    0xcdb98218, 0x2d433689, 0x5e047dbb, 0x5d7d7d7c, 0x158, 0x0, 0x0]"
  "sched_window [0xe2943550, 0x64a2c3e5, 0x1d148b61, 0x4527448e, 0xdbc54fb2, 0xa8c2632f, 0x84256a4, 0xdb84d46,
    0x19db1fff, 0xcdb98218, 0x2d433689, 0x5e047dbb, 0x5d7d7d7c, 0x158, 0x0, 0x0] =
    [0x41d98d19, 0xe2943550, 0x64a2c3e5, 0x1d148b61, 0x4527448e, 0xdbc54fb2, 0xa8c2632f, 0x84256a4, 0xdb84d46,
    0x19db1fff, 0xcdb98218, 0x2d433689, 0x5e047dbb, 0x5d7d7d7c, 0x158, 0x0]"
  "sched_window [0x41d98d19, 0xe2943550, 0x64a2c3e5, 0x1d148b61, 0x4527448e, 0xdbc54fb2, 0xa8c2632f, 0x84256a4,
    0xdb84d46, 0x19db1fff, 0xcdb98218, 0x2d433689, 0x5e047dbb, 0x5d7d7d7c, 0x158, 0x0] =
    [0xf5532b6d, 0x41d98d19, 0xe2943550, 0x64a2c3e5, 0x1d148b61, 0x4527448e, 0xdbc54fb2, 0xa8c2632f, 0x84256a4,
    0xdb84d46, 0x19db1fff, 0xcdb98218, 0x2d433689, 0x5e047dbb, 0x5d7d7d7c, 0x158]"
  "sched_window [0xf5532b6d, 0x41d98d19, 0xe2943550, 0x64a2c3e5, 0x1d148b61, 0x4527448e, 0xdbc54fb2, 0xa8c2632f,
    0x84256a4, 0xdb84d46, 0x19db1fff, 0xcdb98218, 0x2d433689, 0x5e047dbb, 0x5d7d7d7c, 0x158] =
    [0x7f4f91c8, 0xf5532b6d, 0x41d98d19, 0xe2943550, 0x64a2c3e5, 0x1d148b61, 0x4527448e, 0xdbc54fb2, 0xa8c2632f,
    0x84256a4, 0xdb84d46, 0x19db1fff, 0xcdb98218, 0x2d433689, 0x5e047dbb, 0x5d7d7d7c]"
  "sched_window [0x7f4f91c8, 0xf5532b6d, 0x41d98d19, 0xe2943550, 0x64a2c3e5, 0x1d148b61, 0x4527448e, 0xdbc54fb2,
    0xa8c2632f, 0x84256a4, 0xdb84d46, 0x19db1fff, 0xcdb98218, 0x2d433689, 0x5e047dbb, 0x5d7d7d7c] =
    [0xf59d23a0, 0x7f4f91c8, 0xf5532b6d, 0x41d98d19, 0xe2943550, 0x64a2c3e5, 0x1d148b61, 0x4527448e, 0xdbc54fb2,
    0xa8c2632f, 0x84256a4, 0xdb84d46, 0x19db1fff, 0xcdb98218, 0x2d433689, 0x5e047dbb]"
  "sched_window [0xf59d23a0, 0x7f4f91c8, 0xf5532b6d, 0x41d98d19, 0xe2943550, 0x64a2c3e5, 0x1d148b61, 0x4527448e,
    0xdbc54fb2, 0xa8c2632f, 0x84256a4, 0xdb84d46, 0x19db1fff, 0xcdb98218, 0x2d433689, 0x5e047dbb] =
    [0x902c98b2, 0xf59d23a0, 0x7f4f91c8, 0xf5532b6d, 0x41d98d19, 0xe2943550, 0x64a2c3e5, 0x1d148b61, 0x4527448e,
    0xdbc54fb2, 0xa8c2632f, 0x84256a4, 0xdb84d46, 0x19db1fff, 0xcdb98218, 0x2d433689]"
  "sched_window [0x902c98b2, 0xf59d23a0, 0x7f4f91c8, 0xf5532b6d, 0x41d98d19, 0xe2943550, 0x64a2c3e5, 0x1d148b61,
    0x4527448e, 0xdbc54fb2, 0xa8c2632f, 0x84256a4, 0xdb84d46, 0x19db1fff, 0xcdb98218, 0x2d433689] =
    [0x10296dcc, 0x902c98b2, 0xf59d23a0, 0x7f4f91c8, 0xf5532b6d, 0x41d98d19, 0xe2943550, 0x64a2c3e5, 0x1d148b61,
    0x4527448e, 0xdbc54fb2, 0xa8c2632f, 0x84256a4, 0xdb84d46, 0x19db1fff, 0xcdb98218]"
  "sched_window [0x10296dcc, 0x902c98b2, 0xf59d23a0, 0x7f4f91c8, 0xf5532b6d, 0x41d98d19, 0xe2943550, 0x64a2c3e5,
    0x1d148b61, 0x4527448e, 0xdbc54fb2, 0xa8c2632f, 0x84256a4, 0xdb84d46, 0x19db1fff, 0xcdb98218] =
    [0xcaafdc53, 0x10296dcc, 0x902c98b2, 0xf59d23a0, 0x7f4f91c8, 0xf5532b6d, 0x41d98d19, 0xe2943550, 0x64a2c3e5,
    0x1d148b61, 0x4527448e, 0xdbc54fb2, 0xa8c2632f, 0x84256a4, 0xdb84d46, 0x19db1fff]"
  "sched_window [0xcaafdc53, 0x10296dcc, 0x902c98b2, 0xf59d23a0, 0x7f4f91c8, 0xf5532b6d, 0x41d98d19, 0xe2943550,
    0x64a2c3e5, 0x1d148b61, 0x4527448e, 0xdbc54fb2, 0xa8c2632f, 0x84256a4, 0xdb84d46, 0x19db1fff] =
    [0x960e27be, 0xcaafdc53, 0x10296dcc, 0x902c98b2, 0xf59d23a0, 0x7f4f91c8, 0xf5532b6d, 0x41d98d19, 0xe2943550,
    0x64a2c3e5, 0x1d148b61, 0x4527448e, 0xdbc54fb2, 0xa8c2632f, 0x84256a4, 0xdb84d46]"
  "sched_window [0x960e27be, 0xcaafdc53, 0x10296dcc, 0x902c98b2, 0xf59d23a0, 0x7f4f91c8, 0xf5532b6d, 0x41d98d19,
    0xe2943550, 0x64a2c3e5, 0x1d148b61, 0x4527448e, 0xdbc54fb2, 0xa8c2632f, 0x84256a4, 0xdb84d46] =
    [0xf54e7d11, 0x960e27be, 0xcaafdc53, 0x10296dcc, 0x902c98b2, 0xf59d23a0, 0x7f4f91c8, 0xf5532b6d, 0x41d98d19,
    0xe2943550, 0x64a2c3e5, 0x1d148b61, 0x4527448e, 0xdbc54fb2, 0xa8c2632f, 0x84256a4]"
  "sched_window [0xf54e7d11, 0x960e27be, 0xcaafdc53, 0x10296dcc, 0x902c98b2, 0xf59d23a0, 0x7f4f91c8, 0xf5532b6d,
    0x41d98d19, 0xe2943550, 0x64a2c3e5, 0x1d148b61, 0x4527448e, 0xdbc54fb2, 0xa8c2632f, 0x84256a4] =
    [0x3121254e, 0xf54e7d11, 0x960e27be, 0xcaafdc53, 0x10296dcc, 0x902c98b2, 0xf59d23a0, 0x7f4f91c8, 0xf5532b6d,
    0x41d98d19, 0xe2943550, 0x64a2c3e5, 0x1d148b61, 0x4527448e, 0xdbc54fb2, 0xa8c2632f]"
  "sched_window [0x3121254e, 0xf54e7d11, 0x960e27be, 0xcaafdc53, 0x10296dcc, 0x902c98b2, 0xf59d23a0, 0x7f4f91c8,
    0xf5532b6d, 0x41d98d19, 0xe2943550, 0x64a2c3e5, 0x1d148b61, 0x4527448e, 0xdbc54fb2, 0xa8c2632f] =
    [0xbc9ab3f8, 0x3121254e, 0xf54e7d11, 0x960e27be, 0xcaafdc53, 0x10296dcc, 0x902c98b2, 0xf59d23a0, 0x7f4f91c8,
    0xf5532b6d, 0x41d98d19, 0xe2943550, 0x64a2c3e5, 0x1d148b61, 0x4527448e, 0xdbc54fb2]"
  by (simp_all add: sched_window_def sched_defs)

lemma windows_zero_3:
  "sched_window [0xbc9ab3f8, 0x3121254e, 0xf54e7d11, 0x960e27be, 0xcaafdc53, 0x10296dcc, 0x902c98b2, 0xf59d23a0,
    0x7f4f91c8, 0xf5532b6d, 0x41d98d19, 0xe2943550, 0x64a2c3e5, 0x1d148b61, 0x4527448e, 0xdbc54fb2] =
    [0xe701b6b2, 0xbc9ab3f8, 0x3121254e, 0xf54e7d11, 0x960e27be, 0xcaafdc53, 0x10296dcc, 0x902c98b2, 0xf59d23a0,
    0x7f4f91c8, 0xf5532b6d, 0x41d98d19, 0xe2943550, 0x64a2c3e5, 0x1d148b61, 0x4527448e]"
  "sched_window [0xe701b6b2, 0xbc9ab3f8, 0x3121254e, 0xf54e7d11, 0x960e27be, 0xcaafdc53, 0x10296dcc, 0x902c98b2,
    0xf59d23a0, 0x7f4f91c8, 0xf5532b6d, 0x41d98d19, 0xe2943550, 0x64a2c3e5, 0x1d148b61, 0x4527448e] =
    [0x483e210b, 0xe701b6b2, 0xbc9ab3f8, 0x3121254e, 0xf54e7d11, 0x960e27be, 0xcaafdc53, 0x10296dcc, 0x902c98b2,
    0xf59d23a0, 0x7f4f91c8, 0xf5532b6d, 0x41d98d19, 0xe2943550, 0x64a2c3e5, 0x1d148b61]"
  "sched_window [0x483e210b, 0xe701b6b2, 0xbc9ab3f8, 0x3121254e, 0xf54e7d11, 0x960e27be, 0xcaafdc53, 0x10296dcc,
    0x902c98b2, 0xf59d23a0, 0x7f4f91c8, 0xf5532b6d, 0x41d98d19, 0xe2943550, 0x64a2c3e5, 0x1d148b61] =
    [0x4c1f9b94, 0x483e210b, 0xe701b6b2, 0xbc9ab3f8, 0x3121254e, 0xf54e7d11, 0x960e27be, 0xcaafdc53, 0x10296dcc,
    0x902c98b2, 0xf59d23a0, 0x7f4f91c8, 0xf5532b6d, 0x41d98d19, 0xe2943550, 0x64a2c3e5]"
  "sched_window [0x4c1f9b94, 0x483e210b, 0xe701b6b2, 0xbc9ab3f8, 0x3121254e, 0xf54e7d11, 0x960e27be, 0xcaafdc53,
    0x10296dcc, 0x902c98b2, 0xf59d23a0, 0x7f4f91c8, 0xf5532b6d, 0x41d98d19, 0xe2943550, 0x64a2c3e5] =
    [0x802b4498, 0x4c1f9b94, 0x483e210b, 0xe701b6b2, 0xbc9ab3f8, 0x3121254e, 0xf54e7d11, 0x960e27be, 0xcaafdc53,
    0x10296dcc, 0x902c98b2, 0xf59d23a0, 0x7f4f91c8, 0xf5532b6d, 0x41d98d19, 0xe2943550]"
  "sched_window [0x802b4498, 0x4c1f9b94, 0x483e210b, 0xe701b6b2, 0xbc9ab3f8, 0x3121254e, 0xf54e7d11, 0x960e27be,
    0xcaafdc53, 0x10296dcc, 0x902c98b2, 0xf59d23a0, 0x7f4f91c8, 0xf5532b6d, 0x41d98d19, 0xe2943550] =
    [0x708d2d9a, 0x802b4498, 0x4c1f9b94, 0x483e210b, 0xe701b6b2, 0xbc9ab3f8, 0x3121254e, 0xf54e7d11, 0x960e27be,
    0xcaafdc53, 0x10296dcc, 0x902c98b2, 0xf59d23a0, 0x7f4f91c8, 0xf5532b6d, 0x41d98d19]"
  "sched_window [0x708d2d9a, 0x802b4498, 0x4c1f9b94, 0x483e210b, 0xe701b6b2, 0xbc9ab3f8, 0x3121254e, 0xf54e7d11,
    0x960e27be, 0xcaafdc53, 0x10296dcc, 0x902c98b2, 0xf59d23a0, 0x7f4f91c8, 0xf5532b6d, 0x41d98d19] =
    [0x4d95cb97, 0x708d2d9a, 0x802b4498, 0x4c1f9b94, 0x483e210b, 0xe701b6b2, 0xbc9ab3f8, 0x3121254e, 0xf54e7d11,
    0x960e27be, 0xcaafdc53, 0x10296dcc, 0x902c98b2, 0xf59d23a0, 0x7f4f91c8, 0xf5532b6d]"
  "sched_window [0x4d95cb97, 0x708d2d9a, 0x802b4498, 0x4c1f9b94, 0x483e210b, 0xe701b6b2, 0xbc9ab3f8, 0x3121254e,
    0xf54e7d11, 0x960e27be, 0xcaafdc53, 0x10296dcc, 0x902c98b2, 0xf59d23a0, 0x7f4f91c8, 0xf5532b6d] =
    [0x60b5a74a, 0x4d95cb97, 0x708d2d9a, 0x802b4498, 0x4c1f9b94, 0x483e210b, 0xe701b6b2, 0xbc9ab3f8, 0x3121254e,
    0xf54e7d11, 0x960e27be, 0xcaafdc53, 0x10296dcc, 0x902c98b2, 0xf59d23a0, 0x7f4f91c8]"
  "sched_window [0x60b5a74a, 0x4d95cb97, 0x708d2d9a, 0x802b4498, 0x4c1f9b94, 0x483e210b, 0xe701b6b2, 0xbc9ab3f8,
    0x3121254e, 0xf54e7d11, 0x960e27be, 0xcaafdc53, 0x10296dcc, 0x902c98b2, 0xf59d23a0, 0x7f4f91c8] =
    [0xdaac15d8, 0x60b5a74a, 0x4d95cb97, 0x708d2d9a, 0x802b4498, 0x4c1f9b94, 0x483e210b, 0xe701b6b2, 0xbc9ab3f8,
    0x3121254e, 0xf54e7d11, 0x960e27be, 0xcaafdc53, 0x10296dcc, 0x902c98b2, 0xf59d23a0]"
  "sched_window [0xdaac15d8, 0x60b5a74a, 0x4d95cb97, 0x708d2d9a, 0x802b4498, 0x4c1f9b94, 0x483e210b, 0xe701b6b2,
    0xbc9ab3f8, 0x3121254e, 0xf54e7d11, 0x960e27be, 0xcaafdc53, 0x10296dcc, 0x902c98b2, 0xf59d23a0] =
    [0xf63903fc, 0xdaac15d8, 0x60b5a74a, 0x4d95cb97, 0x708d2d9a, 0x802b4498, 0x4c1f9b94, 0x483e210b, 0xe701b6b2,
    0xbc9ab3f8, 0x3121254e, 0xf54e7d11, 0x960e27be, 0xcaafdc53, 0x10296dcc, 0x902c98b2]"
  "sched_window [0xf63903fc, 0xdaac15d8, 0x60b5a74a, 0x4d95cb97, 0x708d2d9a, 0x802b4498, 0x4c1f9b94, 0x483e210b,
    0xe701b6b2, 0xbc9ab3f8, 0x3121254e, 0xf54e7d11, 0x960e27be, 0xcaafdc53, 0x10296dcc, 0x902c98b2] =
    [0x26048cb4, 0xf63903fc, 0xdaac15d8, 0x60b5a74a, 0x4d95cb97, 0x708d2d9a, 0x802b4498, 0x4c1f9b94, 0x483e210b,
    0xe701b6b2, 0xbc9ab3f8, 0x3121254e, 0xf54e7d11, 0x960e27be, 0xcaafdc53, 0x10296dcc]"
  "sched_window [0x26048cb4, 0xf63903fc, 0xdaac15d8, 0x60b5a74a, 0x4d95cb97, 0x708d2d9a, 0x802b4498, 0x4c1f9b94,
    0x483e210b, 0xe701b6b2, 0xbc9ab3f8, 0x3121254e, 0xf54e7d11, 0x960e27be, 0xcaafdc53, 0x10296dcc] =
    [0x7be57498, 0x26048cb4, 0xf63903fc, 0xdaac15d8, 0x60b5a74a, 0x4d95cb97, 0x708d2d9a, 0x802b4498, 0x4c1f9b94,
    0x483e210b, 0xe701b6b2, 0xbc9ab3f8, 0x3121254e, 0xf54e7d11, 0x960e27be, 0xcaafdc53]"
  "sched_window [0x7be57498, 0x26048cb4, 0xf63903fc, 0xdaac15d8, 0x60b5a74a, 0x4d95cb97, 0x708d2d9a, 0x802b4498,
    0x4c1f9b94, 0x483e210b, 0xe701b6b2, 0xbc9ab3f8, 0x3121254e, 0xf54e7d11, 0x960e27be, 0xcaafdc53] =
    [0xf9049e09, 0x7be57498, 0x26048cb4, 0xf63903fc, 0xdaac15d8, 0x60b5a74a, 0x4d95cb97, 0x708d2d9a, 0x802b4498,
    0x4c1f9b94, 0x483e210b, 0xe701b6b2, 0xbc9ab3f8, 0x3121254e, 0xf54e7d11, 0x960e27be]"
  by (simp_all add: sched_window_def sched_defs)

lemma windows_zero_4:
  "sched_window [0xf9049e09, 0x7be57498, 0x26048cb4, 0xf63903fc, 0xdaac15d8, 0x60b5a74a, 0x4d95cb97, 0x708d2d9a,
    0x802b4498, 0x4c1f9b94, 0x483e210b, 0xe701b6b2, 0xbc9ab3f8, 0x3121254e, 0xf54e7d11, 0x960e27be] =
    [0x9a6ced33, 0xf9049e09, 0x7be57498, 0x26048cb4, 0xf63903fc, 0xdaac15d8, 0x60b5a74a, 0x4d95cb97, 0x708d2d9a,
    0x802b4498, 0x4c1f9b94, 0x483e210b, 0xe701b6b2, 0xbc9ab3f8, 0x3121254e, 0xf54e7d11]"
  "sched_window [0x9a6ced33, 0xf9049e09, 0x7be57498, 0x26048cb4, 0xf63903fc, 0xdaac15d8, 0x60b5a74a, 0x4d95cb97,
    0x708d2d9a, 0x802b4498, 0x4c1f9b94, 0x483e210b, 0xe701b6b2, 0xbc9ab3f8, 0x3121254e, 0xf54e7d11] =
    [0x615918b, 0x9a6ced33, 0xf9049e09, 0x7be57498, 0x26048cb4, 0xf63903fc, 0xdaac15d8, 0x60b5a74a, 0x4d95cb97,
    0x708d2d9a, 0x802b4498, 0x4c1f9b94, 0x483e210b, 0xe701b6b2, 0xbc9ab3f8, 0x3121254e]"
  "sched_window [0x615918b, 0x9a6ced33, 0xf9049e09, 0x7be57498, 0x26048cb4, 0xf63903fc, 0xdaac15d8, 0x60b5a74a,
    0x4d95cb97, 0x708d2d9a, 0x802b4498, 0x4c1f9b94, 0x483e210b, 0xe701b6b2, 0xbc9ab3f8, 0x3121254e] =
    [0x40faaca4, 0x615918b, 0x9a6ced33, 0xf9049e09, 0x7be57498, 0x26048cb4, 0xf63903fc, 0xdaac15d8, 0x60b5a74a,
    0x4d95cb97, 0x708d2d9a, 0x802b4498, 0x4c1f9b94, 0x483e210b, 0xe701b6b2, 0xbc9ab3f8]"
  "sched_window [0x40faaca4, 0x615918b, 0x9a6ced33, 0xf9049e09, 0x7be57498, 0x26048cb4, 0xf63903fc, 0xdaac15d8,
    0x60b5a74a, 0x4d95cb97, 0x708d2d9a, 0x802b4498, 0x4c1f9b94, 0x483e210b, 0xe701b6b2, 0xbc9ab3f8] =
    [0x424bab1b, 0x40faaca4, 0x615918b, 0x9a6ced33, 0xf9049e09, 0x7be57498, 0x26048cb4, 0xf63903fc, 0xdaac15d8,
    0x60b5a74a, 0x4d95cb97, 0x708d2d9a, 0x802b4498, 0x4c1f9b94, 0x483e210b, 0xe701b6b2]"
  "sched_window [0x424bab1b, 0x40faaca4, 0x615918b, 0x9a6ced33, 0xf9049e09, 0x7be57498, 0x26048cb4, 0xf63903fc,
    0xdaac15d8, 0x60b5a74a, 0x4d95cb97, 0x708d2d9a, 0x802b4498, 0x4c1f9b94, 0x483e210b, 0xe701b6b2] =
    [0xa8b2449b, 0x424bab1b, 0x40faaca4, 0x615918b, 0x9a6ced33, 0xf9049e09, 0x7be57498, 0x26048cb4, 0xf63903fc,
    0xdaac15d8, 0x60b5a74a, 0x4d95cb97, 0x708d2d9a, 0x802b4498, 0x4c1f9b94, 0x483e210b]"
  "sched_window [0xa8b2449b, 0x424bab1b, 0x40faaca4, 0x615918b, 0x9a6ced33, 0xf9049e09, 0x7be57498, 0x26048cb4,
    0xf63903fc, 0xdaac15d8, 0x60b5a74a, 0x4d95cb97, 0x708d2d9a, 0x802b4498, 0x4c1f9b94, 0x483e210b] =
    [0x2d20d06b, 0xa8b2449b, 0x424bab1b, 0x40faaca4, 0x615918b, 0x9a6ced33, 0xf9049e09, 0x7be57498, 0x26048cb4,
    0xf63903fc, 0xdaac15d8, 0x60b5a74a, 0x4d95cb97, 0x708d2d9a, 0x802b4498, 0x4c1f9b94]"
  "sched_window [0x2d20d06b, 0xa8b2449b, 0x424bab1b, 0x40faaca4, 0x615918b, 0x9a6ced33, 0xf9049e09, 0x7be57498,
    0x26048cb4, 0xf63903fc, 0xdaac15d8, 0x60b5a74a, 0x4d95cb97, 0x708d2d9a, 0x802b4498, 0x4c1f9b94] =
    [0xa03be58b, 0x2d20d06b, 0xa8b2449b, 0x424bab1b, 0x40faaca4, 0x615918b, 0x9a6ced33, 0xf9049e09, 0x7be57498,
    0x26048cb4, 0xf63903fc, 0xdaac15d8, 0x60b5a74a, 0x4d95cb97, 0x708d2d9a, 0x802b4498]"
  "sched_window [0xa03be58b, 0x2d20d06b, 0xa8b2449b, 0x424bab1b, 0x40faaca4, 0x615918b, 0x9a6ced33, 0xf9049e09,
    0x7be57498, 0x26048cb4, 0xf63903fc, 0xdaac15d8, 0x60b5a74a, 0x4d95cb97, 0x708d2d9a, 0x802b4498] =
    [0xfe621096, 0xa03be58b, 0x2d20d06b, 0xa8b2449b, 0x424bab1b, 0x40faaca4, 0x615918b, 0x9a6ced33, 0xf9049e09,
    0x7be57498, 0x26048cb4, 0xf63903fc, 0xdaac15d8, 0x60b5a74a, 0x4d95cb97, 0x708d2d9a]"
  "sched_window [0xfe621096, 0xa03be58b, 0x2d20d06b, 0xa8b2449b, 0x424bab1b, 0x40faaca4, 0x615918b, 0x9a6ced33,
    0xf9049e09, 0x7be57498, 0x26048cb4, 0xf63903fc, 0xdaac15d8, 0x60b5a74a, 0x4d95cb97, 0x708d2d9a] =
    [0x5acbab88, 0xfe621096, 0xa03be58b, 0x2d20d06b, 0xa8b2449b, 0x424bab1b, 0x40faaca4, 0x615918b, 0x9a6ced33,
    0xf9049e09, 0x7be57498, 0x26048cb4, 0xf63903fc, 0xdaac15d8, 0x60b5a74a, 0x4d95cb97]"
  "sched_window [0x5acbab88, 0xfe621096, 0xa03be58b, 0x2d20d06b, 0xa8b2449b, 0x424bab1b, 0x40faaca4, 0x615918b,
    0x9a6ced33, 0xf9049e09, 0x7be57498, 0x26048cb4, 0xf63903fc, 0xdaac15d8, 0x60b5a74a, 0x4d95cb97] =
    [0xc9fbf83e, 0x5acbab88, 0xfe621096, 0xa03be58b, 0x2d20d06b, 0xa8b2449b, 0x424bab1b, 0x40faaca4, 0x615918b,
    0x9a6ced33, 0xf9049e09, 0x7be57498, 0x26048cb4, 0xf63903fc, 0xdaac15d8, 0x60b5a74a]"
  "sched_window [0xc9fbf83e, 0x5acbab88, 0xfe621096, 0xa03be58b, 0x2d20d06b, 0xa8b2449b, 0x424bab1b, 0x40faaca4,
    0x615918b, 0x9a6ced33, 0xf9049e09, 0x7be57498, 0x26048cb4, 0xf63903fc, 0xdaac15d8, 0x60b5a74a] =
    [0xf33bd376, 0xc9fbf83e, 0x5acbab88, 0xfe621096, 0xa03be58b, 0x2d20d06b, 0xa8b2449b, 0x424bab1b, 0x40faaca4,
    0x615918b, 0x9a6ced33, 0xf9049e09, 0x7be57498, 0x26048cb4, 0xf63903fc, 0xdaac15d8]"
  "sched_window [0xf33bd376, 0xc9fbf83e, 0x5acbab88, 0xfe621096, 0xa03be58b, 0x2d20d06b, 0xa8b2449b, 0x424bab1b,
    0x40faaca4, 0x615918b, 0x9a6ced33, 0xf9049e09, 0x7be57498, 0x26048cb4, 0xf63903fc, 0xdaac15d8] =
    [0xae5d8da5, 0xf33bd376, 0xc9fbf83e, 0x5acbab88, 0xfe621096, 0xa03be58b, 0x2d20d06b, 0xa8b2449b, 0x424bab1b,
    0x40faaca4, 0x615918b, 0x9a6ced33, 0xf9049e09, 0x7be57498, 0x26048cb4, 0xf63903fc]"
  by (simp_all add: sched_window_def sched_defs)

lemma expand_zero: "expand [0x41414141, 0x41414141, 0x41414141, 0x41414141, 0x41414141, 0x41414141, 0x41414141,
    0x41414141, 0x41414141, 0x41414141, 0x41414180, 0x0, 0x0, 0x0, 0x0, 0x158] =
  [0x41414141, 0x41414141, 0x41414141, 0x41414141, 0x41414141, 0x41414141, 0x41414141, 0x41414141, 0x41414141,
    0x41414141, 0x41414180, 0x0, 0x0, 0x0, 0x0, 0x158, 0x5d7d7d7c, 0x5e047dbb, 0x2d433689, 0xcdb98218, 0x19db1fff,
    0xdb84d46, 0x84256a4, 0xa8c2632f, 0xdbc54fb2, 0x4527448e, 0x1d148b61, 0x64a2c3e5, 0xe2943550, 0x41d98d19,
    0xf5532b6d, 0x7f4f91c8, 0xf59d23a0, 0x902c98b2, 0x10296dcc, 0xcaafdc53, 0x960e27be, 0xf54e7d11, 0x3121254e,
    0xbc9ab3f8, 0xe701b6b2, 0x483e210b, 0x4c1f9b94, 0x802b4498, 0x708d2d9a, 0x4d95cb97, 0x60b5a74a, 0xdaac15d8,
    0xf63903fc, 0x26048cb4, 0x7be57498, 0xf9049e09, 0x9a6ced33, 0x615918b, 0x40faaca4, 0x424bab1b, 0xa8b2449b,
    0x2d20d06b, 0xa03be58b, 0xfe621096, 0x5acbab88, 0xc9fbf83e, 0xf33bd376, 0xae5d8da5]"
proof -
  have n: "(48::nat) = Suc (Suc (Suc (Suc (Suc (Suc (Suc (Suc (Suc (Suc (Suc (Suc (Suc (Suc (Suc (Suc (Suc (Suc (Suc (Suc (Suc (Suc (Suc (Suc (Suc (Suc (Suc (Suc (Suc (Suc (Suc (Suc (Suc (Suc (Suc (Suc (Suc (Suc (Suc (Suc (Suc (Suc (Suc (Suc (Suc (Suc (Suc (Suc 0)))))))))))))))))))))))))))))))))))))))))))))))" by simp
  show ?thesis unfolding expand_def n
    by (simp only: rev.simps append.simps schedule_window windows_zero_1 windows_zero_2 windows_zero_3 windows_zero_4 list.sel schedule.simps(1))
qed

lemma rounds_zero_1: "fold sha_round [(0x428a2f98, 0x41414141), (0x71374491, 0x41414141), (0xb5c0fbcf, 0x41414141),
    (0xe9b5dba5, 0x41414141), (0x3956c25b, 0x41414141), (0x59f111f1, 0x41414141), (0x923f82a4, 0x41414141),
    (0xab1c5ed5, 0x41414141), (0xd807aa98, 0x41414141), (0x12835b01, 0x41414141), (0x243185be, 0x41414180),
    (0x550c7dc3, 0x0), (0x72be5d74, 0x0), (0x80deb1fe, 0x0), (0x9bdc06a7, 0x0), (0xc19bf174, 0x158)]
  (0x6a09e667, 0xbb67ae85, 0x3c6ef372, 0xa54ff53a, 0x510e527f, 0x9b05688c, 0x1f83d9ab, 0x5be0cd19) =
  (0xd0fe8938, 0xa3d83a63, 0x94f10b92, 0xbbf07a78, 0x5d3411e0, 0x18cc61e9, 0xa246060b, 0x240c91fb)"
  by (simp add: round_defs)

lemma rounds_zero_2: "fold sha_round [(0xe49b69c1, 0x5d7d7d7c), (0xefbe4786, 0x5e047dbb), (0xfc19dc6, 0x2d433689),
    (0x240ca1cc, 0xcdb98218), (0x2de92c6f, 0x19db1fff), (0x4a7484aa, 0xdb84d46), (0x5cb0a9dc, 0x84256a4),
    (0x76f988da, 0xa8c2632f), (0x983e5152, 0xdbc54fb2), (0xa831c66d, 0x4527448e), (0xb00327c8, 0x1d148b61),
    (0xbf597fc7, 0x64a2c3e5), (0xc6e00bf3, 0xe2943550), (0xd5a79147, 0x41d98d19), (0x6ca6351, 0xf5532b6d),
    (0x14292967, 0x7f4f91c8)]
  (0xd0fe8938, 0xa3d83a63, 0x94f10b92, 0xbbf07a78, 0x5d3411e0, 0x18cc61e9, 0xa246060b, 0x240c91fb) =
  (0xd970cab2, 0x35df41d1, 0x235af560, 0x1ab1ca81, 0x8c12c170, 0xdf8549f3, 0x650fff83, 0xabf29515)"
  by (simp add: round_defs)

lemma rounds_zero_3: "fold sha_round [(0x27b70a85, 0xf59d23a0), (0x2e1b2138, 0x902c98b2), (0x4d2c6dfc, 0x10296dcc),
    (0x53380d13, 0xcaafdc53), (0x650a7354, 0x960e27be), (0x766a0abb, 0xf54e7d11), (0x81c2c92e, 0x3121254e),
    (0x92722c85, 0xbc9ab3f8), (0xa2bfe8a1, 0xe701b6b2), (0xa81a664b, 0x483e210b), (0xc24b8b70, 0x4c1f9b94),
    (0xc76c51a3, 0x802b4498), (0xd192e819, 0x708d2d9a), (0xd6990624, 0x4d95cb97), (0xf40e3585, 0x60b5a74a),
    (0x106aa070, 0xdaac15d8)]
  (0xd970cab2, 0x35df41d1, 0x235af560, 0x1ab1ca81, 0x8c12c170, 0xdf8549f3, 0x650fff83, 0xabf29515) =
  (0x865a673b, 0x362b3751, 0xfce51a5b, 0xd1e562e9, 0x93ca1ee0, 0x77be805, 0xbed73f78, 0x818b6a8b)"
  by (simp add: round_defs)

lemma rounds_zero_4: "fold sha_round [(0x19a4c116, 0xf63903fc), (0x1e376c08, 0x26048cb4), (0x2748774c, 0x7be57498),
    (0x34b0bcb5, 0xf9049e09), (0x391c0cb3, 0x9a6ced33), (0x4ed8aa4a, 0x615918b), (0x5b9cca4f, 0x40faaca4),
    (0x682e6ff3, 0x424bab1b), (0x748f82ee, 0xa8b2449b), (0x78a5636f, 0x2d20d06b), (0x84c87814, 0xa03be58b),
    (0x8cc70208, 0xfe621096), (0x90befffa, 0x5acbab88), (0xa4506ceb, 0xc9fbf83e), (0xbef9a3f7, 0xf33bd376),
    (0xc67178f2, 0xae5d8da5)]
  (0x865a673b, 0x362b3751, 0xfce51a5b, 0xd1e562e9, 0x93ca1ee0, 0x77be805, 0xbed73f78, 0x818b6a8b) =
  (0xa4f68d1e, 0xfb922632, 0xb2438114, 0x605fec6f, 0x33925140, 0x8eaac44, 0x7ea69ea1, 0x8e050001)"
  by (simp add: round_defs)

lemma hash_zero: "\<exists>bs. hash_refresh token_zero = hex_byte 0xf @ bs"
proof -
  define p0 :: "(u32 \<times> u32) list" where "p0 = [(0x428a2f98, 0x41414141), (0x71374491, 0x41414141),
    (0xb5c0fbcf, 0x41414141), (0xe9b5dba5, 0x41414141), (0x3956c25b, 0x41414141), (0x59f111f1, 0x41414141),
    (0x923f82a4, 0x41414141), (0xab1c5ed5, 0x41414141), (0xd807aa98, 0x41414141), (0x12835b01, 0x41414141),
    (0x243185be, 0x41414180), (0x550c7dc3, 0x0), (0x72be5d74, 0x0), (0x80deb1fe, 0x0), (0x9bdc06a7, 0x0),
    (0xc19bf174, 0x158)]"
  define p1 :: "(u32 \<times> u32) list" where "p1 = [(0xe49b69c1, 0x5d7d7d7c), (0xefbe4786, 0x5e047dbb),
    (0xfc19dc6, 0x2d433689), (0x240ca1cc, 0xcdb98218), (0x2de92c6f, 0x19db1fff), (0x4a7484aa, 0xdb84d46),
    (0x5cb0a9dc, 0x84256a4), (0x76f988da, 0xa8c2632f), (0x983e5152, 0xdbc54fb2), (0xa831c66d, 0x4527448e),
    (0xb00327c8, 0x1d148b61), (0xbf597fc7, 0x64a2c3e5), (0xc6e00bf3, 0xe2943550), (0xd5a79147, 0x41d98d19),
    (0x6ca6351, 0xf5532b6d), (0x14292967, 0x7f4f91c8)]"
  define p2 :: "(u32 \<times> u32) list" where "p2 = [(0x27b70a85, 0xf59d23a0), (0x2e1b2138, 0x902c98b2),
    (0x4d2c6dfc, 0x10296dcc), (0x53380d13, 0xcaafdc53), (0x650a7354, 0x960e27be), (0x766a0abb, 0xf54e7d11),
    (0x81c2c92e, 0x3121254e), (0x92722c85, 0xbc9ab3f8), (0xa2bfe8a1, 0xe701b6b2), (0xa81a664b, 0x483e210b),
    (0xc24b8b70, 0x4c1f9b94), (0xc76c51a3, 0x802b4498), (0xd192e819, 0x708d2d9a), (0xd6990624, 0x4d95cb97),
    (0xf40e3585, 0x60b5a74a), (0x106aa070, 0xdaac15d8)]"
  define p3 :: "(u32 \<times> u32) list" where "p3 = [(0x19a4c116, 0xf63903fc), (0x1e376c08, 0x26048cb4),
    (0x2748774c, 0x7be57498), (0x34b0bcb5, 0xf9049e09), (0x391c0cb3, 0x9a6ced33), (0x4ed8aa4a, 0x615918b),
    (0x5b9cca4f, 0x40faaca4), (0x682e6ff3, 0x424bab1b), (0x748f82ee, 0xa8b2449b), (0x78a5636f, 0x2d20d06b),
    (0x84c87814, 0xa03be58b), (0x8cc70208, 0xfe621096), (0x90befffa, 0x5acbab88), (0xa4506ceb, 0xc9fbf83e),
    (0xbef9a3f7, 0xf33bd376), (0xc67178f2, 0xae5d8da5)]"
  have "zip sha_k [0x41414141, 0x41414141, 0x41414141, 0x41414141, 0x41414141, 0x41414141, 0x41414141, 0x41414141,
    0x41414141, 0x41414141, 0x41414180, 0x0, 0x0, 0x0, 0x0, 0x158, 0x5d7d7d7c, 0x5e047dbb, 0x2d433689, 0xcdb98218,
    0x19db1fff, 0xdb84d46, 0x84256a4, 0xa8c2632f, 0xdbc54fb2, 0x4527448e, 0x1d148b61, 0x64a2c3e5, 0xe2943550,
    0x41d98d19, 0xf5532b6d, 0x7f4f91c8, 0xf59d23a0, 0x902c98b2, 0x10296dcc, 0xcaafdc53, 0x960e27be, 0xf54e7d11,
    0x3121254e, 0xbc9ab3f8, 0xe701b6b2, 0x483e210b, 0x4c1f9b94, 0x802b4498, 0x708d2d9a, 0x4d95cb97, 0x60b5a74a,
    0xdaac15d8, 0xf63903fc, 0x26048cb4, 0x7be57498, 0xf9049e09, 0x9a6ced33, 0x615918b, 0x40faaca4, 0x424bab1b,
    0xa8b2449b, 0x2d20d06b, 0xa03be58b, 0xfe621096, 0x5acbab88, 0xc9fbf83e, 0xf33bd376,
    0xae5d8da5] = p0 @ p1 @ p2 @ p3"
    unfolding sha_k_def p0_def p1_def p2_def p3_def by simp
  then have "fold sha_round (zip sha_k (expand [0x41414141, 0x41414141, 0x41414141, 0x41414141, 0x41414141,
    0x41414141, 0x41414141, 0x41414141, 0x41414141, 0x41414141, 0x41414180, 0x0, 0x0, 0x0, 0x0,
    0x158])) sha_h0 = (0xa4f68d1e, 0xfb922632, 0xb2438114, 0x605fec6f, 0x33925140, 0x8eaac44, 0x7ea69ea1, 0x8e050001)"
    unfolding expand_zero sha_h0_def
    by (simp only: fold_append comp_def p0_def p1_def p2_def p3_def rounds_zero_1 rounds_zero_2 rounds_zero_3 rounds_zero_4)
  then have "sha_add sha_h0 (fold sha_round (zip sha_k (expand [0x41414141, 0x41414141, 0x41414141, 0x41414141,
    0x41414141, 0x41414141, 0x41414141, 0x41414141, 0x41414141, 0x41414141, 0x41414180, 0x0, 0x0, 0x0, 0x0,
    0x158])) sha_h0) = (0xf007385, 0xb6f9d4b7, 0xeeb27486, 0x5afe1a9, 0x84a0a3bf, 0xa3f014d0, 0x9e2a784c, 0xe9e5cd1a)"
    by (simp add: sha_h0_def)
  from hash_refresh_block [OF block_zero _ _ this] show ?thesis by (simp add: token_zero_def)
qed

section \<open>One bytes\<close>

definition token_one :: string where "token_one = ''AQEBAQEBAQEBAQEBAQEBAQEBAQEBAQEBAQEBAQEBAQE''"

lemma token_one_encoded: "b64url_encode (replicate 32 1) = token_one"
  unfolding token_one_def by code_simp

lemma block_one: "be_words (pad (bytes_of token_one)) =
  [0x41514542, 0x41514542, 0x41514542, 0x41514542, 0x41514542, 0x41514542, 0x41514542, 0x41514542, 0x41514542,
    0x41514542, 0x41514580, 0x0, 0x0, 0x0, 0x0, 0x158]"
  unfolding token_one_def by code_simp

lemma windows_one_1:
  "sched_window [0x158, 0x0, 0x0, 0x0, 0x0, 0x41514580, 0x41514542, 0x41514542, 0x41514542, 0x41514542, 0x41514542,
    0x41514542, 0x41514542, 0x41514542, 0x41514542, 0x41514542] =
    [0x609aa4fa, 0x158, 0x0, 0x0, 0x0, 0x0, 0x41514580, 0x41514542, 0x41514542, 0x41514542, 0x41514542, 0x41514542,
    0x41514542, 0x41514542, 0x41514542, 0x41514542]"
  "sched_window [0x609aa4fa, 0x158, 0x0, 0x0, 0x0, 0x0, 0x41514580, 0x41514542, 0x41514542, 0x41514542, 0x41514542,
    0x41514542, 0x41514542, 0x41514542, 0x41514542, 0x41514542] =
    [0x6121a538, 0x609aa4fa, 0x158, 0x0, 0x0, 0x0, 0x0, 0x41514580, 0x41514542, 0x41514542, 0x41514542, 0x41514542,
    0x41514542, 0x41514542, 0x41514542, 0x41514542]"
  "sched_window [0x6121a538, 0x609aa4fa, 0x158, 0x0, 0x0, 0x0, 0x0, 0x41514580, 0x41514542, 0x41514542, 0x41514542,
    0x41514542, 0x41514542, 0x41514542, 0x41514542, 0x41514542] =
    [0x2643baaf, 0x6121a538, 0x609aa4fa, 0x158, 0x0, 0x0, 0x0, 0x0, 0x41514580, 0x41514542, 0x41514542, 0x41514542,
    0x41514542, 0x41514542, 0x41514542, 0x41514542]"
  "sched_window [0x2643baaf, 0x6121a538, 0x609aa4fa, 0x158, 0x0, 0x0, 0x0, 0x0, 0x41514580, 0x41514542, 0x41514542,
    0x41514542, 0x41514542, 0x41514542, 0x41514542, 0x41514542] =
    [0x56cd495, 0x2643baaf, 0x6121a538, 0x609aa4fa, 0x158, 0x0, 0x0, 0x0, 0x0, 0x41514580, 0x41514542, 0x41514542,
    0x41514542, 0x41514542, 0x41514542, 0x41514542]"
  "sched_window [0x56cd495, 0x2643baaf, 0x6121a538, 0x609aa4fa, 0x158, 0x0, 0x0, 0x0, 0x0, 0x41514580, 0x41514542,
    0x41514542, 0x41514542, 0x41514542, 0x41514542, 0x41514542] =
    [0xc95546bf, 0x56cd495, 0x2643baaf, 0x6121a538, 0x609aa4fa, 0x158, 0x0, 0x0, 0x0, 0x0, 0x41514580, 0x41514542,
    0x41514542, 0x41514542, 0x41514542, 0x41514542]"
  "sched_window [0xc95546bf, 0x56cd495, 0x2643baaf, 0x6121a538, 0x609aa4fa, 0x158, 0x0, 0x0, 0x0, 0x0, 0x41514580,
    0x41514542, 0x41514542, 0x41514542, 0x41514542, 0x41514542] =
    [0x1022d8e6, 0xc95546bf, 0x56cd495, 0x2643baaf, 0x6121a538, 0x609aa4fa, 0x158, 0x0, 0x0, 0x0, 0x0, 0x41514580,
    0x41514542, 0x41514542, 0x41514542, 0x41514542]"
  "sched_window [0x1022d8e6, 0xc95546bf, 0x56cd495, 0x2643baaf, 0x6121a538, 0x609aa4fa, 0x158, 0x0, 0x0, 0x0, 0x0,
    0x41514580, 0x41514542, 0x41514542, 0x41514542, 0x41514542] =
    [0x2b03a9e1, 0x1022d8e6, 0xc95546bf, 0x56cd495, 0x2643baaf, 0x6121a538, 0x609aa4fa, 0x158, 0x0, 0x0, 0x0, 0x0,
    0x41514580, 0x41514542, 0x41514542, 0x41514542]"
  "sched_window [0x2b03a9e1, 0x1022d8e6, 0xc95546bf, 0x56cd495, 0x2643baaf, 0x6121a538, 0x609aa4fa, 0x158, 0x0,
    0x0, 0x0, 0x0, 0x41514580, 0x41514542, 0x41514542, 0x41514542] =
    [0xb74fc755, 0x2b03a9e1, 0x1022d8e6, 0xc95546bf, 0x56cd495, 0x2643baaf, 0x6121a538, 0x609aa4fa, 0x158, 0x0,
    0x0, 0x0, 0x0, 0x41514580, 0x41514542, 0x41514542]"
  "sched_window [0xb74fc755, 0x2b03a9e1, 0x1022d8e6, 0xc95546bf, 0x56cd495, 0x2643baaf, 0x6121a538, 0x609aa4fa,
    0x158, 0x0, 0x0, 0x0, 0x0, 0x41514580, 0x41514542, 0x41514542] =
    [0x223174fb, 0xb74fc755, 0x2b03a9e1, 0x1022d8e6, 0xc95546bf, 0x56cd495, 0x2643baaf, 0x6121a538, 0x609aa4fa,
    0x158, 0x0, 0x0, 0x0, 0x0, 0x41514580, 0x41514542]"
  "sched_window [0x223174fb, 0xb74fc755, 0x2b03a9e1, 0x1022d8e6, 0xc95546bf, 0x56cd495, 0x2643baaf, 0x6121a538,
    0x609aa4fa, 0x158, 0x0, 0x0, 0x0, 0x0, 0x41514580, 0x41514542] =
    [0xdccb591f, 0x223174fb, 0xb74fc755, 0x2b03a9e1, 0x1022d8e6, 0xc95546bf, 0x56cd495, 0x2643baaf, 0x6121a538,
    0x609aa4fa, 0x158, 0x0, 0x0, 0x0, 0x0, 0x41514580]"
  "sched_window [0xdccb591f, 0x223174fb, 0xb74fc755, 0x2b03a9e1, 0x1022d8e6, 0xc95546bf, 0x56cd495, 0x2643baaf,
    0x6121a538, 0x609aa4fa, 0x158, 0x0, 0x0, 0x0, 0x0, 0x41514580] =
    [0xdba89318, 0xdccb591f, 0x223174fb, 0xb74fc755, 0x2b03a9e1, 0x1022d8e6, 0xc95546bf, 0x56cd495, 0x2643baaf,
    0x6121a538, 0x609aa4fa, 0x158, 0x0, 0x0, 0x0, 0x0]"
  "sched_window [0xdba89318, 0xdccb591f, 0x223174fb, 0xb74fc755, 0x2b03a9e1, 0x1022d8e6, 0xc95546bf, 0x56cd495,
    0x2643baaf, 0x6121a538, 0x609aa4fa, 0x158, 0x0, 0x0, 0x0, 0x0] =
    [0x90f06de9, 0xdba89318, 0xdccb591f, 0x223174fb, 0xb74fc755, 0x2b03a9e1, 0x1022d8e6, 0xc95546bf, 0x56cd495,
    0x2643baaf, 0x6121a538, 0x609aa4fa, 0x158, 0x0, 0x0, 0x0]"
  by (simp_all add: sched_window_def sched_defs)

lemma windows_one_2:
  "sched_window [0x90f06de9, 0xdba89318, 0xdccb591f, 0x223174fb, 0xb74fc755, 0x2b03a9e1, 0x1022d8e6, 0xc95546bf,
    0x56cd495, 0x2643baaf, 0x6121a538, 0x609aa4fa, 0x158, 0x0, 0x0, 0x0] =
    [0x6bfc756b, 0x90f06de9, 0xdba89318, 0xdccb591f, 0x223174fb, 0xb74fc755, 0x2b03a9e1, 0x1022d8e6, 0xc95546bf,
    0x56cd495, 0x2643baaf, 0x6121a538, 0x609aa4fa, 0x158, 0x0, 0x0]"
  "sched_window [0x6bfc756b, 0x90f06de9, 0xdba89318, 0xdccb591f, 0x223174fb, 0xb74fc755, 0x2b03a9e1, 0x1022d8e6,
    0xc95546bf, 0x56cd495, 0x2643baaf, 0x6121a538, 0x609aa4fa, 0x158, 0x0, 0x0] =
    [0x6671705e, 0x6bfc756b, 0x90f06de9, 0xdba89318, 0xdccb591f, 0x223174fb, 0xb74fc755, 0x2b03a9e1, 0x1022d8e6,
    0xc95546bf, 0x56cd495, 0x2643baaf, 0x6121a538, 0x609aa4fa, 0x158, 0x0]"
  "sched_window [0x6671705e, 0x6bfc756b, 0x90f06de9, 0xdba89318, 0xdccb591f, 0x223174fb, 0xb74fc755, 0x2b03a9e1,
    0x1022d8e6, 0xc95546bf, 0x56cd495, 0x2643baaf, 0x6121a538, 0x609aa4fa, 0x158, 0x0] =
    [0x1ba7ef1a, 0x6671705e, 0x6bfc756b, 0x90f06de9, 0xdba89318, 0xdccb591f, 0x223174fb, 0xb74fc755, 0x2b03a9e1,
    0x1022d8e6, 0xc95546bf, 0x56cd495, 0x2643baaf, 0x6121a538, 0x609aa4fa, 0x158]"
  "sched_window [0x1ba7ef1a, 0x6671705e, 0x6bfc756b, 0x90f06de9, 0xdba89318, 0xdccb591f, 0x223174fb, 0xb74fc755,
    0x2b03a9e1, 0x1022d8e6, 0xc95546bf, 0x56cd495, 0x2643baaf, 0x6121a538, 0x609aa4fa, 0x158] =
    [0xa5bd3ed, 0x1ba7ef1a, 0x6671705e, 0x6bfc756b, 0x90f06de9, 0xdba89318, 0xdccb591f, 0x223174fb, 0xb74fc755,
    0x2b03a9e1, 0x1022d8e6, 0xc95546bf, 0x56cd495, 0x2643baaf, 0x6121a538, 0x609aa4fa]"
  "sched_window [0xa5bd3ed, 0x1ba7ef1a, 0x6671705e, 0x6bfc756b, 0x90f06de9, 0xdba89318, 0xdccb591f, 0x223174fb,
    0xb74fc755, 0x2b03a9e1, 0x1022d8e6, 0xc95546bf, 0x56cd495, 0x2643baaf, 0x6121a538, 0x609aa4fa] =
    [0x5d77151a, 0xa5bd3ed, 0x1ba7ef1a, 0x6671705e, 0x6bfc756b, 0x90f06de9, 0xdba89318, 0xdccb591f, 0x223174fb,
    0xb74fc755, 0x2b03a9e1, 0x1022d8e6, 0xc95546bf, 0x56cd495, 0x2643baaf, 0x6121a538]"
  "sched_window [0x5d77151a, 0xa5bd3ed, 0x1ba7ef1a, 0x6671705e, 0x6bfc756b, 0x90f06de9, 0xdba89318, 0xdccb591f,
    0x223174fb, 0xb74fc755, 0x2b03a9e1, 0x1022d8e6, 0xc95546bf, 0x56cd495, 0x2643baaf, 0x6121a538] =
    [0x84832492, 0x5d77151a, 0xa5bd3ed, 0x1ba7ef1a, 0x6671705e, 0x6bfc756b, 0x90f06de9, 0xdba89318, 0xdccb591f,
    0x223174fb, 0xb74fc755, 0x2b03a9e1, 0x1022d8e6, 0xc95546bf, 0x56cd495, 0x2643baaf]"
  "sched_window [0x84832492, 0x5d77151a, 0xa5bd3ed, 0x1ba7ef1a, 0x6671705e, 0x6bfc756b, 0x90f06de9, 0xdba89318,
    0xdccb591f, 0x223174fb, 0xb74fc755, 0x2b03a9e1, 0x1022d8e6, 0xc95546bf, 0x56cd495, 0x2643baaf] =
    [0x3eef63c8, 0x84832492, 0x5d77151a, 0xa5bd3ed, 0x1ba7ef1a, 0x6671705e, 0x6bfc756b, 0x90f06de9, 0xdba89318,
    0xdccb591f, 0x223174fb, 0xb74fc755, 0x2b03a9e1, 0x1022d8e6, 0xc95546bf, 0x56cd495]"
  "sched_window [0x3eef63c8, 0x84832492, 0x5d77151a, 0xa5bd3ed, 0x1ba7ef1a, 0x6671705e, 0x6bfc756b, 0x90f06de9,
    0xdba89318, 0xdccb591f, 0x223174fb, 0xb74fc755, 0x2b03a9e1, 0x1022d8e6, 0xc95546bf, 0x56cd495] =
    [0x9f7b6c27, 0x3eef63c8, 0x84832492, 0x5d77151a, 0xa5bd3ed, 0x1ba7ef1a, 0x6671705e, 0x6bfc756b, 0x90f06de9,
    0xdba89318, 0xdccb591f, 0x223174fb, 0xb74fc755, 0x2b03a9e1, 0x1022d8e6, 0xc95546bf]"
  "sched_window [0x9f7b6c27, 0x3eef63c8, 0x84832492, 0x5d77151a, 0xa5bd3ed, 0x1ba7ef1a, 0x6671705e, 0x6bfc756b,
    0x90f06de9, 0xdba89318, 0xdccb591f, 0x223174fb, 0xb74fc755, 0x2b03a9e1, 0x1022d8e6, 0xc95546bf] =
    [0x576f534, 0x9f7b6c27, 0x3eef63c8, 0x84832492, 0x5d77151a, 0xa5bd3ed, 0x1ba7ef1a, 0x6671705e, 0x6bfc756b,
    0x90f06de9, 0xdba89318, 0xdccb591f, 0x223174fb, 0xb74fc755, 0x2b03a9e1, 0x1022d8e6]"
  "sched_window [0x576f534, 0x9f7b6c27, 0x3eef63c8, 0x84832492, 0x5d77151a, 0xa5bd3ed, 0x1ba7ef1a, 0x6671705e,
    0x6bfc756b, 0x90f06de9, 0xdba89318, 0xdccb591f, 0x223174fb, 0xb74fc755, 0x2b03a9e1, 0x1022d8e6] =
    [0x34c9e338, 0x576f534, 0x9f7b6c27, 0x3eef63c8, 0x84832492, 0x5d77151a, 0xa5bd3ed, 0x1ba7ef1a, 0x6671705e,
    0x6bfc756b, 0x90f06de9, 0xdba89318, 0xdccb591f, 0x223174fb, 0xb74fc755, 0x2b03a9e1]"
  "sched_window [0x34c9e338, 0x576f534, 0x9f7b6c27, 0x3eef63c8, 0x84832492, 0x5d77151a, 0xa5bd3ed, 0x1ba7ef1a,
    0x6671705e, 0x6bfc756b, 0x90f06de9, 0xdba89318, 0xdccb591f, 0x223174fb, 0xb74fc755, 0x2b03a9e1] =
    [0x25ef682d, 0x34c9e338, 0x576f534, 0x9f7b6c27, 0x3eef63c8, 0x84832492, 0x5d77151a, 0xa5bd3ed, 0x1ba7ef1a,
    0x6671705e, 0x6bfc756b, 0x90f06de9, 0xdba89318, 0xdccb591f, 0x223174fb, 0xb74fc755]"
  "sched_window [0x25ef682d, 0x34c9e338, 0x576f534, 0x9f7b6c27, 0x3eef63c8, 0x84832492, 0x5d77151a, 0xa5bd3ed,
    0x1ba7ef1a, 0x6671705e, 0x6bfc756b, 0x90f06de9, 0xdba89318, 0xdccb591f, 0x223174fb, 0xb74fc755] =
    [0x91f98fee, 0x25ef682d, 0x34c9e338, 0x576f534, 0x9f7b6c27, 0x3eef63c8, 0x84832492, 0x5d77151a, 0xa5bd3ed,
    0x1ba7ef1a, 0x6671705e, 0x6bfc756b, 0x90f06de9, 0xdba89318, 0xdccb591f, 0x223174fb]"
  by (simp_all add: sched_window_def sched_defs)

lemma windows_one_3:
  "sched_window [0x91f98fee, 0x25ef682d, 0x34c9e338, 0x576f534, 0x9f7b6c27, 0x3eef63c8, 0x84832492, 0x5d77151a,
    0xa5bd3ed, 0x1ba7ef1a, 0x6671705e, 0x6bfc756b, 0x90f06de9, 0xdba89318, 0xdccb591f, 0x223174fb] =
    [0xf235f1c0, 0x91f98fee, 0x25ef682d, 0x34c9e338, 0x576f534, 0x9f7b6c27, 0x3eef63c8, 0x84832492, 0x5d77151a,
    0xa5bd3ed, 0x1ba7ef1a, 0x6671705e, 0x6bfc756b, 0x90f06de9, 0xdba89318, 0xdccb591f]"
  "sched_window [0xf235f1c0, 0x91f98fee, 0x25ef682d, 0x34c9e338, 0x576f534, 0x9f7b6c27, 0x3eef63c8, 0x84832492,
    0x5d77151a, 0xa5bd3ed, 0x1ba7ef1a, 0x6671705e, 0x6bfc756b, 0x90f06de9, 0xdba89318, 0xdccb591f] =
    [0x1fee1736, 0xf235f1c0, 0x91f98fee, 0x25ef682d, 0x34c9e338, 0x576f534, 0x9f7b6c27, 0x3eef63c8, 0x84832492,
    0x5d77151a, 0xa5bd3ed, 0x1ba7ef1a, 0x6671705e, 0x6bfc756b, 0x90f06de9, 0xdba89318]"
  "sched_window [0x1fee1736, 0xf235f1c0, 0x91f98fee, 0x25ef682d, 0x34c9e338, 0x576f534, 0x9f7b6c27, 0x3eef63c8,
    0x84832492, 0x5d77151a, 0xa5bd3ed, 0x1ba7ef1a, 0x6671705e, 0x6bfc756b, 0x90f06de9, 0xdba89318] =
    [0x9c4e72b9, 0x1fee1736, 0xf235f1c0, 0x91f98fee, 0x25ef682d, 0x34c9e338, 0x576f534, 0x9f7b6c27, 0x3eef63c8,
    0x84832492, 0x5d77151a, 0xa5bd3ed, 0x1ba7ef1a, 0x6671705e, 0x6bfc756b, 0x90f06de9]"
  "sched_window [0x9c4e72b9, 0x1fee1736, 0xf235f1c0, 0x91f98fee, 0x25ef682d, 0x34c9e338, 0x576f534, 0x9f7b6c27,
    0x3eef63c8, 0x84832492, 0x5d77151a, 0xa5bd3ed, 0x1ba7ef1a, 0x6671705e, 0x6bfc756b, 0x90f06de9] =
    [0x26d44764, 0x9c4e72b9, 0x1fee1736, 0xf235f1c0, 0x91f98fee, 0x25ef682d, 0x34c9e338, 0x576f534, 0x9f7b6c27,
    0x3eef63c8, 0x84832492, 0x5d77151a, 0xa5bd3ed, 0x1ba7ef1a, 0x6671705e, 0x6bfc756b]"
  "sched_window [0x26d44764, 0x9c4e72b9, 0x1fee1736, 0xf235f1c0, 0x91f98fee, 0x25ef682d, 0x34c9e338, 0x576f534,
    0x9f7b6c27, 0x3eef63c8, 0x84832492, 0x5d77151a, 0xa5bd3ed, 0x1ba7ef1a, 0x6671705e, 0x6bfc756b] =
    [0x84089c4c, 0x26d44764, 0x9c4e72b9, 0x1fee1736, 0xf235f1c0, 0x91f98fee, 0x25ef682d, 0x34c9e338, 0x576f534,
    0x9f7b6c27, 0x3eef63c8, 0x84832492, 0x5d77151a, 0xa5bd3ed, 0x1ba7ef1a, 0x6671705e]"
  "sched_window [0x84089c4c, 0x26d44764, 0x9c4e72b9, 0x1fee1736, 0xf235f1c0, 0x91f98fee, 0x25ef682d, 0x34c9e338,
    0x576f534, 0x9f7b6c27, 0x3eef63c8, 0x84832492, 0x5d77151a, 0xa5bd3ed, 0x1ba7ef1a, 0x6671705e] =
    [0x43d3000, 0x84089c4c, 0x26d44764, 0x9c4e72b9, 0x1fee1736, 0xf235f1c0, 0x91f98fee, 0x25ef682d, 0x34c9e338,
    0x576f534, 0x9f7b6c27, 0x3eef63c8, 0x84832492, 0x5d77151a, 0xa5bd3ed, 0x1ba7ef1a]"
  "sched_window [0x43d3000, 0x84089c4c, 0x26d44764, 0x9c4e72b9, 0x1fee1736, 0xf235f1c0, 0x91f98fee, 0x25ef682d,
    0x34c9e338, 0x576f534, 0x9f7b6c27, 0x3eef63c8, 0x84832492, 0x5d77151a, 0xa5bd3ed, 0x1ba7ef1a] =
    [0x3ad4def6, 0x43d3000, 0x84089c4c, 0x26d44764, 0x9c4e72b9, 0x1fee1736, 0xf235f1c0, 0x91f98fee, 0x25ef682d,
    0x34c9e338, 0x576f534, 0x9f7b6c27, 0x3eef63c8, 0x84832492, 0x5d77151a, 0xa5bd3ed]"
  "sched_window [0x3ad4def6, 0x43d3000, 0x84089c4c, 0x26d44764, 0x9c4e72b9, 0x1fee1736, 0xf235f1c0, 0x91f98fee,
    0x25ef682d, 0x34c9e338, 0x576f534, 0x9f7b6c27, 0x3eef63c8, 0x84832492, 0x5d77151a, 0xa5bd3ed] =
    [0x34e56f56, 0x3ad4def6, 0x43d3000, 0x84089c4c, 0x26d44764, 0x9c4e72b9, 0x1fee1736, 0xf235f1c0, 0x91f98fee,
    0x25ef682d, 0x34c9e338, 0x576f534, 0x9f7b6c27, 0x3eef63c8, 0x84832492, 0x5d77151a]"
  "sched_window [0x34e56f56, 0x3ad4def6, 0x43d3000, 0x84089c4c, 0x26d44764, 0x9c4e72b9, 0x1fee1736, 0xf235f1c0,
    0x91f98fee, 0x25ef682d, 0x34c9e338, 0x576f534, 0x9f7b6c27, 0x3eef63c8, 0x84832492, 0x5d77151a] =
    [0x6ece5f52, 0x34e56f56, 0x3ad4def6, 0x43d3000, 0x84089c4c, 0x26d44764, 0x9c4e72b9, 0x1fee1736, 0xf235f1c0,
    0x91f98fee, 0x25ef682d, 0x34c9e338, 0x576f534, 0x9f7b6c27, 0x3eef63c8, 0x84832492]"
  "sched_window [0x6ece5f52, 0x34e56f56, 0x3ad4def6, 0x43d3000, 0x84089c4c, 0x26d44764, 0x9c4e72b9, 0x1fee1736,
    0xf235f1c0, 0x91f98fee, 0x25ef682d, 0x34c9e338, 0x576f534, 0x9f7b6c27, 0x3eef63c8, 0x84832492] =
    [0x8a70ba05, 0x6ece5f52, 0x34e56f56, 0x3ad4def6, 0x43d3000, 0x84089c4c, 0x26d44764, 0x9c4e72b9, 0x1fee1736,
    0xf235f1c0, 0x91f98fee, 0x25ef682d, 0x34c9e338, 0x576f534, 0x9f7b6c27, 0x3eef63c8]"
  "sched_window [0x8a70ba05, 0x6ece5f52, 0x34e56f56, 0x3ad4def6, 0x43d3000, 0x84089c4c, 0x26d44764, 0x9c4e72b9,
    0x1fee1736, 0xf235f1c0, 0x91f98fee, 0x25ef682d, 0x34c9e338, 0x576f534, 0x9f7b6c27, 0x3eef63c8] =
    [0xd1f4f0d7, 0x8a70ba05, 0x6ece5f52, 0x34e56f56, 0x3ad4def6, 0x43d3000, 0x84089c4c, 0x26d44764, 0x9c4e72b9,
    0x1fee1736, 0xf235f1c0, 0x91f98fee, 0x25ef682d, 0x34c9e338, 0x576f534, 0x9f7b6c27]"
  "sched_window [0xd1f4f0d7, 0x8a70ba05, 0x6ece5f52, 0x34e56f56, 0x3ad4def6, 0x43d3000, 0x84089c4c, 0x26d44764,
    0x9c4e72b9, 0x1fee1736, 0xf235f1c0, 0x91f98fee, 0x25ef682d, 0x34c9e338, 0x576f534, 0x9f7b6c27] =
    [0x43ce22dc, 0xd1f4f0d7, 0x8a70ba05, 0x6ece5f52, 0x34e56f56, 0x3ad4def6, 0x43d3000, 0x84089c4c, 0x26d44764,
    0x9c4e72b9, 0x1fee1736, 0xf235f1c0, 0x91f98fee, 0x25ef682d, 0x34c9e338, 0x576f534]"
  by (simp_all add: sched_window_def sched_defs)

lemma windows_one_4:
  "sched_window [0x43ce22dc, 0xd1f4f0d7, 0x8a70ba05, 0x6ece5f52, 0x34e56f56, 0x3ad4def6, 0x43d3000, 0x84089c4c,
    0x26d44764, 0x9c4e72b9, 0x1fee1736, 0xf235f1c0, 0x91f98fee, 0x25ef682d, 0x34c9e338, 0x576f534] =
    [0xfe3837bf, 0x43ce22dc, 0xd1f4f0d7, 0x8a70ba05, 0x6ece5f52, 0x34e56f56, 0x3ad4def6, 0x43d3000, 0x84089c4c,
    0x26d44764, 0x9c4e72b9, 0x1fee1736, 0xf235f1c0, 0x91f98fee, 0x25ef682d, 0x34c9e338]"
  "sched_window [0xfe3837bf, 0x43ce22dc, 0xd1f4f0d7, 0x8a70ba05, 0x6ece5f52, 0x34e56f56, 0x3ad4def6, 0x43d3000,
    0x84089c4c, 0x26d44764, 0x9c4e72b9, 0x1fee1736, 0xf235f1c0, 0x91f98fee, 0x25ef682d, 0x34c9e338] =
    [0xc9c196f2, 0xfe3837bf, 0x43ce22dc, 0xd1f4f0d7, 0x8a70ba05, 0x6ece5f52, 0x34e56f56, 0x3ad4def6, 0x43d3000,
    0x84089c4c, 0x26d44764, 0x9c4e72b9, 0x1fee1736, 0xf235f1c0, 0x91f98fee, 0x25ef682d]"
  "sched_window [0xc9c196f2, 0xfe3837bf, 0x43ce22dc, 0xd1f4f0d7, 0x8a70ba05, 0x6ece5f52, 0x34e56f56, 0x3ad4def6,
    0x43d3000, 0x84089c4c, 0x26d44764, 0x9c4e72b9, 0x1fee1736, 0xf235f1c0, 0x91f98fee, 0x25ef682d] =
    [0x24d3ccf5, 0xc9c196f2, 0xfe3837bf, 0x43ce22dc, 0xd1f4f0d7, 0x8a70ba05, 0x6ece5f52, 0x34e56f56, 0x3ad4def6,
    0x43d3000, 0x84089c4c, 0x26d44764, 0x9c4e72b9, 0x1fee1736, 0xf235f1c0, 0x91f98fee]"
  "sched_window [0x24d3ccf5, 0xc9c196f2, 0xfe3837bf, 0x43ce22dc, 0xd1f4f0d7, 0x8a70ba05, 0x6ece5f52, 0x34e56f56,
    0x3ad4def6, 0x43d3000, 0x84089c4c, 0x26d44764, 0x9c4e72b9, 0x1fee1736, 0xf235f1c0, 0x91f98fee] =
    [0xde302653, 0x24d3ccf5, 0xc9c196f2, 0xfe3837bf, 0x43ce22dc, 0xd1f4f0d7, 0x8a70ba05, 0x6ece5f52, 0x34e56f56,
    0x3ad4def6, 0x43d3000, 0x84089c4c, 0x26d44764, 0x9c4e72b9, 0x1fee1736, 0xf235f1c0]"
  "sched_window [0xde302653, 0x24d3ccf5, 0xc9c196f2, 0xfe3837bf, 0x43ce22dc, 0xd1f4f0d7, 0x8a70ba05, 0x6ece5f52,
    0x34e56f56, 0x3ad4def6, 0x43d3000, 0x84089c4c, 0x26d44764, 0x9c4e72b9, 0x1fee1736, 0xf235f1c0] =
    [0x6a346f8, 0xde302653, 0x24d3ccf5, 0xc9c196f2, 0xfe3837bf, 0x43ce22dc, 0xd1f4f0d7, 0x8a70ba05, 0x6ece5f52,
    0x34e56f56, 0x3ad4def6, 0x43d3000, 0x84089c4c, 0x26d44764, 0x9c4e72b9, 0x1fee1736]"
  "sched_window [0x6a346f8, 0xde302653, 0x24d3ccf5, 0xc9c196f2, 0xfe3837bf, 0x43ce22dc, 0xd1f4f0d7, 0x8a70ba05,
    0x6ece5f52, 0x34e56f56, 0x3ad4def6, 0x43d3000, 0x84089c4c, 0x26d44764, 0x9c4e72b9, 0x1fee1736] =
    [0x5d65685, 0x6a346f8, 0xde302653, 0x24d3ccf5, 0xc9c196f2, 0xfe3837bf, 0x43ce22dc, 0xd1f4f0d7, 0x8a70ba05,
    0x6ece5f52, 0x34e56f56, 0x3ad4def6, 0x43d3000, 0x84089c4c, 0x26d44764, 0x9c4e72b9]"
  "sched_window [0x5d65685, 0x6a346f8, 0xde302653, 0x24d3ccf5, 0xc9c196f2, 0xfe3837bf, 0x43ce22dc, 0xd1f4f0d7,
    0x8a70ba05, 0x6ece5f52, 0x34e56f56, 0x3ad4def6, 0x43d3000, 0x84089c4c, 0x26d44764, 0x9c4e72b9] =
    [0x890d6ac0, 0x5d65685, 0x6a346f8, 0xde302653, 0x24d3ccf5, 0xc9c196f2, 0xfe3837bf, 0x43ce22dc, 0xd1f4f0d7,
    0x8a70ba05, 0x6ece5f52, 0x34e56f56, 0x3ad4def6, 0x43d3000, 0x84089c4c, 0x26d44764]"
  "sched_window [0x890d6ac0, 0x5d65685, 0x6a346f8, 0xde302653, 0x24d3ccf5, 0xc9c196f2, 0xfe3837bf, 0x43ce22dc,
    0xd1f4f0d7, 0x8a70ba05, 0x6ece5f52, 0x34e56f56, 0x3ad4def6, 0x43d3000, 0x84089c4c, 0x26d44764] =
    [0xb539fa9a, 0x890d6ac0, 0x5d65685, 0x6a346f8, 0xde302653, 0x24d3ccf5, 0xc9c196f2, 0xfe3837bf, 0x43ce22dc,
    0xd1f4f0d7, 0x8a70ba05, 0x6ece5f52, 0x34e56f56, 0x3ad4def6, 0x43d3000, 0x84089c4c]"
  "sched_window [0xb539fa9a, 0x890d6ac0, 0x5d65685, 0x6a346f8, 0xde302653, 0x24d3ccf5, 0xc9c196f2, 0xfe3837bf,
    0x43ce22dc, 0xd1f4f0d7, 0x8a70ba05, 0x6ece5f52, 0x34e56f56, 0x3ad4def6, 0x43d3000, 0x84089c4c] =
    [0xb27427aa, 0xb539fa9a, 0x890d6ac0, 0x5d65685, 0x6a346f8, 0xde302653, 0x24d3ccf5, 0xc9c196f2, 0xfe3837bf,
    0x43ce22dc, 0xd1f4f0d7, 0x8a70ba05, 0x6ece5f52, 0x34e56f56, 0x3ad4def6, 0x43d3000]"
  "sched_window [0xb27427aa, 0xb539fa9a, 0x890d6ac0, 0x5d65685, 0x6a346f8, 0xde302653, 0x24d3ccf5, 0xc9c196f2,
    0xfe3837bf, 0x43ce22dc, 0xd1f4f0d7, 0x8a70ba05, 0x6ece5f52, 0x34e56f56, 0x3ad4def6, 0x43d3000] =
    [0xc7d6fc10, 0xb27427aa, 0xb539fa9a, 0x890d6ac0, 0x5d65685, 0x6a346f8, 0xde302653, 0x24d3ccf5, 0xc9c196f2,
    0xfe3837bf, 0x43ce22dc, 0xd1f4f0d7, 0x8a70ba05, 0x6ece5f52, 0x34e56f56, 0x3ad4def6]"
  "sched_window [0xc7d6fc10, 0xb27427aa, 0xb539fa9a, 0x890d6ac0, 0x5d65685, 0x6a346f8, 0xde302653, 0x24d3ccf5,
    0xc9c196f2, 0xfe3837bf, 0x43ce22dc, 0xd1f4f0d7, 0x8a70ba05, 0x6ece5f52, 0x34e56f56, 0x3ad4def6] =
    [0xa13281d3, 0xc7d6fc10, 0xb27427aa, 0xb539fa9a, 0x890d6ac0, 0x5d65685, 0x6a346f8, 0xde302653, 0x24d3ccf5,
    0xc9c196f2, 0xfe3837bf, 0x43ce22dc, 0xd1f4f0d7, 0x8a70ba05, 0x6ece5f52, 0x34e56f56]"
  "sched_window [0xa13281d3, 0xc7d6fc10, 0xb27427aa, 0xb539fa9a, 0x890d6ac0, 0x5d65685, 0x6a346f8, 0xde302653,
    0x24d3ccf5, 0xc9c196f2, 0xfe3837bf, 0x43ce22dc, 0xd1f4f0d7, 0x8a70ba05, 0x6ece5f52, 0x34e56f56] =
    [0x1c1511e3, 0xa13281d3, 0xc7d6fc10, 0xb27427aa, 0xb539fa9a, 0x890d6ac0, 0x5d65685, 0x6a346f8, 0xde302653,
    0x24d3ccf5, 0xc9c196f2, 0xfe3837bf, 0x43ce22dc, 0xd1f4f0d7, 0x8a70ba05, 0x6ece5f52]"
  by (simp_all add: sched_window_def sched_defs)

lemma expand_one: "expand [0x41514542, 0x41514542, 0x41514542, 0x41514542, 0x41514542, 0x41514542, 0x41514542,
    0x41514542, 0x41514542, 0x41514542, 0x41514580, 0x0, 0x0, 0x0, 0x0, 0x158] =
  [0x41514542, 0x41514542, 0x41514542, 0x41514542, 0x41514542, 0x41514542, 0x41514542, 0x41514542, 0x41514542,
    0x41514542, 0x41514580, 0x0, 0x0, 0x0, 0x0, 0x158, 0x609aa4fa, 0x6121a538, 0x2643baaf, 0x56cd495, 0xc95546bf,
    0x1022d8e6, 0x2b03a9e1, 0xb74fc755, 0x223174fb, 0xdccb591f, 0xdba89318, 0x90f06de9, 0x6bfc756b, 0x6671705e,
    0x1ba7ef1a, 0xa5bd3ed, 0x5d77151a, 0x84832492, 0x3eef63c8, 0x9f7b6c27, 0x576f534, 0x34c9e338, 0x25ef682d,
    0x91f98fee, 0xf235f1c0, 0x1fee1736, 0x9c4e72b9, 0x26d44764, 0x84089c4c, 0x43d3000, 0x3ad4def6, 0x34e56f56,
    0x6ece5f52, 0x8a70ba05, 0xd1f4f0d7, 0x43ce22dc, 0xfe3837bf, 0xc9c196f2, 0x24d3ccf5, 0xde302653, 0x6a346f8,
    0x5d65685, 0x890d6ac0, 0xb539fa9a, 0xb27427aa, 0xc7d6fc10, 0xa13281d3, 0x1c1511e3]"
proof -
  have n: "(48::nat) = Suc (Suc (Suc (Suc (Suc (Suc (Suc (Suc (Suc (Suc (Suc (Suc (Suc (Suc (Suc (Suc (Suc (Suc (Suc (Suc (Suc (Suc (Suc (Suc (Suc (Suc (Suc (Suc (Suc (Suc (Suc (Suc (Suc (Suc (Suc (Suc (Suc (Suc (Suc (Suc (Suc (Suc (Suc (Suc (Suc (Suc (Suc (Suc 0)))))))))))))))))))))))))))))))))))))))))))))))" by simp
  show ?thesis unfolding expand_def n
    by (simp only: rev.simps append.simps schedule_window windows_one_1 windows_one_2 windows_one_3 windows_one_4 list.sel schedule.simps(1))
qed

lemma rounds_one_1: "fold sha_round [(0x428a2f98, 0x41514542), (0x71374491, 0x41514542), (0xb5c0fbcf, 0x41514542),
    (0xe9b5dba5, 0x41514542), (0x3956c25b, 0x41514542), (0x59f111f1, 0x41514542), (0x923f82a4, 0x41514542),
    (0xab1c5ed5, 0x41514542), (0xd807aa98, 0x41514542), (0x12835b01, 0x41514542), (0x243185be, 0x41514580),
    (0x550c7dc3, 0x0), (0x72be5d74, 0x0), (0x80deb1fe, 0x0), (0x9bdc06a7, 0x0), (0xc19bf174, 0x158)]
  (0x6a09e667, 0xbb67ae85, 0x3c6ef372, 0xa54ff53a, 0x510e527f, 0x9b05688c, 0x1f83d9ab, 0x5be0cd19) =
  (0x2e929a1a, 0x44258ea0, 0xb6a0d172, 0x981c0fcb, 0xcfbc88de, 0xd75ba070, 0xcbf43923, 0x7940cc31)"
  by (simp add: round_defs)

lemma rounds_one_2: "fold sha_round [(0xe49b69c1, 0x609aa4fa), (0xefbe4786, 0x6121a538), (0xfc19dc6, 0x2643baaf),
    (0x240ca1cc, 0x56cd495), (0x2de92c6f, 0xc95546bf), (0x4a7484aa, 0x1022d8e6), (0x5cb0a9dc, 0x2b03a9e1),
    (0x76f988da, 0xb74fc755), (0x983e5152, 0x223174fb), (0xa831c66d, 0xdccb591f), (0xb00327c8, 0xdba89318),
    (0xbf597fc7, 0x90f06de9), (0xc6e00bf3, 0x6bfc756b), (0xd5a79147, 0x6671705e), (0x6ca6351, 0x1ba7ef1a),
    (0x14292967, 0xa5bd3ed)]
  (0x2e929a1a, 0x44258ea0, 0xb6a0d172, 0x981c0fcb, 0xcfbc88de, 0xd75ba070, 0xcbf43923, 0x7940cc31) =
  (0xa0265c83, 0x50473718, 0x500195cd, 0xfc31f349, 0x91317fc3, 0xe97d8d3e, 0x92cd4911, 0xfb134fba)"
  by (simp add: round_defs)

lemma rounds_one_3: "fold sha_round [(0x27b70a85, 0x5d77151a), (0x2e1b2138, 0x84832492), (0x4d2c6dfc, 0x3eef63c8),
    (0x53380d13, 0x9f7b6c27), (0x650a7354, 0x576f534), (0x766a0abb, 0x34c9e338), (0x81c2c92e, 0x25ef682d),
    (0x92722c85, 0x91f98fee), (0xa2bfe8a1, 0xf235f1c0), (0xa81a664b, 0x1fee1736), (0xc24b8b70, 0x9c4e72b9),
    (0xc76c51a3, 0x26d44764), (0xd192e819, 0x84089c4c), (0xd6990624, 0x43d3000), (0xf40e3585, 0x3ad4def6),
    (0x106aa070, 0x34e56f56)]
  (0xa0265c83, 0x50473718, 0x500195cd, 0xfc31f349, 0x91317fc3, 0xe97d8d3e, 0x92cd4911, 0xfb134fba) =
  (0x3b93b87b, 0x11ffa83b, 0x4202c07, 0x4189beca, 0xd673049c, 0x5cc766b3, 0xd882996a, 0xba5b699a)"
  by (simp add: round_defs)

lemma rounds_one_4: "fold sha_round [(0x19a4c116, 0x6ece5f52), (0x1e376c08, 0x8a70ba05), (0x2748774c, 0xd1f4f0d7),
    (0x34b0bcb5, 0x43ce22dc), (0x391c0cb3, 0xfe3837bf), (0x4ed8aa4a, 0xc9c196f2), (0x5b9cca4f, 0x24d3ccf5),
    (0x682e6ff3, 0xde302653), (0x748f82ee, 0x6a346f8), (0x78a5636f, 0x5d65685), (0x84c87814, 0x890d6ac0),
    (0x8cc70208, 0xb539fa9a), (0x90befffa, 0xb27427aa), (0xa4506ceb, 0xc7d6fc10), (0xbef9a3f7, 0xa13281d3),
    (0xc67178f2, 0x1c1511e3)]
  (0x3b93b87b, 0x11ffa83b, 0x4202c07, 0x4189beca, 0xd673049c, 0x5cc766b3, 0xd882996a, 0xba5b699a) =
  (0xeccc140c, 0x788f28c2, 0x9ed3cec7, 0x9b2e686a, 0x7220f9fa, 0x5857a09f, 0xf3cbf9af, 0xe44ccf43)"
  by (simp add: round_defs)

lemma hash_one: "\<exists>bs. hash_refresh token_one = hex_byte 0x56 @ bs"
proof -
  define p0 :: "(u32 \<times> u32) list" where "p0 = [(0x428a2f98, 0x41514542), (0x71374491, 0x41514542),
    (0xb5c0fbcf, 0x41514542), (0xe9b5dba5, 0x41514542), (0x3956c25b, 0x41514542), (0x59f111f1, 0x41514542),
    (0x923f82a4, 0x41514542), (0xab1c5ed5, 0x41514542), (0xd807aa98, 0x41514542), (0x12835b01, 0x41514542),
    (0x243185be, 0x41514580), (0x550c7dc3, 0x0), (0x72be5d74, 0x0), (0x80deb1fe, 0x0), (0x9bdc06a7, 0x0),
    (0xc19bf174, 0x158)]"
  define p1 :: "(u32 \<times> u32) list" where "p1 = [(0xe49b69c1, 0x609aa4fa), (0xefbe4786, 0x6121a538),
    (0xfc19dc6, 0x2643baaf), (0x240ca1cc, 0x56cd495), (0x2de92c6f, 0xc95546bf), (0x4a7484aa, 0x1022d8e6),
    (0x5cb0a9dc, 0x2b03a9e1), (0x76f988da, 0xb74fc755), (0x983e5152, 0x223174fb), (0xa831c66d, 0xdccb591f),
    (0xb00327c8, 0xdba89318), (0xbf597fc7, 0x90f06de9), (0xc6e00bf3, 0x6bfc756b), (0xd5a79147, 0x6671705e),
    (0x6ca6351, 0x1ba7ef1a), (0x14292967, 0xa5bd3ed)]"
  define p2 :: "(u32 \<times> u32) list" where "p2 = [(0x27b70a85, 0x5d77151a), (0x2e1b2138, 0x84832492),
    (0x4d2c6dfc, 0x3eef63c8), (0x53380d13, 0x9f7b6c27), (0x650a7354, 0x576f534), (0x766a0abb, 0x34c9e338),
    (0x81c2c92e, 0x25ef682d), (0x92722c85, 0x91f98fee), (0xa2bfe8a1, 0xf235f1c0), (0xa81a664b, 0x1fee1736),
    (0xc24b8b70, 0x9c4e72b9), (0xc76c51a3, 0x26d44764), (0xd192e819, 0x84089c4c), (0xd6990624, 0x43d3000),
    (0xf40e3585, 0x3ad4def6), (0x106aa070, 0x34e56f56)]"
  define p3 :: "(u32 \<times> u32) list" where "p3 = [(0x19a4c116, 0x6ece5f52), (0x1e376c08, 0x8a70ba05),
    (0x2748774c, 0xd1f4f0d7), (0x34b0bcb5, 0x43ce22dc), (0x391c0cb3, 0xfe3837bf), (0x4ed8aa4a, 0xc9c196f2),
    (0x5b9cca4f, 0x24d3ccf5), (0x682e6ff3, 0xde302653), (0x748f82ee, 0x6a346f8), (0x78a5636f, 0x5d65685),
    (0x84c87814, 0x890d6ac0), (0x8cc70208, 0xb539fa9a), (0x90befffa, 0xb27427aa), (0xa4506ceb, 0xc7d6fc10),
    (0xbef9a3f7, 0xa13281d3), (0xc67178f2, 0x1c1511e3)]"
  have "zip sha_k [0x41514542, 0x41514542, 0x41514542, 0x41514542, 0x41514542, 0x41514542, 0x41514542, 0x41514542,
    0x41514542, 0x41514542, 0x41514580, 0x0, 0x0, 0x0, 0x0, 0x158, 0x609aa4fa, 0x6121a538, 0x2643baaf, 0x56cd495,
    0xc95546bf, 0x1022d8e6, 0x2b03a9e1, 0xb74fc755, 0x223174fb, 0xdccb591f, 0xdba89318, 0x90f06de9, 0x6bfc756b,
    0x6671705e, 0x1ba7ef1a, 0xa5bd3ed, 0x5d77151a, 0x84832492, 0x3eef63c8, 0x9f7b6c27, 0x576f534, 0x34c9e338,
    0x25ef682d, 0x91f98fee, 0xf235f1c0, 0x1fee1736, 0x9c4e72b9, 0x26d44764, 0x84089c4c, 0x43d3000, 0x3ad4def6,
    0x34e56f56, 0x6ece5f52, 0x8a70ba05, 0xd1f4f0d7, 0x43ce22dc, 0xfe3837bf, 0xc9c196f2, 0x24d3ccf5, 0xde302653,
    0x6a346f8, 0x5d65685, 0x890d6ac0, 0xb539fa9a, 0xb27427aa, 0xc7d6fc10, 0xa13281d3, 0x1c1511e3] = p0 @ p1 @ p2 @ p3"
    unfolding sha_k_def p0_def p1_def p2_def p3_def by simp
  then have "fold sha_round (zip sha_k (expand [0x41514542, 0x41514542, 0x41514542, 0x41514542, 0x41514542,
    0x41514542, 0x41514542, 0x41514542, 0x41514542, 0x41514542, 0x41514580, 0x0, 0x0, 0x0, 0x0,
    0x158])) sha_h0 = (0xeccc140c, 0x788f28c2, 0x9ed3cec7, 0x9b2e686a, 0x7220f9fa, 0x5857a09f, 0xf3cbf9af,
    0xe44ccf43)"
    unfolding expand_one sha_h0_def
    by (simp only: fold_append comp_def p0_def p1_def p2_def p3_def rounds_one_1 rounds_one_2 rounds_one_3 rounds_one_4)
  then have "sha_add sha_h0 (fold sha_round (zip sha_k (expand [0x41514542, 0x41514542, 0x41514542, 0x41514542,
    0x41514542, 0x41514542, 0x41514542, 0x41514542, 0x41514542, 0x41514542, 0x41514580, 0x0, 0x0, 0x0, 0x0,
    0x158])) sha_h0) = (0x56d5fa73, 0x33f6d747, 0xdb42c239, 0x407e5da4, 0xc32f4c79, 0xf35d092b, 0x134fd35a,
    0x402d9c5c)"
    by (simp add: sha_h0_def)
  from hash_refresh_block [OF block_one _ _ this] show ?thesis by (simp add: token_one_def)
qed

section \<open>The two hashes differ\<close>

lemma hash_zero_one [simp]:
  "hash_refresh token_zero \<noteq> hash_refresh token_one" "hash_refresh token_one \<noteq> hash_refresh token_zero"
  using hash_zero hash_one by (auto simp: hex_byte_def hex_digit_def)

end
