(* ===== verification/RefreshRaces.thy ===== *)
theory RefreshRaces
  imports RefreshProtocol HashVectors
begin

text \<open>
  Two requests at once. A refresh reads its token (\<open>detect_reuse\<close>, \<open>refresh_checks\<close>) and rotates
  it in a later transaction (\<open>rotate_refresh\<close>); the properties here are about what may happen between
  the two. The conditional link makes one of two rotations of the same token lose. The
  revocation of the family and the retry of a predecessor are not seen by the rotation.
\<close>

section \<open>A successful refresh, on concrete tokens\<close>

definition race_env :: "auth_code blob ttl_map token_env" where
  "race_env = demo_env\<lparr>te_roles := None\<rparr>"

definition race_row :: rt_row where
  "race_row = demo_row ''r0'' (hash_refresh token_zero) None 0"

definition race_form :: form where
  "race_form = form_of [(''refresh_token'', [token_zero]), (''scope'', [''openid''])]"

lemma race_row_sel [simp]:
  "rt_id race_row = ''r0''" "rt_hash race_row = hash_refresh token_zero" "rt_replaced_by race_row = None"
  "rt_org race_row = ''org''" "rt_user race_row = ''usr''" "rt_client race_row = ''web''"
  "rt_session race_row = Some ''ses''" "rt_family race_row = ''fam0''"
  "rt_scope race_row = [''openid'', ''offline_access'']" "rt_expires race_row = 100000000000"
  "rt_family_expires race_row = 200000000000" "\<not> rt_revoked race_row" "rt_created race_row = 0"
  by (simp_all add: race_row_def demo_row_def)

lemma race_inv: "0 \<le> now \<Longrightarrow> refresh_inv now [race_row]"
  by (simp add: refresh_inv_def wf_table_def row_ok_def hash_refresh_row_ok family_agrees_def same_owner_def
      links_ok_def single_tip_def expiry_bounded_def lifetime_defs)

lemma race_form_get: "form_get race_form ''refresh_token'' = token_zero" "form_get race_form ''scope'' = ''openid''"
  by (simp_all add: race_form_def form_get_def form_of_def)

lemma race_checks:
  "refresh_checks race_env token_zero demo_app race_form 1000 [race_row] = Inr (refresh_of_row race_row, [''openid''])"
proof -
  have "parse_scope ''openid'' = [''openid'']" by code_simp
  then show ?thesis
    by (simp add: refresh_checks_def lookup_refresh_def refresh_token_by_hash_def token_live_def race_form_get
        race_env_def demo_env_def demo_app_def session_gone_def null_string_def mandate_check_def lift_oauth_def
        narrow_scope_def)
qed

lemma race_pass: "detect_reuse race_env token_zero demo_app 1000 (demo_world [race_row]) = (Inr (False, []), demo_world [race_row])"
  by (simp add: detect_reuse_def lookup_lineage_def race_env_def demo_env_def demo_world_def rotated_def
      lineage_of_def null_string_def)

text \<open>The successor a rotation inserts when the table allows it.\<close>

lemma rotate_refresh_succeeds:
  assumes wf: "wf_table tbl" and t: "t \<in> set tbl" and now: "now < rt_family_expires t"
    and link: "rt_replaced_by t = session_of old" and fr: "f_bytes fr = Some bs"
    and new: "f_id fr \<notin> rt_id ` set tbl" "hash_refresh (b64url_encode bs) \<notin> rt_hash ` set tbl"
    and pr: "r_id pr = rt_id t" "r_org pr = rt_org t"
  shows "\<exists>tbl' row. rotate_refresh (rt_org t) pr old fr now dbnow tbl = Inr (b64url_encode bs, tbl') \<and>
    row = token_row pr (f_id fr) (r_family pr) (b64url_encode bs) (successor_expiry (rt_family_expires t) now)
      (rt_family_expires t) dbnow \<and>
    tbl' = map (rot_update (rt_org t) (rt_id t) old (f_id fr)) (tbl @ [row])"
proof -
  define row where "row = token_row pr (f_id fr) (r_family pr) (b64url_encode bs)
    (successor_expiry (rt_family_expires t) now) (rt_family_expires t) dbnow"
  have f: "List.find (\<lambda>u. visible (rt_org t) u \<and> rt_id u = r_id pr) tbl = Some t"
    using wf t pr by (intro find_unique) (auto simp: visible_def dest: wf_unique_id)
  have "row_ok row"
    by (simp add: row_ok_def row_def hash_refresh_row_ok successor_expiry_def Let_def time_defs)
  then have ins: "insert_row (rt_org t) row tbl = Inr (tbl @ [row])"
    using new pr by (auto simp: insert_row_ok row_def)
  let ?r = "\<lambda>u. if old \<noteq> [] \<and> visible (rt_org t) u \<and> rt_id u = old then u\<lparr>rt_revoked := True\<rparr> else u"
  have tbl2: "(if old \<noteq> [] then revoke_refresh (rt_org t) old (tbl @ [row]) else tbl @ [row]) = map ?r (tbl @ [row])"
    by (simp add: revoke_refresh_def fst_revoke_where)
  let ?lk = "link_where (rt_org t) (r_id pr) (session_of old) (f_id fr) (map ?r (tbl @ [row]))"
  have lk: "fst ?lk = map (rot_update (rt_org t) (rt_id t) old (f_id fr)) (tbl @ [row])"
    by (simp add: link_where_def rot_update_def Let_def pr(1))
  have "?r t \<in> set (map ?r (tbl @ [row]))" using t by simp
  moreover have "visible (rt_org t) (?r t) \<and> rt_id (?r t) = r_id pr \<and> rt_replaced_by (?r t) = session_of old"
    using link pr(1) by (simp add: visible_def)
  ultimately have aff: "snd ?lk \<noteq> 0"
    unfolding link_where_def snd_conv length_0_conv filter_empty_conv by blast
  have "rotate_refresh (rt_org t) pr old fr now dbnow tbl =
      (case ?lk of (tbl3, affected) \<Rightarrow> if affected = 0 then Inl RefreshReuse else Inr (b64url_encode bs, tbl3))"
    unfolding rotate_refresh_def f option.case issue_in_family_def new_refresh_plaintext_def fr bindE_simps
      row_def [symmetric] ins
    using now by (simp add: time_after_def tbl2 Let_def)
  with lk aff have "rotate_refresh (rt_org t) pr old fr now dbnow tbl =
      Inr (b64url_encode bs, map (rot_update (rt_org t) (rt_id t) old (f_id fr)) (tbl @ [row]))"
    by (cases ?lk) simp
  then show ?thesis by (simp add: row_def)
qed

definition race_fresh :: fresh where
  "race_fresh = \<lparr>f_id = ''r1'', f_family = ''fam1'', f_bytes = Some (replicate 32 1)\<rparr>"

lemma race_env_sel [simp]:
  "te_fresh race_env = race_fresh" "te_fault race_env = (\<lambda>_. TxOk)" "te_dbnow race_env = 1000"
  "te_roles race_env = None" "te_sign race_env = (\<lambda>_ typ. Some (''signed-'' @ typ))" "te_issuer race_env = ''iss''"
  by (simp_all add: race_env_def demo_env_def race_fresh_def)

lemma race_fresh_sel [simp]:
  "f_id race_fresh = ''r1''" "f_family race_fresh = ''fam1''" "f_bytes race_fresh = Some (replicate 32 1)"
  by (simp_all add: race_fresh_def)

lemma race_issue: "\<exists>out. issue_tokens race_env demo_app (refresh_subject race_env demo_app (refresh_of_row race_row) [''openid''])
    [''openid''] False False 1000 w = (Inr out, w)"
  by (simp add: issue_tokens_def signed_tokens_def roles_for_def refresh_subject_def access_token_claims_def
      plain_def sign_claims_def demo_app_def validate_subject_def null_string_def Let_def)

lemma race_rotates:
  assumes "refresh_inv 1000 tbl" "t \<in> set tbl" "1000 < rt_family_expires t" "rt_replaced_by t = None"
    "rt_id t = ''r0''" "rt_org t = ''org''" "''r1'' \<notin> rt_id ` set tbl" "hash_refresh token_one \<notin> rt_hash ` set tbl"
  shows "\<exists>tbl'. rotate_refresh ''org'' (refresh_of_row race_row\<lparr>r_scope := sc\<rparr>) [] race_fresh 1000 d tbl = Inr (token_one, tbl')"
  using rotate_refresh_succeeds [of tbl t 1000 "[]" race_fresh "replicate 32 1" "refresh_of_row race_row\<lparr>r_scope := sc\<rparr>" d] assms
  by (auto simp: refresh_inv_def session_of_def token_one_encoded)

lemma race_run: "\<exists>out user w'. refresh_token race_env demo_app race_form 1000 (demo_world [race_row]) = (Inr (out, user), w')"
proof -
  obtain tbl' where "rotate_refresh ''org'' (refresh_of_row race_row\<lparr>r_scope := [''openid'']\<rparr>) [] race_fresh 1000 1000 [race_row]
      = Inr (token_one, tbl')"
    using race_rotates [of "[race_row]" race_row "[''openid'']" 1000] race_inv [of 1000] by auto
  then have "rotate race_env (refresh_of_row race_row) [''openid''] [] 1000 (demo_world [race_row]) =
      (Inr token_one, (demo_world [race_row])\<lparr>tw_tokens := tbl'\<rparr>)"
    by (simp add: rotate_def with_tenant_def with_scope_def demo_world_def)
  moreover have "token_zero \<noteq> []" by (simp add: token_zero_def)
  moreover have tok: "tw_tokens (demo_world [race_row]) = [race_row]" by (simp add: demo_world_def)
  ultimately show ?thesis
    using race_issue [of "demo_world [race_row]"] race_checks tok
    by (auto simp: refresh_token_def race_form_get race_pass)
qed

theorem refresh_success_witness:
  "\<exists>out user w'. refresh_token race_env demo_app race_form 1000 (demo_world [race_row]) = (Inr (out, user), w') \<and>
     (\<exists>row \<in> set (tw_tokens w'). rt_hash row = hash_refresh (tr_refresh out) \<and> rt_family row = ''fam0'')"
proof -
  obtain out user w' where run: "refresh_token race_env demo_app race_form 1000 (demo_world [race_row]) = (Inr (out, user), w')"
    using race_run by blast
  have "refresh_inv 1000 (tw_tokens (demo_world [race_row]))"
    using race_inv [of 1000] by (simp add: demo_world_def)
  from refresh_success [OF this run] run show ?thesis by (auto simp: demo_world_def)
qed

section \<open>Two rotations of the same token\<close>

lemma rotate_links:
  assumes inv: "refresh_inv now tbl" and rot: "rotate_refresh org pr old fr now dbnow tbl = Inr (p, tbl')"
    and ok: "rotatable now tbl pr old"
  shows "\<exists>t \<in> set tbl. rt_id t = r_id pr \<and> rt_org t = org \<and> rt_family t = r_family pr \<and> token_live now t \<and>
     rt_replaced_by t = session_of old \<and> session_of old \<noteq> Some (f_id fr) \<and>
     (old \<noteq> [] \<longrightarrow> old \<in> rt_id ` set tbl) \<and>
     (\<exists>row. row = token_row pr (f_id fr) (r_family pr) p (successor_expiry (rt_family_expires t) now)
          (rt_family_expires t) dbnow \<and> rt_id row \<notin> rt_id ` set tbl \<and> rt_hash row \<notin> rt_hash ` set tbl \<and>
        rot_update org (r_id pr) old (f_id fr) row = row \<and>
        rt_replaced_by (rot_update org (r_id pr) old (f_id fr) t) = Some (f_id fr) \<and>
        tbl' = map (rot_update org (r_id pr) old (f_id fr)) tbl @ [row])"
proof -
  from inv have wf: "wf_table tbl" and lk: "links_ok tbl" by (simp_all add: refresh_inv_def)
  from ok obtain t where t: "t \<in> set tbl" "token_live now t" "r_id pr = rt_id t" "r_family pr = rt_family t" "r_org pr = rt_org t"
    and link: "old = [] \<and> rt_replaced_by t = None \<or> rt_replaced_by t = Some old \<and>
      (\<forall>u \<in> set tbl. rt_id u = old \<longrightarrow> \<not> rt_revoked u \<and> rt_replaced_by u = None)"
    by (rule rotatableE) metis
  from link have "old \<noteq> [] \<longrightarrow> rt_replaced_by t = Some old" by auto
  with lk t(1) have old: "old \<noteq> [] \<longrightarrow> old \<in> rt_id ` set tbl"
    unfolding links_ok_def by (metis image_eqI)
  from link lk t(1) have lo: "rt_replaced_by t = session_of old"
    unfolding links_ok_def session_of_def by (metis (full_types))
  from rot obtain t' row where r: "t' \<in> set tbl" "rt_org t' = org" "rt_id t' = r_id pr"
    "row = token_row pr (f_id fr) (r_family pr) p (successor_expiry (rt_family_expires t') now) (rt_family_expires t') dbnow"
    "f_id fr \<notin> rt_id ` set tbl" "hash_refresh p \<notin> rt_hash ` set tbl"
    "tbl' = map (rot_update org (r_id pr) old (f_id fr)) (tbl @ [row])"
    and u: "\<exists>u \<in> set (tbl @ [row]). visible org u \<and> rt_id u = r_id pr \<and> rt_replaced_by u = session_of old"
    by (rule rotate_refreshE) metis
  have t': "t' = t" using wf_unique_id [OF wf r(1) t(1)] r(3) t(3) by simp
  have ne: "session_of old \<noteq> Some (f_id fr)"
    using r(5) old by (metis session_of_def option.inject option.simps(3))
  have fr: "rot_update org (r_id pr) old (f_id fr) row = row"
    using r(4,5) t(1,3) old by (auto simp: rot_update_def Let_def)
  have lt: "rt_replaced_by (rot_update org (r_id pr) old (f_id fr) t) = Some (f_id fr)"
    using r(2) t' lo t(3) by (simp add: rot_update_def Let_def visible_def)
  have tbl': "tbl' = map (rot_update org (r_id pr) old (f_id fr)) tbl @ [row]"
    using r(7) fr by simp
  show ?thesis
    by (rule bexI [OF _ t(1)], intro conjI exI [of _ row])
      (use t t' r old lo ne fr lt tbl' in simp_all)
qed

text \<open>
  C9. Of two rotations of the same presented token, with the same expectation of its link, at most
  one succeeds: once the first has committed, the second finds the link moved and rolls back.
\<close>

theorem rotation_one_winner:
  assumes inv: "refresh_inv now tbl" and ok: "rotatable now tbl pr old"
    and first: "rotate_refresh org pr old fr now d tbl = Inr (p, tbl1)"
  shows "\<not> is_ok (rotate_refresh org pr old fr2 now2 d2 tbl1)"
proof
  assume "is_ok (rotate_refresh org pr old fr2 now2 d2 tbl1)"
  then obtain p2 tbl2 where "rotate_refresh org pr old fr2 now2 d2 tbl1 = Inr (p2, tbl2)"
    by (auto simp: is_ok_def split: sum.splits)
  then obtain u row2 where u: "u \<in> set (tbl1 @ [row2])" "rt_id u = r_id pr" "rt_replaced_by u = session_of old"
    and row2: "rt_id row2 \<notin> rt_id ` set tbl1"
    by (rule rotate_refreshE) (metis token_row_sel(1))
  let ?f = "rot_update org (r_id pr) old (f_id fr)"
  note k = keeps_fields [OF keeps_rot_update, of org "r_id pr" old "f_id fr"]
  from rotate_links [OF inv first ok] obtain t row where t: "t \<in> set tbl" "rt_id t = r_id pr"
    "session_of old \<noteq> Some (f_id fr)" "rt_id row \<notin> rt_id ` set tbl" "rt_replaced_by (?f t) = Some (f_id fr)"
    "tbl1 = map ?f tbl @ [row]"
    by blast
  have "r_id pr \<in> rt_id ` set tbl1" using t by (force simp: k image_iff)
  with u row2 have "u \<in> set tbl1" by auto
  with u(2) t obtain v where v: "v \<in> set tbl" "u = ?f v" by (auto simp: image_iff)
  with u(2) t(1,2) inv have "v = t" by (auto simp: k refresh_inv_def dest: wf_unique_id)
  with u(3) v t(3,5) show False by simp
qed

theorem rotation_one_winner_witness:
  "\<exists>tbl1. rotate_refresh ''org'' (refresh_of_row race_row) [] race_fresh 1000 1000 [race_row] = Inr (token_one, tbl1) \<and>
     \<not> is_ok (rotate_refresh ''org'' (refresh_of_row race_row) [] (race_fresh\<lparr>f_id := ''r2''\<rparr>) 1001 1001 tbl1)"
proof -
  have "refresh_of_row race_row\<lparr>r_scope := [''openid'', ''offline_access'']\<rparr> = refresh_of_row race_row"
    by (simp add: refresh_of_row_def)
  with race_rotates [of "[race_row]" race_row "[''openid'', ''offline_access'']" 1000] race_inv [of 1000]
  obtain tbl1 where first: "rotate_refresh ''org'' (refresh_of_row race_row) [] race_fresh 1000 1000 [race_row] = Inr (token_one, tbl1)"
    by auto
  have "rotatable 1000 [race_row] (refresh_of_row race_row) []"
    by (simp add: rotatable_def token_live_def refresh_of_row_def)
  from rotation_one_winner [OF race_inv this first] first show ?thesis by auto
qed

section \<open>A revocation between look-up and rotation\<close>

lemma successor_live:
  "now < fe \<Longrightarrow> token_live now (token_row i n fam p (successor_expiry fe now) fe d)"
  by (simp add: token_live_def successor_expiry_def Let_def time_defs lifetime_defs)

lemma revoke_family_rows:
  "rt_id ` set (fst (revoke_family org fam tbl)) = rt_id ` set tbl"
  "rt_hash ` set (fst (revoke_family org fam tbl)) = rt_hash ` set tbl"
  "wf_table (fst (revoke_family org fam tbl)) = wf_table tbl"
  "t \<in> set tbl \<Longrightarrow> \<exists>t' \<in> set (fst (revoke_family org fam tbl)). rt_id t' = rt_id t \<and> rt_org t' = rt_org t \<and>
     rt_family t' = rt_family t \<and> rt_replaced_by t' = rt_replaced_by t \<and> rt_family_expires t' = rt_family_expires t"
proof -
  let ?P = "\<lambda>t. visible org t \<and> rt_family t = fam \<and> \<not> rt_revoked t"
  let ?r = "\<lambda>t. if ?P t then t\<lparr>rt_revoked := True\<rparr> else t"
  have k: "keeps ?r" using retires_revoke [of ?P] by (simp add: retires_def)
  have e: "fst (revoke_family org fam tbl) = map ?r tbl" unfolding revoke_family_def fst_revoke_where ..
  show "rt_id ` set (fst (revoke_family org fam tbl)) = rt_id ` set tbl"
    "rt_hash ` set (fst (revoke_family org fam tbl)) = rt_hash ` set tbl"
    unfolding e set_map image_image keeps_fields [OF k] by (rule refl)+
  show "wf_table (fst (revoke_family org fam tbl)) = wf_table tbl" unfolding e keeps_wf [OF k] ..
  show "\<exists>t' \<in> set (fst (revoke_family org fam tbl)). rt_id t' = rt_id t \<and> rt_org t' = rt_org t \<and>
     rt_family t' = rt_family t \<and> rt_replaced_by t' = rt_replaced_by t \<and> rt_family_expires t' = rt_family_expires t"
    if "t \<in> set tbl"
    unfolding e by (rule bexI [of _ "?r t"]) (use that in auto)
qed

text \<open>
  A kill that falls between a refresh's look-up and its rotation does not stop it: with the
  token looked up while it was live and its whole family revoked before the rotation, the rotation
  still succeeds and leaves a live token in the killed family. \<open>Rotate\<close> reads the family's expiry
  again, and not whether the token is still unrevoked.
\<close>

theorem kill_race_revives_family:
  assumes inv: "refresh_inv now (tw_tokens w)"
    and pass: "detect_reuse env p app now w = (Inr (False, []), w)"
    and chk: "refresh_checks env p app f now (tw_tokens w) = Inr (stored, scope)"
    and up: "te_fault env RotateTx = TxOk" "r_org stored \<noteq> []" "f_bytes (te_fresh env) = Some bs"
    and new: "f_id (te_fresh env) \<notin> rt_id ` set (tw_tokens w)"
      "hash_refresh (b64url_encode bs) \<notin> rt_hash ` set (tw_tokens w)"
    and kill: "tw_tokens w1 = fst (revoke_family (r_org stored) (r_family stored) (tw_tokens w))"
  shows "family_dead (r_family stored) (tw_tokens w1) \<and>
    (\<exists>w2 row. rotate env stored scope [] now w1 = (Inr (b64url_encode bs), w2) \<and> row \<in> set (tw_tokens w2) \<and>
       rt_family row = r_family stored \<and> rt_hash row = hash_refresh (b64url_encode bs) \<and> token_live now row)"
proof -
  let ?tbl = "tw_tokens w" and ?org = "r_org stored" and ?fam = "r_family stored"
  from inv have wf: "wf_table ?tbl" and fa: "family_agrees ?tbl" by (simp_all add: refresh_inv_def)
  from refresh_checksE(1) [OF chk] obtain t where t: "t \<in> set ?tbl" "rt_hash t = hash_refresh p" "token_live now t"
    "stored = refresh_of_row t" by (rule lookup_refreshE)
  from pass_rotatable [OF inv pass refresh_checksE(1) [OF chk], of scope]
  obtain ta where ta: "ta \<in> set ?tbl" "rt_id ta = rt_id t" "rt_replaced_by ta = None \<or> rt_replaced_by ta = Some []"
    by (rule rotatableE) (metis t(4) refresh_of_row_sel(1) refresh.select_convs(1) refresh.ext_inject refresh.surjective refresh.update_convs(7))
  have "ta = t" by (rule wf_unique_id [OF wf ta(1) t(1) ta(2)])
  with ta(3) inv t(1) have "rt_replaced_by t = None"
    unfolding refresh_inv_def links_ok_def by blast
  moreover obtain t' where t': "t' \<in> set (tw_tokens w1)" "rt_id t' = rt_id t" "rt_org t' = rt_org t"
    "rt_family t' = rt_family t" "rt_replaced_by t' = rt_replaced_by t" "rt_family_expires t' = rt_family_expires t"
    unfolding kill using revoke_family_rows(4) [OF t(1), of ?org ?fam] by auto
  ultimately have link: "rt_replaced_by t' = session_of []" by (simp add: session_of_def)
  have now: "now < rt_family_expires t'" using t(3) t'(6) by (simp add: token_live_def)
  from rotate_refresh_succeeds [OF _ t'(1) now link up(3), of "stored\<lparr>r_scope := scope\<rparr>" "te_dbnow env"]
  obtain tbl' row where r: "rotate_refresh ?org (stored\<lparr>r_scope := scope\<rparr>) [] (te_fresh env) now (te_dbnow env) (tw_tokens w1)
      = Inr (b64url_encode bs, tbl')"
    "row = token_row (stored\<lparr>r_scope := scope\<rparr>) (f_id (te_fresh env)) ?fam (b64url_encode bs)
       (successor_expiry (rt_family_expires t') now) (rt_family_expires t') (te_dbnow env)"
    "tbl' = map (rot_update ?org (rt_id t') [] (f_id (te_fresh env))) (tw_tokens w1 @ [row])"
    using wf new t' t(4) by (auto simp: kill revoke_family_rows)
  have row: "rot_update ?org (rt_id t') [] (f_id (te_fresh env)) row = row"
    using r(2) new(1) t(1) t'(2) by (auto simp: rot_update_def Let_def)
  have "rotate env stored scope [] now w1 = (Inr (b64url_encode bs), w1\<lparr>tw_tokens := tbl'\<rparr>)"
    using up r(1) by (simp add: rotate_def with_tenant_def with_scope_def)
  moreover have "token_live now row" using now r(2) successor_live by simp
  moreover have "row \<in> set tbl'" using r(3) row by simp
  moreover have "\<forall>u \<in> set ?tbl. rt_family u = ?fam \<longrightarrow> rt_org u = ?org"
    using fa t(1,4) unfolding family_agrees_def same_owner_def by (metis refresh_of_row_sel(4,6))
  ultimately show ?thesis
    using revoke_family_dead [of ?tbl ?fam ?org] r(2) unfolding kill
    by (intro conjI exI [of _ "w1\<lparr>tw_tokens := tbl'\<rparr>"] exI [of _ row]) simp_all
qed

theorem kill_race_revives_family_witness:
  "let w1 = demo_world (fst (revoke_family ''org'' ''fam0'' [race_row])) in
   family_dead ''fam0'' (tw_tokens w1) \<and>
   (\<exists>w2 row. rotate race_env (refresh_of_row race_row) [''openid''] [] 1000 w1 = (Inr token_one, w2) \<and>
      row \<in> set (tw_tokens w2) \<and> rt_family row = ''fam0'' \<and> token_live 1000 row)"
proof -
  have w: "tw_tokens (demo_world tbl) = tbl" for tbl by (simp add: demo_world_def)
  have "family_dead (r_family (refresh_of_row race_row)) (tw_tokens (demo_world (fst (revoke_family ''org'' ''fam0'' [race_row])))) \<and>
    (\<exists>w2 row. rotate race_env (refresh_of_row race_row) [''openid''] [] 1000
         (demo_world (fst (revoke_family ''org'' ''fam0'' [race_row]))) = (Inr (b64url_encode (replicate 32 1)), w2) \<and>
       row \<in> set (tw_tokens w2) \<and> rt_family row = r_family (refresh_of_row race_row) \<and>
       rt_hash row = hash_refresh (b64url_encode (replicate 32 1)) \<and> token_live 1000 row)"
    by (rule kill_race_revives_family [OF _ race_pass])
      (use race_inv [of 1000] race_checks in \<open>simp_all add: w token_one_encoded\<close>)
  then show ?thesis by (auto simp: Let_def token_one_encoded)
qed

section \<open>A retry against a refresh of the successor\<close>

text \<open>
  A retry of a rotated token may overlap a refresh with its successor. Both pass their checks
  while the successor is still unused; the successor rotates first; the retry then rotates as
  well, because its conditional link looks at the predecessor only. The family is left with two
  usable tips, against the invariant every sequential run keeps.
\<close>

theorem retry_race_forks_family:
  assumes inv: "refresh_inv now tbl"
    and retry: "rotatable now tbl pr (r_id su)" "r_id su \<noteq> []" and succ: "rotatable now tbl su []"
    and new: "f_bytes fr1 = Some bs1" "f_bytes fr2 = Some bs2" "f_id fr1 \<noteq> []" "f_id fr1 \<noteq> f_id fr2"
      "hash_refresh (b64url_encode bs1) \<noteq> hash_refresh (b64url_encode bs2)"
      "{f_id fr1, f_id fr2} \<inter> rt_id ` set tbl = {}"
      "{hash_refresh (b64url_encode bs1), hash_refresh (b64url_encode bs2)} \<inter> rt_hash ` set tbl = {}"
  shows "\<exists>tbl1 tbl2. rotate_refresh (r_org su) su [] fr1 now d1 tbl = Inr (b64url_encode bs1, tbl1) \<and>
     rotate_refresh (r_org pr) pr (r_id su) fr2 now d2 tbl1 = Inr (b64url_encode bs2, tbl2) \<and>
     \<not> single_tip now tbl2"
proof -
  from inv have wf: "wf_table tbl" and lk: "links_ok tbl" by (simp_all add: refresh_inv_def)
  from succ obtain s where s: "s \<in> set tbl" "token_live now s" "r_id su = rt_id s" "r_org su = rt_org s"
    "r_family su = rt_family s" and s0: "rt_replaced_by s = None \<or> rt_replaced_by s = Some []"
    by (rule rotatableE) metis
  from retry obtain t where t: "t \<in> set tbl" "token_live now t" "r_id pr = rt_id t" "r_org pr = rt_org t"
    "r_family pr = rt_family t" "rt_replaced_by t = Some (rt_id s)"
    by (elim rotatableE) (auto simp: s(3))
  from s0 lk s(1) have sn: "rt_replaced_by s = session_of []" unfolding links_ok_def session_of_def by auto
  from lk t(1,6) obtain v where v: "v \<in> set tbl" "rt_id v = rt_id s" "rt_family v = rt_family t" and ne: "rt_id s \<noteq> rt_id t"
    unfolding links_ok_def by blast
  have fam: "rt_family s = rt_family t" using wf_unique_id [OF wf v(1) s(1) v(2)] v(3) by simp
  let ?e = "\<lambda>t. successor_expiry (rt_family_expires t) now"
  define r1 where "r1 = token_row su (f_id fr1) (r_family su) (b64url_encode bs1) (?e s) (rt_family_expires s) d1"
  define r2 where "r2 = token_row pr (f_id fr2) (r_family pr) (b64url_encode bs2) (?e t) (rt_family_expires t) d2"
  have life: "now < rt_family_expires s" "now < rt_family_expires t" using s(2) t(2) by (simp_all add: token_live_def)
  let ?f1 = "rot_update (rt_org s) (rt_id s) [] (f_id fr1)" and ?f2 = "rot_update (rt_org t) (rt_id t) (rt_id s) (f_id fr2)"
  note k1 = keeps_fields [OF keeps_rot_update, of "rt_org s" "rt_id s" "[]" "f_id fr1"]
  define tbl1 where "tbl1 = map ?f1 (tbl @ [r1])"
  from rotate_refresh_succeeds [OF wf s(1) life(1) sn new(1) _ _ s(3,4), of d1] new(6,7)
  have rot1: "rotate_refresh (r_org su) su [] fr1 now d1 tbl = Inr (b64url_encode bs1, tbl1)"
    by (simp add: r1_def tbl1_def s(4))
  have "refresh_inv now tbl1" using rotate_refresh_inv [OF inv rot1 succ new(3)] .
  then have wf1: "wf_table tbl1" by (simp add: refresh_inv_def)
  have ids: "rt_id r1 = f_id fr1" "rt_id r2 = f_id fr2" "rt_hash r1 = hash_refresh (b64url_encode bs1)"
    by (simp_all add: r1_def r2_def)
  have nid: "f_id fr1 \<noteq> rt_id s" "f_id fr1 \<noteq> rt_id t" "f_id fr2 \<noteq> rt_id s" "f_id fr2 \<noteq> rt_id t"
    using new(6) s(1) t(1) by auto
  have t1: "t \<in> set tbl1"
  proof -
    have "?f1 t = t" using ne by (simp add: rot_update_def Let_def)
    then show ?thesis using t(1) by (force simp: tbl1_def)
  qed
  have fresh: "f_id fr2 \<notin> rt_id ` set tbl1" "hash_refresh (b64url_encode bs2) \<notin> rt_hash ` set tbl1"
    unfolding tbl1_def set_map image_image k1 using new(4-7) ids by auto
  define tbl2 where "tbl2 = map ?f2 (tbl1 @ [r2])"
  from t(6) s(3) retry(2) have tl: "rt_replaced_by t = session_of (r_id su)" by (simp add: session_of_def)
  from rotate_refresh_succeeds [OF wf1 t1 life(2) tl new(2) fresh t(3,4), of d2]
  have rot2: "rotate_refresh (r_org pr) pr (r_id su) fr2 now d2 tbl1 = Inr (b64url_encode bs2, tbl2)"
    by (simp add: r2_def tbl2_def t(4) s(3))
  have "?f1 r1 = r1" "?f2 r1 = r1" "?f2 r2 = r2"
    using nid ids by (auto intro!: rot_update_other simp: rot_update_def Let_def)
  then have "r1 \<in> set tbl2" "r2 \<in> set tbl2" by (force simp: tbl2_def tbl1_def)+
  moreover have "tip now r1" "tip now r2"
    using life successor_live by (simp_all add: tip_def r1_def r2_def)
  moreover have "rt_family r1 = rt_family r2" by (simp add: r1_def r2_def s(5) t(5) fam)
  moreover have "r1 \<noteq> r2" using ids new(4) by metis
  ultimately have "\<not> single_tip now tbl2" unfolding single_tip_def by blast
  with rot1 rot2 show ?thesis by blast
qed

text \<open>A family of two on given hashes: \<open>r0\<close> rotated into \<open>s0\<close>.\<close>

definition race_family :: "string \<Rightarrow> rt_table" where
  "race_family h = [demo_row ''r0'' h (Some ''s0'') 0, demo_row ''s0'' ''other'' None 100]"

definition race_retry :: "string \<Rightarrow> refresh" where
  "race_retry h = refresh_of_row (demo_row ''r0'' h (Some ''s0'') 0)"

definition race_successor :: refresh where
  "race_successor = refresh_of_row (demo_row ''s0'' ''other'' None 100)"

lemmas race_family_defs = race_family_def race_retry_def race_successor_def demo_row_def

lemma race_rotatable:
  "rotatable 1000 (race_family h) (race_retry h) ''s0''" "rotatable 1000 (race_family h) race_successor []"
  by (simp_all add: rotatable_def race_family_defs refresh_of_row_def token_live_def)

lemma race_family_inv:
  "row_ok (demo_row ''r0'' h (Some ''s0'') 0) \<Longrightarrow> h \<noteq> ''other'' \<Longrightarrow> refresh_inv 1000 (race_family h)"
  by (auto simp: race_family_defs refresh_inv_def wf_table_def row_ok_def
      family_agrees_def same_owner_def links_ok_def single_tip_def tip_def expiry_bounded_def lifetime_defs)

theorem retry_race_forks_family_witness:
  "\<exists>tbl1 tbl2. rotate_refresh ''org'' race_successor [] (race_fresh\<lparr>f_bytes := Some (replicate 32 0)\<rparr>) 1000 1000 (race_family ''h0'')
       = Inr (token_zero, tbl1) \<and>
     rotate_refresh ''org'' (race_retry ''h0'') ''s0'' (race_fresh\<lparr>f_id := ''r2''\<rparr>) 1000 1000 tbl1 = Inr (token_one, tbl2) \<and>
     \<not> single_tip 1000 tbl2"
proof -
  have "refresh_inv 1000 (race_family ''h0'')"
    by (rule race_family_inv) (simp_all add: row_ok_def demo_row_def)
  note race = retry_race_forks_family [OF this _ _ race_rotatable(2), of "race_retry ''h0''"
    "race_fresh\<lparr>f_bytes := Some (replicate 32 0)\<rparr>" "replicate 32 0" "race_fresh\<lparr>f_id := ''r2''\<rparr>" "replicate 32 1" 1000 1000]
  have "r_id race_successor = ''s0''" "r_org race_successor = ''org''" "r_org (race_retry ''h0'') = ''org''"
    by (simp_all add: race_family_defs)
  with race race_rotatable(1) [of "''h0''"] show ?thesis
    by (simp add: token_zero_encoded token_one_encoded race_family_def demo_row_def race_fresh_def)
qed

text \<open>
  A retry is answered with a new successor, the old one is revoked, and the presented token may be
  retried again for a whole grace period counted from that answer: the grace of the first rotation is
  extended by every retry.
\<close>

theorem retry_renews_grace:
  assumes inv: "refresh_inv now tbl" and ok: "rotatable now tbl pr old" and old: "old \<noteq> []"
    and rot: "rotate_refresh org pr old fr now dbnow tbl = Inr (p, tbl')" and fid: "f_id fr \<noteq> []"
    and t: "t \<in> set tbl" "rt_id t = r_id pr" "rt_hash t = hash_refresh presented"
    and times: "\<not> is_zero dbnow" "dbnow \<le> now2" "now2 \<le> dbnow + rotation_grace"
  shows "\<exists>l. lookup_lineage tbl' presented = Inr l \<and> l_replaced_by l = f_id fr \<and> f_id fr \<noteq> old \<and>
     legitimate_retry l now2 rotation_grace \<and> (\<forall>u \<in> set tbl'. rt_id u = old \<longrightarrow> rt_revoked u)"
proof -
  let ?f = "rot_update org (r_id pr) old (f_id fr)"
  note k = keeps_fields [OF keeps_rot_update, of org "r_id pr" old "f_id fr"]
  from inv have wf: "wf_table tbl" and fa: "family_agrees tbl" and lk: "links_ok tbl" by (simp_all add: refresh_inv_def)
  from rotate_links [OF inv rot ok] obtain ta row where ta: "ta \<in> set tbl" "rt_id ta = r_id pr" "rt_org ta = org"
    "token_live now ta" "rt_replaced_by ta = session_of old" "session_of old \<noteq> Some (f_id fr)"
    and row: "row = token_row pr (f_id fr) (r_family pr) p (successor_expiry (rt_family_expires ta) now)
          (rt_family_expires ta) dbnow"
    and lt: "rt_replaced_by (?f ta) = Some (f_id fr)" and tbl': "tbl' = map ?f tbl @ [row]"
    by blast
  have [simp]: "ta = t" using wf_unique_id [OF wf ta(1) t(1)] ta(2) t(2) by simp
  from lk ta(1,5) old have tne: "old \<noteq> rt_id t" unfolding links_ok_def session_of_def by auto
  from lk ta(1,5) old obtain s where s: "s \<in> set tbl" "rt_id s = old" "rt_family s = rt_family t"
    unfolding links_ok_def session_of_def by auto
  have "same_owner s t" using fa s(1,3) t(1) unfolding family_agrees_def by blast
  then have so: "rt_org s = org" using ta(3) by (simp add: same_owner_def)
  have wf': "wf_table tbl'" using rotate_refresh_inv [OF inv rot ok fid] by (simp add: refresh_inv_def)
  have inn: "?f t \<in> set tbl'" "row \<in> set tbl'" using t(1) by (simp_all add: tbl')
  have ri: "rt_id row = f_id fr" "rt_created row = dbnow" "\<not> rt_revoked row" "rt_replaced_by row = None"
    by (simp_all add: row)
  have nr: "\<not> rt_revoked (?f t)" using ta(4) tne by (auto simp: rot_update_def Let_def token_live_def)
  have fnd: "find_id tbl' (f_id fr) = Some row" using find_id_Some [OF wf' inn(2)] ri(1) by simp
  have ne: "f_id fr \<noteq> old" using ta(6) old by (simp add: session_of_def)
  have sub: "time_sub now2 dbnow \<le> rotation_grace"
    using times by (simp add: time_sub_def rotation_grace_def min_int64_def second_def min_le_iff_disj)
  let ?l = "lineage_of tbl' (?f t)"
  have l: "l_replaced_by ?l = f_id fr" "l_replaced_at ?l = dbnow" "\<not> l_spent ?l" "\<not> l_revoked ?l"
    using lt nr fnd ri by (simp_all add: lineage_of_def successor_of_def null_string_def)
  have "legitimate_retry ?l now2 rotation_grace"
    using l fid times(1) sub by (simp add: legitimate_retry_def rotated_def)
  moreover have "lookup_lineage tbl' presented = Inr ?l"
    using lookup_lineage_row [OF wf' inn(1)] t(3) by (simp add: k)
  moreover have "rt_revoked u" if u: "u \<in> set tbl'" "rt_id u = old" for u
  proof -
    have "?f s \<in> set tbl'" using s(1) by (simp add: tbl')
    with u s(2) wf' have "u = ?f s" by (metis k(1) wf_unique_id)
    then show ?thesis using so s(2) old tne by (simp add: rot_update_def Let_def visible_def)
  qed
  ultimately show ?thesis using l(1) ne by blast
qed

theorem retry_renews_grace_witness:
  "\<exists>tbl' l. rotate_refresh ''org'' (race_retry (hash_refresh token_zero)) ''s0'' race_fresh 1000 1000
       (race_family (hash_refresh token_zero)) = Inr (token_one, tbl') \<and>
     lookup_lineage tbl' token_zero = Inr l \<and> l_replaced_by l = ''r1'' \<and> legitimate_retry l 30000001000 rotation_grace"
proof -
  let ?h = "hash_refresh token_zero" and ?t = "demo_row ''r0'' (hash_refresh token_zero) (Some ''s0'') 0"
  have inv: "refresh_inv 1000 (race_family ?h)"
    by (rule race_family_inv) (simp_all add: row_ok_def demo_row_def hash_refresh_row_ok)
  then have wf: "wf_table (race_family ?h)" by (simp add: refresh_inv_def)
  have t: "?t \<in> set (race_family ?h)" by (simp add: race_family_def)
  have "\<exists>tbl'. rotate_refresh (rt_org ?t) (race_retry ?h) ''s0'' race_fresh 1000 1000 (race_family ?h) = Inr (token_one, tbl')"
    using rotate_refresh_succeeds [OF wf t, of 1000 "''s0''" race_fresh "replicate 32 1" "race_retry ?h" 1000]
    by (simp add: race_family_defs session_of_def token_one_encoded)
  then obtain tbl' where rot: "rotate_refresh ''org'' (race_retry ?h) ''s0'' race_fresh 1000 1000 (race_family ?h) = Inr (token_one, tbl')"
    by (auto simp: demo_row_def)
  have "\<exists>l. lookup_lineage tbl' token_zero = Inr l \<and> l_replaced_by l = f_id race_fresh \<and> f_id race_fresh \<noteq> ''s0'' \<and>
     legitimate_retry l 30000001000 rotation_grace \<and> (\<forall>u \<in> set tbl'. rt_id u = ''s0'' \<longrightarrow> rt_revoked u)"
    by (rule retry_renews_grace [OF inv race_rotatable(1) _ rot _ t])
      (simp_all add: race_family_defs is_zero_def zero_time_def rotation_grace_def second_def)
  with rot show ?thesis by auto
qed

end
