(* ===== verification/SessionStore.thy ===== *)
theory SessionStore
  imports Sha256 "HOL-Library.Char_ord" "HOL-Library.List_Lexorder" "HOL-Library.Product_Lexorder"
begin

text \<open>
  Browser sessions (\<open>internal/session/session.go\<close>, \<open>store.go\<close>, \<open>owned.go\<close>): the lifetime policy and
  its bounds, when a session is live, the shape of a cookie value, and the statements of the store on
  the table \<open>sessions\<close> as functions on a list of rows. A statement run in a tenant transaction
  sees the rows of that organization only (row-level security); \<open>lookup_by_token_hash\<close>,
  \<open>session_live\<close> and the sweep are the instance-wide database functions of the migrations.
\<close>

section \<open>Policy\<close>

record session_policy =
  pol_absolute :: duration
  pol_idle :: duration

definition default_policy :: session_policy where
  "default_policy = \<lparr>pol_absolute = 12 * hour, pol_idle = 2 * hour\<rparr>"

definition min_absolute_lifetime :: duration where "min_absolute_lifetime = 5 * minute"
definition max_absolute_lifetime :: duration where "max_absolute_lifetime = 30 * 24 * hour"
definition min_idle_timeout :: duration where "min_idle_timeout = minute"

lemmas policy_defs = default_policy_def min_absolute_lifetime_def max_absolute_lifetime_def
  min_idle_timeout_def duration_defs

datatype adjust_reason = BelowFloor | AboveCeiling | IdleNeverFires | IdleBelowFloor

record adjustment =
  adj_field :: string
  adj_configured :: duration
  adj_applied :: duration
  adj_reason :: adjust_reason

definition sanitize :: "session_policy \<Rightarrow> session_policy \<times> adjustment list" where
  "sanitize p =
     (let (p, as) =
        (if pol_absolute p < min_absolute_lifetime
         then (p\<lparr>pol_absolute := min_absolute_lifetime\<rparr>,
               [\<lparr>adj_field = ''session_lifetime_hours'', adj_configured = pol_absolute p,
                 adj_applied = min_absolute_lifetime, adj_reason = BelowFloor\<rparr>])
         else (p, []));
      (p, as) =
        (if max_absolute_lifetime < pol_absolute p
         then (p\<lparr>pol_absolute := max_absolute_lifetime\<rparr>,
               as @ [\<lparr>adj_field = ''session_lifetime_hours'', adj_configured = pol_absolute p,
                 adj_applied = max_absolute_lifetime, adj_reason = AboveCeiling\<rparr>])
         else (p, as));
      (p, as) =
        (if pol_absolute p < pol_idle p
         then (p\<lparr>pol_idle := pol_absolute p\<rparr>,
               as @ [\<lparr>adj_field = ''idle_timeout'', adj_configured = pol_idle p,
                 adj_applied = pol_absolute p, adj_reason = IdleNeverFires\<rparr>])
         else (p, as))
      in if 0 < pol_idle p \<and> pol_idle p < min_idle_timeout
         then (p\<lparr>pol_idle := min_idle_timeout\<rparr>,
               as @ [\<lparr>adj_field = ''idle_timeout'', adj_configured = pol_idle p,
                 adj_applied = min_idle_timeout, adj_reason = IdleBelowFloor\<rparr>])
         else (p, as))"

text \<open>\<open>time.Duration(hours) * time.Hour\<close> wraps.\<close>

definition hours_duration :: "int \<Rightarrow> duration" where "hours_duration h = wrap64 (h * hour)"

definition with_lifetime_hours :: "session_policy \<Rightarrow> int \<Rightarrow> session_policy" where
  "with_lifetime_hours p hours =
     (if hours \<le> 0 then p else fst (sanitize (p\<lparr>pol_absolute := hours_duration hours\<rparr>)))"

definition policy_from_hours :: "int \<Rightarrow> session_policy" where
  "policy_from_hours hours =
     (if hours \<le> 0 then default_policy
      else \<lparr>pol_absolute = hours_duration hours, pol_idle = pol_idle default_policy\<rparr>)"

definition policy_bounded :: "session_policy \<Rightarrow> bool" where
  "policy_bounded p \<longleftrightarrow> min_absolute_lifetime \<le> pol_absolute p \<and> pol_absolute p \<le> max_absolute_lifetime \<and>
     pol_idle p \<le> pol_absolute p \<and> (0 < pol_idle p \<longrightarrow> min_idle_timeout \<le> pol_idle p)"

lemma sanitize_bounded [simp]: "policy_bounded (fst (sanitize p))"
  by (auto simp add: sanitize_def policy_bounded_def policy_defs Let_def)

lemma sanitize_id: "policy_bounded p \<Longrightarrow> sanitize p = (p, [])"
  by (auto simp add: sanitize_def policy_bounded_def policy_defs Let_def)

lemma sanitize_reports: "snd (sanitize p) = [] \<longleftrightarrow> policy_bounded p"
  by (auto simp: sanitize_def policy_bounded_def policy_defs Let_def)

section \<open>Sessions\<close>

definition token_bytes :: nat where "token_bytes = 32"

definition hash_token :: "string \<Rightarrow> string" where
  "hash_token plaintext = hex_encode (sha256 (bytes_of plaintext))"

lemma length_hash_token [simp]: "length (hash_token s) = 64"
  by (simp add: hash_token_def)

lemma hash_token_nonempty [simp]: "hash_token s \<noteq> []"
  by (metis length_hash_token list.size(3) zero_neq_numeral)

definition token_length :: nat where "token_length = (8 * token_bytes + 5) div 6"

definition valid_token :: "string \<Rightarrow> bool" where
  "valid_token presented \<longleftrightarrow> length presented = token_length \<and>
     list_all (\<lambda>c. is_alnum c \<or> c = CHR ''-'' \<or> c = CHR ''_'') presented"

record session =
  sn_id :: string
  sn_user :: string
  sn_org :: string
  sn_methods :: "string list"
  sn_ip :: string
  sn_agent :: string
  sn_created :: time
  sn_seen :: time
  sn_expires :: time

definition expired_absolute :: "session \<Rightarrow> time \<Rightarrow> bool" where
  "expired_absolute s now \<longleftrightarrow> \<not> time_before now (sn_expires s)"

definition expired_idle :: "session \<Rightarrow> duration \<Rightarrow> time \<Rightarrow> bool" where
  "expired_idle s idle now \<longleftrightarrow>
     (if idle \<le> 0 then False
      else if time_after (sn_seen s) now then False
      else time_sub now (sn_seen s) > idle)"

definition session_alive :: "session \<Rightarrow> duration \<Rightarrow> time \<Rightarrow> bool" where
  "session_alive s idle now \<longleftrightarrow> \<not> expired_absolute s now \<and> \<not> expired_idle s idle now"

lemmas alive_defs = session_alive_def expired_absolute_def expired_idle_def time_defs

text \<open>A session that is dead stays dead: neither bound recovers with time alone.\<close>

lemma session_dead_later:
  "\<not> session_alive s idle now \<Longrightarrow> now \<le> now' \<Longrightarrow> \<not> session_alive s idle now'"
  by (auto simp: alive_defs time_sub_def split: if_splits)

section \<open>The table\<close>

text \<open>A row: what a read returns, the stored hash of its token, and when it was revoked.\<close>

record session_row =
  sr_session :: session
  sr_hash :: "string option"
  sr_revoked :: "time option"

type_synonym session_table = "session_row list"

datatype session_error = SessionNotFound | AuthMethodsRequired | TokenNotGenerated | SessionStoreFailure | KeepRequired

definition of_org :: "string \<Rightarrow> session_row \<Rightarrow> bool" where "of_org org r \<longleftrightarrow> sn_org (sr_session r) = org"

definition hash_or_empty :: "session_row \<Rightarrow> string" where
  "hash_or_empty r = (case sr_hash r of None \<Rightarrow> [] | Some h \<Rightarrow> h)"

text \<open>
  What PostgreSQL stores in a \<open>text\<close> column of a UTF-8 database: well-formed UTF-8 without a zero byte.
\<close>

definition cont_byte :: "char \<Rightarrow> bool" where "cont_byte c \<longleftrightarrow> 0x80 \<le> ord_of c \<and> ord_of c \<le> 0xBF"

fun utf8_text :: "string \<Rightarrow> bool" where
  "utf8_text [] = True"
| "utf8_text (c # s) =
     (let n = ord_of c in
      if n < 0x80 then n \<noteq> 0 \<and> utf8_text s
      else if 0xC2 \<le> n \<and> n \<le> 0xDF then
        (case s of a # r \<Rightarrow> cont_byte a \<and> utf8_text r | _ \<Rightarrow> False)
      else if 0xE0 \<le> n \<and> n \<le> 0xEF then
        (case s of a # b # r \<Rightarrow> cont_byte a \<and> cont_byte b \<and> (n = 0xE0 \<longrightarrow> 0xA0 \<le> ord_of a) \<and>
            (n = 0xED \<longrightarrow> ord_of a \<le> 0x9F) \<and> utf8_text r | _ \<Rightarrow> False)
      else if 0xF0 \<le> n \<and> n \<le> 0xF4 then
        (case s of a # b # d # r \<Rightarrow> cont_byte a \<and> cont_byte b \<and> cont_byte d \<and> (n = 0xF0 \<longrightarrow> 0x90 \<le> ord_of a) \<and>
            (n = 0xF4 \<longrightarrow> ord_of a \<le> 0x8F) \<and> utf8_text r | _ \<Rightarrow> False)
      else False)"

definition insert_session :: "string \<Rightarrow> bool \<Rightarrow> session_row \<Rightarrow> session_table \<Rightarrow> session_error + session_table" where
  "insert_session org db_ok r tbl =
     (let s = sr_session r in
      if \<not> db_ok \<or> sn_org s \<noteq> org then Inl SessionStoreFailure
      else if contains (map (sn_id \<circ> sr_session) tbl) (sn_id s) then Inl SessionStoreFailure
      else if sr_hash r \<noteq> None \<and> contains (map sr_hash tbl) (sr_hash r) then Inl SessionStoreFailure
      else if \<not> sn_created s < sn_expires s then Inl SessionStoreFailure
      else if \<not> utf8_text (sn_agent s) then Inl SessionStoreFailure
      else Inr (tbl @ [r]))"

definition max_user_agent :: nat where "max_user_agent = 512"

record new_session =
  nw_user :: string
  nw_org :: string
  nw_methods :: "string list"
  nw_ip :: string
  nw_agent :: string

text \<open>
  \<open>Store.Create\<close> in a transaction of \<open>org\<close>. \<open>parse_ip\<close> is \<open>net.ParseIP\<close> with the text form of what it
  parsed, \<open>drawn\<close> the random bytes of the token, \<open>new_id\<close> the id the database generates, \<open>db_ok\<close> whether
  the foreign keys hold and the statement reaches the database.
\<close>

definition create_session ::
  "(string \<Rightarrow> string option) \<Rightarrow> string \<Rightarrow> bool \<Rightarrow> string \<Rightarrow> byte list option \<Rightarrow> new_session \<Rightarrow> session_policy \<Rightarrow> time
    \<Rightarrow> session_table \<Rightarrow> session_error + (session \<times> string) \<times> session_table" where
  "create_session parse_ip org db_ok new_id drawn n policy now tbl =
     (if nw_methods n = [] then Inl AuthMethodsRequired
      else case drawn of
        None \<Rightarrow> Inl TokenNotGenerated
      | Some bs \<Rightarrow>
          let plaintext = b64url_encode bs;
              p = fst (sanitize policy);
              agent = (if max_user_agent < length (nw_agent n) then take max_user_agent (nw_agent n) else nw_agent n);
              s = \<lparr>sn_id = new_id, sn_user = nw_user n, sn_org = nw_org n, sn_methods = nw_methods n,
                   sn_ip = (case parse_ip (nw_ip n) of None \<Rightarrow> [] | Some i \<Rightarrow> i), sn_agent = agent,
                   sn_created = now, sn_seen = now, sn_expires = time_add now (pol_absolute p)\<rparr>
          in bindE (insert_session org db_ok \<lparr>sr_session = s, sr_hash = Some (hash_token plaintext), sr_revoked = None\<rparr> tbl)
               (\<lambda>tbl'. Inr ((s, plaintext), tbl')))"

definition row_live :: "time \<Rightarrow> session_row \<Rightarrow> bool" where
  "row_live at r \<longleftrightarrow> sr_revoked r = None \<and> sn_expires (sr_session r) > at"

definition lookup_by_token_hash :: "session_table \<Rightarrow> string \<Rightarrow> time \<Rightarrow> session_error + session" where
  "lookup_by_token_hash tbl hash at =
     (case List.find (\<lambda>r. sr_hash r = Some hash \<and> row_live at r) tbl of
        None \<Rightarrow> Inl SessionNotFound
      | Some r \<Rightarrow> Inr (sr_session r))"

definition session_live :: "session_table \<Rightarrow> string \<Rightarrow> time \<Rightarrow> bool" where
  "session_live tbl i at \<longleftrightarrow> list_ex (\<lambda>r. sn_id (sr_session r) = i \<and> row_live at r) tbl"

definition touch_row :: "string \<Rightarrow> string \<Rightarrow> time \<Rightarrow> session_table \<Rightarrow> session_table" where
  "touch_row org i now tbl =
     map (\<lambda>r. if of_org org r \<and> sn_id (sr_session r) = i
              then r\<lparr>sr_session := (sr_session r)\<lparr>sn_seen := now\<rparr>\<rparr> else r) tbl"

text \<open>\<open>UPDATE sessions SET revoked_at = now WHERE ... RETURNING\<close>: the rows it matched, and the new table.\<close>

definition revoke_rows :: "(session_row \<Rightarrow> bool) \<Rightarrow> time \<Rightarrow> session_table \<Rightarrow> session_row list \<times> session_table" where
  "revoke_rows P now tbl =
     (filter P tbl, map (\<lambda>r. if P r then r\<lparr>sr_revoked := Some now\<rparr> else r) tbl)"

definition revoke_session :: "string \<Rightarrow> string \<Rightarrow> time \<Rightarrow> session_table \<Rightarrow> session_error + session \<times> session_table" where
  "revoke_session org i now tbl =
     (case revoke_rows (\<lambda>r. of_org org r \<and> sn_id (sr_session r) = i \<and> sr_revoked r = None) now tbl of
        ([], _) \<Rightarrow> Inl SessionNotFound
      | (r # _, tbl') \<Rightarrow> Inr (sr_session r, tbl'))"

definition ids_and_hashes :: "session_row list \<Rightarrow> string list \<times> string list" where
  "ids_and_hashes rs = (map (sn_id \<circ> sr_session) rs, filter (\<lambda>h. h \<noteq> []) (map hash_or_empty rs))"

definition revoke_matching ::
  "string \<Rightarrow> (session_row \<Rightarrow> bool) \<Rightarrow> time \<Rightarrow> session_table \<Rightarrow> (string list \<times> string list) \<times> session_table" where
  "revoke_matching org P now tbl =
     (case revoke_rows (\<lambda>r. of_org org r \<and> P r \<and> row_live now r) now tbl of
        (rs, tbl') \<Rightarrow> (ids_and_hashes rs, tbl'))"

definition revoke_sessions_of_user ::
  "string \<Rightarrow> string \<Rightarrow> time \<Rightarrow> session_table \<Rightarrow> (string list \<times> string list) \<times> session_table" where
  "revoke_sessions_of_user org user now tbl = revoke_matching org (\<lambda>r. sn_user (sr_session r) = user) now tbl"

definition revoke_sessions_of_org ::
  "string \<Rightarrow> time \<Rightarrow> session_table \<Rightarrow> (string list \<times> string list) \<times> session_table" where
  "revoke_sessions_of_org org now tbl = revoke_matching org (\<lambda>_. True) now tbl"

definition revoke_sessions_except ::
  "string \<Rightarrow> string \<Rightarrow> string \<Rightarrow> time \<Rightarrow> session_table \<Rightarrow> session_error + (string list \<times> string list) \<times> session_table" where
  "revoke_sessions_except org user keep now tbl =
     (if keep = [] then Inl KeepRequired
      else Inr (revoke_matching org (\<lambda>r. sn_user (sr_session r) = user \<and> sn_id (sr_session r) \<noteq> keep) now tbl))"

text \<open>\<open>RevokeOwned\<close>: the session when the user has one of that id, and whether this call ended it.\<close>

definition revoke_owned ::
  "string \<Rightarrow> string \<Rightarrow> string \<Rightarrow> time \<Rightarrow> session_table \<Rightarrow> (session \<times> bool) option \<times> session_table" where
  "revoke_owned org i user now tbl =
     (case List.find (\<lambda>r. of_org org r \<and> sn_id (sr_session r) = i \<and> sn_user (sr_session r) = user) tbl of
        None \<Rightarrow> (None, tbl)
      | Some r \<Rightarrow>
          if sr_revoked r \<noteq> None \<or> \<not> time_before now (sn_expires (sr_session r)) then (Some (sr_session r, False), tbl)
          else (Some (sr_session r, True),
                snd (revoke_rows (\<lambda>r. of_org org r \<and> sn_id (sr_session r) = i \<and> sr_revoked r = None) now tbl)))"

text \<open>The rows a sweep may delete; which of them the \<open>LIMIT\<close> picks is the database's choice.\<close>

definition sweepable :: "time \<Rightarrow> session_row \<Rightarrow> bool" where
  "sweepable before r \<longleftrightarrow> sn_expires (sr_session r) < before \<or>
     (case sr_revoked r of None \<Rightarrow> False | Some t \<Rightarrow> t < before)"

definition sweep_sessions_ok :: "time \<Rightarrow> nat \<Rightarrow> string list \<Rightarrow> session_table \<Rightarrow> bool" where
  "sweep_sessions_ok before limit picked tbl \<longleftrightarrow> length picked \<le> limit \<and> distinct picked \<and>
     (\<forall>i \<in> set picked. \<exists>r \<in> set tbl. sn_id (sr_session r) = i \<and> sweepable before r)"

definition sweep_sessions :: "string list \<Rightarrow> session_table \<Rightarrow> session_table" where
  "sweep_sessions picked tbl = filter (\<lambda>r. \<not> contains picked (sn_id (sr_session r))) tbl"

end
