(* ===== verification/SessionPages.thy ===== *)
theory SessionPages
  imports SessionStore
begin

text \<open>
  The list of a user's sessions (\<open>ListLive\<close> of \<open>internal/session/owned.go\<close>): newest first, in pages that
  resume after the last row of the previous page. The pages together are the whole list.
\<close>

section \<open>Keyset pages\<close>

text \<open>Rows in strictly descending order of a key; the page after a row are the rows with smaller keys.\<close>

abbreviation descending :: "('a \<Rightarrow> 'k::linorder) \<Rightarrow> 'a list \<Rightarrow> bool" where
  "descending k xs \<equiv> sorted_wrt (\<lambda>x y. k y < k x) xs"

lemma descending_drop:
  "descending k (ps @ qs) \<Longrightarrow> ps \<noteq> [] \<Longrightarrow> filter (\<lambda>x. k x < k (last ps)) (ps @ qs) = qs"
proof -
  assume d: "descending k (ps @ qs)" and ps: "ps \<noteq> []"
  then have "last ps \<in> set ps" by simp
  with d have "\<forall>x \<in> set qs. k x < k (last ps)" by (auto simp: sorted_wrt_append)
  moreover have "\<forall>x \<in> set ps. \<not> k x < k (last ps)"
  proof
    fix x assume "x \<in> set ps"
    moreover have "descending k (butlast ps @ [last ps])" using d ps by (simp add: sorted_wrt_append)
    then have "\<forall>y \<in> set (butlast ps). k (last ps) < k y" by (auto simp: sorted_wrt_append)
    moreover have "set ps = insert (last ps) (set (butlast ps))"
      using ps by (metis Un_insert_right append_butlast_last_id empty_set list.simps(15) set_append sup_bot.right_neutral)
    ultimately show "\<not> k x < k (last ps)" by auto
  qed
  ultimately show ?thesis by (simp add: filter_empty_conv)
qed

lemma descending_rev_sort:
  "distinct (map k xs) \<Longrightarrow> descending k (rev (sort_key k xs))"
proof -
  assume "distinct (map k xs)"
  then have "distinct (map k (sort_key k xs))" by (simp add: distinct_map)
  moreover have "sorted (map k (sort_key k xs))" by simp
  ultimately have "sorted_wrt (<) (map k (sort_key k xs))" by (simp add: strict_sorted_iff)
  then show ?thesis by (simp add: sorted_wrt_rev sorted_wrt_map)
qed

section \<open>The list\<close>

definition position :: "session_row \<Rightarrow> time \<times> string" where
  "position r = (sn_created (sr_session r), sn_id (sr_session r))"

definition usable :: "string \<Rightarrow> string \<Rightarrow> duration \<Rightarrow> time \<Rightarrow> session_row \<Rightarrow> bool" where
  "usable org user idle now r \<longleftrightarrow> of_org org r \<and> sn_user (sr_session r) = user \<and> sr_revoked r = None \<and>
     sn_expires (sr_session r) > now \<and> (0 < idle \<longrightarrow> sn_seen (sr_session r) > time_add now (- idle))"

definition list_live ::
  "string \<Rightarrow> string \<Rightarrow> duration \<Rightarrow> time \<Rightarrow> (time \<times> string) option \<Rightarrow> nat \<Rightarrow> session_table \<Rightarrow> session list" where
  "list_live org user idle now after limit tbl =
     map sr_session (take limit (rev (sort_key position
       (filter (\<lambda>r. usable org user idle now r \<and>
          (case after of None \<Rightarrow> True | Some a \<Rightarrow> snd a = [] \<or> position r < a)) tbl))))"

text \<open>What a client does: it asks for the page after the last session it has seen until a page is empty.\<close>

definition resume :: "session list \<Rightarrow> (time \<times> string) option" where
  "resume p = (if p = [] then None else Some (sn_created (last p), sn_id (last p)))"

fun all_pages ::
  "nat \<Rightarrow> string \<Rightarrow> string \<Rightarrow> duration \<Rightarrow> time \<Rightarrow> (time \<times> string) option \<Rightarrow> nat \<Rightarrow> session_table \<Rightarrow> session list" where
  "all_pages 0 org user idle now after limit tbl = []"
| "all_pages (Suc n) org user idle now after limit tbl =
     (let p = list_live org user idle now after limit tbl in
      if p = [] then [] else p @ all_pages n org user idle now (resume p) limit tbl)"

definition whole_list :: "string \<Rightarrow> string \<Rightarrow> duration \<Rightarrow> time \<Rightarrow> session_table \<Rightarrow> session_row list" where
  "whole_list org user idle now tbl = rev (sort_key position (filter (usable org user idle now) tbl))"

lemma list_live_first: "list_live org user idle now None limit tbl = map sr_session (take limit (whole_list org user idle now tbl))"
  by (simp add: list_live_def whole_list_def)

lemma list_live_after:
  "i \<noteq> [] \<Longrightarrow> list_live org user idle now (Some (c, i)) limit tbl =
     map sr_session (take limit (filter (\<lambda>r. position r < (c, i)) (whole_list org user idle now tbl)))"
  by (simp add: list_live_def whole_list_def filter_sort rev_filter [symmetric] conj_commute)

lemma set_whole_list: "set (whole_list org user idle now tbl) = set (filter (usable org user idle now) tbl)"
  by (simp add: whole_list_def)

lemma descending_whole_list:
  assumes "distinct (map (sn_id \<circ> sr_session) tbl)"
  shows "descending position (whole_list org user idle now tbl)"
proof -
  have "distinct (map position (filter (usable org user idle now) tbl))"
    using assms by (auto simp: distinct_map inj_on_def position_def distinct_filter)
  then show ?thesis unfolding whole_list_def by (rule descending_rev_sort)
qed

lemma all_pages_from:
  assumes "descending position (ps @ qs)" "whole_list org user idle now tbl = ps @ qs" "0 < limit"
    "\<forall>r \<in> set tbl. sn_id (sr_session r) \<noteq> []"
  shows "length qs < n \<Longrightarrow> all_pages n org user idle now (if ps = [] then None else Some (position (last ps))) limit tbl =
    map sr_session qs"
  using assms(1,2)
proof (induction n arbitrary: ps qs)
  case (Suc n)
  let ?after = "if ps = [] then None else Some (position (last ps))"
  have page: "list_live org user idle now ?after limit tbl = map sr_session (take limit qs)"
  proof (cases "ps = []")
    case True
    with Suc.prems show ?thesis by (simp add: list_live_first)
  next
    case False
    then have "last ps \<in> set (whole_list org user idle now tbl)" using Suc.prems(3) by simp
    then have "sn_id (sr_session (last ps)) \<noteq> []" using assms(4) by (auto simp: set_whole_list)
    with False Suc.prems(2,3) descending_drop [of position ps qs] show ?thesis
      by (simp add: position_def [of "last ps"] list_live_after)
  qed
  show ?case
  proof (cases qs)
    case Nil
    with page show ?thesis by simp
  next
    case (Cons q qs')
    let ?ps = "ps @ take limit qs" and ?qs = "drop limit qs"
    have ne: "take limit qs \<noteq> []" using Cons assms(3) by simp
    have "resume (map sr_session (take limit qs)) = Some (position (last ?ps))"
      using ne by (simp add: resume_def position_def last_map)
    moreover have "all_pages n org user idle now (Some (position (last ?ps))) limit tbl = map sr_session ?qs"
      using Suc.IH [of ?qs ?ps] Suc.prems Cons assms(3) ne by simp
    ultimately show ?thesis using page ne by (simp add: Let_def flip: map_append)
  qed
qed simp

text \<open>
  C13. The pages of a user's sessions, each asked for after the last session of the one before, are
  together exactly the user's usable sessions, newest first, none left out and none twice, for every
  page size.
\<close>

theorem session_pages_complete:
  assumes "distinct (map (sn_id \<circ> sr_session) tbl)" and "\<forall>r \<in> set tbl. sn_id (sr_session r) \<noteq> []" and "0 < limit"
  shows "all_pages (Suc (length tbl)) org user idle now None limit tbl =
      list_live org user idle now None (length tbl) tbl \<and>
    set (all_pages (Suc (length tbl)) org user idle now None limit tbl) =
      sr_session ` {r \<in> set tbl. usable org user idle now r} \<and>
    distinct (map sn_id (all_pages (Suc (length tbl)) org user idle now None limit tbl))"
proof -
  let ?all = "whole_list org user idle now tbl"
  have len: "length ?all \<le> length tbl" by (simp add: whole_list_def)
  have pages: "all_pages (Suc (length tbl)) org user idle now None limit tbl = map sr_session ?all"
    using all_pages_from [of "[]" ?all org user idle now tbl limit "Suc (length tbl)"]
      descending_whole_list [OF assms(1)] assms(2,3) len by simp
  have "distinct (map (sn_id \<circ> sr_session) ?all)"
    using assms(1) by (auto simp: whole_list_def distinct_map inj_on_def)
  with pages len show ?thesis
    by (simp add: list_live_first set_whole_list)
qed

definition demo_listed :: "string \<Rightarrow> time \<Rightarrow> session_row" where
  "demo_listed i c = \<lparr>sr_session = \<lparr>sn_id = i, sn_user = ''u'', sn_org = ''o'', sn_methods = [''pwd''], sn_ip = [], sn_agent = [],
       sn_created = c, sn_seen = c, sn_expires = 100\<rparr>, sr_hash = None, sr_revoked = None\<rparr>"

definition demo_listing :: session_table where
  "demo_listing = [demo_listed ''a'' 1, demo_listed ''b'' 3, demo_listed ''c'' 2]"

theorem session_pages_complete_witness:
  "map sn_id (all_pages (Suc (length demo_listing)) ''o'' ''u'' 0 50 None 1 demo_listing) = [''b'', ''c'', ''a'']"
proof -
  have "distinct (map (sn_id \<circ> sr_session) demo_listing)" "\<forall>r \<in> set demo_listing. sn_id (sr_session r) \<noteq> []"
    by (simp_all add: demo_listing_def demo_listed_def)
  from session_pages_complete [OF this, of 1 "''o''" "''u''" 0 50]
  have "all_pages (Suc (length demo_listing)) ''o'' ''u'' 0 50 None 1 demo_listing =
      list_live ''o'' ''u'' 0 50 None (length demo_listing) demo_listing" by simp
  moreover have "map sn_id (list_live ''o'' ''u'' 0 50 None (length demo_listing) demo_listing) = [''b'', ''c'', ''a'']"
    by (simp add: list_live_def usable_def demo_listing_def demo_listed_def of_org_def position_def sort_key_def)
  ultimately show ?thesis by simp
qed

end
