(* ===== verification/SessionCache.thy ===== *)
theory SessionCache
  imports SessionStore Redis
begin

text \<open>
  The lookup copy of sessions in Redis (\<open>internal/session/cache.go\<close>). Redis is a server whose commands
  run one at a time; a script and a MULTI/EXEC pipeline run as one command. A call can fail before
  the server sees it or after, which is its \<open>call_fate\<close>. What a value under a key does over time is
  the locale \<open>redis_server\<close>; the central fact is \<open>blocked\<close>: once a session was invalidated, no
  populate, from whatever stale read, brings it back.
\<close>

section \<open>The server\<close>

record ('s, 'v) redis_cmds =
  rs_view :: "'s \<Rightarrow> time \<Rightarrow> string \<Rightarrow> 'v option"
  rs_setex :: "time \<Rightarrow> string \<Rightarrow> 'v \<Rightarrow> duration \<Rightarrow> 's \<Rightarrow> 's"
  rs_del :: "time \<Rightarrow> string \<Rightarrow> 's \<Rightarrow> 's"

locale redis_server =
  fixes rs :: "('s, 'v) redis_cmds"
  assumes fades: "rs_view rs st t k = None \<Longrightarrow> t \<le> t' \<Longrightarrow> rs_view rs st t' k = None"
    and setex_holds: "0 < ttl \<Longrightarrow> holds_for (rs_view rs) (rs_setex rs now k v ttl st) now k v ttl"
    and setex_other: "0 < ttl \<Longrightarrow> k' \<noteq> k \<Longrightarrow> same_at (rs_view rs) now k' st (rs_setex rs now k v ttl st)"
    and del_gone: "gone_at (rs_view rs) now k (rs_del rs now k st)"
    and del_other: "k' \<noteq> k \<Longrightarrow> same_at (rs_view rs) now k' st (rs_del rs now k st)"

datatype call_fate = Served | Unreached | Unanswered

definition redis_call :: "call_fate \<Rightarrow> ('s \<Rightarrow> 'r \<times> 's) \<Rightarrow> 's \<Rightarrow> 'r option \<times> 's" where
  "redis_call fate f st =
     (case fate of
        Served \<Rightarrow> (case f st of (r, st') \<Rightarrow> (Some r, st'))
      | Unreached \<Rightarrow> (None, st)
      | Unanswered \<Rightarrow> (None, snd (f st)))"

lemma redis_call_state: "snd (redis_call fate f st) = st \<or> snd (redis_call fate f st) = snd (f st)"
  by (cases fate) (simp_all add: redis_call_def split: prod.splits)

definition ttl_server :: "('v ttl_map, 'v) redis_cmds" where
  "ttl_server = \<lparr>rs_view = ttl_contents, rs_setex = (\<lambda>now k v ttl st. st(k \<mapsto> (v, now + ttl))),
     rs_del = (\<lambda>now k st. st(k := None))\<rparr>"

interpretation ttl_srv: redis_server ttl_server
  by unfold_locales (auto simp: ttl_server_def ttl_defs split: option.splits if_splits)

section \<open>Keys and values\<close>

definition session_key :: "string \<Rightarrow> string" where "session_key hash = ''session:'' @ hash"
definition tombstone_key :: "string \<Rightarrow> string" where "tombstone_key hash = ''session:revoked:'' @ hash"

text \<open>A cached session, the mark of a tombstone, or bytes that are no encoding of a session.\<close>

datatype cached = Snapshot session | Tombstone | Mangled

definition proper_hash :: "string \<Rightarrow> bool" where "proper_hash h \<longleftrightarrow> length h = 64"

lemma proper_hash_token [simp]: "proper_hash (hash_token s)"
  by (simp add: proper_hash_def)

lemma keys_neq [simp]:
  "session_key h = session_key h' \<longleftrightarrow> h = h'" "tombstone_key h = tombstone_key h' \<longleftrightarrow> h = h'"
  "proper_hash h \<Longrightarrow> proper_hash h' \<Longrightarrow> session_key h \<noteq> tombstone_key h'"
  "proper_hash h \<Longrightarrow> proper_hash h' \<Longrightarrow> tombstone_key h' \<noteq> session_key h"
  by (auto simp: session_key_def tombstone_key_def proper_hash_def)

section \<open>Operations\<close>

definition default_cache_ttl :: duration where "default_cache_ttl = minute"

definition cache_ttl :: "duration \<Rightarrow> duration" where
  "cache_ttl ttl = (if ttl \<le> 0 then default_cache_ttl else ttl)"

text \<open>A cache: its server and its configured time to live. \<open>None\<close> where a cache is expected is the nil
  cache.\<close>

record 's session_cache =
  sc_server :: "('s, cached) redis_cmds"
  sc_ttl :: duration

definition cache_get :: "'s session_cache option \<Rightarrow> time \<Rightarrow> call_fate \<Rightarrow> string \<Rightarrow> 's \<Rightarrow> session option" where
  "cache_get c now fate hash st =
     (case c of
        None \<Rightarrow> None
      | Some c \<Rightarrow>
          (case fst (redis_call fate (\<lambda>st. (rs_view (sc_server c) st now (session_key hash), st)) st) of
             Some (Some (Snapshot s)) \<Rightarrow> Some s
           | _ \<Rightarrow> None))"

text \<open>The Lua script: its reply is an integer, or an error when the expiry of SET is not positive.\<close>

definition populate_script ::
  "('s, cached) redis_cmds \<Rightarrow> time \<Rightarrow> string \<Rightarrow> string \<Rightarrow> cached \<Rightarrow> int \<Rightarrow> 's \<Rightarrow> int option \<times> 's" where
  "populate_script rs now key mark v secs st =
     (if rs_view rs st now mark \<noteq> None then (Some 0, st)
      else if secs \<le> 0 then (None, st)
      else (Some 1, rs_setex rs now key v (secs * second) st))"

definition whole_secs :: "duration \<Rightarrow> int" where
  "whole_secs d = (if 0 \<le> d then d div second else - (- d div second))"

definition cache_put ::
  "'s session_cache option \<Rightarrow> time \<Rightarrow> call_fate \<Rightarrow> string \<Rightarrow> session \<Rightarrow> 's \<Rightarrow> bool \<times> 's" where
  "cache_put c now fate hash s st =
     (case c of
        None \<Rightarrow> (False, st)
      | Some c \<Rightarrow>
          let ttl = cache_ttl (sc_ttl c); remaining = time_sub (sn_expires s) now in
          if remaining < ttl \<and> remaining \<le> 0 then (False, st)
          else let ttl = (if remaining < ttl then remaining else ttl) in
            case redis_call fate (populate_script (sc_server c) now (session_key hash) (tombstone_key hash)
                   (Snapshot s) (whole_secs ttl)) st of
              (r, st') \<Rightarrow> (r = Some (Some 1), st'))"

definition invalidate_pipeline ::
  "('s, cached) redis_cmds \<Rightarrow> time \<Rightarrow> string \<Rightarrow> duration \<Rightarrow> 's \<Rightarrow> unit \<times> 's" where
  "invalidate_pipeline rs now hash remaining st =
     ((), rs_setex rs now (tombstone_key hash) Tombstone remaining (rs_del rs now (session_key hash) st))"

text \<open>True when the invalidation was acknowledged.\<close>

definition cache_invalidate ::
  "'s session_cache option \<Rightarrow> time \<Rightarrow> call_fate \<Rightarrow> string \<Rightarrow> time \<Rightarrow> 's \<Rightarrow> bool \<times> 's" where
  "cache_invalidate c now fate hash expires st =
     (case c of
        None \<Rightarrow> (True, st)
      | Some c \<Rightarrow>
          let left = time_sub expires now;
              remaining = (if left \<le> 0 then second else left)
          in case redis_call fate (invalidate_pipeline (sc_server c) now hash remaining) st of
               (r, st') \<Rightarrow> (r \<noteq> None, st'))"

section \<open>An invalidated session is blocked\<close>

text \<open>
  \<open>blocked rs now hash expires st\<close>: from \<open>now\<close> on nothing is cached under the hash, and until the
  session's expiry (to Redis' millisecond) the tombstone stands.
\<close>

definition blocked :: "('s, cached) redis_cmds \<Rightarrow> time \<Rightarrow> string \<Rightarrow> time \<Rightarrow> 's \<Rightarrow> bool" where
  "blocked rs now hash expires st \<longleftrightarrow> gone_at (rs_view rs) now (session_key hash) st \<and>
     (\<forall>t. now \<le> t \<and> t < expires - millisecond \<longrightarrow> rs_view rs st t (tombstone_key hash) \<noteq> None)"

lemma blocked_later: "blocked rs now h e st \<Longrightarrow> now \<le> now' \<Longrightarrow> blocked rs now' h e st"
  by (auto simp: blocked_def gone_at_def)

lemma same_at_gone: "same_at ct now k st st' \<Longrightarrow> gone_at ct now k st \<Longrightarrow> gone_at ct now k st'"
  by (simp add: same_at_def gone_at_def)

text \<open>A call on other keys than the two of the session keeps it blocked.\<close>

lemma blocked_frame:
  assumes "blocked rs now h e st" "same_at (rs_view rs) now (session_key h) st st'"
    "same_at (rs_view rs) now (tombstone_key h) st st'"
  shows "blocked rs now h e st'"
  using assms by (simp add: blocked_def gone_at_def same_at_def)

text \<open>The server as the session cache uses it.\<close>

locale session_redis = redis_server rs for rs :: "('s, cached) redis_cmds"
begin

lemma holds_until:
  assumes "holds_for (rs_view rs) st now k v ttl" "now \<le> t" "t < now + ttl - millisecond"
  shows "rs_view rs st t k \<noteq> None"
  using assms by (simp add: holds_for_def)

lemma pipeline_blocks:
  assumes "proper_hash h" "0 < remaining" "e \<le> now + remaining"
  shows "blocked rs now h e (snd (invalidate_pipeline rs now h remaining st))"
proof -
  let ?st = "rs_del rs now (session_key h) st"
  have "gone_at (rs_view rs) now (session_key h) (rs_setex rs now (tombstone_key h) Tombstone remaining ?st)"
    by (rule same_at_gone [OF setex_other [OF assms(2)] del_gone]) (simp add: assms(1))
  moreover have "holds_for (rs_view rs) (rs_setex rs now (tombstone_key h) Tombstone remaining ?st) now
      (tombstone_key h) Tombstone remaining"
    by (rule setex_holds [OF assms(2)])
  ultimately show ?thesis
    using assms(3) holds_until by (fastforce simp: blocked_def invalidate_pipeline_def)
qed

lemma pipeline_other:
  assumes "proper_hash h" "proper_hash h'" "h' \<noteq> h" "0 < remaining" "blocked rs now h e st"
  shows "blocked rs now h e (snd (invalidate_pipeline rs now h' remaining st))"
proof -
  have "same_at (rs_view rs) now k st (snd (invalidate_pipeline rs now h' remaining st))"
    if "k = session_key h \<or> k = tombstone_key h" for k
  proof -
    have "k \<noteq> session_key h'" "k \<noteq> tombstone_key h'" using that assms(1-3) by auto
    with setex_other [OF assms(4), of k "tombstone_key h'"] del_other [of k "session_key h'"]
    show ?thesis by (simp add: invalidate_pipeline_def same_at_def)
  qed
  with assms(5) show ?thesis by (blast intro: blocked_frame)
qed

lemma script_other:
  assumes "proper_hash h" "proper_hash h'" "h' \<noteq> h" "blocked rs now h e st"
  shows "blocked rs now h e (snd (populate_script rs now (session_key h') (tombstone_key h') v secs st))"
proof -
  have "same_at (rs_view rs) now k st (snd (populate_script rs now (session_key h') (tombstone_key h') v secs st))"
    if "k = session_key h \<or> k = tombstone_key h" for k
  proof -
    have "k \<noteq> session_key h'" using that assms(1-3) by auto
    then show ?thesis
      using setex_other [of "secs * second" k "session_key h'" now st v]
      by (auto simp: populate_script_def second_def same_at_def)
  qed
  with assms(4) show ?thesis by (blast intro: blocked_frame)
qed

text \<open>The stale populate: the tombstone refuses it, and from a millisecond before the expiry on its time to
  live is less than a second.\<close>

lemma script_blocked:
  assumes "blocked rs now h e st" "sn_expires s \<le> e" "ttl \<le> time_sub (sn_expires s) now"
  shows "snd (populate_script rs now (session_key h) (tombstone_key h) v (whole_secs ttl) st) = st"
proof (cases "now < e - millisecond")
  case True
  with assms(1) show ?thesis by (auto simp: blocked_def populate_script_def)
next
  case False
  have "time_sub (sn_expires s) now \<le> millisecond"
    using False assms(2) by (subst time_sub_le_iff) (auto simp: millisecond_def min_int64_def max_int64_def)
  with assms(3) have "ttl < second" by (simp add: second_def millisecond_def)
  then have "whole_secs ttl \<le> 0"
    unfolding whole_secs_def second_def by (cases "0 \<le> ttl") simp_all
  then show ?thesis by (simp add: populate_script_def)
qed

end

interpretation ttl_sessions: session_redis "ttl_server :: (cached ttl_map, cached) redis_cmds"
  by unfold_locales

lemma cache_get_blocked:
  assumes "blocked (sc_server c) now h e st"
  shows "cache_get (Some c) now fate h st = None"
  using assms by (cases fate) (simp_all add: cache_get_def redis_call_def blocked_def gone_at_def)

lemma cache_put_blocked:
  assumes "session_redis (sc_server c)" "proper_hash h" "proper_hash h'"
    and "blocked (sc_server c) now h e st" "h' = h \<Longrightarrow> sn_expires s \<le> e"
  shows "blocked (sc_server c) now h e (snd (cache_put (Some c) now fate h' s st))"
proof -
  let ?ttl = "if time_sub (sn_expires s) now < cache_ttl (sc_ttl c) then time_sub (sn_expires s) now else cache_ttl (sc_ttl c)"
  let ?f = "populate_script (sc_server c) now (session_key h') (tombstone_key h') (Snapshot s) (whole_secs ?ttl)"
  have "blocked (sc_server c) now h e (snd (?f st))"
  proof (cases "h' = h")
    case True
    with session_redis.script_blocked [OF assms(1), of now h e st s ?ttl "Snapshot s"] assms(4,5)
    show ?thesis by simp
  next
    case False
    show ?thesis by (rule session_redis.script_other [OF assms(1-3) False assms(4)])
  qed
  with assms(4) redis_call_state [of fate ?f st]
  have "blocked (sc_server c) now h e (snd (redis_call fate ?f st))" by metis
  with assms(4) show ?thesis by (auto simp: cache_put_def Let_def split: prod.splits)
qed

lemma cache_invalidate_keeps:
  assumes "session_redis (sc_server c)" "proper_hash h" "proper_hash h'"
    and "blocked (sc_server c) now h e st" "h' = h \<Longrightarrow> e \<le> e'" "e \<le> now + max_int64"
  shows "blocked (sc_server c) now h e (snd (cache_invalidate (Some c) now fate h' e' st))"
proof -
  let ?r = "if time_sub e' now \<le> 0 then second else time_sub e' now"
  let ?f = "invalidate_pipeline (sc_server c) now h' ?r"
  have pos: "0 < ?r" by (auto simp: second_def)
  have "blocked (sc_server c) now h e (snd (?f st))"
  proof (cases "h' = h")
    case True
    have "e \<le> now + ?r"
      using assms(5) [OF True] assms(6) by (auto simp: time_sub_def second_def max_int64_def min_int64_def)
    with True session_redis.pipeline_blocks [OF assms(1,2) pos] show ?thesis by simp
  next
    case False
    show ?thesis by (rule session_redis.pipeline_other [OF assms(1-3) False pos assms(4)])
  qed
  with assms(4) redis_call_state [of fate ?f st]
  have "blocked (sc_server c) now h e (snd (redis_call fate ?f st))" by metis
  then show ?thesis by (auto simp: cache_invalidate_def Let_def split: prod.splits if_splits)
qed

lemma cache_invalidate_blocks:
  assumes "session_redis (sc_server c)" "proper_hash h"
    and "cache_invalidate (Some c) now fate h e st = (True, st')" "e \<le> now + max_int64"
  shows "blocked (sc_server c) now h e st'"
proof -
  let ?r = "if time_sub e now \<le> 0 then second else time_sub e now"
  have "fate = Served"
    using assms(3) by (cases fate) (auto simp: cache_invalidate_def redis_call_def Let_def)
  with assms(3) have "st' = snd (invalidate_pipeline (sc_server c) now h ?r st)"
    by (auto simp: cache_invalidate_def redis_call_def Let_def split: prod.splits if_splits)
  moreover have "0 < ?r" "e \<le> now + ?r"
    using assms(4) by (auto simp: time_sub_def second_def max_int64_def min_int64_def)
  ultimately show ?thesis using session_redis.pipeline_blocks [OF assms(1,2)] by blast
qed

end
