(* ===== verification/SessionManager.thy ===== *)
theory SessionManager
  imports SessionCache AuditLog
begin

text \<open>
  The session manager (\<open>internal/session/manager.go\<close>, and the manager half of \<open>owned.go\<close>): the store and
  the cache composed. A revocation writes the database in the caller's transaction and hands back what
  is to be invalidated once that has committed: a list of (token hash, until) pairs.
\<close>

section \<open>State and collaborators\<close>

record 's session_world =
  sw_rows :: session_table
  sw_redis :: 's
  sw_events :: "audit_event list"

text \<open>
  What one call meets: the cache, the fates of its GET and of its populate, whether the database answers
  the lookup, what the transaction that records activity meets, whether an audit INSERT succeeds, and
  the clock at its cache write.
\<close>

record 's session_env =
  sv_cache :: "'s session_cache option"
  sv_get :: call_fate
  sv_put :: call_fate
  sv_db_ok :: bool
  sv_touch :: tx_fault
  sv_stored :: bool
  sv_clock :: time

datatype end_reason = ReasonLogout | ReasonAdmin | ReasonReauth | ReasonLogoutAll | ReasonSelfService | ReasonLogoutOthers

definition reason_text :: "end_reason \<Rightarrow> string" where
  "reason_text r = (case r of ReasonLogout \<Rightarrow> ''logout'' | ReasonAdmin \<Rightarrow> ''admin'' | ReasonReauth \<Rightarrow> ''reauth''
     | ReasonLogoutAll \<Rightarrow> ''logout_all'' | ReasonSelfService \<Rightarrow> ''self_service'' | ReasonLogoutOthers \<Rightarrow> ''logout_others'')"

definition touch_interval :: duration where "touch_interval = minute"

definition event_session_created :: string where "event_session_created = ''session.created''"
definition event_session_revoked :: string where "event_session_revoked = ''session.revoked''"

section \<open>Creation\<close>

datatype manage_error = Store session_error | Unaudited

definition manager_create ::
  "(string \<Rightarrow> string option) \<Rightarrow> 's session_env \<Rightarrow> string \<Rightarrow> string \<Rightarrow> byte list option \<Rightarrow> new_session \<Rightarrow> session_policy
    \<Rightarrow> time \<Rightarrow> 's session_world \<Rightarrow> manage_error + (session \<times> string) \<times> 's session_world" where
  "manager_create parse_ip env org new_id drawn n policy now w =
     (case create_session parse_ip org (sv_db_ok env) new_id drawn n policy now (sw_rows w) of
        Inl e \<Rightarrow> Inl (Store e)
      | Inr ((s, token), rows) \<Rightarrow>
          (case write_event (sv_stored env) org
                  \<lparr>ev_org = sn_org s, ev_actor = sn_user s, ev_type = event_session_created,
                   ev_payload = [(''session_id'', Leaf (JStr (sn_id s))), (''auth_methods'', Leaf (JStrs (sn_methods s))),
                     (''expires_at'', Leaf (JTime (sn_expires s)))]\<rparr> (sw_events w) of
             Inl _ \<Rightarrow> Inl Unaudited
           | Inr log \<Rightarrow> Inr ((s, token), w\<lparr>sw_rows := rows, sw_events := log\<rparr>)))"

section \<open>Look-up\<close>

definition needs_touch :: "session \<Rightarrow> time \<Rightarrow> bool" where
  "needs_touch s now \<longleftrightarrow> time_sub now (sn_seen s) \<ge> touch_interval"

definition touch_session :: "'s session_env \<Rightarrow> session \<Rightarrow> time \<Rightarrow> 's session_world \<Rightarrow> 's session_world" where
  "touch_session env s now w =
     (if \<not> needs_touch s now then w
      else snd (with_tenant (sv_touch env) (sn_org s)
        (\<lambda>org w. Inr ((), w\<lparr>sw_rows := touch_row org (sn_id s) now (sw_rows w)\<rparr>) :: unit + unit \<times> 's session_world) w))"

definition manager_lookup ::
  "'s session_env \<Rightarrow> string \<Rightarrow> session_policy \<Rightarrow> time \<Rightarrow> 's session_world
    \<Rightarrow> (session_error + session) \<times> 's session_world" where
  "manager_lookup env presented policy now w =
     (if \<not> valid_token presented then (Inl SessionNotFound, w)
      else let hash = hash_token presented in
        case cache_get (sv_cache env) (sv_clock env) (sv_get env) hash (sw_redis w) of
          Some s \<Rightarrow>
            if \<not> session_alive s (pol_idle policy) now then (Inl SessionNotFound, w)
            else (Inr s, touch_session env s now w)
        | None \<Rightarrow>
            (case (if sv_db_ok env then lookup_by_token_hash (sw_rows w) hash now else Inl SessionStoreFailure) of
               Inl e \<Rightarrow> (Inl e, w)
             | Inr s \<Rightarrow>
                 if expired_idle s (pol_idle policy) now then (Inl SessionNotFound, w)
                 else let seen = (if needs_touch s now then s\<lparr>sn_seen := now\<rparr> else s);
                          w = w\<lparr>sw_redis := snd (cache_put (sv_cache env) (sv_clock env) (sv_put env) hash seen (sw_redis w))\<rparr>
                      in (Inr seen, touch_session env s now w)))"

definition manager_is_live :: "bool \<Rightarrow> session_table \<Rightarrow> string \<Rightarrow> time \<Rightarrow> bool" where
  "manager_is_live db_ok tbl i now =
     (if i = [] then False else if \<not> db_ok then False else session_live tbl i now)"

section \<open>Sweeping\<close>

text \<open>The rows one DELETE picks are an argument, constrained by \<open>sweep_sessions_ok\<close>.\<close>

definition manager_sweep_before_ok :: "time \<Rightarrow> nat \<Rightarrow> string list \<Rightarrow> 's session_world \<Rightarrow> bool" where
  "manager_sweep_before_ok before limit picked w = sweep_sessions_ok before limit picked (sw_rows w)"

definition manager_sweep_ok :: "duration \<Rightarrow> nat \<Rightarrow> time \<Rightarrow> string list \<Rightarrow> 's session_world \<Rightarrow> bool" where
  "manager_sweep_ok retain limit now picked w = sweep_sessions_ok (time_add now (- retain)) limit picked (sw_rows w)"

definition manager_sweep :: "string list \<Rightarrow> 's session_world \<Rightarrow> nat \<times> 's session_world" where
  "manager_sweep picked w = (length picked, w\<lparr>sw_rows := sweep_sessions picked (sw_rows w)\<rparr>)"

section \<open>Revocation\<close>

definition hash_for :: "string \<Rightarrow> string \<Rightarrow> session_table \<Rightarrow> string" where
  "hash_for org i tbl =
     (case List.find (\<lambda>r. of_org org r \<and> sn_id (sr_session r) = i) tbl of None \<Rightarrow> [] | Some r \<Rightarrow> hash_or_empty r)"

definition session_revoked_event :: "string \<Rightarrow> string \<Rightarrow> (string \<times> payload) list \<Rightarrow> audit_event" where
  "session_revoked_event org actor p = \<lparr>ev_org = org, ev_actor = actor, ev_type = event_session_revoked, ev_payload = p\<rparr>"

definition manager_revoke ::
  "'s session_env \<Rightarrow> string \<Rightarrow> string \<Rightarrow> end_reason \<Rightarrow> string \<Rightarrow> time \<Rightarrow> 's session_world
    \<Rightarrow> manage_error + (string \<times> time) list \<times> 's session_world" where
  "manager_revoke env org i reason actor now w =
     (case revoke_session org i now (sw_rows w) of
        Inl e \<Rightarrow> if e = SessionNotFound then Inr ([], w) else Inl (Store e)
      | Inr (s, rows) \<Rightarrow>
          (case write_event (sv_stored env) org (session_revoked_event (sn_org s) actor
                  [(''session_id'', Leaf (JStr (sn_id s))), (''user_id'', Leaf (JStr (sn_user s))),
                   (''reason'', Leaf (JStr (reason_text reason)))]) (sw_events w) of
             Inl _ \<Rightarrow> Inl Unaudited
           | Inr log \<Rightarrow>
               let hash = hash_for org i rows
               in Inr (if hash = [] then [] else [(hash, sn_expires s)], w\<lparr>sw_rows := rows, sw_events := log\<rparr>)))"

definition until_all :: "time \<Rightarrow> time" where "until_all now = time_add now max_absolute_lifetime"

definition manager_revoke_all ::
  "'s session_env \<Rightarrow> string \<Rightarrow> string \<Rightarrow> string \<Rightarrow> string \<Rightarrow> time \<Rightarrow> 's session_world
    \<Rightarrow> manage_error + (string \<times> time) list \<times> 's session_world" where
  "manager_revoke_all env org user event_org actor now w =
     (case revoke_sessions_of_user org user now (sw_rows w) of
        ((ids, hashes), rows) \<Rightarrow>
          if ids = [] then Inr ([], w)
          else case write_event (sv_stored env) org (session_revoked_event event_org actor
                  [(''session_ids'', Leaf (JStrs ids)), (''user_id'', Leaf (JStr user)),
                   (''reason'', Leaf (JStr (reason_text ReasonLogoutAll))), (''count'', Leaf (JInt (int (length ids))))])
                  (sw_events w) of
             Inl _ \<Rightarrow> Inl Unaudited
           | Inr log \<Rightarrow> Inr (map (\<lambda>h. (h, until_all now)) hashes, w\<lparr>sw_rows := rows, sw_events := log\<rparr>))"

text \<open>The function a revocation returns, run after the commit; \<open>fate\<close> tells what each call meets.\<close>

fun run_invalidations ::
  "'s session_cache option \<Rightarrow> time \<Rightarrow> (nat \<Rightarrow> call_fate) \<Rightarrow> (string \<times> time) list \<Rightarrow> 's \<Rightarrow> bool \<times> 's" where
  "run_invalidations c now fate [] st = (True, st)"
| "run_invalidations c now fate ((h, e) # hs) st =
     (case cache_invalidate c now (fate (length hs)) h e st of (good, st') \<Rightarrow>
        case run_invalidations c now fate hs st' of (rest, st'') \<Rightarrow> (good \<and> rest, st''))"

text \<open>\<open>RevokeOrganization\<close> invalidates within the call and stops at the first failure.\<close>

fun invalidate_until_failure ::
  "'s session_cache option \<Rightarrow> time \<Rightarrow> (nat \<Rightarrow> call_fate) \<Rightarrow> (string \<times> time) list \<Rightarrow> 's \<Rightarrow> bool \<times> 's" where
  "invalidate_until_failure c now fate [] st = (True, st)"
| "invalidate_until_failure c now fate ((h, e) # hs) st =
     (case cache_invalidate c now (fate (length hs)) h e st of (good, st') \<Rightarrow>
        if good then invalidate_until_failure c now fate hs st' else (False, st'))"

text \<open>The answer: how many sessions ended, and whether the call reports an error although they did.\<close>

definition manager_revoke_org ::
  "'s session_env \<Rightarrow> (nat \<Rightarrow> call_fate) \<Rightarrow> string \<Rightarrow> time \<Rightarrow> 's session_world
    \<Rightarrow> manage_error + (nat \<times> bool) \<times> 's session_world" where
  "manager_revoke_org env fate org now w =
     (case revoke_sessions_of_org org now (sw_rows w) of
        ((ids, hashes), rows) \<Rightarrow>
          if ids = [] then Inr ((0, True), w)
          else case write_event (sv_stored env) org (session_revoked_event org []
                  [(''reason'', Leaf (JStr ''organization_deleted'')), (''count'', Leaf (JInt (int (length ids))))])
                  (sw_events w) of
             Inl _ \<Rightarrow> Inl Unaudited
           | Inr log \<Rightarrow>
               (case invalidate_until_failure (sv_cache env) (sv_clock env) fate
                       (map (\<lambda>h. (h, until_all now)) hashes) (sw_redis w) of
                  (good, st) \<Rightarrow>
                    Inr ((length ids, good), w\<lparr>sw_rows := rows, sw_redis := st, sw_events := log\<rparr>)))"

record revocation =
  rv_found :: bool
  rv_ids :: "string list"
  rv_user :: string
  rv_invalidate :: "(string \<times> time) list"

definition manager_revoke_owned ::
  "string \<Rightarrow> string \<Rightarrow> string \<Rightarrow> time \<Rightarrow> session_table \<Rightarrow> revocation \<times> session_table" where
  "manager_revoke_owned org i user now tbl =
     (case revoke_owned org i user now tbl of
        (None, rows) \<Rightarrow> (\<lparr>rv_found = False, rv_ids = [], rv_user = [], rv_invalidate = []\<rparr>, rows)
      | (Some (s, False), rows) \<Rightarrow> (\<lparr>rv_found = True, rv_ids = [], rv_user = [], rv_invalidate = []\<rparr>, rows)
      | (Some (s, True), rows) \<Rightarrow>
          let hash = hash_for org i rows
          in (\<lparr>rv_found = True, rv_ids = [sn_id s], rv_user = sn_user s,
               rv_invalidate = (if hash = [] then [] else [(hash, sn_expires s)])\<rparr>, rows))"

definition manager_revoke_others ::
  "string \<Rightarrow> string \<Rightarrow> string \<Rightarrow> time \<Rightarrow> session_table \<Rightarrow> session_error + revocation \<times> session_table" where
  "manager_revoke_others org user keep now tbl =
     bindE (revoke_sessions_except org user keep now tbl) (\<lambda>((ids, hashes), rows).
       Inr (\<lparr>rv_found = True, rv_ids = ids, rv_user = user,
             rv_invalidate = map (\<lambda>h. (h, until_all now)) hashes\<rparr>, rows))"

end
