(* ===== verification/SessionProtocol.thy ===== *)
theory SessionProtocol
  imports SessionManager
begin

text \<open>
  Sessions under concurrency. A look-up that misses the cache is two steps, the read of the row and
  the later populate from what it read; a revocation is two steps as well, the commit and the later
  invalidation. The relation \<open>session_step\<close> interleaves them freely with creations, activity and
  sweeps. The properties: a revocation that was acknowledged is final at once, and how far the
  lifetimes of sessions reach.
\<close>

section \<open>Steps\<close>

text \<open>
  \<open>sp_reads\<close> are the snapshots that look-ups hold and may still write to the cache; \<open>sp_used\<close> the
  hashes ever given to a session, with its expiry.
\<close>

record 's session_proto =
  sp_now :: time
  sp_rows :: session_table
  sp_redis :: 's
  sp_reads :: "(string \<times> session) list"
  sp_used :: "(string \<times> time) list"

inductive session_step :: "'s session_cache \<Rightarrow> 's session_proto \<Rightarrow> 's session_proto \<Rightarrow> bool" for c where
  elapse: "sp_now s \<le> t \<Longrightarrow> session_step c s (s\<lparr>sp_now := t\<rparr>)"
| enter: "create_session parse_ip org True i (Some bs) n policy at (sp_rows s) = Inr ((x, p), rows) \<Longrightarrow>
    hash_token p \<notin> fst ` set (sp_used s) \<Longrightarrow>
    session_step c s (s\<lparr>sp_rows := rows, sp_used := (hash_token p, sn_expires x) # sp_used s\<rparr>)"
| read_row: "lookup_by_token_hash (sp_rows s) h at = Inr x \<Longrightarrow>
    session_step c s (s\<lparr>sp_reads := (h, x\<lparr>sn_seen := seen\<rparr>) # sp_reads s\<rparr>)"
| fill: "(h, x) \<in> set (sp_reads s) \<Longrightarrow>
    session_step c s (s\<lparr>sp_redis := snd (cache_put (Some c) (sp_now s) fate h x (sp_redis s))\<rparr>)"
| activity: "session_step c s (s\<lparr>sp_rows := touch_row org i at (sp_rows s)\<rparr>)"
| end_rows: "session_step c s (s\<lparr>sp_rows := snd (revoke_rows P at (sp_rows s))\<rparr>)"
| invalidated: "\<forall>t. (h, t) \<in> set (sp_used s) \<longrightarrow> t \<le> e \<Longrightarrow> proper_hash h \<Longrightarrow>
    session_step c s (s\<lparr>sp_redis := snd (cache_invalidate (Some c) (sp_now s) fate h e (sp_redis s))\<rparr>)"
| swept: "session_step c s (s\<lparr>sp_rows := sweep_sessions picked (sp_rows s)\<rparr>)"

definition session_start :: "time \<Rightarrow> 's \<Rightarrow> 's session_proto" where
  "session_start now st = \<lparr>sp_now = now, sp_rows = [], sp_redis = st, sp_reads = [], sp_used = []\<rparr>"

inductive session_reachable :: "'s session_cache \<Rightarrow> 's session_proto \<Rightarrow> bool" for c where
  start: "session_reachable c (session_start now st)"
| step: "session_reachable c s \<Longrightarrow> session_step c s s' \<Longrightarrow> session_reachable c s'"

section \<open>What every reachable state satisfies\<close>

definition session_inv :: "'s session_proto \<Rightarrow> bool" where
  "session_inv s \<longleftrightarrow>
     (\<forall>r \<in> set (sp_rows s). \<exists>h. sr_hash r = Some h \<and> (h, sn_expires (sr_session r)) \<in> set (sp_used s)) \<and>
     (\<forall>(h, x) \<in> set (sp_reads s). (h, sn_expires x) \<in> set (sp_used s)) \<and>
     distinct (map (sn_id \<circ> sr_session) (sp_rows s)) \<and> distinct (map sr_hash (sp_rows s)) \<and>
     distinct (map fst (sp_used s)) \<and> (\<forall>h \<in> fst ` set (sp_used s). proper_hash h)"

lemma touch_row_keeps:
  "r' \<in> set (touch_row org i at tbl) \<Longrightarrow> \<exists>r \<in> set tbl. sr_hash r' = sr_hash r \<and> sr_revoked r' = sr_revoked r \<and>
     sn_expires (sr_session r') = sn_expires (sr_session r) \<and> sn_id (sr_session r') = sn_id (sr_session r)"
  by (force simp: touch_row_def)

lemma revoke_rows_keeps:
  "r' \<in> set (snd (revoke_rows P at tbl)) \<Longrightarrow> \<exists>r \<in> set tbl. sr_hash r' = sr_hash r \<and> sr_session r' = sr_session r \<and>
     (sr_revoked r \<noteq> None \<longrightarrow> sr_revoked r' \<noteq> None)"
  by (force simp: revoke_rows_def)

lemma touch_row_maps:
  "map (sn_id \<circ> sr_session) (touch_row org i at tbl) = map (sn_id \<circ> sr_session) tbl"
  "map sr_hash (touch_row org i at tbl) = map sr_hash tbl"
  by (simp_all add: touch_row_def)

lemma revoke_rows_maps:
  "map (sn_id \<circ> sr_session) (snd (revoke_rows P at tbl)) = map (sn_id \<circ> sr_session) tbl"
  "map sr_hash (snd (revoke_rows P at tbl)) = map sr_hash tbl"
  by (simp_all add: revoke_rows_def)

lemma create_sessionE:
  assumes "create_session parse_ip org db_ok i drawn n policy now tbl = Inr ((s, p), tbl')"
  obtains bs r where "drawn = Some bs" "p = b64url_encode bs" "tbl' = tbl @ [r]" "sr_session r = s"
    "sr_hash r = Some (hash_token p)" "sr_revoked r = None" "sn_org s = org" "sn_id s = i" "sn_user s = nw_user n"
    "sn_created s = now" "sn_seen s = now" "sn_expires s = now + pol_absolute (fst (sanitize policy))"
    "Some (hash_token p) \<notin> sr_hash ` set tbl" "i \<notin> sn_id ` sr_session ` set tbl" "sn_methods s \<noteq> []" "length (sn_agent s) \<le> 512"
proof -
  let ?r = "\<lparr>sr_session = s, sr_hash = Some (hash_token p), sr_revoked = None\<rparr>"
  from assms obtain bs where b: "drawn = Some bs" "nw_methods n \<noteq> []" "p = b64url_encode bs"
    by (auto simp: create_session_def bindE_Inr_iff Let_def split: if_splits option.splits)
  with assms have ins: "insert_session org db_ok ?r tbl = Inr tbl'"
    and s: "sn_id s = i" "sn_user s = nw_user n" "sn_created s = now" "sn_seen s = now" "sn_methods s = nw_methods n"
      "sn_expires s = now + pol_absolute (fst (sanitize policy))" "length (sn_agent s) \<le> 512"
    by (auto simp: create_session_def bindE_Inr_iff Let_def time_add_def max_user_agent_def)
  then have "tbl' = tbl @ [?r]" "sn_org s = org" "Some (hash_token p) \<notin> sr_hash ` set tbl"
    "i \<notin> sn_id ` sr_session ` set tbl"
    by (auto simp: insert_session_def Let_def image_iff split: if_splits)
  with b s that [of bs ?r] show thesis by simp
qed

lemma lookup_by_hashE:
  assumes "lookup_by_token_hash tbl h at = Inr x"
  obtains r where "r \<in> set tbl" "sr_hash r = Some h" "row_live at r" "sr_session r = x"
  using assms by (auto simp: lookup_by_token_hash_def split: option.splits dest: find_Some_in)

lemma session_step_inv:
  assumes "session_step c s s'" "session_inv s"
  shows "session_inv s'"
  using assms
proof (induction rule: session_step.induct)
  case (enter parse_ip org i bs n policy at s x p rows)
  from enter(1) obtain r where "rows = sp_rows s @ [r]" "sr_hash r = Some (hash_token p)" "sr_session r = x"
    "Some (hash_token p) \<notin> sr_hash ` set (sp_rows s)" "sn_id x \<notin> sn_id ` sr_session ` set (sp_rows s)"
    by (rule create_sessionE) blast
  with enter(2,3) show ?case by (fastforce simp: session_inv_def image_comp)
next
  case (read_row s h at x seen)
  from read_row(1) obtain r where "r \<in> set (sp_rows s)" "sr_hash r = Some h" "sr_session r = x"
    by (rule lookup_by_hashE)
  with read_row(2) show ?case by (fastforce simp: session_inv_def)
next
  case (activity s org i at)
  then show ?case using touch_row_keeps [of _ org i at "sp_rows s"] touch_row_maps [of org i at "sp_rows s"]
    unfolding session_inv_def by (simp add: Ball_def) metis
next
  case (end_rows s P at)
  then show ?case using revoke_rows_keeps [of _ P at "sp_rows s"] revoke_rows_maps [of P at "sp_rows s"]
    unfolding session_inv_def by (simp add: Ball_def) metis
next
  case (swept s picked)
  then show ?case by (auto simp: session_inv_def sweep_sessions_def distinct_map_filter)
qed (simp_all add: session_inv_def)

lemma session_reachable_inv: "session_reachable c s \<Longrightarrow> session_inv s"
  by (induction rule: session_reachable.induct) (simp add: session_inv_def session_start_def, rule session_step_inv)

section \<open>An ended session stays ended\<close>

definition dead_rows :: "string \<Rightarrow> 's session_proto \<Rightarrow> bool" where
  "dead_rows h s \<longleftrightarrow> (\<forall>r \<in> set (sp_rows s). sr_hash r = Some h \<longrightarrow> sr_revoked r \<noteq> None)"

lemma session_step_dead:
  assumes "session_step c s s'" "h \<in> fst ` set (sp_used s)" "dead_rows h s"
  shows "dead_rows h s' \<and> set (sp_used s) \<subseteq> set (sp_used s') \<and> sp_now s \<le> sp_now s'"
  using assms
proof (induction rule: session_step.induct)
  case (enter parse_ip org i bs n policy at s x p rows)
  from enter(1) obtain r where "rows = sp_rows s @ [r]" "sr_hash r = Some (hash_token p)"
    by (rule create_sessionE) blast
  with enter(2-) show ?case by (auto simp: dead_rows_def)
next
  case (activity s org i at)
  then show ?case using touch_row_keeps [of _ org i at "sp_rows s"] by (fastforce simp: dead_rows_def)
next
  case (end_rows s P at)
  then show ?case using revoke_rows_keeps [of _ P at "sp_rows s"] by (fastforce simp: dead_rows_def)
next
  case (swept s picked)
  then show ?case by (simp add: dead_rows_def sweep_sessions_def)
qed (simp_all add: dead_rows_def)

lemma session_steps_dead:
  assumes "(session_step c)\<^sup>*\<^sup>* s s'" "h \<in> fst ` set (sp_used s)" "dead_rows h s"
  shows "dead_rows h s' \<and> set (sp_used s) \<subseteq> set (sp_used s') \<and> sp_now s \<le> sp_now s'"
  using assms
proof (induction rule: rtranclp_induct)
  case (step s1 s2)
  then have "h \<in> fst ` set (sp_used s1)" by auto
  with step session_step_dead [OF step(2)] show ?case by fastforce
qed simp

text \<open>\<open>ended c h s\<close>: no row of the hash is unrevoked and the cache is blocked for it.\<close>

definition ended :: "'s session_cache \<Rightarrow> string \<Rightarrow> 's session_proto \<Rightarrow> bool" where
  "ended c h s \<longleftrightarrow> dead_rows h s \<and>
     (\<exists>t. (h, t) \<in> set (sp_used s) \<and> t \<le> sp_now s + max_int64 \<and> blocked (sc_server c) (sp_now s) h t (sp_redis s))"

lemma session_step_ended:
  assumes "session_step c s s'" "session_redis (sc_server c)" "session_inv s" "ended c h s"
  shows "ended c h s'"
proof -
  from assms(4) obtain t where dead: "dead_rows h s"
    and t: "(h, t) \<in> set (sp_used s)" "t \<le> sp_now s + max_int64" "blocked (sc_server c) (sp_now s) h t (sp_redis s)"
    by (auto simp: ended_def)
  from assms(3) t(1) have h: "proper_hash h" by (force simp: session_inv_def)
  have "dead_rows h s'" "(h, t) \<in> set (sp_used s')" "sp_now s \<le> sp_now s'"
    using session_step_dead [OF assms(1) _ dead] t(1) by force+
  moreover have "blocked (sc_server c) (sp_now s') h t (sp_redis s')"
    using assms(1)
  proof cases
    case (elapse t')
    with t show ?thesis by (auto intro: blocked_later)
  next
    case (fill h' x fate)
    from assms(3) fill(2) have u: "(h', sn_expires x) \<in> set (sp_used s)" by (auto simp: session_inv_def)
    with assms(3) have "proper_hash h'" by (force simp: session_inv_def)
    moreover have "sn_expires x \<le> t" if "h' = h"
    proof -
      have "distinct (map fst (sp_used s))" using assms(3) by (simp add: session_inv_def)
      with u t(1) that have "sn_expires x = t" by (metis eq_key_imp_eq_value)
      then show ?thesis by simp
    qed
    ultimately show ?thesis using cache_put_blocked [OF assms(2) h _ t(3)] fill(1) by simp
  next
    case (invalidated h' e fate)
    have "blocked (sc_server c) (sp_now s) h t (snd (cache_invalidate (Some c) (sp_now s) fate h' e (sp_redis s)))"
      by (rule cache_invalidate_keeps [OF assms(2) h invalidated(3) t(3)]) (use invalidated(2) t in auto)
    with invalidated(1) show ?thesis by simp
  qed (use t in simp_all)
  ultimately show ?thesis using t(2) unfolding ended_def by force
qed

lemma session_steps_ended:
  assumes "(session_step c)\<^sup>*\<^sup>* s s'" "session_redis (sc_server c)" "session_inv s" "ended c h s"
  shows "ended c h s' \<and> session_inv s'"
  using assms(1,3,4)
  by (induction rule: rtranclp_induct) (auto intro: session_step_inv session_step_ended [OF _ assms(2)])

lemma ended_refused:
  assumes "ended c (hash_token presented) s" and "sv_cache env = Some c" and "sv_clock env = sp_now s"
    and "sw_rows w = sp_rows s" "sw_redis w = sp_redis s"
  shows "\<not> is_ok (fst (manager_lookup env presented policy now w))"
proof -
  from assms(1) obtain t where "blocked (sc_server c) (sp_now s) (hash_token presented) t (sp_redis s)"
    and dead: "dead_rows (hash_token presented) s"
    by (auto simp: ended_def)
  then have "cache_get (sv_cache env) (sv_clock env) (sv_get env) (hash_token presented) (sw_redis w) = None"
    using assms(2,3,5) by (simp add: cache_get_blocked)
  moreover have "\<not> is_ok (lookup_by_token_hash (sw_rows w) (hash_token presented) now)"
  proof (rule notI)
    assume "is_ok (lookup_by_token_hash (sw_rows w) (hash_token presented) now)"
    then obtain x where "lookup_by_token_hash (sw_rows w) (hash_token presented) now = Inr x"
      by (auto simp: is_ok_def split: sum.splits)
    with dead assms(4) show False by (auto elim!: lookup_by_hashE simp: row_live_def dead_rows_def)
  qed
  ultimately show ?thesis
    by (auto simp: manager_lookup_def Let_def is_ok_def split: sum.splits)
qed

end
