(* ===== verification/SessionProps.thy ===== *)
theory SessionProps
  imports SessionProtocol
begin

text \<open>
  The properties of sessions: a look-up answers with live sessions only, lifetimes stay in their bounds, a revocation that was acknowledged is final at once
  whatever was in flight, and two places where the code answers otherwise than it says.
\<close>

section \<open>A concrete cache and policy\<close>

definition demo_cache :: "cached ttl_map session_cache" where
  "demo_cache = \<lparr>sc_server = ttl_server, sc_ttl = minute\<rparr>"

definition demo_session_env :: "cached ttl_map session_cache option \<Rightarrow> time \<Rightarrow> cached ttl_map session_env" where
  "demo_session_env c now = \<lparr>sv_cache = c, sv_get = Served, sv_put = Served, sv_db_ok = True, sv_touch = TxOk,
     sv_stored = True, sv_clock = now\<rparr>"

definition demo_new :: new_session where
  "demo_new = \<lparr>nw_user = ''usr'', nw_org = ''org'', nw_methods = [''pwd''], nw_ip = [], nw_agent = ''ua''\<rparr>"

definition demo_cookie :: string where "demo_cookie = b64url_encode (replicate 32 0)"

definition demo_session :: session where
  "demo_session = \<lparr>sn_id = ''s1'', sn_user = ''usr'', sn_org = ''org'', sn_methods = [''pwd''], sn_ip = [],
     sn_agent = ''ua'', sn_created = 1000, sn_seen = 1000, sn_expires = 1000 + 12 * hour\<rparr>"

definition demo_session_row :: session_row where
  "demo_session_row = \<lparr>sr_session = demo_session, sr_hash = Some (hash_token demo_cookie), sr_revoked = None\<rparr>"

lemmas demo_session_defs = demo_session_row_def demo_session_def

lemma demo_policy: "sanitize default_policy = (default_policy, [])"
  by (rule sanitize_id) (simp add: policy_bounded_def policy_defs)

lemma demo_created:
  "create_session (\<lambda>_. None) ''org'' True ''s1'' (Some (replicate 32 0)) demo_new default_policy 1000 [] =
     Inr ((demo_session, demo_cookie), [demo_session_row])"
proof -
  have "pol_absolute default_policy = 12 * hour" by (simp add: default_policy_def)
  moreover have "utf8_text ''ua''" by code_simp
  ultimately show ?thesis
    by (simp add: create_session_def demo_new_def demo_policy insert_session_def demo_session_defs demo_cookie_def
      max_user_agent_def duration_defs time_add_def Let_def)
qed

lemma demo_cookie_valid: "valid_token demo_cookie"
  unfolding demo_cookie_def by code_simp

section \<open>Look-ups\<close>

text \<open>
  C10. A session that a look-up answers with is live under the caller's policy: not past its absolute
  expiry and not idle for longer than the idle timeout. It came from the cache or from an
  unrevoked row of the presented cookie, and the look-up changed nothing of the table but the
  time it was last seen.
\<close>

theorem lookup_only_live:
  assumes run: "manager_lookup env presented policy now w = (Inr s, w')"
  shows "session_alive s (pol_idle policy) now \<and> valid_token presented \<and>
    (cache_get (sv_cache env) (sv_clock env) (sv_get env) (hash_token presented) (sw_redis w) = Some s \<or>
     (\<exists>r \<in> set (sw_rows w). sr_hash r = Some (hash_token presented) \<and> sr_revoked r = None \<and> sn_id (sr_session r) = sn_id s)) \<and>
    (sw_rows w' = sw_rows w \<or> sw_rows w' = touch_row (sn_org s) (sn_id s) now (sw_rows w)) \<and> sw_events w' = sw_events w"
proof -
  let ?got = "cache_get (sv_cache env) (sv_clock env) (sv_get env) (hash_token presented) (sw_redis w)"
  have touch: "(sw_rows (touch_session env x now v) = sw_rows v \<or>
      sw_rows (touch_session env x now v) = touch_row (sn_org x) (sn_id x) now (sw_rows v)) \<and>
      sw_events (touch_session env x now v) = sw_events v" for x v
    by (auto simp: touch_session_def with_tenant_def with_scope_def)
  from run have v: "valid_token presented" by (auto simp: manager_lookup_def split: if_splits)
  show ?thesis
  proof (cases ?got)
    case (Some x)
    with run v touch [of x w] show ?thesis
      by (auto simp: manager_lookup_def Let_def split: if_splits)
  next
    case None
    with run v obtain x where x: "lookup_by_token_hash (sw_rows w) (hash_token presented) now = Inr x"
      "\<not> expired_idle x (pol_idle policy) now" "s = (if needs_touch x now then x\<lparr>sn_seen := now\<rparr> else x)"
      and w': "\<exists>st. w' = touch_session env x now (w\<lparr>sw_redis := st\<rparr>)"
      by (auto simp: manager_lookup_def Let_def split: if_splits sum.splits)
    from x(1) obtain r where r: "r \<in> set (sw_rows w)" "sr_hash r = Some (hash_token presented)" "row_live now r" "sr_session r = x"
      by (rule lookup_by_hashE)
    have "session_alive s (pol_idle policy) now"
      using r x(2,3) by (auto simp: alive_defs row_live_def time_sub_def min_int64_def max_int64_def split: if_splits)
    moreover have "sn_id s = sn_id x" "sn_org s = sn_org x" using x(3) by auto
    moreover from w' obtain st where "w' = touch_session env x now (w\<lparr>sw_redis := st\<rparr>)" by blast
    ultimately show ?thesis using v r touch [of x "w\<lparr>sw_redis := st\<rparr>"] by (auto simp: row_live_def)
  qed
qed

lemma demo_lookup:
  "\<exists>w'. manager_lookup (demo_session_env None 2000) demo_cookie default_policy 2000
      \<lparr>sw_rows = [demo_session_row], sw_redis = Map.empty, sw_events = []\<rparr> = (Inr demo_session, w')"
  using demo_cookie_valid
  by (simp add: manager_lookup_def demo_session_env_def cache_get_def lookup_by_token_hash_def row_live_def
      demo_session_defs expired_idle_def time_defs policy_defs time_sub_def min_int64_def max_int64_def needs_touch_def
      touch_interval_def Let_def)

theorem lookup_only_live_witness:
  "session_alive demo_session (2 * hour) 2000 \<and>
   (\<exists>w'. manager_lookup (demo_session_env None 2000) demo_cookie default_policy 2000
      \<lparr>sw_rows = [demo_session_row], sw_redis = Map.empty, sw_events = []\<rparr> = (Inr demo_session, w'))"
  using demo_lookup lookup_only_live [of "demo_session_env None 2000" demo_cookie default_policy 2000]
  by (auto simp: default_policy_def)

section \<open>From creation to look-up\<close>

lemma b64url_digit_valid:
  "n < 64 \<Longrightarrow> is_alnum (b64url_digit n) \<or> b64url_digit n = CHR ''-'' \<or> b64url_digit n = CHR ''_''"
proof -
  assume "n < 64"
  moreover have "\<forall>n \<in> set [0..<64]. is_alnum (b64url_digit n) \<or> b64url_digit n = CHR ''-'' \<or> b64url_digit n = CHR ''_''"
    by code_simp
  ultimately show ?thesis by simp
qed

lemma b64url_encode_valid:
  "list_all (\<lambda>c. is_alnum c \<or> c = CHR ''-'' \<or> c = CHR ''_'') (b64url_encode bs)"
proof (induction bs rule: b64url_encode.induct)
  case (1 a b c bs)
  have u: "uint a < 256" "uint b < 256" "uint c < 256" "0 \<le> uint a" "0 \<le> uint b" "0 \<le> uint c"
    using uint_lt2p [of a] uint_lt2p [of b] uint_lt2p [of c] by simp_all
  have "nat ((uint a * 65536 + uint b * 256 + uint c) div 262144) < 64" using u by linarith
  with 1 show ?case by (simp add: b64url_digit_valid Let_def)
next
  case (2 a b)
  have u: "uint a < 256" "uint b < 256" "0 \<le> uint a" "0 \<le> uint b"
    using uint_lt2p [of a] uint_lt2p [of b] by simp_all
  have "nat ((uint a * 65536 + uint b * 256) div 262144) < 64" using u by linarith
  then show ?case by (simp add: b64url_digit_valid Let_def)
next
  case (3 a)
  have u: "uint a < 256" "0 \<le> uint a" using uint_lt2p [of a] by simp_all
  have "nat (uint a * 65536 div 262144) < 64" using u by linarith
  then show ?case by (simp add: b64url_digit_valid Let_def)
qed simp

lemma valid_token_of_bytes: "length bs = 32 \<Longrightarrow> valid_token (b64url_encode bs)"
  using b64url_encode_valid [of bs]
  by (simp add: valid_token_def length_b64url_encode token_length_def token_bytes_def)

section \<open>Revocation\<close>

lemma run_invalidations_keeps:
  assumes "session_redis (sc_server c)" "proper_hash h" "e \<le> now + max_int64"
  shows "blocked (sc_server c) now h e st \<Longrightarrow> \<forall>(h', e') \<in> set hs. proper_hash h' \<and> (h' = h \<longrightarrow> e \<le> e') \<Longrightarrow>
    blocked (sc_server c) now h e (snd (run_invalidations (Some c) now fate hs st))"
proof (induction hs arbitrary: st)
  case (Cons x hs)
  obtain h' e' where x: "x = (h', e')" by (cases x)
  from Cons.prems x have "blocked (sc_server c) now h e (snd (cache_invalidate (Some c) now (fate (length hs)) h' e' st))"
    by (intro cache_invalidate_keeps [OF assms(1,2) _ _ _ assms(3)]) auto
  with Cons.IH [of "snd (cache_invalidate (Some c) now (fate (length hs)) h' e' st)"] Cons.prems(2) x show ?case
    by (cases "cache_invalidate (Some c) now (fate (length hs)) h' e' st") (auto split: prod.splits)
qed simp

lemma run_invalidations_blocks:
  assumes "session_redis (sc_server c)" "e \<le> now + max_int64"
  shows "run_invalidations (Some c) now fate hs st = (True, st') \<Longrightarrow> h \<in> fst ` set hs \<Longrightarrow>
    \<forall>(h', e') \<in> set hs. proper_hash h' \<and> (h' = h \<longrightarrow> e \<le> e' \<and> e' \<le> now + max_int64) \<Longrightarrow> blocked (sc_server c) now h e st'"
proof (induction hs arbitrary: st)
  case (Cons x hs)
  obtain h' e' where x: "x = (h', e')" by (cases x)
  obtain good st1 where g: "cache_invalidate (Some c) now (fate (length hs)) h' e' st = (good, st1)" by fastforce
  from Cons.prems(1) x g have good: "good" and rest: "run_invalidations (Some c) now fate hs st1 = (True, st')"
    by (auto split: prod.splits)
  show ?case
  proof (cases "h' = h")
    case True
    with Cons.prems(3) x have h: "proper_hash h" "e \<le> e'" "e' \<le> now + max_int64" by auto
    with g good True have "blocked (sc_server c) now h e' st1"
      by (intro cache_invalidate_blocks [OF assms(1)]) auto
    then have "blocked (sc_server c) now h e st1" using h(2) by (auto simp: blocked_def)
    with run_invalidations_keeps [OF assms(1) h(1) assms(2) this, of hs fate] Cons.prems(3) rest
    show ?thesis by auto
  next
    case False
    with Cons.IH [OF rest] Cons.prems(2,3) x show ?thesis by auto
  qed
qed simp

lemma session_steps_inv: "(session_step c)\<^sup>*\<^sup>* s s' \<Longrightarrow> session_inv s \<Longrightarrow> session_inv s'"
  by (induction rule: rtranclp_induct) (auto intro: session_step_inv)

text \<open>
  A hash with no unrevoked row, whose invalidation is among those acknowledged, is ended from then on.
\<close>

lemma acknowledged_is_final:
  assumes server: "session_redis (sc_server c)" and inv: "session_inv s"
    and dead: "dead_rows h s" "(h, t) \<in> set (sp_used s)" "t \<le> sp_now s + max_int64"
    and steps: "(session_step c)\<^sup>*\<^sup>* s s1"
    and run: "run_invalidations (Some c) (sp_now s1) fate hs (sp_redis s1) = (True, st)" "h \<in> fst ` set hs"
    and hs: "\<forall>(h', e') \<in> set hs. proper_hash h' \<and> (h' = h \<longrightarrow> t \<le> e' \<and> e' \<le> sp_now s1 + max_int64)"
    and later: "(session_step c)\<^sup>*\<^sup>* (s1\<lparr>sp_redis := st\<rparr>) s2"
  shows "ended c h s2"
proof -
  have "h \<in> fst ` set (sp_used s)" using dead(2) by force
  from session_steps_dead [OF steps this dead(1)]
  have s1: "dead_rows h s1" "(h, t) \<in> set (sp_used s1)" "t \<le> sp_now s1 + max_int64"
    using dead(2,3) by auto
  have "blocked (sc_server c) (sp_now s1) h t st"
    by (rule run_invalidations_blocks [OF server s1(3) run hs])
  with s1 have "ended c h (s1\<lparr>sp_redis := st\<rparr>)" by (auto simp: ended_def dead_rows_def)
  moreover have "session_inv (s1\<lparr>sp_redis := st\<rparr>)"
    using session_steps_inv [OF steps inv] by (simp add: session_inv_def)
  ultimately show ?thesis using session_steps_ended [OF later server] by blast
qed

lemma used_functional:
  "session_inv s \<Longrightarrow> (h, t) \<in> set (sp_used s) \<Longrightarrow> (h, t') \<in> set (sp_used s) \<Longrightarrow> t' = t"
  by (metis eq_key_imp_eq_value session_inv_def)

text \<open>What \<open>Revoke\<close> leaves behind for a session that was not revoked yet.\<close>

lemma manager_revoke_result:
  assumes inv: "session_inv s" and r: "r \<in> set (sp_rows s)" "sn_org (sr_session r) = org" "sn_id (sr_session r) = i"
      "sr_hash r = Some h" "h \<noteq> []" "sr_revoked r = None"
    and rev: "manager_revoke env org i reason actor at w = Inr (pending, w')" "sw_rows w = sp_rows s"
  shows "pending = [(h, sn_expires (sr_session r))] \<and> session_step c s (s\<lparr>sp_rows := sw_rows w'\<rparr>) \<and>
    dead_rows h (s\<lparr>sp_rows := sw_rows w'\<rparr>)"
proof -
  let ?P = "\<lambda>r. of_org org r \<and> sn_id (sr_session r) = i \<and> sr_revoked r = None" and ?tbl = "sp_rows s"
  have uid: "x = r" if "x \<in> set ?tbl" "sn_id (sr_session x) = i" for x
    using inv that r(1,3) by (auto simp: session_inv_def distinct_map inj_on_def)
  have uh: "x = r" if "x \<in> set ?tbl" "sr_hash x = Some h" for x
    using inv that r(1,4) by (auto simp: session_inv_def distinct_map inj_on_def)
  have P: "?P r" using r by (simp add: of_org_def)
  then have "filter ?P ?tbl \<noteq> []" using r(1) by (auto simp: filter_empty_conv)
  then obtain y ys where f: "filter ?P ?tbl = y # ys" by (cases "filter ?P ?tbl") auto
  then have "y \<in> set (filter ?P ?tbl)" by simp
  with uid have y: "y = r" by auto
  let ?rows = "snd (revoke_rows ?P at ?tbl)"
  have rs: "revoke_session org i at ?tbl = Inr (sr_session r, ?rows)"
    using f y by (simp add: revoke_session_def revoke_rows_def)
  have "List.find (\<lambda>r. of_org org r \<and> sn_id (sr_session r) = i) ?rows = Some (r\<lparr>sr_revoked := Some at\<rparr>)"
  proof (rule find_unique)
    show "r\<lparr>sr_revoked := Some at\<rparr> \<in> set ?rows" using r(1) P by (force simp: revoke_rows_def)
    show "of_org org (r\<lparr>sr_revoked := Some at\<rparr>) \<and> sn_id (sr_session (r\<lparr>sr_revoked := Some at\<rparr>)) = i"
      using P by (simp add: of_org_def)
    show "x = r\<lparr>sr_revoked := Some at\<rparr>" if "x \<in> set ?rows" "of_org org x \<and> sn_id (sr_session x) = i" for x
      using that uid P by (auto simp: revoke_rows_def)
  qed
  then have "hash_for org i ?rows = h" by (simp add: hash_for_def hash_or_empty_def r(4))
  with rev rs r(5) have res: "pending = [(h, sn_expires (sr_session r))]" "sw_rows w' = ?rows"
    by (auto simp: manager_revoke_def Let_def split: sum.splits if_splits)
  moreover have "dead_rows h (s\<lparr>sp_rows := ?rows\<rparr>)"
    using uh P by (auto simp: dead_rows_def revoke_rows_def)
  ultimately show ?thesis by (auto intro: session_step.end_rows)
qed

text \<open>
  C11. A revocation is final the moment its invalidation is acknowledged: whatever look-ups were in
  flight when it committed, whatever they write to the cache later and however calls fail, no look-up
  of the session's cookie succeeds again. This is the race of a stale read that \<open>cache.go\<close> closes
  with the tombstone.
\<close>

theorem revocation_is_immediate:
  assumes server: "session_redis (sc_server c)" and reach: "session_reachable c s"
    and row: "r \<in> set (sp_rows s)" "sn_org (sr_session r) = org" "sn_id (sr_session r) = i"
      "sr_hash r = Some (hash_token cookie)" "sr_revoked r = None" "sn_expires (sr_session r) \<le> sp_now s + max_int64"
    and rev: "manager_revoke env org i reason actor at w = Inr (pending, w')" "sw_rows w = sp_rows s"
    and committed: "(session_step c)\<^sup>*\<^sup>* (s\<lparr>sp_rows := sw_rows w'\<rparr>) s1"
    and acknowledged: "run_invalidations (Some c) (sp_now s1) fate pending (sp_redis s1) = (True, st)"
    and later: "(session_step c)\<^sup>*\<^sup>* (s1\<lparr>sp_redis := st\<rparr>) s2"
    and asked: "sv_cache env2 = Some c" "sv_clock env2 = sp_now s2" "sw_rows w2 = sp_rows s2" "sw_redis w2 = sp_redis s2"
  shows "\<not> is_ok (fst (manager_lookup env2 cookie policy now w2))"
proof -
  let ?h = "hash_token cookie" and ?s = "s\<lparr>sp_rows := sw_rows w'\<rparr>" and ?t = "sn_expires (sr_session r)"
  have inv: "session_inv s" using reach by (rule session_reachable_inv)
  from manager_revoke_result [OF inv row(1-4) _ row(5) rev, of c]
  have res: "pending = [(?h, ?t)]" "session_step c s ?s" "dead_rows ?h ?s" by simp_all
  have u: "(?h, ?t) \<in> set (sp_used ?s)" using inv row(1,4) by (force simp: session_inv_def)
  then have "?h \<in> fst ` set (sp_used ?s)" by force
  with session_steps_dead [OF committed this res(3)] row(6)
  have "ended c ?h s2"
    by (intro acknowledged_is_final [OF server session_step_inv [OF res(2) inv] res(3) u _ committed acknowledged _ _ later])
      (auto simp: res(1))
  then show ?thesis by (rule ended_refused [OF _ asked])
qed

text \<open>A look-up that read the session before it was revoked and fills the cache after.\<close>

definition stale_state :: "cached ttl_map session_proto" where
  "stale_state = \<lparr>sp_now = 1000, sp_rows = [demo_session_row], sp_redis = Map.empty,
     sp_reads = [(hash_token demo_cookie, demo_session)], sp_used = [(hash_token demo_cookie, sn_expires demo_session)]\<rparr>"

lemma stale_reachable: "session_reachable demo_cache stale_state"
proof -
  let ?s0 = "session_start 1000 Map.empty :: cached ttl_map session_proto"
  let ?s1 = "?s0\<lparr>sp_rows := [demo_session_row], sp_used := (hash_token demo_cookie, sn_expires demo_session) # sp_used ?s0\<rparr>"
  have "session_step demo_cache ?s0 ?s1"
    by (rule session_step.enter) (use demo_created in \<open>simp_all add: session_start_def\<close>)
  then have r1: "session_reachable demo_cache ?s1"
    by (rule session_reachable.step [OF session_reachable.start])
  have "lookup_by_token_hash (sp_rows ?s1) (hash_token demo_cookie) 2000 = Inr demo_session"
    by (simp add: lookup_by_token_hash_def row_live_def demo_session_defs duration_defs)
  from session_step.read_row [OF this, of demo_cache 1000]
  have "session_step demo_cache ?s1 (?s1\<lparr>sp_reads := [(hash_token demo_cookie, demo_session)]\<rparr>)"
    by (simp add: session_start_def demo_session_def)
  from session_reachable.step [OF r1 this] show ?thesis
    by (simp add: stale_state_def session_start_def)
qed

definition stale_world :: "cached ttl_map session_world" where
  "stale_world = \<lparr>sw_rows = [demo_session_row], sw_redis = Map.empty, sw_events = []\<rparr>"

lemma demo_server: "session_redis (sc_server demo_cache)"
  using ttl_sessions.session_redis_axioms by (simp add: demo_cache_def)

theorem revocation_is_immediate_witness:
  "\<exists>pending w' st. manager_revoke (demo_session_env (Some demo_cache) 1000) ''org'' ''s1'' ReasonLogout ''usr'' 1000 stale_world = Inr (pending, w') \<and>
     run_invalidations (Some demo_cache) 1000 (\<lambda>_. Served) pending Map.empty = (True, st) \<and>
     (let st2 = snd (cache_put (Some demo_cache) 1000 Served (hash_token demo_cookie) demo_session st) in
      \<not> is_ok (fst (manager_lookup (demo_session_env (Some demo_cache) 1000) demo_cookie default_policy 1000
        \<lparr>sw_rows = sw_rows w', sw_redis = st2, sw_events = []\<rparr>)))"
proof -
  let ?env = "demo_session_env (Some demo_cache) 1000" and ?h = "hash_token demo_cookie"
  have "\<exists>pending w'. manager_revoke ?env ''org'' ''s1'' ReasonLogout ''usr'' 1000 stale_world = Inr (pending, w')"
    by (simp add: manager_revoke_def revoke_session_def revoke_rows_def stale_world_def of_org_def demo_session_defs
        demo_session_env_def write_event_def session_revoked_event_def event_session_revoked_def Let_def)
  then obtain pending w' where rev: "manager_revoke ?env ''org'' ''s1'' ReasonLogout ''usr'' 1000 stale_world = Inr (pending, w')"
    by blast
  have inv: "session_inv stale_state" by (rule session_reachable_inv [OF stale_reachable])
  have row: "demo_session_row \<in> set (sp_rows stale_state)" "sn_org (sr_session demo_session_row) = ''org''"
    "sn_id (sr_session demo_session_row) = ''s1''" "sr_hash demo_session_row = Some ?h" "sr_revoked demo_session_row = None"
    "sn_expires (sr_session demo_session_row) \<le> sp_now stale_state + max_int64" "sw_rows stale_world = sp_rows stale_state"
    by (simp_all add: stale_state_def stale_world_def demo_session_defs duration_defs max_int64_def)
  from manager_revoke_result [OF inv row(1-4) _ row(5) rev row(7)]
  have p: "pending = [(?h, sn_expires demo_session)]" by (simp add: demo_session_row_def)
  obtain st where run: "run_invalidations (Some demo_cache) 1000 (\<lambda>_. Served) pending Map.empty = (True, st)"
    by (simp add: p cache_invalidate_def redis_call_def Let_def demo_cache_def invalidate_pipeline_def)
  let ?s1 = "stale_state\<lparr>sp_rows := sw_rows w'\<rparr>"
  let ?s2 = "?s1\<lparr>sp_redis := st, sp_redis := snd (cache_put (Some demo_cache) 1000 Served ?h demo_session st)\<rparr>"
  have "session_step demo_cache (?s1\<lparr>sp_redis := st\<rparr>) ?s2"
    using session_step.fill [of ?h demo_session "?s1\<lparr>sp_redis := st\<rparr>" demo_cache Served] by (simp add: stale_state_def)
  then have later: "(session_step demo_cache)\<^sup>*\<^sup>* (?s1\<lparr>sp_redis := st\<rparr>) ?s2" by blast
  have "\<not> is_ok (fst (manager_lookup ?env demo_cookie default_policy 1000
        \<lparr>sw_rows = sw_rows w', sw_redis = snd (cache_put (Some demo_cache) 1000 Served ?h demo_session st), sw_events = []\<rparr>))"
    by (rule revocation_is_immediate [OF demo_server stale_reachable row(1-6) rev row(7) rtranclp.rtrancl_refl _ later,
          of "\<lambda>_. Served"])
      (use run in \<open>simp_all add: stale_state_def demo_session_env_def\<close>)
  with rev run show ?thesis by (auto simp: Let_def)
qed

text \<open>
  C12. Logging out everywhere ends every live session the user has in the organization: once the
  revocation committed and its invalidations were acknowledged, none of their cookies is
  answered again.
\<close>

theorem logout_everywhere:
  assumes server: "session_redis (sc_server c)" and reach: "session_reachable c s"
    and rev: "manager_revoke_all env org user event_org actor at w = Inr (pending, w')" "sw_rows w = sp_rows s"
    and row: "r \<in> set (sp_rows s)" "sn_org (sr_session r) = org" "sn_user (sr_session r) = user"
      "sr_hash r = Some (hash_token cookie)" "row_live at r" "sn_expires (sr_session r) \<le> at + max_absolute_lifetime"
    and clock: "at \<le> sp_now s"
    and committed: "(session_step c)\<^sup>*\<^sup>* (s\<lparr>sp_rows := sw_rows w'\<rparr>) s1"
    and acknowledged: "run_invalidations (Some c) (sp_now s1) fate pending (sp_redis s1) = (True, st)"
    and later: "(session_step c)\<^sup>*\<^sup>* (s1\<lparr>sp_redis := st\<rparr>) s2"
    and asked: "sv_cache env2 = Some c" "sv_clock env2 = sp_now s2" "sw_rows w2 = sp_rows s2" "sw_redis w2 = sp_redis s2"
  shows "\<not> is_ok (fst (manager_lookup env2 cookie policy now w2))"
proof -
  let ?h = "hash_token cookie" and ?P = "\<lambda>r. of_org org r \<and> sn_user (sr_session r) = user \<and> row_live at r"
  let ?s = "s\<lparr>sp_rows := sw_rows w'\<rparr>" and ?rows = "snd (revoke_rows ?P at (sp_rows s))"
  have inv: "session_inv s" using reach by (rule session_reachable_inv)
  have P: "?P r" using row by (simp add: of_org_def)
  let ?found = "filter ?P (sp_rows s)"
  have rv: "revoke_sessions_of_user org user at (sp_rows s) = (ids_and_hashes ?found, ?rows)"
    by (simp add: revoke_sessions_of_user_def revoke_matching_def revoke_rows_def)
  have "r \<in> set ?found" using row(1) P by simp
  then have "fst (ids_and_hashes ?found) \<noteq> []" by (auto simp: ids_and_hashes_def filter_empty_conv)
  with rev rv have res: "pending = map (\<lambda>h. (h, until_all at)) (snd (ids_and_hashes ?found))" "sw_rows w' = ?rows"
    by (auto simp: manager_revoke_all_def split: prod.splits sum.splits if_splits)
  have hp: "?h \<in> fst ` set pending"
    using \<open>r \<in> set ?found\<close> row(4) by (force simp: res(1) ids_and_hashes_def hash_or_empty_def image_iff)
  have hashed: "proper_hash (hash_or_empty x)" if "x \<in> set (sp_rows s)" for x
    using inv that by (force simp: session_inv_def hash_or_empty_def)
  have proper: "proper_hash h'" "e' = until_all at" if "(h', e') \<in> set pending" for h' e'
  proof -
    from that show "e' = until_all at" by (auto simp: res(1))
    from that obtain x where "x \<in> set (sp_rows s)" "h' = hash_or_empty x"
      by (auto simp: res(1) ids_and_hashes_def)
    with hashed show "proper_hash h'" by simp
  qed
  have step: "session_step c s ?s" by (simp add: res(2) session_step.end_rows)
  have uh: "x = r" if "x \<in> set (sp_rows s)" "sr_hash x = Some ?h" for x
    using inv that row(1,4) by (auto simp: session_inv_def distinct_map inj_on_def)
  then have dead: "dead_rows ?h ?s" using P by (auto simp: dead_rows_def res(2) revoke_rows_def)
  have u: "(?h, sn_expires (sr_session r)) \<in> set (sp_used ?s)" using inv row(1,4) by (force simp: session_inv_def)
  then have "?h \<in> fst ` set (sp_used ?s)" by force
  with session_steps_dead [OF committed this dead] clock have now: "at \<le> sp_now s1" by auto
  have until: "until_all at \<le> t + max_int64" if "at \<le> t" for t
    using that by (simp add: until_all_def time_add_def policy_defs max_int64_def)
  have exp: "sn_expires (sr_session r) \<le> until_all at" using row(6) by (simp add: until_all_def time_add_def)
  have hs: "\<forall>(h', e') \<in> set pending. proper_hash h' \<and>
      (h' = ?h \<longrightarrow> sn_expires (sr_session r) \<le> e' \<and> e' \<le> sp_now s1 + max_int64)"
    using proper exp until [OF now] by (metis (mono_tags, lifting) case_prodI2)
  have "sn_expires (sr_session r) \<le> sp_now ?s + max_int64" using exp until [OF clock] by simp
  then have "ended c ?h s2"
    by (rule acknowledged_is_final [OF server session_step_inv [OF step inv] dead u _ committed acknowledged hp hs later])
  then show ?thesis by (rule ended_refused [OF _ asked])
qed

theorem logout_everywhere_witness:
  "\<exists>pending w' st. manager_revoke_all (demo_session_env (Some demo_cache) 1000) ''org'' ''usr'' ''org'' ''usr'' 1000 stale_world = Inr (pending, w') \<and>
     run_invalidations (Some demo_cache) 1000 (\<lambda>_. Served) pending Map.empty = (True, st) \<and>
     \<not> is_ok (fst (manager_lookup (demo_session_env (Some demo_cache) 1000) demo_cookie default_policy 1000
        \<lparr>sw_rows = sw_rows w', sw_redis = st, sw_events = []\<rparr>))"
proof -
  let ?env = "demo_session_env (Some demo_cache) 1000" and ?h = "hash_token demo_cookie"
  have "\<exists>w'. manager_revoke_all ?env ''org'' ''usr'' ''org'' ''usr'' 1000 stale_world = Inr ([(?h, until_all 1000)], w')"
    by (simp add: manager_revoke_all_def revoke_sessions_of_user_def revoke_matching_def revoke_rows_def stale_world_def
        of_org_def demo_session_defs demo_session_env_def write_event_def session_revoked_event_def row_live_def
        event_session_revoked_def ids_and_hashes_def hash_or_empty_def duration_defs Let_def)
  then obtain w' where rev: "manager_revoke_all ?env ''org'' ''usr'' ''org'' ''usr'' 1000 stale_world = Inr ([(?h, until_all 1000)], w')"
    by blast
  obtain st where run: "run_invalidations (Some demo_cache) 1000 (\<lambda>_. Served) [(?h, until_all 1000)] Map.empty = (True, st)"
    by (simp add: cache_invalidate_def redis_call_def Let_def demo_cache_def invalidate_pipeline_def)
  have "\<not> is_ok (fst (manager_lookup ?env demo_cookie default_policy 1000
        \<lparr>sw_rows = sw_rows w', sw_redis = st, sw_events = []\<rparr>))"
    by (rule logout_everywhere [where r = demo_session_row and fate = "\<lambda>_. Served" and st = st,
          OF demo_server stale_reachable rev _ _ _ _ _ _ _ _ rtranclp.rtrancl_refl _ rtranclp.rtrancl_refl])
      (use run in \<open>simp_all add: stale_state_def stale_world_def demo_session_env_def demo_session_defs row_live_def duration_defs
         max_absolute_lifetime_def\<close>)
  with rev run show ?thesis by blast
qed

section \<open>Lifetimes\<close>

text \<open>
  Whatever policy an organization configures, a session lives for at least five minutes and at
  most thirty days, its idle timeout never exceeds its lifetime, and a positive one is at least a
  minute; a policy is changed by the clamp exactly when a correction is reported.
\<close>

theorem session_lifetime_bounds:
  assumes "create_session parse_ip org db_ok i drawn n policy at tbl = Inr ((s, cookie), rows)"
  shows "at + min_absolute_lifetime \<le> sn_expires s \<and> sn_expires s \<le> at + max_absolute_lifetime \<and>
    policy_bounded (fst (sanitize policy)) \<and> (snd (sanitize policy) = [] \<longleftrightarrow> fst (sanitize policy) = policy) \<and>
    (\<forall>t. session_alive s (pol_idle policy) t \<longrightarrow> t < at + max_absolute_lifetime)"
proof -
  have b: "policy_bounded (fst (sanitize policy))" by simp
  from assms obtain r where e: "sn_expires s = at + pol_absolute (fst (sanitize policy))"
    by (rule create_sessionE) blast
  have "snd (sanitize policy) = [] \<longleftrightarrow> fst (sanitize policy) = policy"
    by (metis b fst_conv sanitize_id sanitize_reports)
  with b e show ?thesis by (auto simp: policy_bounded_def alive_defs)
qed

theorem session_lifetime_bounds_witness:
  "1000 + min_absolute_lifetime \<le> sn_expires demo_session \<and> sn_expires demo_session \<le> 1000 + max_absolute_lifetime"
  using session_lifetime_bounds [OF demo_created] by simp

text \<open>
  \<open>WithLifetimeHours\<close> promises to clamp hours that are out of range. From 2562048 hours on the product
  overflows and a longest possible lifetime is clamped to the shortest one, five minutes.
\<close>

theorem lifetime_hours_overflow:
  assumes "2562048 \<le> hours" and "hours \<le> 5124095" and "pol_idle p \<le> 0"
  shows "pol_absolute (with_lifetime_hours p hours) = min_absolute_lifetime"
proof -
  have "(hours * 3600000000000 + 9223372036854775808) mod 18446744073709551616 =
      hours * 3600000000000 + 9223372036854775808 - 18446744073709551616"
    using assms(1,2) by (subst minus_mod_self2 [symmetric], intro mod_pos_pos_trivial) auto
  then have "hours_duration hours < min_absolute_lifetime"
    using assms(1,2) by (simp add: hours_duration_def wrap64_def policy_defs)
  then show ?thesis
    using assms by (auto simp: with_lifetime_hours_def sanitize_def policy_defs Let_def)
qed

theorem lifetime_hours_overflow_witness:
  "pol_absolute (with_lifetime_hours \<lparr>pol_absolute = 12 * hour, pol_idle = 0\<rparr> 2562048) = 5 * minute"
  using lifetime_hours_overflow [of 2562048 "\<lparr>pol_absolute = 12 * hour, pol_idle = 0\<rparr>"]
  by (simp add: min_absolute_lifetime_def)

section \<open>Where two answers differ\<close>

text \<open>
  A session that is past its idle timeout is refused by \<open>Lookup\<close>, and yet \<open>IsLive\<close>, which decides
  whether a refresh token behind it may be used, reports it usable: idleness is not asked of
  \<open>session_live\<close>.
\<close>

theorem idle_session_reported_live:
  assumes hashes: "distinct (map sr_hash (sw_rows w))"
    and row: "r \<in> set (sw_rows w)" "row_live now r" "sr_hash r = Some (hash_token cookie)" "sn_id (sr_session r) \<noteq> []"
    and idle: "expired_idle (sr_session r) (pol_idle policy) now"
    and cold: "cache_get (sv_cache env) (sv_clock env) (sv_get env) (hash_token cookie) (sw_redis w) = None"
  shows "\<not> is_ok (fst (manager_lookup env cookie policy now w)) \<and>
    manager_is_live True (sw_rows w) (sn_id (sr_session r)) now"
proof -
  have uh: "x = r" if "x \<in> set (sw_rows w)" "sr_hash x = Some (hash_token cookie)" for x
    using hashes that row(1,3) by (auto simp: distinct_map inj_on_def)
  have "List.find (\<lambda>r. sr_hash r = Some (hash_token cookie) \<and> row_live now r) (sw_rows w) = Some r"
    by (rule find_unique) (use row(1-3) uh in \<open>blast+\<close>)
  then have "\<not> is_ok (fst (manager_lookup env cookie policy now w))"
    using cold idle by (simp add: manager_lookup_def lookup_by_token_hash_def Let_def)
  moreover have "session_live (sw_rows w) (sn_id (sr_session r)) now"
    using row(1,2) by (auto simp: session_live_def list_ex_iff)
  ultimately show ?thesis using row(4) by (simp add: manager_is_live_def)
qed

theorem idle_session_reported_live_witness:
  "\<not> is_ok (fst (manager_lookup (demo_session_env None (1001 + 2 * hour)) demo_cookie default_policy (1001 + 2 * hour) stale_world)) \<and>
    manager_is_live True [demo_session_row] ''s1'' (1001 + 2 * hour)"
  using idle_session_reported_live [of stale_world demo_session_row "1001 + 2 * hour" demo_cookie default_policy
      "demo_session_env None (1001 + 2 * hour)"]
  by (simp add: stale_world_def demo_session_defs row_live_def expired_idle_def time_defs duration_defs default_policy_def
      time_sub_def min_int64_def max_int64_def demo_session_env_def cache_get_def)

text \<open>
  A browser's user agent is cut after 512 bytes, which may fall inside a character: then the database
  refuses the row and a login that was otherwise accepted gets no session, although the agent is
  well-formed text.
\<close>

theorem long_user_agent_refused:
  assumes "length pre = 511" and "list_all (\<lambda>c. 0 < ord_of c \<and> ord_of c < 0x80) pre"
    and "nw_agent n = pre @ [CHR 0xC3, CHR 0xA9]" and "nw_methods n \<noteq> []" and "length bs = 32"
  shows "utf8_text (nw_agent n) \<and> \<not> is_ok (create_session parse_ip org db_ok i (Some bs) n policy at tbl)"
proof -
  have ascii: "list_all (\<lambda>c. 0 < ord_of c \<and> ord_of c < 0x80) xs \<Longrightarrow> utf8_text (xs @ ys) = utf8_text ys" for xs ys
    by (induction xs) (auto simp: Let_def)
  have "utf8_text (nw_agent n)" unfolding assms(3) ascii [OF assms(2)] by (simp add: cont_byte_def)
  moreover have "take 512 (nw_agent n) = pre @ [CHR 0xC3]" using assms(1) by (simp add: assms(3))
  then have "\<not> utf8_text (take 512 (nw_agent n))" using ascii [OF assms(2)] by simp
  moreover have "512 < length (nw_agent n)" using assms(1) by (simp add: assms(3))
  ultimately show ?thesis using assms(4)
    by (auto simp: create_session_def insert_session_def max_user_agent_def Let_def)
qed

theorem long_user_agent_refused_witness:
  "\<not> is_ok (create_session (\<lambda>_. None) ''org'' True ''s1'' (Some (replicate 32 0))
     (demo_new\<lparr>nw_agent := replicate 511 (CHR ''a'') @ [CHR 0xC3, CHR 0xA9]\<rparr>) default_policy 1000 [])"
proof -
  let ?n = "demo_new\<lparr>nw_agent := replicate 511 (CHR ''a'') @ [CHR 0xC3, CHR 0xA9]\<rparr>"
  have "list_all (\<lambda>c. 0 < ord_of c \<and> ord_of c < 0x80) (replicate k (CHR ''a''))" for k
    by (induction k) auto
  from long_user_agent_refused [OF _ this, of 511 ?n "replicate 32 0"] show ?thesis
    by (simp add: demo_new_def)
qed

end
