(* ===== verification/SigningKeys.thy ===== *)
theory SigningKeys
  imports GoStd "HOL-Library.Sublist" "HOL-Library.Char_ord" "HOL-Library.List_Lexorder" "HOL-Library.Multiset"
begin

text \<open>
  Signing keys (\<open>internal/signing\<close>): the key set and what it publishes, the bounded cache in front of the
  table, the table's life cycle next, current, previous, retired, and signing and verification of
  a compact JWS. The JWS library, the parsing of PEM and the secret store are parameters.
\<close>

section \<open>Keys and key sets\<close>

datatype key_status = NextKey | CurrentKey | PreviousKey | RetiredKey

definition status_verifying :: "key_status \<Rightarrow> bool" where
  "status_verifying s \<longleftrightarrow> s = NextKey \<or> s = CurrentKey \<or> s = PreviousKey"

datatype algorithm = RS256 | ES256

definition algorithm_text :: "algorithm \<Rightarrow> string" where
  "algorithm_text a = (case a of RS256 \<Rightarrow> ''RS256'' | ES256 \<Rightarrow> ''ES256'')"

definition algorithm_of_text :: "string \<Rightarrow> algorithm option" where
  "algorithm_of_text t = (if t = ''RS256'' then Some RS256 else if t = ''ES256'' then Some ES256 else None)"

lemma algorithm_text_inj [simp]: "algorithm_text a = algorithm_text b \<longleftrightarrow> a = b"
  by (cases a; cases b) (simp_all add: algorithm_text_def)

lemma algorithm_of_text_iff: "algorithm_of_text t = Some a \<longleftrightarrow> t = algorithm_text a"
  by (cases a) (auto simp: algorithm_of_text_def algorithm_text_def)

record ('pub, 'prv) signing_key =
  k_kid :: string
  k_alg :: algorithm
  k_status :: key_status
  k_public :: 'pub
  k_cert :: string
  k_private :: "'prv option"

datatype key_error =
    DuplicateKid string | TwoCurrent string string | NoCurrentKey | UnknownKid string | KeyRetired string
  | NotSigning | KeysNotLoaded | UnsupportedAlgorithm string | MalformedKey string | PrivateKeyUnresolved string
  | NoNextKey | NotPrevious string | KeyStoreFailure

definition can_sign :: "('pub, 'prv) signing_key \<Rightarrow> bool" where
  "can_sign k \<longleftrightarrow> k_status k = CurrentKey \<and> k_private k \<noteq> None"

text \<open>The message of the error names the key, so that a nil key, which the condition admits, panics: \<open>None\<close>.\<close>

definition key_signer :: "('pub, 'prv) signing_key option \<Rightarrow> (key_error + 'prv) option" where
  "key_signer k = (case k of None \<Rightarrow> None
     | Some k \<Rightarrow> Some (if \<not> can_sign k then Inl NotSigning else Inr (the (k_private k))))"

record ('pub, 'prv) key_set =
  ks_keys :: "string \<Rightarrow> ('pub, 'prv) signing_key option"
  ks_current :: "('pub, 'prv) signing_key option"

fun add_keys :: "('pub, 'prv) key_set \<Rightarrow> ('pub, 'prv) signing_key list \<Rightarrow> key_error + ('pub, 'prv) key_set" where
  "add_keys s [] = Inr s"
| "add_keys s (k # ks) =
     (if ks_keys s (k_kid k) \<noteq> None then Inl (DuplicateKid (k_kid k))
      else let s = s\<lparr>ks_keys := (ks_keys s)(k_kid k \<mapsto> k)\<rparr> in
        if k_status k = CurrentKey then
          (case ks_current s of
             Some c \<Rightarrow> Inl (TwoCurrent (k_kid c) (k_kid k))
           | None \<Rightarrow> add_keys (s\<lparr>ks_current := Some k\<rparr>) ks)
        else add_keys s ks)"

definition new_key_set :: "('pub, 'prv) signing_key list \<Rightarrow> key_error + ('pub, 'prv) key_set" where
  "new_key_set ks = add_keys \<lparr>ks_keys = Map.empty, ks_current = None\<rparr> ks"

definition current_key :: "('pub, 'prv) key_set \<Rightarrow> key_error + ('pub, 'prv) signing_key" where
  "current_key s = (case ks_current s of None \<Rightarrow> Inl NoCurrentKey
     | Some k \<Rightarrow> if \<not> can_sign k then Inl NoCurrentKey else Inr k)"

definition by_kid :: "('pub, 'prv) key_set \<Rightarrow> string \<Rightarrow> key_error + ('pub, 'prv) signing_key" where
  "by_kid s kid = (case ks_keys s kid of None \<Rightarrow> Inl (UnknownKid kid)
     | Some k \<Rightarrow> if \<not> status_verifying (k_status k) then Inl (KeyRetired kid) else Inr k)"

text \<open>\<open>sortByKID\<close>: insertion sort by adjacent swaps, on positions.\<close>

fun sift :: "nat \<Rightarrow> ('pub, 'prv) signing_key list \<Rightarrow> ('pub, 'prv) signing_key list" where
  "sift 0 ks = ks"
| "sift (Suc j) ks =
     (if k_kid (ks ! Suc j) < k_kid (ks ! j) then sift j (ks[Suc j := ks ! j, j := ks ! Suc j]) else ks)"

definition sort_by_kid :: "('pub, 'prv) signing_key list \<Rightarrow> ('pub, 'prv) signing_key list" where
  "sort_by_kid ks = fold sift [1..<length ks] ks"

text \<open>The iteration over the Go map visits its keys in some order.\<close>

definition verifying_keys :: "string list \<Rightarrow> ('pub, 'prv) key_set \<Rightarrow> ('pub, 'prv) signing_key list" where
  "verifying_keys order s =
     (let ks = map (the \<circ> ks_keys s) order
      in filter (\<lambda>k. k_status k = CurrentKey) ks @
         sort_by_kid (filter (\<lambda>k. k_status k = NextKey) ks) @
         sort_by_kid (filter (\<lambda>k. k_status k = PreviousKey) ks))"

record 'pub jwk =
  jwk_key :: 'pub
  jwk_kid :: string
  jwk_alg :: string
  jwk_use :: string

definition jwks :: "string list \<Rightarrow> ('pub, 'prv) key_set \<Rightarrow> 'pub jwk list" where
  "jwks order s = map (\<lambda>k. \<lparr>jwk_key = k_public k, jwk_kid = k_kid k, jwk_alg = algorithm_text (k_alg k), jwk_use = ''sig''\<rparr>)
     (verifying_keys order s)"

section \<open>The insertion sort\<close>

fun insert_right :: "('pub, 'prv) signing_key \<Rightarrow> ('pub, 'prv) signing_key list \<Rightarrow> ('pub, 'prv) signing_key list" where
  "insert_right x [] = [x]"
| "insert_right x (y # ys) =
     (if k_kid x < k_kid y then x # y # ys else y # insert_right x ys)"

lemma mset_insert_right [simp]: "mset (insert_right x ys) = add_mset x (mset ys)"
  by (induction ys) auto

lemma set_insert_right [simp]: "set (insert_right x ys) = insert x (set ys)"
  by (induction ys) auto

lemma sorted_insert_right: "sorted (map k_kid ys) \<Longrightarrow> sorted (map k_kid (insert_right x ys))"
  by (induction ys) auto

lemma insert_right_snoc:
  "sorted (map k_kid (ys @ [y])) \<Longrightarrow>
     insert_right x (ys @ [y]) = (if k_kid x < k_kid y then insert_right x ys @ [y] else ys @ [y, x])"
  by (induction ys) (auto simp: sorted_append)

lemma sift_insert:
  "sorted (map k_kid ys) \<Longrightarrow> sift (length ys) (ys @ x # zs) = insert_right x ys @ zs"
proof (induction ys arbitrary: zs rule: rev_induct)
  case (snoc y ys)
  have s: "sorted (map k_kid ys)" using snoc.prems by (simp add: sorted_append)
  have "sift (length (ys @ [y])) ((ys @ [y]) @ x # zs) =
      (if k_kid x < k_kid y then sift (length ys) (ys @ x # y # zs) else ys @ y # x # zs)"
    by (simp add: nth_append list_update_append)
  with snoc.IH [OF s, of "y # zs"] insert_right_snoc [OF snoc.prems, of x] show ?case by simp
qed simp

lemma sift_step:
  assumes "n < length ks" "0 < n" "sorted (map k_kid (take n ks))"
  shows "take (Suc n) (sift n ks) = insert_right (ks ! n) (take n ks) \<and> drop (Suc n) (sift n ks) = drop (Suc n) ks"
proof -
  have "ks = take n ks @ ks ! n # drop (Suc n) ks" by (rule id_take_nth_drop [OF assms(1)])
  then have "sift n ks = sift (length (take n ks)) (take n ks @ ks ! n # drop (Suc n) ks)"
    using assms(1) by simp
  also have "\<dots> = insert_right (ks ! n) (take n ks) @ drop (Suc n) ks" by (rule sift_insert [OF assms(3)])
  finally have e: "sift n ks = insert_right (ks ! n) (take n ks) @ drop (Suc n) ks" .
  have "length (insert_right (ks ! n) (take n ks)) = Suc n"
    using assms(1) mset_insert_right [of "ks ! n" "take n ks"] by (metis length_take min.absorb4 size_add_mset size_mset)
  with e show ?thesis by simp
qed

lemma mset_sift:
  assumes "n < length ks" "0 < n" "sorted (map k_kid (take n ks))"
  shows "mset (sift n ks) = mset ks"
proof -
  have "mset (sift n ks) = mset (take (Suc n) (sift n ks)) + mset (drop (Suc n) (sift n ks))"
    by (metis append_take_drop_id mset_append)
  also have "\<dots> = add_mset (ks ! n) (mset (take n ks)) + mset (drop (Suc n) ks)"
    using sift_step [OF assms] by simp
  also have "\<dots> = mset ks"
    using id_take_nth_drop [OF assms(1)] by (metis mset.simps(2) mset_append union_mset_add_mset_left union_mset_add_mset_right)
  finally show ?thesis .
qed

lemma sort_loop:
  assumes "n \<le> length ks"
  shows "let r = fold sift [1..<n] ks in mset r = mset ks \<and> length r = length ks \<and> sorted (map k_kid (take n r))"
  using assms
proof (induction n)
  case (Suc n)
  let ?r = "fold sift [1..<n] ks"
  from Suc have IH: "mset ?r = mset ks" "length ?r = length ks" "sorted (map k_kid (take n ?r))"
    by (simp_all add: Let_def)
  show ?case
  proof (cases n)
    case 0
    then show ?thesis by (cases ks) simp_all
  next
    case (Suc m)
    then have f: "fold sift [1..<Suc n] ks = sift n ?r" by simp
    from IH Suc.prems Suc have n: "n < length ?r" "0 < n" by simp_all
    from sift_step [OF n IH(3)] have "take (Suc n) (sift n ?r) = insert_right (?r ! n) (take n ?r)" by simp
    then have "sorted (map k_kid (take (Suc n) (sift n ?r)))" using sorted_insert_right [OF IH(3)] by simp
    moreover have "mset (sift n ?r) = mset ks" using mset_sift [OF n IH(3)] IH(1) by simp
    ultimately show ?thesis unfolding f Let_def by (metis size_mset)
  qed
qed (simp add: Let_def)

lemma sort_by_kid_sorts: "mset (sort_by_kid ks) = mset ks \<and> sorted (map k_kid (sort_by_kid ks))"
proof -
  have s: "mset (sort_by_kid ks) = mset ks" "length (sort_by_kid ks) = length ks"
    "sorted (map k_kid (take (length ks) (sort_by_kid ks)))"
    using sort_loop [OF order_refl, of ks] unfolding sort_by_kid_def Let_def by blast+
  moreover have "take (length ks) (sort_by_kid ks) = sort_by_kid ks" using s(2) by simp
  ultimately show ?thesis by metis
qed

lemma set_sort_by_kid [simp]: "set (sort_by_kid ks) = set ks"
  using sort_by_kid_sorts [of ks] mset_eq_setD by blast

text \<open>On keys with distinct ids there is one sorted list: the sort forgets the order it was given.\<close>

lemma sort_by_kid_unique:
  assumes "mset xs = mset ys" "distinct (map k_kid xs)"
  shows "sort_by_kid xs = sort_by_kid ys"
proof -
  have m: "mset (sort_by_kid xs) = mset (sort_by_kid ys)"
    using sort_by_kid_sorts [of xs] sort_by_kid_sorts [of ys] assms(1) by simp
  have "map k_kid (sort_by_kid xs) = map k_kid (sort_by_kid ys)"
    using m sort_by_kid_sorts by (metis mset_map properties_for_sort)
  moreover have "inj_on k_kid (set (sort_by_kid xs) \<union> set (sort_by_kid ys))"
    using assms by (simp add: distinct_map flip: mset_eq_setD [OF assms(1)])
  ultimately show ?thesis by (metis inj_on_map_eq_map)
qed

end
