(* ===== verification/KeyStore.thy ===== *)
theory KeyStore
  imports SigningKeys
begin

text \<open>
  The table of signing keys (\<open>internal/signing/store.go\<close>), the cache of the key set (\<open>Cache\<close> in
  \<open>keyset.go\<close>) and the signer and verifier over it (\<open>sign.go\<close>). Clock readings of the cache and the
  result of a load are arguments, in the order the code takes them.
\<close>

section \<open>The cache\<close>

record ('pub, 'prv) key_cache =
  kc_set :: "('pub, 'prv) key_set option"
  kc_refreshed :: time
  kc_ttl :: duration

definition key_cache_ttl :: duration where "key_cache_ttl = 5 * minute"

definition new_key_cache :: "duration \<Rightarrow> ('pub, 'prv) key_cache" where
  "new_key_cache ttl = \<lparr>kc_set = None, kc_refreshed = zero_time, kc_ttl = (if ttl \<le> 0 then key_cache_ttl else ttl)\<rparr>"

text \<open>The check under the read lock, and again under the write lock.\<close>

definition cache_fresh :: "time \<Rightarrow> ('pub, 'prv) key_cache \<Rightarrow> ('pub, 'prv) key_set option" where
  "cache_fresh t c = (case kc_set c of None \<Rightarrow> None
     | Some s \<Rightarrow> if time_sub t (kc_refreshed c) < kc_ttl c then Some s else None)"

definition cache_reload ::
  "time \<Rightarrow> key_error + ('pub, 'prv) key_set \<Rightarrow> time \<Rightarrow> ('pub, 'prv) key_cache
    \<Rightarrow> (key_error + ('pub, 'prv) key_set) \<times> ('pub, 'prv) key_cache" where
  "cache_reload t loaded t' c =
     (case cache_fresh t c of
        Some s \<Rightarrow> (Inr s, c)
      | None \<Rightarrow>
          (case loaded of
             Inl e \<Rightarrow> (case kc_set c of Some s \<Rightarrow> (Inr s, c) | None \<Rightarrow> (Inl KeysNotLoaded, c))
           | Inr s \<Rightarrow> (Inr s, c\<lparr>kc_set := Some s, kc_refreshed := t'\<rparr>)))"

definition keys_get ::
  "time \<Rightarrow> time \<Rightarrow> key_error + ('pub, 'prv) key_set \<Rightarrow> time \<Rightarrow> ('pub, 'prv) key_cache
    \<Rightarrow> (key_error + ('pub, 'prv) key_set) \<times> ('pub, 'prv) key_cache" where
  "keys_get t0 t1 loaded t2 c =
     (case cache_fresh t0 c of Some s \<Rightarrow> (Inr s, c) | None \<Rightarrow> cache_reload t1 loaded t2 c)"

definition keys_invalidate :: "('pub, 'prv) key_cache \<Rightarrow> ('pub, 'prv) key_cache" where
  "keys_invalidate c = c\<lparr>kc_refreshed := zero_time\<rparr>"

section \<open>Signing and verification\<close>

text \<open>
  What the JWS library does: it signs a payload under an algorithm, a type and a key id; parses a
  compact form against a list of admitted algorithms; and checks a parsed signature under a key.
\<close>

record jws_header =
  jh_alg :: string
  jh_kid :: string
  jh_typ :: "string option"

datatype jws_parse = AlgorithmRefused | NotParsed | Signatures "jws_header list"

record ('pub, 'prv) jose =
  jo_sign :: "string \<Rightarrow> 'prv \<Rightarrow> string \<Rightarrow> string \<Rightarrow> string \<Rightarrow> string option"
  jo_parse :: "string list \<Rightarrow> string \<Rightarrow> jws_parse"
  jo_verify :: "string \<Rightarrow> 'pub \<Rightarrow> string option"

datatype token_error =
    TypeRequired | AlgorithmNotAllowed | TokenNotParsed | InvalidSignature | WrongType | MissingKid
  | Keys key_error | NotSigned

definition allowed_algorithms :: "string list" where "allowed_algorithms = [''RS256'', ''ES256'']"

definition sign_with_type ::
  "('pub, 'prv) jose \<Rightarrow> key_error + ('pub, 'prv) key_set \<Rightarrow> string \<Rightarrow> string \<Rightarrow> token_error + string" where
  "sign_with_type j got payload ty =
     (case got of
        Inl e \<Rightarrow> Inl (Keys e)
      | Inr s \<Rightarrow>
          (case current_key s of
             Inl e \<Rightarrow> Inl (Keys e)
           | Inr k \<Rightarrow>
               (case jo_sign j (algorithm_text (k_alg k)) (the (k_private k)) ty (k_kid k) payload of
                  None \<Rightarrow> Inl NotSigned
                | Some compact \<Rightarrow> Inr compact)))"

definition jws_type_jwt :: string where "jws_type_jwt = ''JWT''"

definition sign_payload :: "('pub, 'prv) jose \<Rightarrow> key_error + ('pub, 'prv) key_set \<Rightarrow> string \<Rightarrow> token_error + string" where
  "sign_payload j got payload = sign_with_type j got payload jws_type_jwt"

definition current_kid :: "key_error + ('pub, 'prv) key_set \<Rightarrow> key_error + string" where
  "current_kid got = bindE got (\<lambda>s. bindE (current_key s) (\<lambda>k. Inr (k_kid k)))"

definition verify_token ::
  "('pub, 'prv) jose \<Rightarrow> key_error + ('pub, 'prv) key_set \<Rightarrow> string \<Rightarrow> string \<Rightarrow> token_error + string" where
  "verify_token j got compact want =
     (if want = [] then Inl TypeRequired
      else case jo_parse j allowed_algorithms compact of
        AlgorithmRefused \<Rightarrow> Inl AlgorithmNotAllowed
      | NotParsed \<Rightarrow> Inl TokenNotParsed
      | Signatures hs \<Rightarrow>
          (case hs of
             [h] \<Rightarrow>
               if (case jh_typ h of None \<Rightarrow> [] | Some t \<Rightarrow> t) \<noteq> want then Inl WrongType
               else if jh_kid h = [] then Inl MissingKid
               else (case got of
                  Inl e \<Rightarrow> Inl (Keys e)
                | Inr s \<Rightarrow>
                    (case by_kid s (jh_kid h) of
                       Inl e \<Rightarrow> Inl (Keys e)
                     | Inr k \<Rightarrow>
                         if algorithm_text (k_alg k) \<noteq> jh_alg h then Inl AlgorithmNotAllowed
                         else (case jo_verify j compact (k_public k) of
                           None \<Rightarrow> Inl InvalidSignature
                         | Some payload \<Rightarrow> Inr payload)))
           | _ \<Rightarrow> Inl InvalidSignature))"

section \<open>The table\<close>

datatype key_purpose = PurposeOIDC | PurposeSAML

record key_row =
  kr_kid :: string
  kr_purpose :: key_purpose
  kr_alg :: string
  kr_public :: string
  kr_ref :: string
  kr_status :: key_status
  kr_cert :: "string option"
  kr_created :: time
  kr_activated :: "time option"
  kr_retired :: "time option"

type_synonym key_table = "key_row list"

text \<open>What loading a row needs: PEM parsing, the algorithm a public key is for, the secret store.\<close>

record ('pub, 'prv) key_reader =
  kd_public :: "string \<Rightarrow> 'pub option"
  kd_algorithm :: "'pub \<Rightarrow> algorithm option"
  kd_resolve :: "string \<Rightarrow> string option"
  kd_private :: "string \<Rightarrow> 'prv option"

definition load_row :: "('pub, 'prv) key_reader \<Rightarrow> key_row \<Rightarrow> key_error + ('pub, 'prv) signing_key" where
  "load_row rd r =
     (case algorithm_of_text (kr_alg r) of
        None \<Rightarrow> Inl (UnsupportedAlgorithm (kr_kid r))
      | Some alg \<Rightarrow>
          (case kd_public rd (kr_public r) of
             None \<Rightarrow> Inl (MalformedKey (kr_kid r))
           | Some pub \<Rightarrow>
               (case kd_algorithm rd pub of
                  None \<Rightarrow> Inl (MalformedKey (kr_kid r))
                | Some derived \<Rightarrow>
                    if derived \<noteq> alg then Inl (UnsupportedAlgorithm (kr_kid r))
                    else let k = \<lparr>k_kid = kr_kid r, k_alg = alg, k_status = kr_status r, k_public = pub,
                           k_cert = (case kr_cert r of None \<Rightarrow> [] | Some c \<Rightarrow> c), k_private = None\<rparr> in
                      if kr_status r = CurrentKey then
                        (case kd_resolve rd (kr_ref r) of
                           None \<Rightarrow> Inl (PrivateKeyUnresolved (kr_kid r))
                         | Some material \<Rightarrow>
                             (case kd_private rd material of
                                None \<Rightarrow> Inl (PrivateKeyUnresolved (kr_kid r))
                              | Some prv \<Rightarrow> Inr (k\<lparr>k_private := Some prv\<rparr>)))
                      else Inr k)))"

fun load_rows :: "('pub, 'prv) key_reader \<Rightarrow> key_row list \<Rightarrow> key_error + ('pub, 'prv) signing_key list" where
  "load_rows rd [] = Inr []"
| "load_rows rd (r # rs) = bindE (load_row rd r) (\<lambda>k. bindE (load_rows rd rs) (\<lambda>ks. Inr (k # ks)))"

definition load_keys :: "('pub, 'prv) key_reader \<Rightarrow> key_purpose \<Rightarrow> key_table \<Rightarrow> key_error + ('pub, 'prv) key_set" where
  "load_keys rd p tbl =
     bindE (load_rows rd (sort_key kr_kid (filter (\<lambda>r. kr_purpose r = p \<and> kr_status r \<noteq> RetiredKey) tbl))) new_key_set"

text \<open>\<open>LIKE '%BEGIN%PRIVATE KEY%'\<close> and \<open>LIKE '%PRIVATE KEY%'\<close>.\<close>

definition has_text :: "string \<Rightarrow> string \<Rightarrow> bool" where "has_text pat s \<longleftrightarrow> sublist pat s"

definition looks_like_pem :: "string \<Rightarrow> bool" where
  "looks_like_pem s \<longleftrightarrow> list_ex (\<lambda>i. prefix ''BEGIN'' (drop i s) \<and> has_text ''PRIVATE KEY'' (drop (i + 5) s)) [0..<length s]"

definition key_row_ok :: "key_row \<Rightarrow> bool" where
  "key_row_ok r \<longleftrightarrow> algorithm_of_text (kr_alg r) \<noteq> None \<and> list_ex (\<lambda>c. c \<noteq> CHR '' '') (kr_kid r) \<and>
     \<not> looks_like_pem (kr_ref r) \<and> (kr_purpose r = PurposeSAML \<longrightarrow> kr_cert r \<noteq> None) \<and>
     (case kr_cert r of None \<Rightarrow> True | Some c \<Rightarrow> \<not> has_text ''PRIVATE KEY'' c)"

definition insert_key ::
  "key_purpose \<Rightarrow> string \<Rightarrow> algorithm \<Rightarrow> string \<Rightarrow> string \<Rightarrow> string \<Rightarrow> time \<Rightarrow> key_table \<Rightarrow> key_error + key_table" where
  "insert_key p kid alg public cert ref now tbl =
     (let r = \<lparr>kr_kid = kid, kr_purpose = p, kr_alg = algorithm_text alg, kr_public = public, kr_ref = ref,
              kr_status = NextKey, kr_cert = (if cert \<noteq> [] then Some cert else None), kr_created = now,
              kr_activated = None, kr_retired = None\<rparr>
      in if contains (map kr_kid tbl) kid \<or> \<not> key_row_ok r then Inl KeyStoreFailure else Inr (tbl @ [r]))"

record rotation =
  ro_promoted :: string
  ro_demoted :: string

text \<open>The row \<open>SELECT ... ORDER BY created_at LIMIT 1\<close> may return.\<close>

definition oldest_next :: "key_purpose \<Rightarrow> key_table \<Rightarrow> string option \<Rightarrow> bool" where
  "oldest_next p tbl chosen \<longleftrightarrow>
     (let next = filter (\<lambda>r. kr_purpose r = p \<and> kr_status r = NextKey) tbl in
      case chosen of
        None \<Rightarrow> next = []
      | Some kid \<Rightarrow> list_ex (\<lambda>r. kr_kid r = kid \<and> list_all (\<lambda>u. kr_created r \<le> kr_created u) next) next)"

definition demote_row :: "key_purpose \<Rightarrow> key_row \<Rightarrow> key_row" where
  "demote_row p r = (if kr_purpose r = p \<and> kr_status r = CurrentKey then r\<lparr>kr_status := PreviousKey\<rparr> else r)"

definition promote_row :: "key_purpose \<Rightarrow> string \<Rightarrow> time \<Rightarrow> key_row \<Rightarrow> key_row" where
  "promote_row p kid now r =
     (if kr_purpose r = p \<and> kr_kid r = kid then r\<lparr>kr_status := CurrentKey, kr_activated := Some now\<rparr> else r)"

definition rotate_keys :: "key_purpose \<Rightarrow> string option \<Rightarrow> time \<Rightarrow> key_table \<Rightarrow> key_error + rotation \<times> key_table" where
  "rotate_keys p chosen now tbl =
     (case chosen of
        None \<Rightarrow> Inl NoNextKey
      | Some next \<Rightarrow>
          let demoted = (case filter (\<lambda>r. kr_purpose r = p \<and> kr_status r = CurrentKey) tbl of [] \<Rightarrow> [] | r # _ \<Rightarrow> kr_kid r)
          in Inr (\<lparr>ro_promoted = next, ro_demoted = demoted\<rparr>,
                  map (promote_row p next now) (map (demote_row p) tbl)))"

definition retire_key :: "key_purpose \<Rightarrow> string \<Rightarrow> time \<Rightarrow> key_table \<Rightarrow> key_error + key_table" where
  "retire_key p kid now tbl =
     (let hit = (\<lambda>r. kr_purpose r = p \<and> kr_kid r = kid \<and> kr_status r = PreviousKey) in
      if \<not> list_ex hit tbl then Inl (NotPrevious kid)
      else Inr (map (\<lambda>r. if hit r then r\<lparr>kr_status := RetiredKey, kr_retired := Some now\<rparr> else r) tbl))"

record key_info =
  ki_kid :: string
  ki_alg :: string
  ki_status :: key_status
  ki_created :: time
  ki_activated :: "time option"
  ki_retired :: "time option"

definition list_keys :: "key_purpose \<Rightarrow> key_table \<Rightarrow> key_info list" where
  "list_keys p tbl = map (\<lambda>r. \<lparr>ki_kid = kr_kid r, ki_alg = kr_alg r, ki_status = kr_status r,
       ki_created = kr_created r, ki_activated = kr_activated r, ki_retired = kr_retired r\<rparr>)
     (sort_key kr_created (filter (\<lambda>r. kr_purpose r = p) tbl))"

end
