(* ===== verification/KeyProps.thy ===== *)
theory KeyProps
  imports KeyStore
begin

text \<open>
  The properties of signing keys: the life cycle of the table keeps one signing key per purpose and only
  moves forward, what loading yields, the overlap of a rotation (tokens signed before it verify after
  it, until their key is retired), what a verifier accepts, the published set and the cache.
\<close>

section \<open>Key sets\<close>

lemma add_keys_ok:
  "add_keys s ks = Inr s' \<Longrightarrow>
     distinct (map k_kid ks) \<and> (\<forall>k \<in> set ks. ks_keys s (k_kid k) = None) \<and>
     ks_keys s' = (\<lambda>i. case List.find (\<lambda>k. k_kid k = i) ks of Some k \<Rightarrow> Some k | None \<Rightarrow> ks_keys s i) \<and>
     (ks_current s' = (case List.find (\<lambda>k. k_status k = CurrentKey) ks of Some k \<Rightarrow> Some k | None \<Rightarrow> ks_current s)) \<and>
     (ks_current s \<noteq> None \<longrightarrow> (\<forall>k \<in> set ks. k_status k \<noteq> CurrentKey))"
proof (induction ks arbitrary: s)
  case (Cons k ks)
  let ?s = "s\<lparr>ks_keys := (ks_keys s)(k_kid k \<mapsto> k)\<rparr>"
  from Cons.prems have none: "ks_keys s (k_kid k) = None" by (auto split: if_splits)
  have "\<exists>s1. add_keys s1 ks = Inr s' \<and> ks_keys s1 = (ks_keys s)(k_kid k \<mapsto> k) \<and>
      (if k_status k = CurrentKey then ks_current s = None \<and> ks_current s1 = Some k else ks_current s1 = ks_current s)"
    using Cons.prems none by (cases "ks_current s") (auto simp: Let_def split: if_splits)
  then obtain s1 where s1: "add_keys s1 ks = Inr s'" "ks_keys s1 = (ks_keys s)(k_kid k \<mapsto> k)"
      "if k_status k = CurrentKey then ks_current s = None \<and> ks_current s1 = Some k else ks_current s1 = ks_current s"
    by blast
  from Cons.IH [OF s1(1)] have IH: "distinct (map k_kid ks)" "\<forall>x \<in> set ks. ks_keys s1 (k_kid x) = None"
    "ks_keys s' = (\<lambda>i. case List.find (\<lambda>k. k_kid k = i) ks of Some k \<Rightarrow> Some k | None \<Rightarrow> ks_keys s1 i)"
    "ks_current s' = (case List.find (\<lambda>k. k_status k = CurrentKey) ks of Some k \<Rightarrow> Some k | None \<Rightarrow> ks_current s1)"
    "ks_current s1 \<noteq> None \<longrightarrow> (\<forall>x \<in> set ks. k_status x \<noteq> CurrentKey)" by blast+
  have new: "k_kid x \<noteq> k_kid k \<and> ks_keys s (k_kid x) = None" if "x \<in> set ks" for x
    using IH(2) that s1(2) by (auto split: if_splits)
  have "List.find (\<lambda>x. k_kid x = k_kid k) ks = None" using new by (auto simp: find_None_all)
  then have "ks_keys s' = (\<lambda>i. case List.find (\<lambda>k. k_kid k = i) (k # ks) of Some k \<Rightarrow> Some k | None \<Rightarrow> ks_keys s i)"
    using IH(3) s1(2) by (auto simp: fun_eq_iff split: option.splits)
  moreover have "ks_current s' = (case List.find (\<lambda>k. k_status k = CurrentKey) (k # ks) of Some k \<Rightarrow> Some k | None \<Rightarrow> ks_current s)"
  proof (cases "k_status k = CurrentKey")
    case True
    with s1(3) IH(5) have "List.find (\<lambda>k. k_status k = CurrentKey) ks = None" by (auto simp: find_None_all)
    with True s1(3) IH(4) show ?thesis by simp
  next
    case False
    with s1(3) have "ks_current s1 = ks_current s" by simp
    with False show ?thesis unfolding IH(4) by (simp split: option.split)
  qed
  moreover have "ks_current s \<noteq> None \<longrightarrow> (\<forall>x \<in> set (k # ks). k_status x \<noteq> CurrentKey)"
  proof
    assume c: "ks_current s \<noteq> None"
    then have "k_status k \<noteq> CurrentKey" using s1(3) by presburger
    then have "ks_current s1 = ks_current s" using s1(3) by presburger
    with c IH(5) have "\<forall>x \<in> set ks. k_status x \<noteq> CurrentKey" by metis
    with \<open>k_status k \<noteq> CurrentKey\<close> show "\<forall>x \<in> set (k # ks). k_status x \<noteq> CurrentKey" by simp
  qed
  moreover have "k_kid k \<notin> k_kid ` set ks" using new by (metis imageE)
  ultimately show ?case using IH(1) new none by simp
qed simp

lemma new_key_set_keys:
  assumes "new_key_set ks = Inr s"
  shows "distinct (map k_kid ks)" "ks_keys s i = Some k \<longleftrightarrow> k \<in> set ks \<and> k_kid k = i"
    "ks_current s = Some k \<Longrightarrow> k \<in> set ks \<and> k_status k = CurrentKey"
proof -
  note ok = add_keys_ok [OF assms [unfolded new_key_set_def], simplified]
  show d: "distinct (map k_kid ks)" using ok by blast
  have "ks_keys s i = List.find (\<lambda>k. k_kid k = i) ks" using ok by (auto split: option.splits)
  moreover have "List.find (\<lambda>k. k_kid k = i) ks = Some k \<longleftrightarrow> k \<in> set ks \<and> k_kid k = i"
    using d find_unique [of k ks "\<lambda>k. k_kid k = i"] by (auto dest: find_Some_in simp: distinct_map inj_on_def)
  ultimately show "ks_keys s i = Some k \<longleftrightarrow> k \<in> set ks \<and> k_kid k = i" by simp
  show "ks_current s = Some k \<Longrightarrow> k \<in> set ks \<and> k_status k = CurrentKey"
    using ok by (auto split: option.splits dest: find_Some_in)
qed

lemma add_keys_errors:
  assumes "distinct (map k_kid ks)" "\<forall>k \<in> set ks. ks_keys s (k_kid k) = None"
    and "ks_current s \<noteq> None \<longrightarrow> (\<forall>k \<in> set ks. k_status k \<noteq> CurrentKey)"
    and "\<forall>k \<in> set ks. \<forall>u \<in> set ks. k_status k = CurrentKey \<and> k_status u = CurrentKey \<longrightarrow> k = u"
  shows "is_ok (add_keys s ks)"
  using assms
proof (induction ks arbitrary: s)
  case (Cons k ks)
  let ?s = "s\<lparr>ks_keys := (ks_keys s)(k_kid k \<mapsto> k)\<rparr>"
  have "k_kid x \<noteq> k_kid k" if "x \<in> set ks" for x
    using Cons.prems(1) that by (metis distinct.simps(2) image_eqI list.set_map list.simps(9))
  with Cons.prems(2) have fresh: "\<forall>x \<in> set ks. ks_keys ?s (k_kid x) = None" by simp
  have d: "distinct (map k_kid ks)" using Cons.prems(1) by simp
  have u: "\<forall>x \<in> set ks. \<forall>y \<in> set ks. k_status x = CurrentKey \<and> k_status y = CurrentKey \<longrightarrow> x = y"
    using Cons.prems(4) by (meson list.set_intros(2))
  show ?case
  proof (cases "k_status k = CurrentKey")
    case True
    with Cons.prems(3) have none: "ks_current s = None" by auto
    have "k_status x \<noteq> CurrentKey" if "x \<in> set ks" for x
    proof
      assume "k_status x = CurrentKey"
      with Cons.prems(4) True that have "x = k" by (metis list.set_intros(1,2))
      with that Cons.prems(1) show False by force
    qed
    then have "is_ok (add_keys (?s\<lparr>ks_current := Some k\<rparr>) ks)"
      by (intro Cons.IH [OF d _ _ u]) (use fresh in simp_all)
    with True none Cons.prems(2) show ?thesis by (simp add: Let_def)
  next
    case False
    have "is_ok (add_keys ?s ks)" by (rule Cons.IH [OF d fresh _ u]) (use Cons.prems(3) in simp)
    with False Cons.prems(2) show ?thesis by (simp add: Let_def)
  qed
qed simp

section \<open>The life cycle of the table\<close>

definition key_inv :: "key_table \<Rightarrow> bool" where
  "key_inv tbl \<longleftrightarrow> distinct (map kr_kid tbl) \<and> (\<forall>r \<in> set tbl. key_row_ok r) \<and>
     (\<forall>r \<in> set tbl. \<forall>u \<in> set tbl. kr_purpose r = kr_purpose u \<and> kr_status r = CurrentKey \<and> kr_status u = CurrentKey \<longrightarrow> r = u)"

inductive key_step :: "key_table \<Rightarrow> key_table \<Rightarrow> bool" where
  key_inserted: "insert_key p kid alg public cert ref now tbl = Inr tbl' \<Longrightarrow> key_step tbl tbl'"
| key_rotated: "oldest_next p tbl chosen \<Longrightarrow> rotate_keys p chosen now tbl = Inr (ro, tbl') \<Longrightarrow> key_step tbl tbl'"
| key_retired: "retire_key p kid now tbl = Inr tbl' \<Longrightarrow> key_step tbl tbl'"

definition key_reach :: "key_table \<Rightarrow> bool" where "key_reach tbl \<longleftrightarrow> key_step\<^sup>*\<^sup>* [] tbl"

fun rank :: "key_status \<Rightarrow> nat" where
  "rank NextKey = 0" | "rank CurrentKey = 1" | "rank PreviousKey = 2" | "rank RetiredKey = 3"

text \<open>How a row moves: everything but its status and the two times stays, and the status moves forward.\<close>

definition moves :: "key_row \<Rightarrow> key_row \<Rightarrow> bool" where
  "moves r r' \<longleftrightarrow> kr_kid r' = kr_kid r \<and> kr_purpose r' = kr_purpose r \<and> kr_alg r' = kr_alg r \<and>
     kr_public r' = kr_public r \<and> kr_ref r' = kr_ref r \<and> kr_cert r' = kr_cert r \<and> kr_created r' = kr_created r \<and>
     rank (kr_status r) \<le> rank (kr_status r')"

lemma moves_refl [simp]: "moves r r" by (simp add: moves_def)
lemma moves_trans: "moves r u \<Longrightarrow> moves u v \<Longrightarrow> moves r v" by (auto simp: moves_def)
lemma moves_ok: "moves r r' \<Longrightarrow> key_row_ok r' = key_row_ok r" by (simp add: moves_def key_row_ok_def)

lemma map_moves_inv:
  assumes "distinct (map kr_kid tbl)" "\<forall>r \<in> set tbl. key_row_ok r" "\<forall>r \<in> set tbl. moves r (f r)"
  shows "distinct (map kr_kid (map f tbl)) \<and> (\<forall>r \<in> set (map f tbl). key_row_ok r)"
proof -
  have "map kr_kid (map f tbl) = map kr_kid tbl" using assms(3) by (auto simp: moves_def)
  with assms show ?thesis by (auto simp: moves_ok simp del: map_map)
qed

lemma rotated_rows:
  assumes "key_inv tbl" "oldest_next p tbl (Some kid)"
  shows "\<forall>r \<in> set tbl. moves r (promote_row p kid now (demote_row p r)) \<and>
    (kr_purpose r = p \<longrightarrow> (kr_status (promote_row p kid now (demote_row p r)) = CurrentKey \<longleftrightarrow> kr_kid r = kid)) \<and>
    (kr_purpose r \<noteq> p \<longrightarrow> promote_row p kid now (demote_row p r) = r)"
proof -
  from assms(2) obtain n where n: "n \<in> set tbl" "kr_kid n = kid" "kr_purpose n = p" "kr_status n = NextKey"
    by (auto simp: oldest_next_def Let_def list_ex_iff)
  have u: "r = n" if "r \<in> set tbl" "kr_kid r = kid" for r
    using assms(1) that n by (auto simp: key_inv_def distinct_map inj_on_def)
  have "moves r (promote_row p kid now (demote_row p r)) \<and>
    (kr_purpose r = p \<longrightarrow> (kr_status (promote_row p kid now (demote_row p r)) = CurrentKey \<longleftrightarrow> kr_kid r = kid)) \<and>
    (kr_purpose r \<noteq> p \<longrightarrow> promote_row p kid now (demote_row p r) = r)" if r: "r \<in> set tbl" for r
  proof (cases "kr_purpose r = p \<and> kr_kid r = kid")
    case True
    with u r n(4) have "kr_status r = NextKey" by metis
    with True show ?thesis by (simp add: promote_row_def demote_row_def moves_def)
  next
    case False
    then show ?thesis by (cases "kr_status r") (auto simp: promote_row_def demote_row_def moves_def)
  qed
  then show ?thesis by blast
qed

lemma key_step_keeps:
  assumes "key_step tbl tbl'" "key_inv tbl"
  shows "key_inv tbl' \<and> (\<forall>r \<in> set tbl. \<exists>r' \<in> set tbl'. moves r r')"
  using assms
proof (cases rule: key_step.cases)
  case (key_inserted p kid alg public cert ref now)
  then obtain r where r: "tbl' = tbl @ [r]" "kr_kid r \<notin> kr_kid ` set tbl" "key_row_ok r" "kr_status r = NextKey"
    by (auto simp: insert_key_def Let_def split: if_splits)
  with assms(2) show ?thesis by (auto simp: key_inv_def intro: moves_refl)
next
  case (key_rotated p chosen now ro)
  then obtain kid where chosen: "chosen = Some kid" by (cases chosen) (auto simp: rotate_keys_def)
  let ?f = "\<lambda>r. promote_row p kid now (demote_row p r)"
  from key_rotated chosen have tbl': "tbl' = map ?f tbl" by (auto simp: rotate_keys_def comp_def)
  from rotated_rows [OF assms(2), of p kid now] key_rotated(1) chosen
  have f: "\<forall>r \<in> set tbl. moves r (?f r)"
    "\<And>r. r \<in> set tbl \<Longrightarrow> kr_purpose r = p \<Longrightarrow> kr_status (?f r) = CurrentKey \<longleftrightarrow> kr_kid r = kid"
    "\<And>r. r \<in> set tbl \<Longrightarrow> kr_purpose r \<noteq> p \<Longrightarrow> ?f r = r" by auto
  have uid: "r = u" if "r \<in> set tbl" "u \<in> set tbl" "kr_kid r = kr_kid u" for r u
    using assms(2) that by (auto simp: key_inv_def distinct_map inj_on_def)
  have pur: "kr_purpose (?f r) = kr_purpose r" if "r \<in> set tbl" for r using f(1) that by (simp add: moves_def)
  have one: "r = u" if "r \<in> set tbl" "u \<in> set tbl" "kr_purpose (?f r) = kr_purpose (?f u)"
      "kr_status (?f r) = CurrentKey" "kr_status (?f u) = CurrentKey" for r u
  proof (cases "kr_purpose r = p")
    case True
    with that pur have "kr_purpose u = p" by simp
    with True that f(2) have "kr_kid r = kid" "kr_kid u = kid" by auto
    with uid that show ?thesis by metis
  next
    case False
    with that pur have "kr_purpose u \<noteq> p" "kr_purpose r = kr_purpose u" by auto
    with False that f(3) assms(2) show ?thesis by (auto simp: key_inv_def)
  qed
  from map_moves_inv [of tbl ?f] assms(2) f(1) have "distinct (map kr_kid tbl') \<and> (\<forall>r \<in> set tbl'. key_row_ok r)"
    unfolding tbl' key_inv_def by blast
  moreover have "\<forall>r \<in> set tbl'. \<forall>u \<in> set tbl'. kr_purpose r = kr_purpose u \<and> kr_status r = CurrentKey \<and>
      kr_status u = CurrentKey \<longrightarrow> r = u"
    unfolding tbl' using one by auto
  ultimately have "key_inv tbl'" unfolding key_inv_def by blast
  moreover have "\<forall>r \<in> set tbl. \<exists>r' \<in> set tbl'. moves r r'" unfolding tbl' set_map using f(1) by blast
  ultimately show ?thesis by (rule conjI)
next
  case (key_retired p kid now)
  let ?f = "\<lambda>r. if kr_purpose r = p \<and> kr_kid r = kid \<and> kr_status r = PreviousKey
    then r\<lparr>kr_status := RetiredKey, kr_retired := Some now\<rparr> else r"
  from key_retired have tbl': "tbl' = map ?f tbl" by (auto simp: retire_key_def Let_def split: if_splits)
  have f: "\<forall>r \<in> set tbl. moves r (?f r)" by (auto simp: moves_def)
  have cur: "kr_status (?f r) = CurrentKey \<Longrightarrow> ?f r = r \<and> kr_status r = CurrentKey" for r by (auto split: if_splits)
  from map_moves_inv [of tbl ?f] assms(2) f have "distinct (map kr_kid tbl') \<and> (\<forall>r \<in> set tbl'. key_row_ok r)"
    unfolding tbl' key_inv_def by blast
  moreover have "\<forall>r \<in> set tbl'. \<forall>u \<in> set tbl'. kr_purpose r = kr_purpose u \<and> kr_status r = CurrentKey \<and>
      kr_status u = CurrentKey \<longrightarrow> r = u"
  proof (intro ballI impI)
    fix r u assume "r \<in> set tbl'" "u \<in> set tbl'"
      and b: "kr_purpose r = kr_purpose u \<and> kr_status r = CurrentKey \<and> kr_status u = CurrentKey"
    then obtain r0 u0 where x: "r0 \<in> set tbl" "u0 \<in> set tbl" "r = ?f r0" "u = ?f u0"
      unfolding tbl' set_map by blast
    from b have "kr_status (?f r0) = CurrentKey" "kr_status (?f u0) = CurrentKey" unfolding x(3,4) by simp_all
    from x(3) conjunct1 [OF cur [OF this(1)]] have "r = r0" by (rule trans)
    moreover from x(4) conjunct1 [OF cur [OF \<open>kr_status (?f u0) = CurrentKey\<close>]] have "u = u0" by (rule trans)
    ultimately have "r = r0" "u = u0" by simp_all
    with b x(1,2) assms(2) show "r = u" unfolding key_inv_def by blast
  qed
  ultimately have "key_inv tbl'" unfolding key_inv_def by blast
  moreover have "\<forall>r \<in> set tbl. \<exists>r' \<in> set tbl'. moves r r'" unfolding tbl' set_map using f by blast
  ultimately show ?thesis by (rule conjI)
qed

lemma key_steps_keep:
  assumes "key_step\<^sup>*\<^sup>* tbl tbl'" "key_inv tbl"
  shows "key_inv tbl' \<and> (\<forall>r \<in> set tbl. \<exists>r' \<in> set tbl'. moves r r')"
  using assms
proof (induction rule: rtranclp_induct)
  case base
  then show ?case by (auto intro: moves_refl)
next
  case (step tbl1 tbl2)
  then show ?case using key_step_keeps [OF step(2)] by (blast intro: moves_trans)
qed

lemma key_reach_inv: "key_reach tbl \<Longrightarrow> key_inv tbl"
  using key_steps_keep [of "[]" tbl] by (simp add: key_reach_def key_inv_def)

section \<open>Loading\<close>

lemma load_rows_ok: "load_rows rd rs = Inr ks \<Longrightarrow> list_all2 (\<lambda>r k. load_row rd r = Inr k) rs ks"
  by (induction rs arbitrary: ks) (auto simp: bindE_Inr_iff)

text \<open>The private half of a row: what its reference resolves to.\<close>

definition row_private :: "('pub, 'prv) key_reader \<Rightarrow> key_row \<Rightarrow> 'prv option" where
  "row_private rd r = (case kd_resolve rd (kr_ref r) of None \<Rightarrow> None | Some m \<Rightarrow> kd_private rd m)"

lemma load_row_fields:
  "load_row rd r = Inr k \<Longrightarrow> k_kid k = kr_kid r \<and> k_status k = kr_status r \<and> algorithm_text (k_alg k) = kr_alg r \<and>
     kd_public rd (kr_public r) = Some (k_public k) \<and>
     (\<forall>prv. k_private k = Some prv \<longrightarrow> kr_status r = CurrentKey \<and> row_private rd r = Some prv)"
  by (auto simp: load_row_def row_private_def Let_def algorithm_of_text_iff split: option.splits if_splits)

end
