(* ===== verification/KeyRotation.thy ===== *)
theory KeyRotation
  imports KeyProps
begin

text \<open>
  What the signing component promises over the life of its table: one signing key per purpose and a
  status that only moves forward; an overlap across rotations; verification bound to the key, the
  algorithm, the type and the purpose; a published set that does not depend on the map's iteration order.
\<close>

section \<open>What a loaded set holds\<close>

lemma load_keys_rows:
  assumes "load_keys rd p tbl = Inr s"
  obtains ks where "new_key_set ks = Inr s"
    "\<And>k. k \<in> set ks \<Longrightarrow> \<exists>r \<in> set tbl. kr_purpose r = p \<and> kr_status r \<noteq> RetiredKey \<and> load_row rd r = Inr k"
    "\<And>r. r \<in> set tbl \<Longrightarrow> kr_purpose r = p \<Longrightarrow> kr_status r \<noteq> RetiredKey \<Longrightarrow> \<exists>k \<in> set ks. load_row rd r = Inr k"
proof -
  let ?rs = "sort_key kr_kid (filter (\<lambda>r. kr_purpose r = p \<and> kr_status r \<noteq> RetiredKey) tbl)"
  from assms obtain ks where ks: "load_rows rd ?rs = Inr ks" "new_key_set ks = Inr s"
    by (auto simp: load_keys_def bindE_Inr_iff)
  have all: "list_all2 (\<lambda>r k. load_row rd r = Inr k) ?rs ks" by (rule load_rows_ok [OF ks(1)])
  show ?thesis
  proof (rule that [OF ks(2)])
    fix k assume "k \<in> set ks"
    then obtain i where i: "i < length ks" "k = ks ! i" by (auto simp: in_set_conv_nth)
    with all have "i < length ?rs" "load_row rd (?rs ! i) = Inr k" by (auto simp: list_all2_conv_all_nth)
    moreover from this(1) have "?rs ! i \<in> set ?rs" by (rule nth_mem)
    ultimately show "\<exists>r \<in> set tbl. kr_purpose r = p \<and> kr_status r \<noteq> RetiredKey \<and> load_row rd r = Inr k" by auto
  next
    fix r assume "r \<in> set tbl" "kr_purpose r = p" "kr_status r \<noteq> RetiredKey"
    then have "r \<in> set ?rs" by simp
    then obtain i where "i < length ?rs" "r = ?rs ! i" unfolding in_set_conv_nth by blast
    with all have "i < length ks" "load_row rd r = Inr (ks ! i)" by (auto simp: list_all2_conv_all_nth)
    then show "\<exists>k \<in> set ks. load_row rd r = Inr k" by (metis nth_mem)
  qed
qed

lemma loaded_key:
  assumes "load_keys rd p tbl = Inr s" "ks_keys s kid = Some k"
  shows "\<exists>r \<in> set tbl. kr_purpose r = p \<and> kr_kid r = kid \<and> kr_status r \<noteq> RetiredKey \<and> load_row rd r = Inr k"
proof -
  from assms(1) obtain ks where "new_key_set ks = Inr s"
    and rows: "\<And>k. k \<in> set ks \<Longrightarrow> \<exists>r \<in> set tbl. kr_purpose r = p \<and> kr_status r \<noteq> RetiredKey \<and> load_row rd r = Inr k"
    by (rule load_keys_rows) blast
  with assms(2) have "k \<in> set ks" "k_kid k = kid" using new_key_set_keys(2) by blast+
  with rows [of k] show ?thesis using load_row_fields [of rd _ k] by fastforce
qed

lemma loaded_current:
  assumes "load_keys rd p tbl = Inr s" "ks_current s = Some k"
  shows "\<exists>r \<in> set tbl. kr_purpose r = p \<and> kr_status r = CurrentKey \<and> load_row rd r = Inr k"
proof -
  from assms(1) obtain ks where "new_key_set ks = Inr s"
    and rows: "\<And>k. k \<in> set ks \<Longrightarrow> \<exists>r \<in> set tbl. kr_purpose r = p \<and> kr_status r \<noteq> RetiredKey \<and> load_row rd r = Inr k"
    by (rule load_keys_rows) blast
  with assms(2) have "k \<in> set ks" "k_status k = CurrentKey" using new_key_set_keys(3) by blast+
  with rows [of k] show ?thesis using load_row_fields [of rd _ k] by fastforce
qed

lemma loaded_row:
  assumes "load_keys rd p tbl = Inr s" "r \<in> set tbl" "kr_purpose r = p" "kr_status r \<noteq> RetiredKey"
  shows "\<exists>k. ks_keys s (kr_kid r) = Some k \<and> load_row rd r = Inr k"
proof -
  from assms(1) obtain ks where ks: "new_key_set ks = Inr s"
    and rows: "\<And>r. r \<in> set tbl \<Longrightarrow> kr_purpose r = p \<Longrightarrow> kr_status r \<noteq> RetiredKey \<Longrightarrow> \<exists>k \<in> set ks. load_row rd r = Inr k"
    by (rule load_keys_rows) blast
  from rows [OF assms(2-4)] obtain k where k: "k \<in> set ks" "load_row rd r = Inr k" by blast
  from load_row_fields [OF k(2)] have "k_kid k = kr_kid r" by simp
  with k new_key_set_keys(2) [OF ks, of "kr_kid r" k] show ?thesis by blast
qed

lemma verifying_unless_retired [simp]: "status_verifying s \<longleftrightarrow> s \<noteq> RetiredKey"
  by (cases s) (simp_all add: status_verifying_def)

section \<open>The life cycle\<close>

lemma load_no_duplicates:
  assumes "key_inv tbl" "load_keys rd p tbl = Inl e"
  shows "\<exists>r \<in> set tbl. kr_purpose r = p \<and> load_row rd r = Inl e"
proof -
  let ?rs = "sort_key kr_kid (filter (\<lambda>r. kr_purpose r = p \<and> kr_status r \<noteq> RetiredKey) tbl)"
  have err: "load_rows rd rs = Inl e \<Longrightarrow> \<exists>r \<in> set rs. load_row rd r = Inl e" for rs
    by (induction rs) (auto simp: bindE_Inl_iff)
  show ?thesis
  proof (cases "load_rows rd ?rs")
    case (Inl e')
    with assms(2) have "e' = e" by (simp add: load_keys_def)
    with err [of ?rs] Inl show ?thesis by auto
  next
    case (Inr ks)
    have all: "list_all2 (\<lambda>r k. load_row rd r = Inr k) ?rs ks" by (rule load_rows_ok [OF Inr])
    then have kids: "map k_kid ks = map kr_kid ?rs"
      by (induction rule: list_all2_induct) (auto dest: load_row_fields)
    have d: "distinct (map kr_kid ?rs)"
      using assms(1) by (auto simp: key_inv_def distinct_map inj_on_def)
    have "k = u" if "k \<in> set ks" "u \<in> set ks" "k_status k = CurrentKey" "k_status u = CurrentKey" for k u
    proof -
      from that obtain i j where ij: "i < length ks" "k = ks ! i" "j < length ks" "u = ks ! j" by (auto simp: in_set_conv_nth)
      have len: "length ks = length ?rs" using list_all2_lengthD [OF all] by (rule sym)
      have row: "kr_status (?rs ! i) = k_status (ks ! i)" if "i < length ks" for i
        using load_row_fields [OF list_all2_nthD2 [OF all that]] by simp
      have "kr_status (?rs ! i) = CurrentKey" "kr_status (?rs ! j) = CurrentKey"
        using trans [OF row [OF ij(1)] that(3) [unfolded ij(2)]] trans [OF row [OF ij(3)] that(4) [unfolded ij(4)]] .
      moreover have "i < length ?rs" "j < length ?rs" using ij(1,3) unfolding len .
      note mem = this nth_mem [OF this(1)] nth_mem [OF this(2)]
      ultimately have "?rs ! i = ?rs ! j" using mem(3,4) assms(1) unfolding key_inv_def by simp
      then have "i = j" using nth_eq_iff_index_eq [OF conjunct1 [OF d [unfolded distinct_map]] mem(1,2)] by simp
      with ij show ?thesis by simp
    qed
    then have "is_ok (new_key_set ks)"
      unfolding new_key_set_def by (intro add_keys_errors) (use d kids in \<open>auto\<close>)
    with Inr assms(2) show ?thesis by (simp add: load_keys_def)
  qed
qed

text \<open>
  C14. In every table that inserts, rotations and retirements reach, a purpose has at most one current
  key and no two rows share an id; any further sequence of them keeps every row, changing at most its
  status (only forward: next, current, previous, retired) and its times; and loading a purpose from it
  never fails for a duplicate id or a second current key, only because some row cannot be read.
\<close>

theorem key_life_cycle:
  assumes "key_reach tbl" "key_step\<^sup>*\<^sup>* tbl tbl'"
  shows "(\<forall>r \<in> set tbl'. \<forall>u \<in> set tbl'. kr_purpose r = kr_purpose u \<and> kr_status r = CurrentKey \<and> kr_status u = CurrentKey \<longrightarrow> r = u) \<and>
    distinct (map kr_kid tbl') \<and> (\<forall>r \<in> set tbl. \<exists>r' \<in> set tbl'. moves r r') \<and>
    (\<forall>p e. load_keys rd p tbl' = Inl e \<longrightarrow> (\<exists>r \<in> set tbl'. kr_purpose r = p \<and> load_row rd r = Inl e))"
proof -
  note inv = key_steps_keep [OF assms(2) key_reach_inv [OF assms(1)]]
  then show ?thesis using load_no_duplicates [of tbl' rd] unfolding key_inv_def by blast
qed

text \<open>
  A rotation that succeeds makes exactly the chosen next key current for its purpose, turns the key
  that was current into a verifying previous one, leaves every other row alone, and reports both ids;
  without a next key it fails and changes nothing.
\<close>

theorem rotation_exact:
  assumes "key_inv tbl" "oldest_next p tbl chosen"
  shows "case rotate_keys p chosen now tbl of
      Inl e \<Rightarrow> e = NoNextKey \<and> (\<forall>r \<in> set tbl. kr_purpose r = p \<longrightarrow> kr_status r \<noteq> NextKey)
    | Inr (ro, tbl') \<Rightarrow>
        map kr_kid tbl' = map kr_kid tbl \<and>
        (\<forall>r \<in> set tbl'. kr_purpose r = p \<longrightarrow> (kr_status r = CurrentKey \<longleftrightarrow> kr_kid r = ro_promoted ro)) \<and>
        (\<exists>n \<in> set tbl. kr_kid n = ro_promoted ro \<and> kr_purpose n = p \<and> kr_status n = NextKey \<and>
           (\<forall>r \<in> set tbl. kr_purpose r = p \<and> kr_status r = NextKey \<longrightarrow> kr_created n \<le> kr_created r)) \<and>
        (\<forall>c \<in> set tbl. kr_purpose c = p \<and> kr_status c = CurrentKey \<longrightarrow>
           kr_kid c = ro_demoted ro \<and> c\<lparr>kr_status := PreviousKey\<rparr> \<in> set tbl') \<and>
        (\<forall>r \<in> set tbl. kr_kid r \<noteq> ro_promoted ro \<and> kr_kid r \<noteq> ro_demoted ro \<longrightarrow> r \<in> set tbl')"
proof (cases chosen)
  case None
  with assms(2) show ?thesis by (auto simp: rotate_keys_def oldest_next_def Let_def filter_empty_conv)
next
  case (Some kid)
  let ?f = "\<lambda>r. promote_row p kid now (demote_row p r)"
  let ?cur = "\<lambda>r. kr_purpose r = p \<and> kr_status r = CurrentKey"
  let ?dem = "case filter ?cur tbl of [] \<Rightarrow> [] | r # _ \<Rightarrow> kr_kid r"
  have e: "rotate_keys p chosen now tbl = Inr (\<lparr>ro_promoted = kid, ro_demoted = ?dem\<rparr>, map ?f tbl)"
    by (simp add: rotate_keys_def Some comp_def)
  from assms(2) Some obtain n where n: "n \<in> set tbl" "kr_kid n = kid" "kr_purpose n = p" "kr_status n = NextKey"
    "\<forall>r \<in> set tbl. kr_purpose r = p \<and> kr_status r = NextKey \<longrightarrow> kr_created n \<le> kr_created r"
    by (auto simp: oldest_next_def Let_def list_ex_iff list_all_iff)
  have uid: "r = u" if "r \<in> set tbl" "u \<in> set tbl" "kr_kid r = kr_kid u" for r u
    using assms(1) that by (auto simp: key_inv_def distinct_map inj_on_def)
  have f: "\<forall>r \<in> set tbl. moves r (?f r)"
    "\<And>r. r \<in> set tbl \<Longrightarrow> kr_purpose r = p \<Longrightarrow> kr_status (?f r) = CurrentKey \<longleftrightarrow> kr_kid r = kid"
    using rotated_rows [OF assms(1), of p kid now] assms(2) Some by auto
  have kid: "kr_kid (?f r) = kr_kid r" "kr_purpose (?f r) = kr_purpose r" for r
    by (simp_all add: promote_row_def demote_row_def)
  have cur: "kr_kid c = ?dem \<and> c\<lparr>kr_status := PreviousKey\<rparr> = ?f c" if c: "c \<in> set tbl" "?cur c" for c
  proof -
    have ne: "kr_kid c \<noteq> kid" using uid [OF c(1) n(1)] c(2) n(2,4) by auto
    have "c \<in> set (filter ?cur tbl)" using c by simp
    then obtain d ds where ds: "filter ?cur tbl = d # ds" by (cases "filter ?cur tbl") auto
    then have "d \<in> set tbl" "?cur d" using filter_set [of ?cur tbl] by auto
    with c assms(1) have "d = c" unfolding key_inv_def by metis
    with ds ne c(2) show ?thesis by (simp add: promote_row_def demote_row_def)
  qed
  have rest: "?f r = r" if "r \<in> set tbl" "kr_kid r \<noteq> kid" "kr_kid r \<noteq> ?dem" for r
  proof (cases "?cur r")
    case True
    with cur that show ?thesis by blast
  next
    case False
    with that(2) show ?thesis by (simp add: promote_row_def demote_row_def)
  qed
  have "\<forall>r \<in> set (map ?f tbl). kr_purpose r = p \<longrightarrow> (kr_status r = CurrentKey \<longleftrightarrow> kr_kid r = kid)"
    using f(2) by (auto simp: kid)
  moreover have "\<forall>c \<in> set tbl. ?cur c \<longrightarrow> kr_kid c = ?dem \<and> c\<lparr>kr_status := PreviousKey\<rparr> \<in> set (map ?f tbl)"
  proof (intro ballI impI)
    fix c assume c: "c \<in> set tbl" "?cur c"
    note e = conjunct2 [OF cur [OF c]]
    show "kr_kid c = ?dem \<and> c\<lparr>kr_status := PreviousKey\<rparr> \<in> set (map ?f tbl)"
      unfolding e set_map using conjunct1 [OF cur [OF c]] imageI [OF c(1), of ?f] by (rule conjI)
  qed
  moreover have "\<forall>r \<in> set tbl. kr_kid r \<noteq> kid \<and> kr_kid r \<noteq> ?dem \<longrightarrow> r \<in> set (map ?f tbl)"
  proof (intro ballI impI)
    fix r assume r: "r \<in> set tbl" "kr_kid r \<noteq> kid \<and> kr_kid r \<noteq> ?dem"
    from rest [OF r(1) conjunct1 [OF r(2)] conjunct2 [OF r(2)]] imageI [OF r(1), of ?f]
    show "r \<in> set (map ?f tbl)" unfolding set_map by (simp only:)
  qed
  moreover have "map kr_kid (map ?f tbl) = map kr_kid tbl" by (simp add: kid)
  moreover have "\<exists>n \<in> set tbl. kr_kid n = kid \<and> kr_purpose n = p \<and> kr_status n = NextKey \<and>
           (\<forall>r \<in> set tbl. kr_purpose r = p \<and> kr_status r = NextKey \<longrightarrow> kr_created n \<le> kr_created r)"
    using n by blast
  ultimately show ?thesis unfolding e sum.case prod.case rotation.simps by blast
qed

section \<open>Concrete tables\<close>

definition sample_row :: "string \<Rightarrow> key_status \<Rightarrow> time \<Rightarrow> key_row" where
  "sample_row kid st created = \<lparr>kr_kid = kid, kr_purpose = PurposeOIDC, kr_alg = ''ES256'', kr_public = kid, kr_ref = kid,
     kr_status = st, kr_cert = None, kr_created = created, kr_activated = None, kr_retired = None\<rparr>"

text \<open>The private material of a key is its public text; a reference resolves to itself.\<close>

definition sample_reader :: "(string, string) key_reader" where
  "sample_reader = \<lparr>kd_public = (\<lambda>t. Some t), kd_algorithm = (\<lambda>k. Some ES256), kd_resolve = (\<lambda>r. Some r), kd_private = (\<lambda>m. Some m)\<rparr>"

definition table_before :: key_table where
  "table_before = [(sample_row ''k1'' CurrentKey 1)\<lparr>kr_activated := Some 5\<rparr>, sample_row ''k2'' NextKey 2]"

definition table_after :: key_table where
  "table_after = [(sample_row ''k1'' PreviousKey 1)\<lparr>kr_activated := Some 5\<rparr>, (sample_row ''k2'' CurrentKey 2)\<lparr>kr_activated := Some 9\<rparr>]"

lemma sample_key_row_ok [simp]: "key_row_ok (sample_row ''k1'' st t)" "key_row_ok (sample_row ''k2'' st t)"
  by (simp_all add: key_row_ok_def sample_row_def looks_like_pem_def algorithm_of_text_def)

lemma table_steps:
  "key_step [] [sample_row ''k1'' NextKey 1]"
  "key_step [sample_row ''k1'' NextKey 1] [(sample_row ''k1'' CurrentKey 1)\<lparr>kr_activated := Some 5\<rparr>]"
  "key_step [(sample_row ''k1'' CurrentKey 1)\<lparr>kr_activated := Some 5\<rparr>]
     table_before"
  "key_step table_before table_after"
proof -
  show "key_step [] [sample_row ''k1'' NextKey 1]"
    by (rule key_inserted [of PurposeOIDC "''k1''" ES256 "''k1''" "[]" "''k1''" 1])
      (simp add: insert_key_def Let_def sample_row_def algorithm_text_def key_row_ok_def looks_like_pem_def algorithm_of_text_def)
  show "key_step [sample_row ''k1'' NextKey 1] [(sample_row ''k1'' CurrentKey 1)\<lparr>kr_activated := Some 5\<rparr>]"
    by (rule key_rotated [of PurposeOIDC _ "Some ''k1''" 5 "\<lparr>ro_promoted = ''k1'', ro_demoted = []\<rparr>"])
      (simp_all add: oldest_next_def rotate_keys_def promote_row_def demote_row_def sample_row_def)
  show "key_step [(sample_row ''k1'' CurrentKey 1)\<lparr>kr_activated := Some 5\<rparr>]
     table_before"
    by (rule key_inserted [of PurposeOIDC "''k2''" ES256 "''k2''" "[]" "''k2''" 2])
      (simp add: insert_key_def Let_def sample_row_def algorithm_text_def key_row_ok_def looks_like_pem_def algorithm_of_text_def table_before_def)
  show "key_step table_before table_after"
    by (rule key_rotated [of PurposeOIDC _ "Some ''k2''" 9 "\<lparr>ro_promoted = ''k2'', ro_demoted = ''k1''\<rparr>"])
      (simp_all add: oldest_next_def rotate_keys_def promote_row_def demote_row_def sample_row_def table_before_def table_after_def)
qed

lemma table_reach: "key_reach table_before"
  unfolding key_reach_def using table_steps(1-3) by (meson rtranclp.rtrancl_into_rtrancl rtranclp.rtrancl_refl)

lemma table_before_inv: "key_inv table_before"
  by (simp add: key_inv_def table_before_def sample_row_def key_row_ok_def looks_like_pem_def algorithm_of_text_def)

text \<open>The table of one key is reached, and a second key inserted and promoted afterwards.\<close>

lemma key_life_cycle_witness: "distinct (map kr_kid table_after) \<and> moves (sample_row ''k2'' NextKey 2) (table_after ! 1)"
proof -
  note step = r_into_rtranclp [of key_step, OF table_steps(4)]
  note l = key_life_cycle [OF table_reach step, of sample_reader]
  have "sample_row ''k2'' NextKey 2 \<in> set table_before" by (simp add: table_before_def)
  with l have "distinct (map kr_kid table_after)"
    "\<exists>r' \<in> set table_after. moves (sample_row ''k2'' NextKey 2) r'" by blast+
  then show ?thesis by (auto simp: table_after_def moves_def sample_row_def)
qed

lemma rotation_exact_witness:
  "\<exists>ro tbl'. rotate_keys PurposeOIDC (Some ''k2'') 9 table_before = Inr (ro, tbl') \<and>
     (sample_row ''k1'' PreviousKey 1)\<lparr>kr_activated := Some 5\<rparr> \<in> set tbl' \<and> ro_promoted ro = ''k2''"
proof -
  have o2: "oldest_next PurposeOIDC table_before (Some ''k2'')"
    by (simp add: oldest_next_def table_before_def sample_row_def)
  obtain ro tbl' where r: "rotate_keys PurposeOIDC (Some ''k2'') 9 table_before = Inr (ro, tbl')" "ro_promoted ro = ''k2''"
    by (simp add: rotate_keys_def Let_def)
  have c: "(sample_row ''k1'' CurrentKey 1)\<lparr>kr_activated := Some 5\<rparr> \<in> set table_before" by (simp add: table_before_def)
  from rotation_exact [OF table_before_inv o2, of 9]
  have "\<forall>c \<in> set table_before. kr_purpose c = PurposeOIDC \<and> kr_status c = CurrentKey \<longrightarrow>
      c\<lparr>kr_status := PreviousKey\<rparr> \<in> set tbl'"
    unfolding r(1) sum.case prod.case by blast
  from bspec [OF this c] have "(sample_row ''k1'' PreviousKey 1)\<lparr>kr_activated := Some 5\<rparr> \<in> set tbl'" by (simp add: sample_row_def)
  with r show ?thesis by blast
qed

end
