(* ===== verification/KeyVerify.thy ===== *)
theory KeyVerify
  imports KeyRotation
begin

text \<open>
  Signing and verification over a loaded key set, the published key set and the cache in front of the table.
\<close>

lemma key_inv_kid: "key_inv tbl \<Longrightarrow> r \<in> set tbl \<Longrightarrow> u \<in> set tbl \<Longrightarrow> kr_kid r = kr_kid u \<Longrightarrow> r = u"
  by (auto simp: key_inv_def distinct_map inj_on_def)

section \<open>The library's contract\<close>

text \<open>
  What the code relies on of the JWS library: a compact form it signed under an admitted algorithm
  parses to one signature with the header it was given, and verifies under the public half of the
  signing key to the payload that was signed.
\<close>

definition jose_round_trip :: "('pub, 'prv) jose \<Rightarrow> ('pub \<Rightarrow> 'prv \<Rightarrow> bool) \<Rightarrow> bool" where
  "jose_round_trip j pair \<longleftrightarrow>
     (\<forall>alg prv ty kid payload compact. jo_sign j alg prv ty kid payload = Some compact \<and> alg \<in> set allowed_algorithms \<longrightarrow>
        jo_parse j allowed_algorithms compact = Signatures [\<lparr>jh_alg = alg, jh_kid = kid, jh_typ = Some ty\<rparr>] \<and>
        (\<forall>pub. pair pub prv \<longrightarrow> jo_verify j compact pub = Some payload))"

text \<open>The two halves stored for a row belong to each other.\<close>

definition rows_paired :: "('pub, 'prv) key_reader \<Rightarrow> ('pub \<Rightarrow> 'prv \<Rightarrow> bool) \<Rightarrow> key_table \<Rightarrow> bool" where
  "rows_paired rd pair tbl \<longleftrightarrow>
     (\<forall>r \<in> set tbl. \<forall>pub prv. kd_public rd (kr_public r) = Some pub \<and> row_private rd r = Some prv \<longrightarrow> pair pub prv)"

lemma algorithm_allowed [simp]: "algorithm_text a \<in> set allowed_algorithms"
  by (cases a) (simp_all add: algorithm_text_def allowed_algorithms_def)

section \<open>The overlap of a rotation\<close>

lemma sign_with_type_InrD:
  assumes "sign_with_type j got payload ty = Inr compact"
  shows "\<exists>s k prv. got = Inr s \<and> ks_current s = Some k \<and> k_status k = CurrentKey \<and> k_private k = Some prv \<and>
    jo_sign j (algorithm_text (k_alg k)) prv ty (k_kid k) payload = Some compact"
proof (cases got)
  case (Inr s)
  with assms obtain k where k: "current_key s = Inr k"
      "jo_sign j (algorithm_text (k_alg k)) (the (k_private k)) ty (k_kid k) payload = Some compact"
    by (auto simp: sign_with_type_def split: sum.splits option.splits)
  then have "ks_current s = Some k" "can_sign k" by (auto simp: current_key_def split: option.splits if_splits)
  with k Inr show ?thesis by (auto simp: can_sign_def)
qed (use assms in \<open>simp add: sign_with_type_def\<close>)

text \<open>
  C15. A token signed under the keys of a table verifies, under its type and to the signed payload,
  against the keys loaded after any number of insertions, rotations and retirements, as long as the
  key that signed it has not been retired.
\<close>

theorem rotation_overlap:
  assumes "key_inv tbl" "key_step\<^sup>*\<^sup>* tbl tbl'"
    and law: "jose_round_trip j pair" and halves: "rows_paired rd pair tbl"
    and signed: "sign_with_type j (load_keys rd p tbl) payload ty = Inr compact" and ty: "ty \<noteq> []"
    and loaded: "load_keys rd p tbl' = Inr s'"
    and kept: "current_kid (load_keys rd p tbl) = Inr kid"
      "\<forall>r \<in> set tbl'. kr_kid r = kid \<longrightarrow> kr_status r \<noteq> RetiredKey"
  shows "verify_token j (load_keys rd p tbl') compact ty = Inr payload"
proof -
  from sign_with_type_InrD [OF signed] obtain s k prv where s: "load_keys rd p tbl = Inr s" "ks_current s = Some k"
      "k_status k = CurrentKey" "k_private k = Some prv"
      "jo_sign j (algorithm_text (k_alg k)) prv ty (k_kid k) payload = Some compact" by blast
  then have kid: "kid = k_kid k" using kept(1) by (simp add: current_kid_def current_key_def can_sign_def)
  from loaded_current [OF s(1,2)] obtain r where r: "r \<in> set tbl" "kr_purpose r = p" "load_row rd r = Inr k" by blast
  note k = load_row_fields [OF r(3)]
  from key_steps_keep [OF assms(2,1)] r(1) obtain r' where r': "r' \<in> set tbl'" "moves r r'" by blast
  with r k kid kept(2) have "kr_purpose r' = p" "kr_kid r' = kid" "kr_status r' \<noteq> RetiredKey"
    by (auto simp: moves_def)
  from loaded_row [OF loaded r'(1) this(1,3)] this(2) obtain k' where k': "ks_keys s' kid = Some k'" "load_row rd r' = Inr k'"
    by blast
  note k'f = load_row_fields [OF k'(2)]
  have same: "k_alg k' = k_alg k" "k_public k' = k_public k"
  proof -
    have "algorithm_text (k_alg k') = kr_alg r" "kd_public rd (kr_public r) = Some (k_public k')"
      using k k'f r'(2) by (simp_all add: moves_def)
    then have "algorithm_text (k_alg k') = algorithm_text (k_alg k) \<and> k_public k' = k_public k" using k by auto
    then show "k_alg k' = k_alg k" "k_public k' = k_public k" unfolding algorithm_text_inj by blast+
  qed
  have "pair (k_public k) prv" using halves r(1) k s(4) unfolding rows_paired_def by blast
  with law s(5) have j: "jo_parse j allowed_algorithms compact =
      Signatures [\<lparr>jh_alg = algorithm_text (k_alg k), jh_kid = kid, jh_typ = Some ty\<rparr>]"
      "jo_verify j compact (k_public k) = Some payload"
    unfolding jose_round_trip_def kid by (metis algorithm_allowed)+
  have "key_row_ok r" using assms(1) r(1) unfolding key_inv_def by blast
  then have "kid \<noteq> []" using k kid by (auto simp: key_row_ok_def)
  moreover have "by_kid s' kid = Inr k'" using k'(1) k'f \<open>kr_status r' \<noteq> RetiredKey\<close> by (simp add: by_kid_def)
  ultimately show ?thesis using j ty same loaded by (simp add: verify_token_def)
qed

section \<open>What verification admits\<close>

text \<open>
  C16. A token is accepted only with a single signature, with exactly the type asked for and a key id,
  under a key of the purpose's own rows that is not retired, whose stored algorithm, one of RS256 and
  ES256, is the header's, and only if the library verifies it under that key: another purpose's key,
  another algorithm and another type are all refused.
\<close>

theorem verify_token_safety:
  assumes "verify_token j (load_keys rd p tbl) compact want = Inr payload"
  shows "\<exists>h r pub. jo_parse j allowed_algorithms compact = Signatures [h] \<and> jh_typ h = Some want \<and> want \<noteq> [] \<and> jh_kid h \<noteq> [] \<and>
    r \<in> set tbl \<and> kr_purpose r = p \<and> kr_kid r = jh_kid h \<and> kr_status r \<noteq> RetiredKey \<and>
    kr_alg r = jh_alg h \<and> jh_alg h \<in> set allowed_algorithms \<and>
    kd_public rd (kr_public r) = Some pub \<and> jo_verify j compact pub = Some payload"
proof -
  from assms have "want \<noteq> []" by (auto simp: verify_token_def split: if_splits)
  with assms obtain hs where hs: "jo_parse j allowed_algorithms compact = Signatures hs"
    by (auto simp: verify_token_def split: jws_parse.splits)
  with assms \<open>want \<noteq> []\<close> obtain h where h: "hs = [h]"
    by (auto simp: verify_token_def split: list.splits)
  have t: "jh_typ h = Some want" "jh_kid h \<noteq> []"
    using assms hs h \<open>want \<noteq> []\<close> by (auto simp: verify_token_def split: if_splits option.splits)
  with assms hs h \<open>want \<noteq> []\<close> obtain s k where s: "load_keys rd p tbl = Inr s" "by_kid s (jh_kid h) = Inr k"
      "algorithm_text (k_alg k) = jh_alg h" "jo_verify j compact (k_public k) = Some payload"
    by (auto simp: verify_token_def split: sum.splits if_splits option.splits)
  from s(2) have "ks_keys s (jh_kid h) = Some k" by (auto simp: by_kid_def split: option.splits if_splits)
  from loaded_key [OF s(1) this] obtain r where r: "r \<in> set tbl" "kr_purpose r = p" "kr_kid r = jh_kid h"
      "kr_status r \<noteq> RetiredKey" "load_row rd r = Inr k" by blast
  from load_row_fields [OF r(5)] s(3) have "kr_alg r = jh_alg h" "kd_public rd (kr_public r) = Some (k_public k)" by auto
  moreover have "jh_alg h \<in> set allowed_algorithms" using s(3) by (metis algorithm_allowed)
  ultimately show ?thesis using hs h t r s(4) \<open>want \<noteq> []\<close> by blast
qed

text \<open>
  Once a key has been retired, a token that names it is refused as naming an unknown key: a set
  loaded from the table holds no retired key, so the answer is never that the key is retired.
\<close>

theorem retired_key_unknown:
  assumes "key_inv tbl" "retire_key q kid now tbl = Inr tbl'" "load_keys rd p tbl' = Inr s"
  shows "by_kid s kid = Inl (UnknownKid kid) \<and> (\<forall>i. by_kid s i \<noteq> Inl (KeyRetired i))"
proof -
  let ?hit = "\<lambda>r. kr_purpose r = q \<and> kr_kid r = kid \<and> kr_status r = PreviousKey"
  from assms(2) obtain h where h: "h \<in> set tbl" "?hit h"
    and tbl': "tbl' = map (\<lambda>r. if ?hit r then r\<lparr>kr_status := RetiredKey, kr_retired := Some now\<rparr> else r) tbl"
    by (auto simp: retire_key_def Let_def list_ex_iff split: if_splits)
  have gone: "kr_status r = RetiredKey" if "r \<in> set tbl'" "kr_kid r = kid" for r
  proof -
    from that(1) obtain u where u: "u \<in> set tbl"
        "r = (if ?hit u then u\<lparr>kr_status := RetiredKey, kr_retired := Some now\<rparr> else u)"
      unfolding tbl' set_map by (rule imageE)
    have "kr_kid u = kid" using that(2) u(2) by (cases "?hit u") simp_all
    with h u(1) have "u = h" by (intro key_inv_kid [OF assms(1)]) simp_all
    with u(2) h(2) show ?thesis by simp
  qed
  have "ks_keys s kid = None"
  proof (rule ccontr)
    assume "ks_keys s kid \<noteq> None"
    then obtain k where "ks_keys s kid = Some k" by blast
    from loaded_key [OF assms(3) this] gone show False by blast
  qed
  moreover have "by_kid s i \<noteq> Inl (KeyRetired i)" for i
  proof
    assume "by_kid s i = Inl (KeyRetired i)"
    then obtain k where k: "ks_keys s i = Some k" "k_status k = RetiredKey"
      by (auto simp: by_kid_def split: option.splits if_splits)
    from loaded_key [OF assms(3) k(1)] k(2) show False using load_row_fields by fastforce
  qed
  ultimately show ?thesis by (simp add: by_kid_def)
qed

section \<open>The published set\<close>

lemma mset_map_order:
  "distinct xs \<Longrightarrow> distinct ys \<Longrightarrow> set xs = set ys \<Longrightarrow> mset (map f xs) = mset (map f ys)"
  by (metis mset_map set_eq_iff_mset_eq_distinct)

lemma mset_short: "mset xs = mset ys \<Longrightarrow> length xs \<le> 1 \<Longrightarrow> xs = ys"
  by (cases xs; cases ys) (auto dest: mset_eq_length)

lemma mset_by_status:
  "\<forall>k \<in> set ks. k_status k \<noteq> RetiredKey \<Longrightarrow>
     mset (filter (\<lambda>k. k_status k = CurrentKey) ks) + mset (filter (\<lambda>k. k_status k = NextKey) ks) +
     mset (filter (\<lambda>k. k_status k = PreviousKey) ks) = mset ks"
proof (induction ks)
  case (Cons k ks)
  then show ?case by (cases "k_status k") simp_all
qed simp

lemma loaded_kids:
  assumes "load_keys rd p tbl = Inr s"
  shows "dom (ks_keys s) = kr_kid ` {r \<in> set tbl. kr_purpose r = p \<and> kr_status r \<noteq> RetiredKey}"
proof
  show "dom (ks_keys s) \<subseteq> kr_kid ` {r \<in> set tbl. kr_purpose r = p \<and> kr_status r \<noteq> RetiredKey}"
    using loaded_key [OF assms] by blast
  show "kr_kid ` {r \<in> set tbl. kr_purpose r = p \<and> kr_status r \<noteq> RetiredKey} \<subseteq> dom (ks_keys s)"
    using loaded_row [OF assms] by blast
qed

lemma loaded_kid_self: "load_keys rd p tbl = Inr s \<Longrightarrow> ks_keys s i = Some k \<Longrightarrow> k_kid k = i \<and> k_status k \<noteq> RetiredKey"
  using loaded_key [of rd p tbl s i k] load_row_fields by metis

text \<open>
  C17. The published key set of a loaded purpose holds exactly its rows that are not retired, each once
  under its own id, the signing key first, and is the same list whatever order the map is walked in.
\<close>

theorem published_keys_deterministic:
  assumes "key_inv tbl" "load_keys rd p tbl = Inr s"
    and "distinct order" "set order = dom (ks_keys s)"
    and "distinct order'" "set order' = dom (ks_keys s)"
  shows "jwks order s = jwks order' s \<and> distinct (map jwk_kid (jwks order s)) \<and>
    set (map jwk_kid (jwks order s)) = kr_kid ` {r \<in> set tbl. kr_purpose r = p \<and> kr_status r \<noteq> RetiredKey} \<and>
    (\<forall>r \<in> set tbl. kr_purpose r = p \<and> kr_status r = CurrentKey \<longrightarrow>
       (\<exists>ks. map jwk_kid (jwks order s) = kr_kid r # ks))"
proof -
  let ?v = "\<lambda>ord. map (the \<circ> ks_keys s) ord"
  let ?st = "\<lambda>st ord. filter (\<lambda>k. k_status k = st) (?v ord)"
  have some: "\<exists>k. ks_keys s i = Some k \<and> k_kid k = i \<and> k_status k \<noteq> RetiredKey" if "i \<in> dom (ks_keys s)" for i
    using that loaded_kid_self [OF assms(2)] by blast
  have kids: "map k_kid (?v ord) = ord" if "set ord = dom (ks_keys s)" for ord
    using that loaded_kid_self [OF assms(2)] by (auto intro!: map_idI)
  have d: "distinct (map k_kid (?v order))" using kids [OF assms(4)] assms(3) by simp
  have m: "mset (?v order) = mset (?v order')" using assms by (intro mset_map_order) simp_all
  have mst: "mset (?st st order) = mset (?st st order')" for st by (simp only: mset_filter m)
  have dst: "distinct (map k_kid (?st st order))" for st using d by (rule distinct_map_filter)
  have one: "r = u" if "r \<in> set (?st CurrentKey order)" "u \<in> set (?st CurrentKey order)" for r u
  proof -
    have "k \<in> set (?st CurrentKey order) \<Longrightarrow>
        \<exists>w \<in> set tbl. kr_purpose w = p \<and> kr_status w = CurrentKey \<and> load_row rd w = Inr k" for k
      using loaded_key [OF assms(2)] load_row_fields assms(4) by fastforce
    with that obtain x y where "x \<in> set tbl" "kr_purpose x = p" "kr_status x = CurrentKey" "load_row rd x = Inr r"
      "y \<in> set tbl" "kr_purpose y = p" "kr_status y = CurrentKey" "load_row rd y = Inr u" by meson
    moreover from this assms(1) have "x = y" unfolding key_inv_def by metis
    ultimately show ?thesis by simp
  qed
  have short: "length (?st CurrentKey order) \<le> 1"
  proof (cases "?st CurrentKey order")
    case (Cons a as)
    have "as = []" using one dst [of CurrentKey] unfolding Cons by (cases as) (auto simp: distinct_map)
    with Cons show ?thesis by simp
  qed simp
  then have cur: "?st CurrentKey order = ?st CurrentKey order'"
    by (rule mset_short [OF mst])
  have same: "verifying_keys order s = verifying_keys order' s"
    using cur sort_by_kid_unique [OF mst dst] by (simp add: verifying_keys_def Let_def)
  have mall: "mset (verifying_keys order s) = mset (?v order)"
  proof -
    have "mset (verifying_keys order s) = mset (?st CurrentKey order) + mset (?st NextKey order) + mset (?st PreviousKey order)"
      by (simp add: verifying_keys_def Let_def conjunct1 [OF sort_by_kid_sorts])
    also have "\<dots> = mset (?v order)"
    proof (rule mset_by_status)
      show "\<forall>k \<in> set (?v order). k_status k \<noteq> RetiredKey" using some assms(4) by fastforce
    qed
    finally show ?thesis .
  qed
  have e: "map jwk_kid (jwks order s) = map k_kid (verifying_keys order s)" by (simp add: jwks_def comp_def)
  have "mset (map jwk_kid (jwks order s)) = mset (map k_kid (?v order))"
    by (simp only: e mset_map [of k_kid] mall)
  then have kid_list: "mset (map jwk_kid (jwks order s)) = mset order" unfolding kids [OF assms(4)] .
  have "distinct (map jwk_kid (jwks order s))" using kid_list assms(3) mset_eq_imp_distinct_iff by blast
  moreover have "set (map jwk_kid (jwks order s)) = dom (ks_keys s)" using kid_list assms(4) mset_eq_setD by blast
  moreover have "\<exists>ks. map jwk_kid (jwks order s) = kr_kid r # ks"
    if r: "r \<in> set tbl" "kr_purpose r = p" "kr_status r = CurrentKey" for r
  proof -
    from loaded_row [OF assms(2) r(1,2)] r(3) obtain k where k: "ks_keys s (kr_kid r) = Some k" "load_row rd r = Inr k" by auto
    then have "k \<in> set (?st CurrentKey order)" using load_row_fields [OF k(2)] r(3) assms(4) by force
    with short obtain as where "?st CurrentKey order = [k]" by (cases "?st CurrentKey order") auto
    then show ?thesis using load_row_fields [OF k(2)] by (simp add: jwks_def verifying_keys_def Let_def)
  qed
  ultimately show ?thesis using same loaded_kids [OF assms(2)] by (simp add: jwks_def)
qed

section \<open>The cache\<close>

text \<open>
  A read of the key cache returns the held set while it is younger than the time to live, and
  otherwise what the load returns, remembering it; a load that fails leaves the held set in use
  unchanged, so that a cache that holds a set never fails; and after an invalidation every clock
  reading past the time to live of the zero time makes the next read load.
\<close>

theorem key_cache_reads:
  assumes "0 < kc_ttl c" "kc_ttl c < max_int64" "t0 \<le> t1"
  shows "(case kc_set c of
      Some held \<Rightarrow>
        if t0 < kc_refreshed c + kc_ttl c then keys_get t0 t1 loaded t2 c = (Inr held, c)
        else (case loaded of Inl e \<Rightarrow> keys_get t0 t1 loaded t2 c = (Inr held, c)
          | Inr s \<Rightarrow> keys_get t0 t1 loaded t2 c = (Inr s, c\<lparr>kc_set := Some s, kc_refreshed := t2\<rparr>))
    | None \<Rightarrow> (case loaded of Inl e \<Rightarrow> keys_get t0 t1 loaded t2 c = (Inl KeysNotLoaded, c)
          | Inr s \<Rightarrow> keys_get t0 t1 loaded t2 c = (Inr s, c\<lparr>kc_set := Some s, kc_refreshed := t2\<rparr>))) \<and>
    (zero_time + kc_ttl c \<le> t0 \<longrightarrow>
      keys_get t0 t1 (Inr s) t2 (keys_invalidate c) = (Inr s, c\<lparr>kc_set := Some s, kc_refreshed := t2\<rparr>))"
proof -
  have lt: "time_sub t u < kc_ttl c \<longleftrightarrow> t < u + kc_ttl c" for t u
    using assms(1,2) by (auto simp: time_sub_def min_int64_def max_int64_def)
  show ?thesis
    using assms(3) by (auto simp: keys_get_def cache_reload_def cache_fresh_def keys_invalidate_def lt split: option.split sum.split)
qed

section \<open>A concrete signing library\<close>

text \<open>A compact form that writes each part with its length in front, the signing key last.\<close>

definition pack :: "string \<Rightarrow> string" where "pack s = replicate (length s) CHR ''a'' @ CHR ''b'' # s"

definition unpack :: "string \<Rightarrow> string \<times> string" where
  "unpack x = (let n = length (takeWhile (\<lambda>c. c = CHR ''a'') x); y = drop (Suc n) x in (take n y, drop n y))"

lemma unpack_pack [simp]: "unpack (pack s @ rest) = (s, rest)"
proof -
  have "takeWhile (\<lambda>c. c = CHR ''a'') (replicate n CHR ''a'' @ CHR ''b'' # xs) = replicate n CHR ''a''" for n and xs :: string
    by (induction n) simp_all
  then show ?thesis by (simp add: unpack_def pack_def Let_def)
qed

definition sample_jose :: "(string, string) jose" where
  "sample_jose = \<lparr>jo_sign = (\<lambda>alg prv ty kid payload. Some (pack alg @ pack ty @ pack kid @ pack payload @ prv)),
     jo_parse = (\<lambda>algs x. case unpack x of (alg, x) \<Rightarrow> case unpack x of (ty, x) \<Rightarrow> case unpack x of (kid, x) \<Rightarrow>
        if alg \<in> set algs then Signatures [\<lparr>jh_alg = alg, jh_kid = kid, jh_typ = Some ty\<rparr>] else AlgorithmRefused),
     jo_verify = (\<lambda>x pub. case unpack x of (alg, x) \<Rightarrow> case unpack x of (ty, x) \<Rightarrow> case unpack x of (kid, x) \<Rightarrow>
        case unpack x of (payload, prv) \<Rightarrow> if prv = pub then Some payload else None)\<rparr>"

lemma sample_jose_law: "jose_round_trip sample_jose (=)"
  unfolding jose_round_trip_def sample_jose_def by auto

lemma sample_table_load:
  "load_keys sample_reader PurposeOIDC table_before = new_key_set
     [\<lparr>k_kid = ''k1'', k_alg = ES256, k_status = CurrentKey, k_public = ''k1'', k_cert = [], k_private = Some ''k1''\<rparr>,
      \<lparr>k_kid = ''k2'', k_alg = ES256, k_status = NextKey, k_public = ''k2'', k_cert = [], k_private = None\<rparr>]"
  "load_keys sample_reader PurposeOIDC table_after = new_key_set
     [\<lparr>k_kid = ''k1'', k_alg = ES256, k_status = PreviousKey, k_public = ''k1'', k_cert = [], k_private = None\<rparr>,
      \<lparr>k_kid = ''k2'', k_alg = ES256, k_status = CurrentKey, k_public = ''k2'', k_cert = [], k_private = Some ''k2''\<rparr>]"
  by (simp_all add: load_keys_def table_before_def table_after_def sample_row_def sample_reader_def load_row_def
    algorithm_of_text_def)

lemma sample_paired: "rows_paired sample_reader (=) table_before"
  by (simp add: rows_paired_def sample_reader_def row_private_def table_before_def sample_row_def)

lemma tables_inv: "key_inv table_before" "key_inv table_after" "key_step\<^sup>*\<^sup>* table_before table_after"
  using key_steps_keep [OF r_into_rtranclp [of key_step, OF table_steps(4)] table_before_inv]
  by (simp_all add: table_before_inv r_into_rtranclp [of key_step, OF table_steps(4)])

definition sample_token :: string where
  "sample_token = pack ''ES256'' @ pack ''at+jwt'' @ pack ''k1'' @ pack ''claims'' @ ''k1''"

lemma sample_signed: "sign_with_type sample_jose (load_keys sample_reader PurposeOIDC table_before) ''claims'' ''at+jwt'' = Inr sample_token"
  by (simp add: sample_table_load new_key_set_def Let_def sign_with_type_def current_key_def can_sign_def algorithm_text_def
    sample_jose_def sample_token_def)

text \<open>The token signed by the first key is accepted after the second has been promoted.\<close>

lemma rotation_overlap_witness:
  "verify_token sample_jose (load_keys sample_reader PurposeOIDC table_after) sample_token ''at+jwt'' = Inr ''claims''"
proof -
  obtain s where s: "load_keys sample_reader PurposeOIDC table_after = Inr s"
    by (simp add: sample_table_load new_key_set_def Let_def)
  have "\<forall>r \<in> set table_after. kr_kid r = ''k1'' \<longrightarrow> kr_status r \<noteq> RetiredKey"
    by (simp add: table_after_def sample_row_def)
  with s show ?thesis
    by (intro rotation_overlap [OF tables_inv(1,3) sample_jose_law sample_paired sample_signed, of s "''k1''"])
      (simp_all add: sample_table_load new_key_set_def Let_def current_kid_def current_key_def can_sign_def)
qed

lemma verify_token_safety_witness:
  "\<exists>r \<in> set table_after. kr_kid r = ''k1'' \<and> kr_purpose r = PurposeOIDC \<and> kr_status r = PreviousKey"
proof -
  have "verify_token sample_jose (load_keys sample_reader PurposeOIDC table_after) sample_token ''at+jwt'' = Inr ''claims''"
    by (simp add: sample_table_load new_key_set_def Let_def verify_token_def by_kid_def algorithm_text_def
      sample_jose_def sample_token_def allowed_algorithms_def)
  from verify_token_safety [OF this] obtain h r where
      "jo_parse sample_jose allowed_algorithms sample_token = Signatures [h]" "r \<in> set table_after" "kr_kid r = jh_kid h" by blast
  then have "r \<in> set table_after" "kr_kid r = ''k1''"
    by (auto simp: sample_jose_def sample_token_def allowed_algorithms_def)
  then show ?thesis by (auto simp: table_after_def sample_row_def)
qed

lemma retired_key_unknown_witness:
  "\<exists>tbl' s. retire_key PurposeOIDC ''k1'' 20 table_after = Inr tbl' \<and> load_keys sample_reader PurposeOIDC tbl' = Inr s \<and>
     by_kid s ''k1'' = Inl (UnknownKid ''k1'')"
proof -
  obtain tbl' where r: "retire_key PurposeOIDC ''k1'' 20 table_after = Inr tbl'"
    by (simp add: retire_key_def Let_def table_after_def sample_row_def)
  then have "\<exists>s. load_keys sample_reader PurposeOIDC tbl' = Inr s"
    by (auto simp: retire_key_def Let_def table_after_def sample_row_def load_keys_def load_row_def sample_reader_def
      algorithm_of_text_def new_key_set_def)
  then obtain s where s: "load_keys sample_reader PurposeOIDC tbl' = Inr s" by blast
  from retired_key_unknown [OF tables_inv(2) r s] r s show ?thesis by blast
qed

lemma published_keys_deterministic_witness:
  "\<exists>s. load_keys sample_reader PurposeOIDC table_after = Inr s \<and> dom (ks_keys s) = {''k1'', ''k2''} \<and>
     jwks [''k1'', ''k2''] s = jwks [''k2'', ''k1''] s"
proof -
  obtain s where s: "load_keys sample_reader PurposeOIDC table_after = Inr s"
    "dom (ks_keys s) = {''k1'', ''k2''}"
    by (simp add: sample_table_load new_key_set_def Let_def) auto
  have "jwks [''k1'', ''k2''] s = jwks [''k2'', ''k1''] s"
    by (rule conjunct1 [OF published_keys_deterministic [OF tables_inv(2) s(1)]]) (simp_all add: s(2) insert_commute)
  with s show ?thesis by blast
qed

text \<open>A failed load after the five minutes leaves the old set in use.\<close>

lemma key_cache_reads_witness:
  "\<exists>c :: (string, string) key_cache. kc_set c \<noteq> None \<and> is_ok (fst (keys_get (6 * minute) (6 * minute) (Inl KeyStoreFailure) 0 c))"
proof -
  define s :: "(string, string) key_set" where "s = \<lparr>ks_keys = Map.empty, ks_current = None\<rparr>"
  define c where "c = (new_key_cache key_cache_ttl)\<lparr>kc_set := Some s, kc_refreshed := 0\<rparr>"
  have c: "0 < kc_ttl c" "kc_ttl c < max_int64" "kc_set c = Some s" "kc_refreshed c + kc_ttl c \<le> 6 * minute"
    by (simp_all add: c_def new_key_cache_def key_cache_ttl_def minute_def max_int64_def)
  from conjunct1 [OF key_cache_reads [OF c(1,2) order_refl [of "6 * minute"], where loaded = "Inl KeyStoreFailure"]] c(3,4)
  have "keys_get (6 * minute) (6 * minute) (Inl KeyStoreFailure) t2 c = (Inr s, c)" for t2 by auto
  then show ?thesis using c(3) by (intro exI [of _ c]) simp
qed

end
