(* ===== verification/UrlQuery.thy ===== *)
theory UrlQuery
  imports OAuthClient "HOL-Library.AList" "HOL-Library.List_Lexorder" "HOL-Library.Char_ord" "HOL-Library.Multiset"
begin

text \<open>
  Query strings as \<open>net/url\<close> reads and writes them, for the redirects of the authorization endpoint:
  \<open>ParseQuery\<close>, \<open>Values.Set\<close>, \<open>Values.Encode\<close>, \<open>QueryEscape\<close>. A \<open>url.Values\<close> is an association list
  with distinct keys. What a client reads from a redirect is what the service set.
\<close>

section \<open>Escaping\<close>

definition query_safe :: "char \<Rightarrow> bool" where
  "query_safe c \<longleftrightarrow> is_alnum c \<or> c = CHR ''-'' \<or> c = CHR ''_'' \<or> c = CHR ''.'' \<or> c = CHR ''~''"

definition upper_hex :: "nat \<Rightarrow> char" where "upper_hex n = ''0123456789ABCDEF'' ! n"

definition escape_char :: "char \<Rightarrow> string" where
  "escape_char c = (if query_safe c then [c] else if c = CHR '' '' then ''+''
     else [CHR ''%'', upper_hex (ord_of c div 16), upper_hex (ord_of c mod 16)])"

definition query_escape :: "string \<Rightarrow> string" where "query_escape s = concat (map escape_char s)"

lemma below_16: "n < 16 \<Longrightarrow> n \<in> {0,1,2,3,4,5,6,7,8,9,10,11,12,13,14,15}" for n :: nat
  by (simp, presburger)

lemma unhex_upper_hex: "n < 16 \<Longrightarrow> unhex (upper_hex n) = Some n"
proof -
  assume "n < 16"
  then have "n \<in> {0,1,2,3,4,5,6,7,8,9,10,11,12,13,14,15}" by (rule below_16)
  then show ?thesis by (auto simp: upper_hex_def unhex_def is_digit_def)
qed

lemma escape_char_unescape: "query_unescape (escape_char c @ s) = map_option ((#) c) (query_unescape s)"
proof -
  have ord: "(of_char c :: nat) < 256" by simp
  have hex: "unhex (upper_hex (of_char c div 16)) = Some (of_char c div 16)"
    "unhex (upper_hex (of_char c mod 16)) = Some (of_char c mod 16)"
    using ord by (auto intro!: unhex_upper_hex simp: less_mult_imp_div_less)
  have "16 * (of_char c div 16) + of_char c mod 16 = (of_char c :: nat)" by simp
  then have restored: "char_of (16 * (of_char c div 16) + of_char c mod 16 :: nat) = c" by (simp only: char_of_char)
  show ?thesis
  proof (cases "query_safe c")
    case True
    then have "c \<noteq> CHR ''%''" "c \<noteq> CHR ''+''"
      by (auto simp: query_safe_def char_class_defs)
    with True show ?thesis by (simp add: escape_char_def)
  next
    case False
    then show ?thesis using hex restored by (auto simp: escape_char_def)
  qed
qed

lemma query_unescape_escape [simp]: "query_unescape (query_escape s) = Some s"
  by (induction s) (simp_all add: query_escape_def escape_char_unescape)

lemma upper_hex_alnum: "n < 16 \<Longrightarrow> is_alnum (upper_hex n)"
proof -
  assume "n < 16"
  then have "n \<in> {0,1,2,3,4,5,6,7,8,9,10,11,12,13,14,15}" by (rule below_16)
  then show ?thesis by (auto simp: upper_hex_def char_class_defs)
qed

lemma query_escape_chars: "c \<in> set (query_escape s) \<Longrightarrow> query_safe c \<or> c = CHR ''+'' \<or> c = CHR ''%''"
proof -
  have "(of_char x :: nat) div 16 < 16" for x :: char
    by (rule less_mult_imp_div_less) simp
  then have "is_alnum (upper_hex (of_char x div 16))" "is_alnum (upper_hex (of_char x mod 16))" for x :: char
    by (auto intro!: upper_hex_alnum)
  moreover assume "c \<in> set (query_escape s)"
  ultimately show ?thesis by (auto simp: query_escape_def escape_char_def query_safe_def split: if_splits)
qed

lemma query_escape_no_sep: "CHR ''&'' \<notin> set (query_escape s)" "CHR '';'' \<notin> set (query_escape s)" "CHR ''='' \<notin> set (query_escape s)"
  using query_escape_chars [of "CHR ''&''" s] query_escape_chars [of "CHR '';''" s] query_escape_chars [of "CHR ''=''" s]
  by (auto simp: query_safe_def char_class_defs)

section \<open>Values\<close>

type_synonym url_values = "(string \<times> string list) list"

definition values_at :: "url_values \<Rightarrow> string \<Rightarrow> string list" where
  "values_at m k = (case map_of m k of None \<Rightarrow> [] | Some vs \<Rightarrow> vs)"

definition values_set :: "string \<Rightarrow> string \<Rightarrow> url_values \<Rightarrow> url_values" where
  "values_set k v m = AList.update k [v] m"

definition values_add :: "string \<Rightarrow> string \<Rightarrow> url_values \<Rightarrow> url_values" where
  "values_add k v m = AList.update k (values_at m k @ [v]) m"

lemma values_at_set [simp]: "values_at (values_set k v m) k' = (if k' = k then [v] else values_at m k')"
  by (simp add: values_at_def values_set_def AList.update_conv)

lemma values_at_add [simp]: "values_at (values_add k v m) k' = (if k' = k then values_at m k @ [v] else values_at m k')"
  by (simp add: values_at_def values_add_def AList.update_conv)

lemma distinct_values [simp]:
  "distinct (map fst m) \<Longrightarrow> distinct (map fst (values_set k v m))"
  "distinct (map fst m) \<Longrightarrow> distinct (map fst (values_add k v m))"
  by (simp_all add: values_set_def values_add_def AList.distinct_update)

text \<open>The loop of \<open>ParseQuery\<close>: cut at the next ampersand, at most as often as there are bytes.\<close>

definition cut :: "char \<Rightarrow> string \<Rightarrow> string \<times> string" where
  "cut c s = (takeWhile (\<lambda>x. x \<noteq> c) s, drop 1 (dropWhile (\<lambda>x. x \<noteq> c) s))"

definition parse_pair :: "string \<Rightarrow> (string \<times> string) option" where
  "parse_pair seg =
     (if contains seg (CHR '';'') \<or> seg = [] then None
      else case cut (CHR ''='') seg of (k, v) \<Rightarrow>
        (case (query_unescape k, query_unescape v) of (Some k, Some v) \<Rightarrow> Some (k, v) | _ \<Rightarrow> None))"

definition add_segment :: "string \<Rightarrow> url_values \<Rightarrow> url_values" where
  "add_segment seg m = (case parse_pair seg of None \<Rightarrow> m | Some (k, v) \<Rightarrow> values_add k v m)"

function parse_query_into :: "url_values \<Rightarrow> string \<Rightarrow> url_values" where
  "parse_query_into m s =
     (if s = [] then m
      else case cut (CHR ''&'') s of (seg, rest) \<Rightarrow> parse_query_into (add_segment seg m) rest)"
  by pat_completeness auto
termination
proof (relation "measure (\<lambda>(m, s). length s)")
  fix m :: url_values and s seg rest :: string
  assume "s \<noteq> []" "(seg, rest) = cut (CHR ''&'') s"
  then have "rest = drop 1 (dropWhile (\<lambda>x. x \<noteq> CHR ''&'') s)" by (simp add: cut_def)
  moreover have "length (dropWhile (\<lambda>x. x \<noteq> CHR ''&'') s) \<le> length s" by (rule length_dropWhile_le)
  ultimately show "((add_segment seg m, rest), m, s) \<in> measure (\<lambda>(m, s). length s)"
    using \<open>s \<noteq> []\<close> by (cases s) auto
qed simp

declare parse_query_into.simps [simp del]

definition parse_query :: "string \<Rightarrow> url_values" where "parse_query s = parse_query_into [] s"

definition encode_pair :: "string \<Rightarrow> string \<Rightarrow> string" where
  "encode_pair k v = query_escape k @ CHR ''='' # query_escape v"

fun join_amp :: "string list \<Rightarrow> string" where
  "join_amp [] = []"
| "join_amp [s] = s"
| "join_amp (s # ss) = s @ CHR ''&'' # join_amp ss"

definition query_pairs :: "url_values \<Rightarrow> (string \<times> string) list" where
  "query_pairs m = concat (map (\<lambda>(k, vs). map (Pair k) vs) (sort_key fst m))"

definition encode_query :: "url_values \<Rightarrow> string" where
  "encode_query m = join_amp (map (\<lambda>(k, v). encode_pair k v) (query_pairs m))"

section \<open>Reading back\<close>

lemma parse_pair_encode: "parse_pair (encode_pair k v) = Some (k, v)"
proof -
  have "takeWhile (\<lambda>x. x \<noteq> CHR ''='') (query_escape k @ CHR ''='' # query_escape v) = query_escape k"
    using query_escape_no_sep(3) [of k] by (subst takeWhile_append2) auto
  moreover have "dropWhile (\<lambda>x. x \<noteq> CHR ''='') (query_escape k @ CHR ''='' # query_escape v) = CHR ''='' # query_escape v"
    using query_escape_no_sep(3) [of k] by (subst dropWhile_append2) auto
  ultimately show ?thesis
    using query_escape_no_sep(2) [of k] query_escape_no_sep(2) [of v]
    by (simp add: parse_pair_def encode_pair_def cut_def)
qed

lemma encode_pair_amp: "CHR ''&'' \<notin> set (encode_pair k v)" "encode_pair k v \<noteq> []"
  using query_escape_no_sep(1) by (simp_all add: encode_pair_def)

lemma parse_query_into_segments:
  assumes "\<forall>s \<in> set segs. CHR ''&'' \<notin> set s \<and> s \<noteq> []"
  shows "parse_query_into m (join_amp segs) = fold add_segment segs m"
  using assms
proof (induction segs arbitrary: m rule: join_amp.induct)
  case 1
  then show ?case by (simp add: parse_query_into.simps)
next
  case (2 s)
  then have "\<forall>x \<in> set s. x \<noteq> CHR ''&''" by auto
  then have "takeWhile (\<lambda>x. x \<noteq> CHR ''&'') s = s" "dropWhile (\<lambda>x. x \<noteq> CHR ''&'') s = []"
    by (simp_all only: takeWhile_eq_all_conv dropWhile_eq_Nil_conv)
  then have "cut (CHR ''&'') s = (s, [])" by (simp only: cut_def drop_Nil)
  with 2 show ?case by (subst parse_query_into.simps) (simp add: parse_query_into.simps)
next
  case (3 s t ss)
  then have "cut (CHR ''&'') (s @ CHR ''&'' # join_amp (t # ss)) = (s, join_amp (t # ss))"
    by (simp add: cut_def) (subst takeWhile_append2 dropWhile_append2; auto)+
  with 3 show ?case by (subst parse_query_into.simps) simp
qed

lemma values_of_pairs:
  "values_at (fold add_segment (map (\<lambda>(k, v). encode_pair k v) ps) m) k =
     values_at m k @ map snd (filter (\<lambda>p. fst p = k) ps)"
  by (induction ps arbitrary: m) (auto simp: add_segment_def parse_pair_encode)

lemma query_pairs_at:
  assumes "distinct (map fst m)"
  shows "map snd (filter (\<lambda>p. fst p = k) (query_pairs m)) = values_at m k"
proof -
  have "map snd (filter (\<lambda>p. fst p = k) (concat (map (\<lambda>(k, vs). map (Pair k) vs) xs))) = values_at xs k"
    if "distinct (map fst xs)" for xs :: url_values
    using that
  proof (induction xs)
    case (Cons x xs)
    obtain j vs where x: "x = (j, vs)" by (cases x)
    have "filter (\<lambda>p. fst p = k) (map (Pair j) vs) = (if j = k then map (Pair j) vs else [])" by (induction vs) auto
    moreover have "values_at xs k = []" if "j = k"
      using Cons.prems x that by (auto simp: values_at_def map_of_eq_None_iff [THEN iffD2])
    ultimately show ?case using Cons x by (auto simp: values_at_def comp_def)
  qed (simp add: values_at_def)
  moreover have "mset (map fst (sort_key fst m)) = mset (map fst m)" by (metis mset_map mset_sort)
  then have d: "distinct (map fst (sort_key fst m))" using assms mset_eq_imp_distinct_iff by blast
  moreover have "map_of (sort_key fst m) = map_of m"
    using assms d by (simp add: map_of_inject_set)
  ultimately show ?thesis by (simp add: query_pairs_def values_at_def)
qed

text \<open>What is encoded is read back, key by key.\<close>

lemma parse_encode_query:
  "distinct (map fst m) \<Longrightarrow> values_at (parse_query (encode_query m)) k = values_at m k"
proof -
  assume d: "distinct (map fst m)"
  let ?segs = "map (\<lambda>(k, v). encode_pair k v) (query_pairs m)"
  have "\<forall>s \<in> set ?segs. CHR ''&'' \<notin> set s \<and> s \<noteq> []" using encode_pair_amp by auto
  then have "parse_query (encode_query m) = fold add_segment ?segs []"
    unfolding parse_query_def encode_query_def by (rule parse_query_into_segments)
  then show ?thesis using values_of_pairs [of "query_pairs m" "[]" k] query_pairs_at [OF d, of k]
    by (simp add: values_at_def)
qed

lemma distinct_parse_query: "distinct (map fst (parse_query s))"
proof -
  have "distinct (map fst m) \<Longrightarrow> distinct (map fst (parse_query_into m s))" for m s
  proof (induction m s rule: parse_query_into.induct)
    case (1 m s)
    obtain seg rest where c: "cut (CHR ''&'') s = (seg, rest)" by (cases "cut (CHR ''&'') s")
    have "distinct (map fst (add_segment seg m))" using 1(2) by (auto simp: add_segment_def split: option.split)
    with 1(1) c 1(2) show ?case by (subst parse_query_into.simps) auto
  qed
  then show ?thesis by (simp add: parse_query_def)
qed

end
