(* ===== verification/SessionCookie.thy ===== *)
theory SessionCookie
  imports SessionProps
begin

text \<open>
  The session cookie (\<open>internal/session/session.go\<close>): what is set, what clears it, and what a request's
  cookies say. A request carries name and value pairs, and \<open>Request.Cookie\<close> finds the first of a name.
\<close>

datatype same_site = SameSiteLax | SameSiteStrict | SameSiteNone

record http_cookie =
  co_name :: string
  co_value :: string
  co_path :: string
  co_domain :: string
  co_secure :: bool
  co_http_only :: bool
  co_same_site :: same_site
  co_max_age :: int

definition cookie_name :: string where "cookie_name = ''__Host-zedauth_session''"

definition session_cookie :: "string \<Rightarrow> http_cookie" where
  "session_cookie token = \<lparr>co_name = cookie_name, co_value = token, co_path = ''/'', co_domain = [],
     co_secure = True, co_http_only = True, co_same_site = SameSiteLax, co_max_age = 0\<rparr>"

definition clear_cookie :: http_cookie where
  "clear_cookie = \<lparr>co_name = cookie_name, co_value = [], co_path = ''/'', co_domain = [],
     co_secure = True, co_http_only = True, co_same_site = SameSiteLax, co_max_age = -1\<rparr>"

definition token_from_request :: "(string \<times> string) list \<Rightarrow> string option" where
  "token_from_request cookies =
     (case map_of cookies cookie_name of
        None \<Rightarrow> None
      | Some v \<Rightarrow> let value = trim_space v in if \<not> valid_token value then None else Some value)"

lemma space_len_word: "33 \<le> ord_of c \<Longrightarrow> ord_of c < 127 \<Longrightarrow> space_len (c # s) = 0"
  by (simp add: space_len_ascii ascii_space_def)

lemma trim_right_word: "\<forall>c \<in> set r. 33 \<le> ord_of c \<and> ord_of c < 127 \<Longrightarrow> trim_right_rev n r = r"
proof (cases n)
  case (Suc m)
  assume w: "\<forall>c \<in> set r. 33 \<le> ord_of c \<and> ord_of c < 127"
  have "space_len (rev (take k r)) = 0" for k
  proof (cases "rev (take k r)")
    case (Cons c s)
    then have "c \<in> set (take k r)" by (metis list.set_intros(1) set_rev)
    with w Cons show ?thesis by (metis in_set_takeD space_len_word)
  next
    case Nil
    then show ?thesis by (simp only: space_len.simps)
  qed
  with Suc show ?thesis by simp
qed simp

lemma trim_space_word: "\<forall>c \<in> set s. 33 \<le> ord_of c \<and> ord_of c < 127 \<Longrightarrow> trim_space s = s"
proof -
  assume w: "\<forall>c \<in> set s. 33 \<le> ord_of c \<and> ord_of c < 127"
  have "trim_left s = s" using w by (cases s) (simp_all add: space_len_word)
  moreover have "trim_right_rev (length s) (rev s) = rev s" by (rule trim_right_word) (use w in simp)
  ultimately show ?thesis by (simp add: trim_space_def Let_def)
qed

lemma valid_token_word: "valid_token t \<Longrightarrow> \<forall>c \<in> set t. 33 \<le> ord_of c \<and> ord_of c < 127"
  by (auto simp: valid_token_def list_all_iff char_class_defs)

lemma token_read: "valid_token t \<Longrightarrow> token_from_request ((cookie_name, t) # cookies) = Some t"
  by (simp add: token_from_request_def trim_space_word [OF valid_token_word])

end
