(* ===== verification/Authorize.thy ===== *)
theory Authorize
  imports UrlQuery CodeStore SessionManager SessionCookie
begin

text \<open>
  \<open>GET /oauth/authorize\<close> (\<open>internal/oauth/authorize/handler.go\<close>): the two phases, the session, the code,
  the login page, the error page, and the seam the login page finishes through (\<open>Peek\<close>, \<open>Resume\<close>).

  An answer is a page without a Location header or a redirect to a string. The handler reads the clock
  where it checks the session (\<open>now\<close>) and where it issues the code (\<open>at\<close>).
\<close>

section \<open>Collaborators and answers\<close>

record ('s, 'p) authorize_env =
  az_client :: "string \<Rightarrow> application option"
  az_lookup :: "string \<Rightarrow> session_policy \<Rightarrow> time \<Rightarrow> session option"
  az_codes :: "('s, auth_code blob) redis_ops"
  az_pendings :: "('p, auth_request blob) redis_ops"
  az_mandate :: "(string \<Rightarrow> string \<Rightarrow> time \<Rightarrow> bool option) option"
  az_lib :: url_lib
  az_login :: string
  az_policy :: session_policy
  az_code_drawn :: "byte list option"
  az_pending_drawn :: "byte list option"
  az_sentence :: "auth_msg \<Rightarrow> string" \<comment> \<open>the English sentence of an error\<close>

record ('s, 'p) authorize_world =
  aw_codes :: 's
  aw_pending :: 'p

datatype page_detail =
    PageParams auth_msg | PageClientOrRedirect | PageRedirectUnparsable | PageLoginMisconfigured
  | PagePendingGone | PageNoApplication | PageOtherOrganization

datatype authorize_answer = ErrorPage page_detail | RedirectTo string

section \<open>Redirects\<close>

text \<open>\<open>url.Parse\<close>, \<open>Query\<close>, \<open>Set\<close> for each pair, \<open>Encode\<close>, \<open>String\<close>.\<close>

definition with_params :: "url_lib \<Rightarrow> string \<Rightarrow> (string \<times> string) list \<Rightarrow> string option" where
  "with_params lib uri sets =
     (case parse lib uri of
        None \<Rightarrow> None
      | Some u \<Rightarrow> Some (url_string lib (u\<lparr>u_raw_query :=
          encode_query (fold (\<lambda>(k, v). values_set k v) sets (parse_query (u_raw_query u)))\<rparr>)))"

definition redirect_error :: "('s, 'p) authorize_env \<Rightarrow> string \<Rightarrow> string \<Rightarrow> auth_error \<Rightarrow> authorize_answer" where
  "redirect_error env uri state e =
     (case with_params (az_lib env) uri
         ([(''error'', ae_code e)] @
          (if az_sentence env (ae_msg e) \<noteq> [] then [(''error_description'', az_sentence env (ae_msg e))] else []) @
          (if state \<noteq> [] then [(''state'', state)] else [])) of
        None \<Rightarrow> ErrorPage PageRedirectUnparsable
      | Some loc \<Rightarrow> RedirectTo loc)"

section \<open>The session\<close>

definition session_for ::
  "('s, 'p) authorize_env \<Rightarrow> (string \<times> string) list \<Rightarrow> auth_request \<Rightarrow> application \<Rightarrow> time \<Rightarrow> session option" where
  "session_for env cookies req app now =
     (if has_prompt req prompt_login then None
      else case token_from_request cookies of
        None \<Rightarrow> None
      | Some token \<Rightarrow>
          (case az_lookup env token (az_policy env) now of
             None \<Rightarrow> None
           | Some s \<Rightarrow>
               if sn_org s \<noteq> app_org app then None
               else if (case ar_max_age req of None \<Rightarrow> False | Some m \<Rightarrow> time_sub now (sn_created s) > m) then None
               else (case az_mandate env of
                  None \<Rightarrow> Some s
                | Some unmet \<Rightarrow>
                    (case unmet (sn_org s) (sn_user s) now of
                       None \<Rightarrow> None
                     | Some u \<Rightarrow> if u then None else Some s))))"

section \<open>Codes and the login page\<close>

definition code_for :: "auth_request \<Rightarrow> application \<Rightarrow> session \<Rightarrow> time \<Rightarrow> auth_code" where
  "code_for req app s at =
     \<lparr>ac_client = app_id app, ac_redirect = ar_redirect req, ac_user = sn_user s, ac_org = sn_org s,
      ac_session = sn_id s, ac_scope = ar_scope req, ac_nonce = ar_nonce req, ac_challenge = ar_challenge req,
      ac_auth_methods = sn_methods s, ac_auth_time = sn_created s, ac_issued = at\<rparr>"

definition issue_redirect ::
  "('s, 'p) authorize_env \<Rightarrow> auth_request \<Rightarrow> application \<Rightarrow> session \<Rightarrow> time \<Rightarrow> ('s, 'p) authorize_world
    \<Rightarrow> authorize_answer \<times> ('s, 'p) authorize_world" where
  "issue_redirect env req app s at w =
     (case issue_code (az_codes env) at (code_for req app s at) code_ttl (az_code_drawn env) (aw_codes w) of
        (Inl _, st) \<Rightarrow>
          (redirect_error env (ar_redirect req) (ar_state req) (oauth_err ''server_error'' CodeNotIssued), w\<lparr>aw_codes := st\<rparr>)
      | (Inr code, st) \<Rightarrow>
          (case with_params (az_lib env) (ar_redirect req) [(''code'', code), (''state'', ar_state req)] of
             None \<Rightarrow> (ErrorPage PageRedirectUnparsable, w\<lparr>aw_codes := st\<rparr>)
           | Some loc \<Rightarrow> (RedirectTo loc, w\<lparr>aw_codes := st\<rparr>)))"

definition to_login ::
  "('s, 'p) authorize_env \<Rightarrow> auth_request \<Rightarrow> time \<Rightarrow> ('s, 'p) authorize_world
    \<Rightarrow> authorize_answer \<times> ('s, 'p) authorize_world" where
  "to_login env req at w =
     (case save_pending (az_pendings env) at req pending_ttl (az_pending_drawn env) (aw_pending w) of
        (Inl _, st) \<Rightarrow>
          (redirect_error env (ar_redirect req) (ar_state req) (oauth_err ''server_error'' RequestNotContinued), w\<lparr>aw_pending := st\<rparr>)
      | (Inr i, st) \<Rightarrow>
          (case with_params (az_lib env) (az_login env) [(''request'', i)] of
             None \<Rightarrow> (ErrorPage PageLoginMisconfigured, w\<lparr>aw_pending := st\<rparr>)
           | Some loc \<Rightarrow> (RedirectTo loc, w\<lparr>aw_pending := st\<rparr>)))"

section \<open>The endpoint\<close>

definition serve_authorize ::
  "('s, 'p) authorize_env \<Rightarrow> form \<Rightarrow> (string \<times> string) list \<Rightarrow> time \<Rightarrow> time \<Rightarrow> ('s, 'p) authorize_world
    \<Rightarrow> authorize_answer \<times> ('s, 'p) authorize_world" where
  "serve_authorize env q cookies now at w =
     (case parse_phase1 q of
        Inl m \<Rightarrow> (ErrorPage (PageParams m), w)
      | Inr p1 \<Rightarrow>
          (case az_client env (p1_client p1) of
             None \<Rightarrow> (ErrorPage PageClientOrRedirect, w)
           | Some app \<Rightarrow>
               if \<not> matches_redirect_uri app (p1_redirect p1) then (ErrorPage PageClientOrRedirect, w)
               else (case parse_phase2 q p1 (contains (grant_types app) grant_refresh_token) of
                  Inl e \<Rightarrow> (redirect_error env (p1_redirect p1) (form_get q ''state'') e, w)
                | Inr req \<Rightarrow>
                    if \<not> contains (grant_types app) grant_authorization_code then
                      (redirect_error env (ar_redirect req) (ar_state req)
                         (oauth_err ''unauthorized_client'' CodeGrantNotPermitted), w)
                    else (case session_for env cookies req app now of
                       Some s \<Rightarrow> issue_redirect env req app s at w
                     | None \<Rightarrow>
                         if has_prompt req prompt_none then
                           (redirect_error env (ar_redirect req) (ar_state req)
                              (oauth_err ''login_required'' NoActiveSession), w)
                         else to_login env req at w))))"

section \<open>The seam of the login page\<close>

record pending =
  pe_id :: string
  pe_request :: auth_request
  pe_app :: application

datatype peek_error = PeekStore pending_error | PeekNoClient

definition peek_request :: "('s, 'p) authorize_env \<Rightarrow> string \<Rightarrow> time \<Rightarrow> 'p \<Rightarrow> peek_error + pending" where
  "peek_request env i now st =
     (case peek_pending (az_pendings env) now i st of
        Inl e \<Rightarrow> Inl (PeekStore e)
      | Inr req \<Rightarrow>
          (case az_client env (ar_client req) of
             None \<Rightarrow> Inl PeekNoClient
           | Some app \<Rightarrow> Inr \<lparr>pe_id = i, pe_request = req, pe_app = app\<rparr>))"

definition resume_request ::
  "('s, 'p) authorize_env \<Rightarrow> string \<Rightarrow> session \<Rightarrow> time \<Rightarrow> ('s, 'p) authorize_world
    \<Rightarrow> authorize_answer \<times> ('s, 'p) authorize_world" where
  "resume_request env i s at w =
     (case load_pending (az_pendings env) at i (aw_pending w) of
        (Inl _, st) \<Rightarrow> (ErrorPage PagePendingGone, w\<lparr>aw_pending := st\<rparr>)
      | (Inr req, st) \<Rightarrow>
          let w = w\<lparr>aw_pending := st\<rparr> in
          (case az_client env (ar_client req) of
             None \<Rightarrow> (ErrorPage PageNoApplication, w)
           | Some app \<Rightarrow>
               if sn_org s \<noteq> app_org app then (ErrorPage PageOtherOrganization, w)
               else issue_redirect env req app s at w))"

end
