(* ===== verification/AuthorizeProps.thy ===== *)
theory AuthorizeProps
  imports Authorize
begin

text \<open>
  What the authorization endpoint promises: nothing is redirected to an address the client did not
  register, a code stands for a live session of the client's organization, the code reaches the client
  and is redeemed to exactly what was authorized, and an interrupted request is continued once.

  The endpoint sees sessions through the locale \<open>session_source\<close>, which the session manager provides.
\<close>

section \<open>The session interface\<close>

locale session_source =
  fixes lookup :: "string \<Rightarrow> session_policy \<Rightarrow> time \<Rightarrow> session option"
  assumes only_live: "lookup token p now = Some s \<Longrightarrow> valid_token token \<and> session_alive s (pol_idle p) now"
begin

lemma session_for_usable:
  assumes "session_for env cookies req app now = Some s" "az_lookup env = lookup"
  shows "session_alive s (pol_idle (az_policy env)) now \<and> sn_org s = app_org app \<and>
    \<not> has_prompt req prompt_login \<and>
    (\<forall>m. ar_max_age req = Some m \<longrightarrow> time_sub now (sn_created s) \<le> m) \<and>
    (\<forall>unmet. az_mandate env = Some unmet \<longrightarrow> unmet (sn_org s) (sn_user s) now = Some False) \<and>
    (\<exists>token. token_from_request cookies = Some token \<and> lookup token (az_policy env) now = Some s)"
proof -
  from assms obtain token where t: "token_from_request cookies = Some token" "lookup token (az_policy env) now = Some s"
    by (auto simp: session_for_def split: if_splits option.splits)
  with assms show ?thesis using only_live [OF t(2)]
    by (auto simp: session_for_def not_less split: if_splits option.splits)
qed

end

definition lookup_of :: "'s session_env \<Rightarrow> 's session_world \<Rightarrow> string \<Rightarrow> session_policy \<Rightarrow> time \<Rightarrow> session option" where
  "lookup_of env w token p now =
     (case fst (manager_lookup env token p now w) of Inl _ \<Rightarrow> None | Inr s \<Rightarrow> Some s)"

lemma lookup_of_alive:
  assumes "lookup_of env w token p now = Some s"
  shows "valid_token token \<and> session_alive s (pol_idle p) now"
proof -
  from assms obtain w' where run: "manager_lookup env token p now w = (Inr s, w')"
    by (cases "manager_lookup env token p now w") (auto simp: lookup_of_def split: sum.splits)
  then have v: "valid_token token" by (auto simp: manager_lookup_def split: if_splits)
  show ?thesis
  proof (cases "cache_get (sv_cache env) (sv_clock env) (sv_get env) (hash_token token) (sw_redis w)")
    case (Some x)
    with run v show ?thesis by (auto simp: manager_lookup_def Let_def split: if_splits)
  next
    case None
    with run v obtain x where x: "lookup_by_token_hash (sw_rows w) (hash_token token) now = Inr x"
      "\<not> expired_idle x (pol_idle p) now" "s = (if needs_touch x now then x\<lparr>sn_seen := now\<rparr> else x)"
      by (auto simp: manager_lookup_def Let_def split: if_splits sum.splits)
    from x(1) obtain r where "row_live now r" "sr_session r = x"
      by (auto simp: lookup_by_token_hash_def split: option.splits dest: find_Some_in)
    with x(2,3) v show ?thesis
      by (auto simp: alive_defs row_live_def time_sub_def min_int64_def max_int64_def split: if_splits)
  qed
qed

interpretation manager: session_source "lookup_of env w"
  by unfold_locales (rule lookup_of_alive)

section \<open>Redirects\<close>

definition sent_to :: "('s, 'p) authorize_env \<Rightarrow> string \<Rightarrow> authorize_answer \<Rightarrow> bool" where
  "sent_to env uri a \<longleftrightarrow> (\<forall>loc. a = RedirectTo loc \<longrightarrow>
     (\<exists>sets. with_params (az_lib env) uri sets = Some loc) \<or>
     (\<exists>i. with_params (az_lib env) (az_login env) [(''request'', i)] = Some loc))"

lemma redirect_error_sent: "sent_to env uri (redirect_error env uri state e)"
  by (auto simp: sent_to_def redirect_error_def split: option.splits)

lemma issue_redirect_sent: "sent_to env (ar_redirect req) (fst (issue_redirect env req app s at w))"
  using redirect_error_sent [of env "ar_redirect req"]
  by (auto simp: issue_redirect_def sent_to_def split: sum.split prod.split option.split)

lemma to_login_sent: "sent_to env (ar_redirect req) (fst (to_login env req at w))"
  using redirect_error_sent [of env "ar_redirect req"]
  by (auto simp: to_login_def sent_to_def split: sum.split prod.split option.split)

lemma to_login_codes [frame_simps]: "aw_codes (snd (to_login env req at w)) = aw_codes w"
  by (auto simp: to_login_def split: sum.splits prod.splits option.splits)

text \<open>
  C18. The endpoint redirects only to an address the client has registered, matched exactly, with
  parameters added to its query, or to the service's own login page with the opaque id of the stored
  request. A request whose client is unknown or whose redirect address is not registered gets a page
  without a redirect, the same in both cases, and changes nothing.
\<close>

theorem authorize_no_open_redirect:
  assumes run: "serve_authorize env q cookies now at w = (answer, w')"
  shows "(\<forall>loc. answer = RedirectTo loc \<longrightarrow>
      (\<exists>app uri sets. az_client env (form_get q ''client_id'') = Some app \<and> q ''redirect_uri'' = [uri] \<and> uri \<in> set (redirect_uris app) \<and>
         (with_params (az_lib env) uri sets = Some loc \<or>
          (\<exists>i. with_params (az_lib env) (az_login env) [(''request'', i)] = Some loc)))) \<and>
    ((\<forall>app. az_client env (form_get q ''client_id'') = Some app \<longrightarrow> form_get q ''redirect_uri'' \<notin> set (redirect_uris app)) \<longrightarrow>
      w' = w \<and> (answer = ErrorPage PageClientOrRedirect \<or> (\<exists>m. answer = ErrorPage (PageParams m))))"
proof (cases "parse_phase1 q")
  case (Inl m)
  with run show ?thesis by (auto simp: serve_authorize_def)
next
  case (Inr p1)
  note p1 = parse_phase1_ok [OF Inr]
  then have get: "form_get q ''client_id'' = p1_client p1" "form_get q ''redirect_uri'' = p1_redirect p1"
    by (simp_all add: form_get_def)
  show ?thesis
  proof (cases "az_client env (p1_client p1)")
    case None
    with run Inr show ?thesis by (auto simp: serve_authorize_def)
  next
    case (Some app)
    show ?thesis
    proof (cases "matches_redirect_uri app (p1_redirect p1)")
      case False
      with run Inr Some show ?thesis by (auto simp: serve_authorize_def)
    next
      case True
      then have reg: "p1_redirect p1 \<in> set (redirect_uris app)" by (simp add: matches_redirect_uri_def)
      have "sent_to env (p1_redirect p1) answer"
      proof (cases "parse_phase2 q p1 (contains (grant_types app) grant_refresh_token)")
        case (Inl e)
        with run Inr Some True have "answer = redirect_error env (p1_redirect p1) (form_get q ''state'') e"
          by (simp add: serve_authorize_def)
        then show ?thesis using redirect_error_sent by simp
      next
        case (Inr req)
        from parse_phase2_request [OF Inr] have r: "ar_redirect req = p1_redirect p1" by simp
        from run \<open>parse_phase1 q = Inr p1\<close> Some True Inr have
          "answer = redirect_error env (ar_redirect req) (ar_state req) (oauth_err ''unauthorized_client'' CodeGrantNotPermitted) \<or>
           answer = redirect_error env (ar_redirect req) (ar_state req) (oauth_err ''login_required'' NoActiveSession) \<or>
           (\<exists>s. answer = fst (issue_redirect env req app s at w)) \<or> answer = fst (to_login env req at w)"
          by (auto simp: serve_authorize_def split: if_splits option.splits intro: arg_cong [of _ _ fst, simplified])
            (metis fst_conv)+
        then show ?thesis
          using redirect_error_sent issue_redirect_sent to_login_sent unfolding r [symmetric] by metis
      qed
      then show ?thesis using p1 get Some reg unfolding sent_to_def by auto
    qed
  qed
qed

section \<open>Codes stand for live sessions\<close>

lemma serve_authorize_codes:
  assumes "serve_authorize env q cookies now at w = (answer, w')" "aw_codes w' \<noteq> aw_codes w"
  obtains p1 app req s where "parse_phase1 q = Inr p1" "az_client env (p1_client p1) = Some app"
    "p1_redirect p1 \<in> set (redirect_uris app)" "grant_authorization_code \<in> set (grant_types app)"
    "parse_phase2 q p1 (contains (grant_types app) grant_refresh_token) = Inr req"
    "session_for env cookies req app now = Some s" "issue_redirect env req app s at w = (answer, w')"
proof -
  from assms obtain p1 where p1: "parse_phase1 q = Inr p1" by (cases "parse_phase1 q") (auto simp: serve_authorize_def)
  from assms p1 obtain app where app: "az_client env (p1_client p1) = Some app"
    by (cases "az_client env (p1_client p1)") (auto simp: serve_authorize_def)
  from assms p1 app have reg: "p1_redirect p1 \<in> set (redirect_uris app)"
    by (auto simp: serve_authorize_def matches_redirect_uri_def split: if_splits)
  let ?r = "parse_phase2 q p1 (contains (grant_types app) grant_refresh_token)"
  from assms p1 app obtain req where req: "?r = Inr req"
    by (cases ?r) (auto simp: serve_authorize_def split: if_splits)
  have no_login: "aw_codes v = aw_codes w" if "to_login env req at w = (a, v)" for a v
    using to_login_codes [of env req at w] that by simp
  note run = assms(1) [unfolded serve_authorize_def p1 sum.case app option.case req]
  have grant: "grant_authorization_code \<in> set (grant_types app)"
    using run assms(2) reg by (simp add: matches_redirect_uri_def split: if_splits)
  obtain s where "session_for env cookies req app now = Some s"
  proof (cases "session_for env cookies req app now")
    case None
    with run grant reg no_login assms(2) show ?thesis by (simp add: matches_redirect_uri_def split: if_splits)
  qed blast
  moreover from this run grant reg have "issue_redirect env req app s at w = (answer, w')"
    by (simp add: matches_redirect_uri_def)
  ultimately show ?thesis using that [OF p1 app reg grant req] by blast
qed

text \<open>
  C19. Whenever \<open>GET /oauth/authorize\<close> writes a code, the request came with the cookie of a session that is live,
  belongs to the client's organization, satisfies the request's max_age and the organization's MFA
  mandate, and no fresh login was asked for; the client may use the authorization-code grant, has
  registered the address, and the request carries a PKCE challenge of admissible form. (The continuation of an interrupted request,
  \<open>resume_request\<close>, is called by the login with the session it has just made and checks its organization only.)
\<close>

theorem code_needs_live_session:
  assumes "serve_authorize env q cookies now at w = (answer, w')" "aw_codes w' \<noteq> aw_codes w"
    and "az_lookup env = lookup_of senv sw"
  shows "\<exists>app req s token. az_client env (form_get q ''client_id'') = Some app \<and>
    form_get q ''redirect_uri'' \<in> set (redirect_uris app) \<and> grant_authorization_code \<in> set (grant_types app) \<and>
    ar_redirect req = form_get q ''redirect_uri'' \<and> request_valid (grant_refresh_token \<in> set (grant_types app)) req \<and>
    token_from_request cookies = Some token \<and> lookup_of senv sw token (az_policy env) now = Some s \<and>
    session_alive s (pol_idle (az_policy env)) now \<and> sn_org s = app_org app \<and>
    \<not> has_prompt req prompt_login \<and> (\<forall>m. ar_max_age req = Some m \<longrightarrow> time_sub now (sn_created s) \<le> m) \<and>
    (\<forall>unmet. az_mandate env = Some unmet \<longrightarrow> unmet (sn_org s) (sn_user s) now = Some False) \<and>
    aw_codes w' = snd (issue_code (az_codes env) at (code_for req app s at) code_ttl (az_code_drawn env) (aw_codes w))"
proof -
  from assms(1,2) obtain p1 app req s where *: "parse_phase1 q = Inr p1" "az_client env (p1_client p1) = Some app"
    "p1_redirect p1 \<in> set (redirect_uris app)" "grant_authorization_code \<in> set (grant_types app)"
    "parse_phase2 q p1 (contains (grant_types app) grant_refresh_token) = Inr req"
    "session_for env cookies req app now = Some s" "issue_redirect env req app s at w = (answer, w')"
    by (rule serve_authorize_codes)
  have "aw_codes w' = snd (issue_code (az_codes env) at (code_for req app s at) code_ttl (az_code_drawn env) (aw_codes w))"
    using *(7) by (auto simp: issue_redirect_def split: sum.splits prod.splits option.splits)
  moreover from manager.session_for_usable [OF *(6) assms(3)] obtain token where
    "token_from_request cookies = Some token" "lookup_of senv sw token (az_policy env) now = Some s" by blast
  moreover have "form_get q ''client_id'' = p1_client p1" "form_get q ''redirect_uri'' = p1_redirect p1"
    using parse_phase1_ok [OF *(1)] by (simp_all add: form_get_def)
  ultimately show ?thesis
    using manager.session_for_usable [OF *(6) assms(3)] parse_phase2_request [OF *(5)] *(2-4)
    by (intro exI [of _ app] exI [of _ req] exI [of _ s] exI [of _ token] conjI) (blast | simp)+
qed

section \<open>From the redirect to the token endpoint\<close>

text \<open>
  What the code relies on of \<open>net/url\<close>: the string of a parsed absolute URL whose query has been replaced by an
  encoded one parses to the same scheme, host and path and to that query.
\<close>

definition url_round_trip :: "url_lib \<Rightarrow> bool" where
  "url_round_trip lib \<longleftrightarrow>
     (\<forall>uri u m. parse lib uri = Some u \<longrightarrow> u_scheme u \<noteq> [] \<longrightarrow>
        (\<exists>u'. parse lib (url_string lib (u\<lparr>u_raw_query := encode_query m\<rparr>)) = Some u' \<and> u_raw_query u' = encode_query m \<and>
           u_scheme u' = u_scheme u \<and> u_host u' = u_host u \<and> u_path u' = u_path u))"

text \<open>What the client reads from the address it was called at.\<close>

definition read_param :: "url_lib \<Rightarrow> string \<Rightarrow> string \<Rightarrow> string list" where
  "read_param lib loc k = (case parse lib loc of None \<Rightarrow> [] | Some u \<Rightarrow> values_at (parse_query (u_raw_query u)) k)"

lemma values_at_Nil [simp]: "values_at [] k = []"
  by (simp add: values_at_def)

lemma distinct_fold_set: "distinct (map fst m) \<Longrightarrow> distinct (map fst (fold (\<lambda>(k, v). values_set k v) sets m))"
  by (induction sets arbitrary: m) auto

lemma read_sets_of:
  assumes "url_round_trip lib" "with_params lib uri sets = Some loc" "parse lib uri = Some u" "u_scheme u \<noteq> []"
  shows "\<exists>u'. parse lib loc = Some u' \<and> u_scheme u' = u_scheme u \<and> u_host u' = u_host u \<and> u_path u' = u_path u \<and>
    (\<forall>k. read_param lib loc k = values_at (fold (\<lambda>(k, v). values_set k v) sets (parse_query (u_raw_query u))) k)"
proof -
  let ?m = "fold (\<lambda>(k, v). values_set k v) sets (parse_query (u_raw_query u))"
  from assms(2,3) have loc: "loc = url_string lib (u\<lparr>u_raw_query := encode_query ?m\<rparr>)" by (simp add: with_params_def)
  from assms(1,3,4) obtain u' where u': "parse lib loc = Some u'" "u_raw_query u' = encode_query ?m"
    "u_scheme u' = u_scheme u" "u_host u' = u_host u" "u_path u' = u_path u"
    unfolding url_round_trip_def loc by blast
  moreover have "distinct (map fst ?m)" by (rule distinct_fold_set) (rule distinct_parse_query)
  ultimately show ?thesis by (simp add: read_param_def parse_encode_query)
qed

text \<open>
  C20. A valid request of a signed-in user succeeds: as long as the code store takes the code, the answer is a redirect to the address the
  client asked for, with the scheme, host and path of that address and its own parameters kept, from which the client reads exactly the code and the
  state it sent; and within the code's lifetime that code is redeemed to a record that names the client, the address, the PKCE
  challenge, the scope and the nonce of the request and the user, organization, session and authentication time of the session.
\<close>

theorem authorization_reaches_client:
  assumes redis: "redis (az_codes env)" and law: "url_round_trip (az_lib env)"
    and client: "az_client env (form_get q ''client_id'') = Some app" "form_get q ''redirect_uri'' \<in> set (redirect_uris app)"
      "grant_authorization_code \<in> set (grant_types app)"
    and request: "parse_phase1 q = Inr p1" "parse_phase2 q p1 (grant_refresh_token \<in> set (grant_types app)) = Inr req"
    and signed_in: "session_for env cookies req app now = Some s"
    and uri: "parse (az_lib env) (form_get q ''redirect_uri'') = Some u" "u_scheme u \<noteq> []"
    and taken: "issue_code (az_codes env) at (code_for req app s at) code_ttl (az_code_drawn env) (aw_codes w) = (Inr code, st0)" "code \<noteq> []"
    and quiet: "same_at (rd_contents (az_codes env)) at (code_key code) st0 st"
    and time: "at \<le> t" "t < at + code_ttl - millisecond"
    and red: "rd_getdel (az_codes env) t (code_key code) st = (Inr ro, st')"
  shows "\<exists>loc u' c. serve_authorize env q cookies now at w = (RedirectTo loc, w\<lparr>aw_codes := st0\<rparr>) \<and>
    parse (az_lib env) loc = Some u' \<and> u_scheme u' = u_scheme u \<and> u_host u' = u_host u \<and> u_path u' = u_path u \<and>
    read_param (az_lib env) loc ''code'' = [code] \<and> read_param (az_lib env) loc ''state'' = [form_get q ''state''] \<and>
    (\<forall>k. k \<noteq> ''code'' \<longrightarrow> k \<noteq> ''state'' \<longrightarrow> read_param (az_lib env) loc k = values_at (parse_query (u_raw_query u)) k) \<and>
    redeem_code (az_codes env) t code st = (Inr c, st') \<and> ac_client c = app_id app \<and> ac_redirect c = form_get q ''redirect_uri'' \<and>
    ac_challenge c = form_get q ''code_challenge'' \<and> ac_nonce c = form_get q ''nonce'' \<and> ac_scope c = ar_scope req \<and>
    ac_user c = sn_user s \<and> ac_org c = sn_org s \<and> ac_session c = sn_id s \<and> ac_auth_time c = sn_created s"
proof -
  let ?c = "code_for req app s at" and ?lib = "az_lib env"
  have get: "form_get q ''client_id'' = p1_client p1" "form_get q ''redirect_uri'' = p1_redirect p1"
    using parse_phase1_ok [OF request(1)] by (simp_all add: form_get_def)
  have one: "single_oauth q n = Inr v \<Longrightarrow> form_get q n = v" for n v
    by (auto simp: single_oauth_ok single_param_ok form_get_def)
  have fields: "form_get q ''state'' = ar_state req" "form_get q ''code_challenge'' = ar_challenge req" "form_get q ''nonce'' = ar_nonce req"
    using request(2) by (auto simp: parse_phase2_def bindE_Inr_iff split: if_splits dest!: one)
  have to: "ar_redirect req = p1_redirect p1" using parse_phase2_request [OF request(2)] by simp
  obtain loc where loc: "with_params ?lib (p1_redirect p1) [(''code'', code), (''state'', ar_state req)] = Some loc"
    using uri(1) get by (simp add: with_params_def)
  have "serve_authorize env q cookies now at w = issue_redirect env req app s at w"
    using client request signed_in get by (simp add: serve_authorize_def matches_redirect_uri_def)
  then have answer: "serve_authorize env q cookies now at w = (RedirectTo loc, w\<lparr>aw_codes := st0\<rparr>)"
    using taken(1) loc by (simp add: issue_redirect_def to)
  from read_sets_of [OF law loc] uri get obtain u' where u': "parse ?lib loc = Some u'" "u_scheme u' = u_scheme u" "u_host u' = u_host u" "u_path u' = u_path u"
    and read: "\<And>k. read_param ?lib loc k = values_at (values_set ''state'' (ar_state req) (values_set ''code'' code (parse_query (u_raw_query u)))) k"
    by auto
  from issue_then_redeem [OF redis taken quiet time red] have "redeem_code (az_codes env) t code st = (Inr ?c, st')" by simp
  then show ?thesis using answer u' read fields get to
    by (intro exI [of _ loc] exI [of _ u'] exI [of _ ?c] conjI) (simp_all add: code_for_def)
qed

section \<open>Interrupted requests\<close>

lemma load_pending_gone:
  assumes "redis rd" "load_pending rd now i st = (Inr req, st')"
  shows "gone_at (rd_contents rd) now (pending_key i) st' \<and> rd_contents rd st now (pending_key i) = Some (Blob req)"
proof -
  from assms(2) have "rd_getdel rd now (pending_key i) st = (Inr (Some (Blob req)), st')"
    by (auto simp: load_pending_def split: if_splits prod.splits sum.splits option.splits blob.splits)
  from redis.getdel_ok [OF assms(1) this] show ?thesis by simp
qed

lemma resume_codes:
  assumes "resume_request env i s at w = (answer, w')"
  shows "aw_codes w' = aw_codes w \<or>
    (\<exists>req app. fst (load_pending (az_pendings env) at i (aw_pending w)) = Inr req \<and>
       az_client env (ar_client req) = Some app \<and> sn_org s = app_org app \<and>
       aw_codes w' = snd (issue_code (az_codes env) at (code_for req app s at) code_ttl (az_code_drawn env) (aw_codes w)))"
  using assms
  by (auto simp: resume_request_def issue_redirect_def Let_def split: prod.splits sum.splits option.splits if_splits)

text \<open>
  C21. An interrupted request is continued once: of two continuations of the same id, as long as nobody
  stores a request under that id in between, at most one writes a code, the other is answered with the
  page that the request is gone; and a session of another organization than the client's is refused
  without a code.
\<close>

theorem resume_at_most_once:
  assumes redis: "redis (az_pendings env)"
    and first: "resume_request env i s at w = (answer1, w1)" "aw_codes w1 \<noteq> aw_codes w"
    and quiet: "same_at (rd_contents (az_pendings env)) at (pending_key i) (aw_pending w1) (aw_pending w2)" "at \<le> at'"
    and second: "resume_request env i s' at' w2 = (answer2, w3)"
  shows "answer2 = ErrorPage PagePendingGone \<and> aw_codes w3 = aw_codes w2 \<and>
    (\<exists>req app. peek_pending (az_pendings env) at i (aw_pending w) \<in> {Inr req, Inl PendingStoreFailure} \<and>
       az_client env (ar_client req) = Some app \<and> sn_org s = app_org app)"
proof -
  obtain r st where l: "load_pending (az_pendings env) at i (aw_pending w) = (r, st)"
    by (cases "load_pending (az_pendings env) at i (aw_pending w)")
  from resume_codes [OF first(1)] first(2) l obtain req app where r: "r = Inr req"
    "az_client env (ar_client req) = Some app" "sn_org s = app_org app" by auto
  have i: "i \<noteq> []" using l r by (auto simp: load_pending_def)
  have "aw_pending w1 = st" using first(1) l r
    by (auto simp: resume_request_def issue_redirect_def Let_def split: prod.splits sum.splits option.splits)
  with load_pending_gone [OF redis l [unfolded r(1)]] quiet
  have gone: "gone_at (rd_contents (az_pendings env)) at' (pending_key i) (aw_pending w2)"
    by (auto simp: gone_at_def same_at_def)
  obtain r2 st2 where l2: "load_pending (az_pendings env) at' i (aw_pending w2) = (r2, st2)"
    by (cases "load_pending (az_pendings env) at' i (aw_pending w2)")
  have "\<exists>e. r2 = Inl e"
  proof (cases r2)
    case (Inr req2)
    from load_pending_gone [OF redis l2 [unfolded Inr]] gone show ?thesis by (simp add: gone_at_def)
  qed blast
  with second l2 have "answer2 = ErrorPage PagePendingGone" "aw_codes w3 = aw_codes w2"
    by (auto simp: resume_request_def)
  moreover have "peek_pending (az_pendings env) at i (aw_pending w) \<in> {Inr req, Inl PendingStoreFailure}"
    using redis.get [OF redis, of at "pending_key i" "aw_pending w"] load_pending_gone [OF redis l [unfolded r(1)]] i
    by (auto simp: peek_pending_def split: sum.split option.split blob.split)
  ultimately show ?thesis using r by blast
qed

section \<open>A concrete authorization\<close>

definition sample_lib :: url_lib where
  "sample_lib = \<lparr>parse = (\<lambda>s. Some \<lparr>u_scheme = ''https'', u_host = takeWhile (\<lambda>c. c \<noteq> CHR ''?'') s, u_path = [],
       u_raw_query = drop 1 (dropWhile (\<lambda>c. c \<noteq> CHR ''?'') s), u_fragment = [], u_user = False, u_rest = []\<rparr>),
     hostname = u_host, url_string = (\<lambda>u. u_host u @ CHR ''?'' # u_raw_query u), ip_of = (\<lambda>_. None)\<rparr>"

lemma sample_lib_law: "url_round_trip sample_lib"
proof -
  have "takeWhile (\<lambda>c. c \<noteq> CHR ''?'') (takeWhile (\<lambda>c. c \<noteq> CHR ''?'') s @ CHR ''?'' # q) = takeWhile (\<lambda>c. c \<noteq> CHR ''?'') s"
    and "dropWhile (\<lambda>c. c \<noteq> CHR ''?'') (takeWhile (\<lambda>c. c \<noteq> CHR ''?'') s @ CHR ''?'' # q) = CHR ''?'' # q" for s q
    by (induction s) auto
  then show ?thesis by (auto simp: url_round_trip_def sample_lib_def)
qed

definition sample_client :: application where
  "sample_client = \<lparr>app_id = ''c'', app_org = ''org'', app_project = ''p'', app_name = ''n'', app_type = TypeWeb,
     redirect_uris = [''https://a/cb''], post_logout_uris = [], grant_types = [grant_authorization_code], allowed_origins = []\<rparr>"

definition sample_query :: form where
  "sample_query = form_of [(''client_id'', [''c'']), (''redirect_uri'', [''https://a/cb'']), (''response_type'', [''code'']),
     (''state'', [''xyz'']), (''code_challenge'', [replicate 43 (CHR ''a'')]), (''code_challenge_method'', [''S256'']),
     (''scope'', [''openid''])]"

definition sample_request :: auth_request where
  "sample_request = \<lparr>ar_client = ''c'', ar_redirect = ''https://a/cb'', ar_scope = [''openid''], ar_state = ''xyz'',
     ar_challenge = replicate 43 (CHR ''a''), ar_nonce = [], ar_prompt = [], ar_max_age = None\<rparr>"

definition sample_senv :: "cached ttl_map session_env" where "sample_senv = demo_session_env None 2000"

definition sample_sworld :: "cached ttl_map session_world" where
  "sample_sworld = \<lparr>sw_rows = [demo_session_row], sw_redis = Map.empty, sw_events = []\<rparr>"

definition sample_env :: "(auth_code blob ttl_map, auth_request blob ttl_map) authorize_env" where
  "sample_env = \<lparr>az_client = (\<lambda>i. if i = ''c'' then Some sample_client else None), az_lookup = lookup_of sample_senv sample_sworld,
     az_codes = ttl_redis (\<lambda>_. False), az_pendings = ttl_redis (\<lambda>_. False), az_mandate = None, az_lib = sample_lib,
     az_login = ''/login'', az_policy = default_policy, az_code_drawn = Some (replicate 32 0),
     az_pending_drawn = Some (replicate 32 1), az_sentence = (\<lambda>_. ''refused'')\<rparr>"

definition sample_cookies :: "(string \<times> string) list" where "sample_cookies = [(cookie_name, demo_cookie)]"

definition sample_world :: "(auth_code blob ttl_map, auth_request blob ttl_map) authorize_world" where
  "sample_world = \<lparr>aw_codes = Map.empty, aw_pending = Map.empty\<rparr>"

lemma sample_parsed:
  "parse_phase1 sample_query = Inr \<lparr>p1_client = ''c'', p1_redirect = ''https://a/cb''\<rparr>"
  "parse_phase2 sample_query \<lparr>p1_client = ''c'', p1_redirect = ''https://a/cb''\<rparr> False = Inr sample_request"
  by code_simp+

lemma sample_token: "token_from_request sample_cookies = Some demo_cookie"
  using token_read [OF demo_cookie_valid] by (simp add: sample_cookies_def)

lemma sample_session: "session_for sample_env sample_cookies sample_request sample_client 2000 = Some demo_session"
proof -
  have "lookup_of sample_senv sample_sworld demo_cookie default_policy 2000 = Some demo_session"
    using demo_lookup by (auto simp: lookup_of_def sample_senv_def sample_sworld_def)
  then show ?thesis
    by (simp add: session_for_def sample_token sample_env_def has_prompt_def sample_request_def sample_client_def demo_session_defs)
qed

definition sample_code :: string where "sample_code = b64url_encode (replicate 32 0)"

lemma sample_run:
  "\<exists>loc w'. serve_authorize sample_env sample_query sample_cookies 2000 3000 sample_world = (RedirectTo loc, w') \<and>
     aw_codes w' = [code_key sample_code \<mapsto> (Blob (code_for sample_request sample_client demo_session 3000), 3000 + code_ttl)] \<and>
     with_params sample_lib ''https://a/cb'' [(''code'', sample_code), (''state'', ''xyz'')] = Some loc"
proof -
  have g: "grant_types sample_client = [grant_authorization_code]" "''https://a/cb'' \<in> set (redirect_uris sample_client)"
    "az_client sample_env ''c'' = Some sample_client" "az_codes sample_env = ttl_redis (\<lambda>_. False)"
    "az_code_drawn sample_env = Some (replicate 32 0)" "az_lib sample_env = sample_lib"
    by (simp_all add: sample_client_def sample_env_def)
  have i: "issue_code (ttl_redis (\<lambda>_. False)) 3000 c code_ttl (Some (replicate 32 0)) Map.empty =
      (Inr sample_code, [code_key sample_code \<mapsto> (Blob c, 3000 + code_ttl)])" for c
    by (simp add: issue_code_def code_ttl_def duration_defs opaque_def sample_code_def ttl_redis_def ttl_contents_def)
  have f: "ar_redirect sample_request = ''https://a/cb''" "ar_state sample_request = ''xyz''" by (simp_all add: sample_request_def)
  obtain loc where loc: "with_params sample_lib ''https://a/cb'' [(''code'', sample_code), (''state'', ''xyz'')] = Some loc"
    by (simp add: with_params_def sample_lib_def)
  have "issue_redirect sample_env sample_request sample_client demo_session 3000 sample_world =
      (RedirectTo loc, sample_world\<lparr>aw_codes := [code_key sample_code \<mapsto> (Blob (code_for sample_request sample_client demo_session 3000), 3000 + code_ttl)]\<rparr>)"
    by (simp add: issue_redirect_def g i f loc sample_world_def)
  then have "serve_authorize sample_env sample_query sample_cookies 2000 3000 sample_world =
      (RedirectTo loc, sample_world\<lparr>aw_codes := [code_key sample_code \<mapsto> (Blob (code_for sample_request sample_client demo_session 3000), 3000 + code_ttl)]\<rparr>)"
    using g by (simp add: serve_authorize_def sample_parsed matches_redirect_uri_def sample_session grant_defs)
  with loc show ?thesis by auto
qed

lemma authorize_no_open_redirect_witness:
  "fst (serve_authorize sample_env (sample_query(''redirect_uri'' := [''https://evil/cb''])) sample_cookies 2000 3000 sample_world)
     \<in> {ErrorPage PageClientOrRedirect} \<union> range (\<lambda>m. ErrorPage (PageParams m))"
proof -
  let ?q = "sample_query(''redirect_uri'' := [''https://evil/cb''])"
  have "az_client sample_env (form_get ?q ''client_id'') = Some sample_client" "form_get ?q ''redirect_uri'' = ''https://evil/cb''"
    by (simp_all add: sample_env_def sample_query_def form_get_def form_of_def)
  moreover have "''https://evil/cb'' \<notin> set (redirect_uris sample_client)" by (simp add: sample_client_def)
  ultimately show ?thesis
    using authorize_no_open_redirect [of sample_env ?q sample_cookies 2000 3000 sample_world, OF surjective_pairing] by auto
qed

lemma code_needs_live_session_witness:
  "\<exists>s. lookup_of sample_senv sample_sworld demo_cookie default_policy 2000 = Some s \<and> session_alive s (pol_idle default_policy) 2000"
proof -
  from sample_run obtain loc w' where run: "serve_authorize sample_env sample_query sample_cookies 2000 3000 sample_world = (RedirectTo loc, w')"
    "aw_codes w' \<noteq> aw_codes sample_world" by (auto simp: sample_world_def)
  have "az_lookup sample_env = lookup_of sample_senv sample_sworld" "az_policy sample_env = default_policy"
    by (simp_all add: sample_env_def)
  with code_needs_live_session [OF run this(1)] sample_token show ?thesis by auto
qed

lemma authorization_reaches_client_witness:
  "\<exists>loc w' st'. serve_authorize sample_env sample_query sample_cookies 2000 3000 sample_world = (RedirectTo loc, w') \<and>
     read_param sample_lib loc ''code'' = [sample_code] \<and> read_param sample_lib loc ''state'' = [''xyz''] \<and>
     redeem_code (ttl_redis (\<lambda>_. False)) 4000 sample_code (aw_codes w') = (Inr (code_for sample_request sample_client demo_session 3000), st')"
proof -
  let ?rd = "ttl_redis (\<lambda>_. False) :: (auth_code blob ttl_map, auth_code blob) redis_ops" and ?c = "code_for sample_request sample_client demo_session 3000"
  let ?st = "[code_key sample_code \<mapsto> (Blob ?c, 3000 + code_ttl)]"
  have env: "az_codes sample_env = ?rd" "az_lib sample_env = sample_lib" "az_client sample_env ''c'' = Some sample_client"
    "az_code_drawn sample_env = Some (replicate 32 0)"
    by (simp_all add: sample_env_def)
  have q: "form_get sample_query ''client_id'' = ''c''" "form_get sample_query ''redirect_uri'' = ''https://a/cb''" "form_get sample_query ''state'' = ''xyz''"
    by (simp_all add: sample_query_def form_get_def form_of_def)
  have app: "redirect_uris sample_client = [''https://a/cb'']" "grant_types sample_client = [grant_authorization_code]"
    "grant_refresh_token \<notin> set (grant_types sample_client)"
    by (simp_all add: sample_client_def grant_defs)
  have parse2: "parse_phase2 sample_query \<lparr>p1_client = ''c'', p1_redirect = ''https://a/cb''\<rparr> (grant_refresh_token \<in> set (grant_types sample_client)) = Inr sample_request"
    using sample_parsed(2) app(3) by simp
  obtain u where u: "parse sample_lib ''https://a/cb'' = Some u" "u_scheme u \<noteq> []" by (simp add: sample_lib_def)
  have taken: "issue_code (az_codes sample_env) 3000 ?c code_ttl (az_code_drawn sample_env) (aw_codes sample_world) = (Inr sample_code, ?st)"
    by (simp add: env sample_world_def issue_code_def code_ttl_def duration_defs opaque_def sample_code_def ttl_redis_def ttl_contents_def)
  have code: "sample_code \<noteq> []" using length_b64url_encode [of "replicate 32 (0 :: byte)"] by (auto simp: sample_code_def)
  have t: "(3000 :: int) \<le> 4000" "(4000 :: int) < 3000 + code_ttl - millisecond" by (simp_all add: code_ttl_def second_def millisecond_def)
  obtain ro st' where red: "rd_getdel (az_codes sample_env) 4000 (code_key sample_code) ?st = (Inr ro, st')" by (simp add: env ttl_redis_def)
  have redis: "redis (az_codes sample_env)" and law: "url_round_trip (az_lib sample_env)"
    by (simp_all add: env ttl.redis_axioms sample_lib_law)
  have quiet: "same_at (rd_contents (az_codes sample_env)) 3000 (code_key sample_code) ?st ?st" by (simp add: same_at_def)
  obtain loc where "serve_authorize sample_env sample_query sample_cookies 2000 3000 sample_world = (RedirectTo loc, sample_world\<lparr>aw_codes := ?st\<rparr>)"
    "read_param sample_lib loc ''code'' = [sample_code]" "read_param sample_lib loc ''state'' = [''xyz'']"
    using authorization_reaches_client [OF redis law _ _ _ sample_parsed(1) parse2 sample_session _ u(2) taken code quiet t red]
    by (auto simp: env q app u)
  moreover have "redeem_code ?rd 4000 sample_code ?st = (Inr ?c, ?st(code_key sample_code := None))"
    using t(2) by (simp add: redeem_code_def ttl_redis_def ttl_contents_def code millisecond_def)
  ultimately show ?thesis by fastforce
qed

definition sample_resume :: "(auth_code blob ttl_map, auth_request blob ttl_map) authorize_world" where
  "sample_resume = \<lparr>aw_codes = Map.empty, aw_pending = [pending_key ''r'' \<mapsto> (Blob sample_request, 9000)]\<rparr>"

lemma resume_at_most_once_witness:
  "\<exists>w1. resume_request sample_env ''r'' demo_session 3000 sample_resume = (fst (resume_request sample_env ''r'' demo_session 3000 sample_resume), w1) \<and>
     aw_codes w1 \<noteq> Map.empty \<and> fst (resume_request sample_env ''r'' demo_session 4000 w1) = ErrorPage PagePendingGone"
proof -
  let ?r = "resume_request sample_env ''r'' demo_session 3000 sample_resume"
  obtain a w1 where r: "?r = (a, w1)" by (cases ?r)
  obtain a2 w3 where r2: "resume_request sample_env ''r'' demo_session 4000 w1 = (a2, w3)" by (cases "resume_request sample_env ''r'' demo_session 4000 w1")
  have "aw_codes w1 \<noteq> Map.empty"
    using r by (auto simp: resume_request_def load_pending_def sample_env_def sample_resume_def ttl_redis_def ttl_contents_def
      issue_redirect_def issue_code_def code_ttl_def duration_defs opaque_def sample_request_def sample_client_def demo_session_defs
      Let_def with_params_def sample_lib_def)
  moreover have "aw_codes sample_resume = Map.empty" by (simp add: sample_resume_def)
  moreover have "redis (az_pendings sample_env)" by (simp add: sample_env_def ttl.redis_axioms)
  ultimately have "a2 = ErrorPage PagePendingGone"
    using resume_at_most_once [OF _ r _ _ _ r2] by (simp add: same_at_def)
  with r r2 \<open>aw_codes w1 \<noteq> Map.empty\<close> show ?thesis by simp
qed

end
