(* ===== verification/Lifecycle.thy ===== *)
theory Lifecycle
  imports TokenFacts
begin

text \<open>
  \<open>POST /oauth/introspect\<close> and \<open>POST /oauth/revoke\<close> (\<open>internal/oauth/token/lifecycle.go\<close>): authentication of
  the calling client, recognition of a token together with the check that it is the caller's own, the
  description of a good token, and the destruction of what a token stands for with its audit record.

  The JWS verifier is a collaborator: \<open>None\<close> when it refuses a compact form, \<open>Some None\<close> when the payload is not
  a JSON object. A JSON number decodes as a \<open>float64\<close>, exact for the integers below 2 to the 53 that the
  service writes; it is a \<open>JInt\<close> here.
\<close>

section \<open>Collaborators and state\<close>

record lifecycle_env =
  lc_issuer :: string
  lc_client :: "string \<Rightarrow> application option"
  lc_credentials :: "application \<Rightarrow> credentials option"
  lc_verify :: "string \<Rightarrow> string \<Rightarrow> claims option option"
  lc_live :: "(string \<Rightarrow> time \<Rightarrow> bool) option"
  lc_lookup_ok :: bool
  lc_update_ok :: bool
  lc_destroy :: tx_fault
  lc_record :: tx_fault
  lc_stored :: bool

record lifecycle_world =
  lw_tokens :: rt_table
  lw_events :: "audit_event list"
  lw_counts :: "(string \<times> string) list"

datatype resolved = NotResolved | AccessResolved claims | RefreshResolved refresh

datatype lifecycle_body = DocumentBody claims | EmptyBody | ErrorBody string tok_msg

record lifecycle_answer =
  la_status :: nat
  la_headers :: "(string \<times> string) list"
  la_body :: lifecycle_body

definition hint_access_token :: string where "hint_access_token = ''access_token''"
definition hint_refresh_token :: string where "hint_refresh_token = ''refresh_token''"

definition outcome_active :: string where "outcome_active = ''active''"
definition outcome_inactive :: string where "outcome_inactive = ''inactive''"
definition outcome_revoked :: string where "outcome_revoked = ''revoked''"
definition outcome_nothing :: string where "outcome_nothing = ''nothing''"
definition outcome_refused :: string where "outcome_refused = ''refused''"
definition outcome_error :: string where "outcome_error = ''error''"

section \<open>Authentication\<close>

datatype client_policy = RequiresConfidential | AdmitsPublic

definition lifecycle_client ::
  "lifecycle_env \<Rightarrow> client_policy \<Rightarrow> http_request \<Rightarrow> time \<Rightarrow> oauth_error + application \<times> form" where
  "lifecycle_client env policy r now =
     (if r_method r \<noteq> ''POST'' then Inl (mk_error err_invalid_request 405 False LifecyclePostOnly)
      else if \<not> r_form_ok r then Inl (bad_request err_invalid_request FormUnreadable)
      else bindE (parse_credentials r (r_form r)) (\<lambda>c.
        if rc_client c = [] then Inl (unauthorized (rc_basic c) ClientAuthRequired)
        else case lc_client env (rc_client c) of
          None \<Rightarrow> Inl (unauthorized (rc_basic c) AuthenticationFailed)
        | Some app \<Rightarrow>
            if policy = RequiresConfidential \<and> \<not> is_confidential (app_type app) then
              Inl (unauthorized (rc_basic c) NeedsConfidential)
            else (case lc_credentials env app of
               None \<Rightarrow> Inl (mk_error err_server_error 500 False AuthNotCompleted)
             | Some stored \<Rightarrow> bindE (authenticate_client app c stored now) (\<lambda>_. Inr (app, r_form r)))))"

section \<open>Recognition\<close>

text \<open>A claim read as a string, the empty string when it is absent or something else.\<close>

definition claim_text :: "claims \<Rightarrow> string \<Rightarrow> string" where
  "claim_text c k = (case c k of Some (JStr s) \<Rightarrow> s | _ \<Rightarrow> [])"

definition numeric_claim :: "json option \<Rightarrow> int option" where
  "numeric_claim v = (case v of Some (JInt n) \<Rightarrow> Some n | _ \<Rightarrow> None)"

definition as_access_token :: "lifecycle_env \<Rightarrow> application \<Rightarrow> string \<Rightarrow> time \<Rightarrow> resolved" where
  "as_access_token env app presented now =
     (case lc_verify env presented type_access_token of
        None \<Rightarrow> NotResolved
      | Some None \<Rightarrow> NotResolved
      | Some (Some c) \<Rightarrow>
          if claim_text c ''iss'' \<noteq> lc_issuer env then NotResolved
          else (case numeric_claim (c ''exp'') of
             None \<Rightarrow> NotResolved
           | Some expiry \<Rightarrow>
               if unix_sec now \<ge> expiry then NotResolved
               else if claim_text c ''client_id'' \<noteq> app_id app then NotResolved
               else if claim_text c ''sid'' \<noteq> [] \<and>
                 (case lc_live env of None \<Rightarrow> True | Some live \<Rightarrow> \<not> live (claim_text c ''sid'') now) then NotResolved
               else AccessResolved c))"

definition as_refresh_token :: "lifecycle_env \<Rightarrow> application \<Rightarrow> string \<Rightarrow> time \<Rightarrow> rt_table \<Rightarrow> resolved" where
  "as_refresh_token env app presented now tbl =
     (case (if lc_lookup_ok env then lookup_refresh tbl presented now else Inl StoreFailure) of
        Inl _ \<Rightarrow> NotResolved
      | Inr stored \<Rightarrow> if r_client stored \<noteq> app_id app then NotResolved else RefreshResolved stored)"

definition resolve ::
  "lifecycle_env \<Rightarrow> application \<Rightarrow> string \<Rightarrow> string \<Rightarrow> time \<Rightarrow> rt_table \<Rightarrow> resolved" where
  "resolve env app presented hint now tbl =
     (let access = as_access_token env app presented now; refresh = as_refresh_token env app presented now tbl in
      if hint = hint_refresh_token then (if refresh \<noteq> NotResolved then refresh else access)
      else (if access \<noteq> NotResolved then access else refresh))"

section \<open>Answers\<close>

definition lifecycle_json :: "nat \<Rightarrow> claims \<Rightarrow> lifecycle_answer" where
  "lifecycle_json status c = \<lparr>la_status = status, la_headers = no_store, la_body = DocumentBody c\<rparr>"

definition lifecycle_ok :: lifecycle_answer where
  "lifecycle_ok = \<lparr>la_status = 200, la_headers = no_store, la_body = EmptyBody\<rparr>"

definition lifecycle_error :: "lifecycle_env \<Rightarrow> oauth_error \<Rightarrow> lifecycle_answer" where
  "lifecycle_error env e =
     \<lparr>la_status = e_status e,
      la_headers = no_store @
        (if e_basic e then [(''WWW-Authenticate'', ''Basic realm='' @ [CHR 0x22] @ lc_issuer env @ [CHR 0x22])] else []),
      la_body = ErrorBody (e_code e) (e_msg e)\<rparr>"

definition inactive :: claims where "inactive = [''active'' \<mapsto> JBool False]"

definition described_claims :: "string list" where
  "described_claims = [''scope'', ''client_id'', ''exp'', ''iat'', ''sub'', ''aud'']"

definition describe :: "lifecycle_env \<Rightarrow> resolved \<Rightarrow> claims" where
  "describe env found =
     (let base = [''active'' \<mapsto> JBool True, ''token_type'' \<mapsto> JStr ''Bearer'', ''iss'' \<mapsto> JStr (lc_issuer env)] in
      case found of
        NotResolved \<Rightarrow> base
      | AccessResolved c \<Rightarrow> base ++ (c |` set described_claims)
      | RefreshResolved r \<Rightarrow>
          (let out = base(''client_id'' \<mapsto> JStr (r_client r), ''sub'' \<mapsto> JStr (r_user r),
                 ''exp'' \<mapsto> JInt (unix_sec (r_expires r)), ''aud'' \<mapsto> JStr (lc_issuer env))
           in if r_scope r \<noteq> [] then out(''scope'' \<mapsto> JStr (join_space (r_scope r))) else out))"

definition count_outcome :: "string \<Rightarrow> string \<Rightarrow> lifecycle_world \<Rightarrow> lifecycle_world" where
  "count_outcome endpoint outcome w = w\<lparr>lw_counts := lw_counts w @ [(endpoint, outcome)]\<rparr>"

section \<open>Introspection\<close>

definition introspect :: "lifecycle_env \<Rightarrow> http_request \<Rightarrow> time \<Rightarrow> lifecycle_world \<Rightarrow> lifecycle_answer \<times> lifecycle_world" where
  "introspect env r now w =
     (case lifecycle_client env RequiresConfidential r now of
        Inl e \<Rightarrow> (lifecycle_error env e, count_outcome ''introspect'' outcome_refused w)
      | Inr (app, f) \<Rightarrow>
          if form_get f ''token'' = [] then
            (lifecycle_error env (bad_request err_invalid_request TokenRequired), count_outcome ''introspect'' outcome_refused w)
          else (case resolve env app (form_get f ''token'') (form_get f ''token_type_hint'') now (lw_tokens w) of
             NotResolved \<Rightarrow> (lifecycle_json 200 inactive, count_outcome ''introspect'' outcome_inactive w)
           | found \<Rightarrow> (lifecycle_json 200 (describe env found), count_outcome ''introspect'' outcome_active w)))"

section \<open>Revocation\<close>

definition destroy_body ::
  "lifecycle_env \<Rightarrow> application \<Rightarrow> resolved \<Rightarrow> string \<Rightarrow> lifecycle_world \<Rightarrow> unit + nat \<times> lifecycle_world" where
  "destroy_body env app found org w =
     (case found of
        NotResolved \<Rightarrow> Inr (0, w)
      | RefreshResolved r \<Rightarrow>
          if \<not> lc_update_ok env then Inl ()
          else (case revoke_family org (r_family r) (lw_tokens w) of (tbl, n) \<Rightarrow> Inr (n, w\<lparr>lw_tokens := tbl\<rparr>))
      | AccessResolved c \<Rightarrow>
          if claim_text c ''sid'' = [] then Inr (0, w)
          else if \<not> lc_update_ok env then Inl ()
          else (case revoke_for_session_and_client org (claim_text c ''sid'') (app_id app) (lw_tokens w) of
             (tbl, n) \<Rightarrow> Inr (n, w\<lparr>lw_tokens := tbl\<rparr>)))"

definition token_kind :: "resolved \<Rightarrow> string" where
  "token_kind found = (case found of NotResolved \<Rightarrow> [] | AccessResolved _ \<Rightarrow> ''access_token'' | RefreshResolved _ \<Rightarrow> ''refresh_token'')"

definition token_user :: "resolved \<Rightarrow> string" where
  "token_user found = (case found of NotResolved \<Rightarrow> [] | AccessResolved c \<Rightarrow> claim_text c ''sub'' | RefreshResolved r \<Rightarrow> r_user r)"

definition revoked_event :: "application \<Rightarrow> resolved \<Rightarrow> nat \<Rightarrow> audit_event" where
  "revoked_event app found n =
     \<lparr>ev_org = app_org app, ev_actor = token_user found, ev_type = event_token_revoked,
      ev_payload = [(''client_id'', Leaf (JStr (app_id app))), (''token_kind'', Leaf (JStr (token_kind found))),
        (''revoked'', Leaf (JInt (int n)))]\<rparr>"

definition record_revocation :: "lifecycle_env \<Rightarrow> application \<Rightarrow> resolved \<Rightarrow> nat \<Rightarrow> lifecycle_world \<Rightarrow> lifecycle_world" where
  "record_revocation env app found n w =
     snd (with_tenant (lc_record env) (app_org app)
       (\<lambda>org w. bindE (write_event (lc_stored env) org (revoked_event app found n) (lw_events w))
          (\<lambda>log. Inr ((), w\<lparr>lw_events := log\<rparr>))) w)"

definition destroy ::
  "lifecycle_env \<Rightarrow> application \<Rightarrow> resolved \<Rightarrow> lifecycle_world \<Rightarrow> (unit tx_error + nat) \<times> lifecycle_world" where
  "destroy env app found w =
     (case with_tenant (lc_destroy env) (app_org app) (destroy_body env app found) w of
        (Inl e, w') \<Rightarrow> (Inl e, w')
      | (Inr n, w') \<Rightarrow> if n = 0 then (Inr 0, w') else (Inr n, record_revocation env app found n w'))"

definition revoke :: "lifecycle_env \<Rightarrow> http_request \<Rightarrow> time \<Rightarrow> lifecycle_world \<Rightarrow> lifecycle_answer \<times> lifecycle_world" where
  "revoke env r now w =
     (case lifecycle_client env AdmitsPublic r now of
        Inl e \<Rightarrow> (lifecycle_error env e, count_outcome ''revoke'' outcome_refused w)
      | Inr (app, f) \<Rightarrow>
          if form_get f ''token'' = [] then
            (lifecycle_error env (bad_request err_invalid_request TokenRequired), count_outcome ''revoke'' outcome_refused w)
          else (case resolve env app (form_get f ''token'') (form_get f ''token_type_hint'') now (lw_tokens w) of
             NotResolved \<Rightarrow> (lifecycle_ok, count_outcome ''revoke'' outcome_nothing w)
           | found \<Rightarrow>
               (case destroy env app found w of
                  (Inl _, w') \<Rightarrow>
                    (lifecycle_error env (mk_error err_server_error 500 False NotRevoked), count_outcome ''revoke'' outcome_error w')
                | (Inr n, w') \<Rightarrow>
                    (lifecycle_ok, count_outcome ''revoke'' (if n = 0 then outcome_nothing else outcome_revoked) w'))))"

end
