(* ===== verification/LifecycleProps.thy ===== *)
theory LifecycleProps
  imports Lifecycle TokenProps
begin

text \<open>
  What introspection and revocation promise: a positive answer is the truth about the caller's own token,
  every negative answer is the same, and a revocation that is acknowledged destroys what the token stood for.
\<close>

section \<open>Recognition\<close>

lemma as_access_tokenD:
  assumes "as_access_token env app p now = found" "found \<noteq> NotResolved"
  shows "\<exists>c n. found = AccessResolved c \<and> lc_verify env p type_access_token = Some (Some c) \<and>
    claim_text c ''iss'' = lc_issuer env \<and> c ''exp'' = Some (JInt n) \<and> unix_sec now < n \<and>
    claim_text c ''client_id'' = app_id app \<and>
    (claim_text c ''sid'' \<noteq> [] \<longrightarrow> (\<exists>live. lc_live env = Some live \<and> live (claim_text c ''sid'') now))"
proof -
  from assms obtain c where c: "lc_verify env p type_access_token = Some (Some c)"
    by (auto simp: as_access_token_def split: option.splits)
  from assms c obtain n where n: "c ''exp'' = Some (JInt n)"
    by (auto simp: as_access_token_def numeric_claim_def split: if_splits option.splits json.splits)
  from assms c n have "found = AccessResolved c" "claim_text c ''iss'' = lc_issuer env" "unix_sec now < n"
    "claim_text c ''client_id'' = app_id app"
    by (auto simp: as_access_token_def numeric_claim_def split: if_splits)
  moreover have "\<exists>live. lc_live env = Some live \<and> live (claim_text c ''sid'') now" if "claim_text c ''sid'' \<noteq> []"
    using assms c n that by (cases "lc_live env") (auto simp: as_access_token_def numeric_claim_def split: if_splits)
  ultimately show ?thesis using c n by blast
qed

lemma as_refresh_tokenD:
  assumes "as_refresh_token env app p now tbl = found" "found \<noteq> NotResolved"
  shows "\<exists>t \<in> set tbl. found = RefreshResolved (refresh_of_row t) \<and> rt_hash t = hash_refresh p \<and> token_live now t \<and> rt_client t = app_id app"
proof -
  from assms obtain r where r: "lookup_refresh tbl p now = Inr r" "r_client r = app_id app" "found = RefreshResolved r"
    by (auto simp: as_refresh_token_def split: if_splits sum.splits)
  from lookup_refreshE [OF r(1)] r(2,3) show ?thesis by (metis refresh_of_row_sel(3))
qed

lemma resolveD:
  assumes "resolve env app p hint now tbl = found" "found \<noteq> NotResolved"
  shows "as_access_token env app p now = found \<or> as_refresh_token env app p now tbl = found"
  using assms by (auto simp: resolve_def Let_def split: if_splits)

lemma resolve_refresh:
  assumes "resolve env app p hint now tbl = RefreshResolved r"
  shows "\<exists>t \<in> set tbl. r = refresh_of_row t \<and> rt_hash t = hash_refresh p \<and> token_live now t \<and> rt_client t = app_id app"
  using resolveD [OF assms] as_access_tokenD [of env app p now] as_refresh_tokenD [of env app p now tbl] by fastforce

lemma resolve_access:
  assumes "resolve env app p hint now tbl = AccessResolved c"
  shows "as_access_token env app p now = AccessResolved c"
  using resolveD [OF assms] as_refresh_tokenD [of env app p now tbl] by fastforce

lemma lifecycle_clientD:
  assumes "lifecycle_client env policy r now = Inr (app, f)"
  shows "f = r_form r \<and> (\<exists>i. lc_client env i = Some app) \<and> (policy = RequiresConfidential \<longrightarrow> is_confidential (app_type app)) \<and>
    (\<exists>c stored. lc_credentials env app = Some stored \<and> authenticate_client app c stored now = Inr ())"
  using assms by (auto simp: lifecycle_client_def bindE_Inr_iff split: if_splits option.splits)

lemma describe_exp: "\<exists>n. describe env (RefreshResolved r) ''exp'' = Some (JInt n) \<and> n = unix_sec (r_expires r)"
  by (simp add: describe_def Let_def)

section \<open>Introspection\<close>

text \<open>
  C22. When introspection answers that a token is active, the caller is a confidential client that
  authenticated, the described client is the caller itself, the issuer is this service and the expiry has
  not passed; and the token is either one of the caller's live rows of the refresh-token table or an access
  token that verified under the access-token type, was issued by this service, has not expired and whose
  session, if it names one, is live at this moment.
\<close>

theorem introspection_truthful:
  assumes run: "introspect env r now w = (answer, w')"
    and active: "la_body answer = DocumentBody c" "c ''active'' = Some (JBool True)"
  shows "\<exists>app p. (\<exists>i. lc_client env i = Some app) \<and> is_confidential (app_type app) \<and> p = form_get (r_form r) ''token'' \<and>
    c ''iss'' = Some (JStr (lc_issuer env)) \<and> claim_text c ''client_id'' = app_id app \<and>
    (\<exists>n. c ''exp'' = Some (JInt n) \<and> unix_sec now \<le> n) \<and>
    ((\<exists>t \<in> set (lw_tokens w). rt_hash t = hash_refresh p \<and> token_live now t \<and> rt_client t = app_id app) \<or>
     (\<exists>d n. lc_verify env p type_access_token = Some (Some d) \<and> claim_text d ''iss'' = lc_issuer env \<and>
        d ''exp'' = Some (JInt n) \<and> unix_sec now < n \<and>
        (claim_text d ''sid'' \<noteq> [] \<longrightarrow> (\<exists>live. lc_live env = Some live \<and> live (claim_text d ''sid'') now))))"
proof -
  from run active obtain app f where auth: "lifecycle_client env RequiresConfidential r now = Inr (app, f)"
    by (cases "lifecycle_client env RequiresConfidential r now") (auto simp: introspect_def lifecycle_error_def)
  note a = lifecycle_clientD [OF auth]
  let ?p = "form_get (r_form r) ''token''"
  let ?found = "resolve env app ?p (form_get (r_form r) ''token_type_hint'') now (lw_tokens w)"
  have found: "?found \<noteq> NotResolved" "c = describe env ?found"
    using run active auth a
    by (auto simp: introspect_def lifecycle_error_def lifecycle_json_def inactive_def split: if_splits resolved.splits)
  show ?thesis
  proof (cases ?found)
    case (AccessResolved d)
    from as_access_tokenD [OF resolve_access [OF AccessResolved]] obtain n where d:
      "lc_verify env ?p type_access_token = Some (Some d)" "claim_text d ''iss'' = lc_issuer env" "d ''exp'' = Some (JInt n)"
      "unix_sec now < n" "claim_text d ''client_id'' = app_id app"
      "claim_text d ''sid'' \<noteq> [] \<longrightarrow> (\<exists>live. lc_live env = Some live \<and> live (claim_text d ''sid'') now)" by blast
    have "c ''iss'' = Some (JStr (lc_issuer env))" "c ''client_id'' = d ''client_id''" "c ''exp'' = d ''exp''"
      using found(2) AccessResolved d(3)
      by (auto simp: describe_def Let_def described_claims_def map_add_def restrict_map_def split: option.split)
    with d a show ?thesis by (auto simp: claim_text_def intro!: exI [of _ app])
  next
    case (RefreshResolved s)
    from resolve_refresh [OF RefreshResolved] obtain t where t: "t \<in> set (lw_tokens w)" "s = refresh_of_row t"
      "rt_hash t = hash_refresh ?p" "token_live now t" "rt_client t = app_id app" by blast
    have "unix_sec now \<le> unix_sec (rt_expires t)"
      using t(4) by (simp add: token_live_def unix_sec_def zdiv_mono1)
    moreover have "c ''iss'' = Some (JStr (lc_issuer env))" "c ''client_id'' = Some (JStr (app_id app))"
      "c ''exp'' = Some (JInt (unix_sec (rt_expires t)))"
      using found(2) RefreshResolved t(2,5) by (auto simp: describe_def Let_def)
    ultimately show ?thesis using t a by (auto simp: claim_text_def intro!: exI [of _ app])
  qed (use found in simp)
qed

text \<open>
  For a caller that authenticated and presented something, introspection changes neither tokens nor
  the audit log and answers with the one fixed negative document whatever the reason the token does not
  resolve; and revocation answers with the one empty 200, whether it revoked something, there was nothing
  to revoke, or the token was unknown or another client's, unless the database refused.
\<close>

theorem lifecycle_answers_uniform:
  assumes "form_get (r_form r) ''token'' \<noteq> []"
  shows "(case lifecycle_client env RequiresConfidential r now of
      Inl e \<Rightarrow> fst (introspect env r now w) = lifecycle_error env e
    | Inr (app, f) \<Rightarrow>
        let found = resolve env app (form_get f ''token'') (form_get f ''token_type_hint'') now (lw_tokens w) in
        fst (introspect env r now w) = lifecycle_json 200 (if found = NotResolved then inactive else describe env found)) \<and>
    lw_tokens (snd (introspect env r now w)) = lw_tokens w \<and> lw_events (snd (introspect env r now w)) = lw_events w \<and>
    (case lifecycle_client env AdmitsPublic r now of
      Inl e \<Rightarrow> fst (revoke env r now w) = lifecycle_error env e
    | Inr (app, f) \<Rightarrow> fst (revoke env r now w) = lifecycle_ok \<or>
        lc_destroy env \<noteq> TxOk \<or> \<not> lc_update_ok env \<or> app_org app = [])"
proof -
  have f: "f = r_form r" if "lifecycle_client env policy r now = Inr (app, f)" for policy app f
    using lifecycle_clientD [OF that] by simp
  have i: "case lifecycle_client env RequiresConfidential r now of
      Inl e \<Rightarrow> fst (introspect env r now w) = lifecycle_error env e
    | Inr (app, f) \<Rightarrow>
        let found = resolve env app (form_get f ''token'') (form_get f ''token_type_hint'') now (lw_tokens w) in
        fst (introspect env r now w) = lifecycle_json 200 (if found = NotResolved then inactive else describe env found)"
    using assms f by (auto simp: introspect_def Let_def split: sum.split resolved.split)
  have w: "lw_tokens (snd (introspect env r now w)) = lw_tokens w" "lw_events (snd (introspect env r now w)) = lw_events w"
    by (auto simp: introspect_def count_outcome_def split: sum.split prod.split resolved.split)
  have ok: "\<exists>n. fst (destroy env app found w) = Inr n"
    if "lc_destroy env = TxOk" "lc_update_ok env" "app_org app \<noteq> []" for app found
    using that by (auto simp: destroy_def with_tenant_def with_scope_def destroy_body_def split: resolved.split prod.split if_splits)
  have "case lifecycle_client env AdmitsPublic r now of
      Inl e \<Rightarrow> fst (revoke env r now w) = lifecycle_error env e
    | Inr (app, f) \<Rightarrow> fst (revoke env r now w) = lifecycle_ok \<or> lc_destroy env \<noteq> TxOk \<or> \<not> lc_update_ok env \<or> app_org app = []"
  proof (cases "lifecycle_client env AdmitsPublic r now")
    case (Inr b)
    obtain app where b: "b = (app, r_form r)" using f Inr by (cases b) auto
    show ?thesis
    proof (cases "lc_destroy env = TxOk \<and> lc_update_ok env \<and> app_org app \<noteq> []")
      case True
      then have "\<exists>n w'. destroy env app found w = (Inr n, w')" for found
        using ok by (metis surjective_pairing)
      then show ?thesis using assms Inr b
        by (auto simp: revoke_def split: resolved.split prod.split sum.split) (metis Pair_inject sum.distinct(1))+
    qed (use Inr b in auto)
  qed (simp add: revoke_def)
  with i w show ?thesis by blast
qed

section \<open>Revocation\<close>

lemma count_outcome_sel [simp]:
  "lw_tokens (count_outcome e x w) = lw_tokens w" "lw_events (count_outcome e x w) = lw_events w"
  by (simp_all add: count_outcome_def)

lemma record_revocation_tokens [simp]: "lw_tokens (record_revocation env app found n w) = lw_tokens w"
proof -
  let ?b = "\<lambda>org w. bindE (write_event (lc_stored env) org (revoked_event app found n) (lw_events w))
          (\<lambda>log. Inr ((), w\<lparr>lw_events := log\<rparr>))"
  from with_tenant_state [of "lc_record env" "app_org app" ?b w]
  have "record_revocation env app found n w = w \<or> (\<exists>log. w\<lparr>lw_events := log\<rparr> = record_revocation env app found n w)"
    unfolding record_revocation_def [symmetric] by (auto simp: bindE_Inr_iff)
  then show ?thesis
  proof
    assume "\<exists>log. w\<lparr>lw_events := log\<rparr> = record_revocation env app found n w"
    then obtain log where "w\<lparr>lw_events := log\<rparr> = record_revocation env app found n w" by blast
    from arg_cong [OF this, of lw_tokens] show ?thesis by simp
  qed simp
qed

lemma destroy_tokens:
  assumes "destroy env app found w = (Inr n, w')" "found \<noteq> NotResolved"
  shows "lw_tokens w' = fst (case found of RefreshResolved r \<Rightarrow> revoke_family (app_org app) (r_family r) (lw_tokens w)
     | AccessResolved c \<Rightarrow> revoke_for_session_and_client (app_org app) (claim_text c ''sid'') (app_id app) (lw_tokens w)
     | NotResolved \<Rightarrow> (lw_tokens w, 0))"
proof -
  from assms(1) obtain m w1 where b: "destroy_body env app found (app_org app) w = Inr (m, w1)"
    and w1: "lw_tokens w' = lw_tokens w1"
    by (auto simp: destroy_def with_tenant_def with_scope_def split: sum.splits prod.splits if_splits)
  from b assms(2) show ?thesis unfolding w1
    by (auto simp: destroy_body_def revoke_for_session_and_client_def split: resolved.splits prod.splits if_splits)
qed

lemma revoke_acknowledged:
  assumes "revoke env r now w = (answer, w')" "la_status answer = 200"
    and "lifecycle_client env AdmitsPublic r now = Inr (app, f)"
    and "resolve env app (form_get f ''token'') (form_get f ''token_type_hint'') now (lw_tokens w) = found" "found \<noteq> NotResolved"
  shows "\<exists>n v. destroy env app found w = (Inr n, v) \<and> lw_tokens w' = lw_tokens v"
proof -
  obtain d v where d: "destroy env app found w = (d, v)" by (cases "destroy env app found w")
  have "form_get f ''token'' \<noteq> []"
    using assms by (auto simp: revoke_def lifecycle_error_def bad_request_def mk_error_def)
  with assms d show ?thesis
    by (cases d; cases found) (auto simp: revoke_def lifecycle_error_def mk_error_def)
qed

lemma revoked_row: "t \<in> set (fst (revoke_where org P tbl)) \<Longrightarrow>
    \<exists>u \<in> set tbl. t = u \<and> \<not> (visible org u \<and> P u) \<or> t = u\<lparr>rt_revoked := True\<rparr> \<and> visible org u \<and> P u"
  by (auto simp: revoke_where_def split: if_splits)

text \<open>
  C23. When a client has revoked its own refresh token and the answer is 200, every token of that token's
  family is revoked, the presented one is unknown from then on, at whatever time it is looked up, and
  every row of another family is as it was. The token belongs to the organization of the client, as every
  token does that began with an authorization of this client.
\<close>

theorem revocation_destroys_family:
  assumes inv: "refresh_inv now (lw_tokens w)"
    and auth: "lifecycle_client env AdmitsPublic r now = Inr (app, f)"
    and found: "resolve env app (form_get f ''token'') (form_get f ''token_type_hint'') now (lw_tokens w) = RefreshResolved s"
    and own: "r_org s = app_org app"
    and run: "revoke env r now w = (answer, w')" "la_status answer = 200"
  shows "(\<forall>u \<in> set (lw_tokens w'). rt_family u = r_family s \<longrightarrow> rt_revoked u) \<and>
    (\<forall>t. lookup_refresh (lw_tokens w') (form_get f ''token'') t = Inl RefreshNotFound) \<and>
    (\<forall>u \<in> set (lw_tokens w). rt_family u \<noteq> r_family s \<longrightarrow> u \<in> set (lw_tokens w'))"
proof -
  let ?tbl = "lw_tokens w" and ?P = "\<lambda>t. rt_family t = r_family s \<and> \<not> rt_revoked t"
  from revoke_acknowledged [OF run auth found] obtain n v where
    "destroy env app (RefreshResolved s) w = (Inr n, v)" "lw_tokens w' = lw_tokens v" by blast
  with destroy_tokens [OF this(1)] have w': "lw_tokens w' = fst (revoke_where (app_org app) ?P ?tbl)"
    by (simp add: revoke_family_def)
  from resolve_refresh [OF found] obtain t where t: "t \<in> set ?tbl" "s = refresh_of_row t"
    "rt_hash t = hash_refresh (form_get f ''token'')" by blast
  from inv have fam: "family_agrees ?tbl" and wf: "wf_table ?tbl" by (simp_all add: refresh_inv_def)
  have vis: "visible (app_org app) u" if "u \<in> set ?tbl" "rt_family u = r_family s" for u
  proof -
    from fam that t(1,2) have "same_owner u t" by (simp add: family_agrees_def)
    with own t(2) show ?thesis by (simp add: visible_def same_owner_def)
  qed
  have dead: "rt_revoked u" if "u \<in> set (lw_tokens w')" "rt_family u = r_family s" for u
    using revoked_row [of u "app_org app" ?P ?tbl] that vis unfolding w' by auto
  moreover have "lookup_refresh (lw_tokens w') (form_get f ''token'') at = Inl RefreshNotFound" for at
  proof (cases "lookup_refresh (lw_tokens w') (form_get f ''token'') at")
    case (Inr x)
    from lookup_refreshE [OF Inr] obtain u where u: "u \<in> set (lw_tokens w')" "rt_hash u = hash_refresh (form_get f ''token'')"
      "token_live at u" by blast
    then obtain u0 where "u0 \<in> set ?tbl" "rt_hash u0 = rt_hash u" "rt_family u0 = rt_family u"
      using revoked_row [of u "app_org app" ?P ?tbl] unfolding w' by auto
    with wf t u(2) have "rt_family u = r_family s" by (metis wf_unique_hash refresh_of_row_sel(6))
    with dead u(1,3) show ?thesis by (simp add: token_live_def)
  qed (auto simp: lookup_refresh_def split: option.splits)
  moreover have "u \<in> set (lw_tokens w')" if "u \<in> set ?tbl" "rt_family u \<noteq> r_family s" for u
    unfolding w' using that by (force simp: revoke_where_def)
  ultimately show ?thesis by blast
qed

text \<open>
  When a client has revoked its own access token and the answer is 200, no refresh token that the
  client holds for the token's session is usable any more, and tokens of other clients and of other
  sessions are as they were.
\<close>

theorem access_revocation_ends_refresh:
  assumes auth: "lifecycle_client env AdmitsPublic r now = Inr (app, f)" and app: "app_id app \<noteq> []"
    and found: "resolve env app (form_get f ''token'') (form_get f ''token_type_hint'') now (lw_tokens w) = AccessResolved c"
    and sid: "claim_text c ''sid'' \<noteq> []"
    and run: "revoke env r now w = (answer, w')" "la_status answer = 200"
  shows "(\<forall>u \<in> set (lw_tokens w'). rt_org u = app_org app \<and> rt_client u = app_id app \<and> rt_session u = Some (claim_text c ''sid'') \<longrightarrow>
      rt_revoked u) \<and>
    (\<forall>u \<in> set (lw_tokens w). rt_client u \<noteq> app_id app \<or> rt_session u \<noteq> Some (claim_text c ''sid'') \<longrightarrow> u \<in> set (lw_tokens w'))"
proof -
  let ?P = "\<lambda>t. rt_session t = Some (claim_text c ''sid'') \<and> rt_client t = app_id app \<and> \<not> rt_revoked t"
  from revoke_acknowledged [OF run auth found] obtain n v where
    "destroy env app (AccessResolved c) w = (Inr n, v)" "lw_tokens w' = lw_tokens v" by blast
  with destroy_tokens [OF this(1)] sid app have w': "lw_tokens w' = fst (revoke_where (app_org app) ?P (lw_tokens w))"
    by (simp add: revoke_for_session_and_client_def)
  have "rt_revoked u" if "u \<in> set (lw_tokens w')" "rt_org u = app_org app" "rt_client u = app_id app"
      "rt_session u = Some (claim_text c ''sid'')" for u
    using revoked_row [of u "app_org app" ?P "lw_tokens w"] that unfolding w' by (auto simp: visible_def)
  moreover have "u \<in> set (lw_tokens w')"
    if "u \<in> set (lw_tokens w)" "rt_client u \<noteq> app_id app \<or> rt_session u \<noteq> Some (claim_text c ''sid'')" for u
    unfolding w' using that by (force simp: revoke_where_def)
  ultimately show ?thesis by blast
qed

text \<open>
  A refresh token that has been rotated away stays a live row until it expires: introspection reports
  it active to its client, although presenting it at the token endpoint, outside the grace period of a
  retry, is refused as reuse and revokes its family.
\<close>

theorem rotated_token_reported_active:
  assumes inv: "refresh_inv now (lw_tokens w)"
    and row: "t \<in> set (lw_tokens w)" "token_live now t" "rt_hash t = hash_refresh p" "rt_replaced_by t = Some s"
    and auth: "lifecycle_client env RequiresConfidential r now = Inr (app, f)" "form_get f ''token'' = p" "p \<noteq> []"
    and own: "rt_client t = app_id app" and opaque_token: "lc_verify env p type_access_token = None" and up: "lc_lookup_ok env"
    and endpoint: "tw_tokens tw = lw_tokens w" "te_lineage_ok tenv"
      "\<not> legitimate_retry (lineage_of (lw_tokens w) t) now rotation_grace"
  shows "(\<exists>c. la_body (fst (introspect env r now w)) = DocumentBody c \<and> c ''active'' = Some (JBool True)) \<and>
    fst (detect_reuse tenv p app now tw) = Inr (True, [])"
proof -
  have wf: "wf_table (lw_tokens w)" using inv by (simp add: refresh_inv_def)
  have "List.find (\<lambda>u. rt_hash u = hash_refresh p \<and> token_live now u) (lw_tokens w) = Some t"
    using row wf by (intro find_unique) (auto dest: wf_unique_hash)
  then have "as_refresh_token env app p now (lw_tokens w) = RefreshResolved (refresh_of_row t)"
    using own up by (simp add: as_refresh_token_def lookup_refresh_def refresh_token_by_hash_def)
  moreover have "as_access_token env app p now = NotResolved" using opaque_token by (simp add: as_access_token_def)
  ultimately have "resolve env app p h now (lw_tokens w) = RefreshResolved (refresh_of_row t)" for h
    by (simp add: resolve_def Let_def)
  then have "fst (introspect env r now w) = lifecycle_json 200 (describe env (RefreshResolved (refresh_of_row t)))"
    using auth by (simp add: introspect_def)
  moreover have "describe env (RefreshResolved x) ''active'' = Some (JBool True)" for x
    by (simp add: describe_def Let_def)
  moreover have "s \<noteq> []" using inv row(1,4) by (auto simp: refresh_inv_def links_ok_def)
  then have "rotated (lineage_of (lw_tokens w) t)" using row(4) by (simp add: rotated_def lineage_of_def null_string_def)
  with lookup_lineage_row [OF wf row(1,3)] endpoint have "fst (detect_reuse tenv p app now tw) = Inr (True, [])"
    by (simp add: detect_reuse_def)
  ultimately show ?thesis by (simp add: lifecycle_json_def)
qed

section \<open>Concrete requests\<close>

definition lc_demo_client :: application where
  "lc_demo_client = \<lparr>app_id = ''web'', app_org = ''org'', app_project = ''prj'', app_name = ''Web'', app_type = TypeWeb,
     redirect_uris = [], post_logout_uris = [], grant_types = [], allowed_origins = []\<rparr>"

definition lc_demo_claims :: claims where
  "lc_demo_claims = [''iss'' \<mapsto> JStr ''iss'', ''exp'' \<mapsto> JInt 600, ''client_id'' \<mapsto> JStr ''web'', ''sid'' \<mapsto> JStr ''ses'', ''sub'' \<mapsto> JStr ''usr'']"

definition lc_demo :: lifecycle_env where
  "lc_demo = \<lparr>lc_issuer = ''iss'', lc_client = (\<lambda>i. if i = ''web'' then Some lc_demo_client else None),
     lc_credentials = (\<lambda>_. Some \<lparr>cred_hash = hash_secret ''s3cret'', cred_previous = [], cred_previous_expires = zero_time\<rparr>),
     lc_verify = (\<lambda>p ty. if p = ''jwt'' then Some (Some lc_demo_claims) else None), lc_live = Some (\<lambda>_ _. True),
     lc_lookup_ok = True, lc_update_ok = True, lc_destroy = TxOk, lc_record = TxOk, lc_stored = True\<rparr>"

definition lc_request :: "string \<Rightarrow> http_request" where
  "lc_request p = \<lparr>r_method = ''POST'', r_form_ok = True, r_form = form_of [(''token'', [p])], r_basic = Some (''web'', ''s3cret'')\<rparr>"

definition lc_world :: lifecycle_world where "lc_world = \<lparr>lw_tokens = demo_family, lw_events = [], lw_counts = []\<rparr>"

lemma lc_authenticated: "lifecycle_client lc_demo policy (lc_request p) now = Inr (lc_demo_client, form_of [(''token'', [p])])"
proof -
  have "query_unescape ''web'' = Some ''web''" "query_unescape ''s3cret'' = Some ''s3cret''" by code_simp+
  moreover have "form_get (form_of [(''token'', [p])]) ''client_id'' = []" "form_get (form_of [(''token'', [p])]) ''client_secret'' = []"
    by (simp_all add: form_get_def form_of_def)
  ultimately show ?thesis
    by (simp add: lifecycle_client_def lc_request_def parse_credentials_def lc_demo_def is_confidential_def lc_demo_client_def
      authenticate_client_def is_public_def verify_credentials_current)
qed

lemma lc_token: "form_get (form_of [(''token'', [p])]) ''token'' = p"
  "form_get (form_of [(''token'', [p])]) ''token_type_hint'' = []"
  by (simp_all add: form_get_def form_of_def)

lemma lc_access: "resolve lc_demo lc_demo_client ''jwt'' [] 1000 demo_family = AccessResolved lc_demo_claims"
  by (simp add: resolve_def as_access_token_def lc_demo_def lc_demo_claims_def claim_text_def numeric_claim_def
    lc_demo_client_def unix_sec_def Let_def hint_refresh_token_def)

lemma lc_refresh: "resolve lc_demo lc_demo_client ''old'' [] 1000 demo_family = RefreshResolved (refresh_of_row (hd demo_family))"
  by (simp add: resolve_def as_access_token_def lc_demo_def lc_demo_client_def as_refresh_token_def lookup_refresh_def
    refresh_token_by_hash_def demo_family_def demo_row_def token_live_def Let_def hint_refresh_token_def)

lemma introspection_truthful_witness:
  "\<exists>c t. la_body (fst (introspect lc_demo (lc_request ''old'') 1000 lc_world)) = DocumentBody c \<and>
     t \<in> set demo_family \<and> token_live 1000 t \<and> rt_hash t = hash_refresh ''old''"
proof -
  obtain answer w' where run: "introspect lc_demo (lc_request ''old'') 1000 lc_world = (answer, w')"
    by (cases "introspect lc_demo (lc_request ''old'') 1000 lc_world")
  have body: "la_body answer = DocumentBody (describe lc_demo (RefreshResolved (refresh_of_row (hd demo_family))))"
    using run by (auto simp: introspect_def lc_authenticated lc_token lc_world_def lc_refresh lifecycle_json_def)
  have "describe lc_demo (RefreshResolved x) ''active'' = Some (JBool True)" for x by (simp add: describe_def Let_def)
  from introspection_truthful [OF run body this]
  have "\<exists>t \<in> set demo_family. rt_hash t = hash_refresh ''old'' \<and> token_live 1000 t"
    by (auto simp: lc_request_def lc_token lc_demo_def lc_world_def)
  with run body show ?thesis by auto
qed

lemma lifecycle_answers_uniform_witness:
  "fst (revoke lc_demo (lc_request ''unknown'') 1000 lc_world) = lifecycle_ok"
proof -
  have "form_get (r_form (lc_request ''unknown'')) ''token'' \<noteq> []" by (simp add: lc_request_def lc_token)
  from lifecycle_answers_uniform [OF this, of lc_demo 1000 lc_world]
  have "fst (revoke lc_demo (lc_request ''unknown'') 1000 lc_world) = lifecycle_ok \<or>
      lc_destroy lc_demo \<noteq> TxOk \<or> \<not> lc_update_ok lc_demo \<or> app_org lc_demo_client = []"
    unfolding lc_authenticated sum.case prod.case by blast
  then show ?thesis by (simp add: lc_demo_client_def) (simp add: lc_demo_def)
qed

lemma revocation_destroys_family_witness:
  "\<exists>answer w'. revoke lc_demo (lc_request ''old'') 1000 lc_world = (answer, w') \<and> la_status answer = 200 \<and>
     (\<forall>u \<in> set (lw_tokens w'). rt_family u = ''fam0'' \<longrightarrow> rt_revoked u)"
proof -
  obtain answer w' where run: "revoke lc_demo (lc_request ''old'') 1000 lc_world = (answer, w')"
    by (cases "revoke lc_demo (lc_request ''old'') 1000 lc_world")
  have "lc_destroy lc_demo = TxOk" "lc_update_ok lc_demo" "app_org lc_demo_client \<noteq> []" by (simp_all add: lc_demo_def lc_demo_client_def)
  then have "\<exists>n v. destroy lc_demo lc_demo_client (RefreshResolved s) lc_world = (Inr n, v)" for s
    by (auto simp: destroy_def with_tenant_def with_scope_def destroy_body_def split: prod.split)
  then have ok: "la_status answer = 200"
    using run by (auto simp: revoke_def lc_authenticated lc_token lc_world_def lc_refresh lifecycle_ok_def split: prod.splits sum.splits)
      (metis Pair_inject sum.distinct(1))
  have "resolve lc_demo lc_demo_client (form_get (form_of [(''token'', [''old''])]) ''token'')
      (form_get (form_of [(''token'', [''old''])]) ''token_type_hint'') 1000 (lw_tokens lc_world) = RefreshResolved (refresh_of_row (hd demo_family))"
    by (simp add: lc_token lc_world_def lc_refresh)
  from revocation_destroys_family [OF _ lc_authenticated this _ run ok] demo_family_inv
  have "\<forall>u \<in> set (lw_tokens w'). rt_family u = ''fam0'' \<longrightarrow> rt_revoked u"
    by (simp add: lc_world_def demo_family_def demo_row_def lc_demo_client_def)
  with run ok show ?thesis by blast
qed

lemma access_revocation_ends_refresh_witness:
  "\<exists>answer w'. revoke lc_demo (lc_request ''jwt'') 1000 lc_world = (answer, w') \<and> la_status answer = 200 \<and>
     (\<forall>u \<in> set (lw_tokens w'). rt_client u = ''web'' \<and> rt_org u = ''org'' \<and> rt_session u = Some ''ses'' \<longrightarrow> rt_revoked u)"
proof -
  obtain answer w' where run: "revoke lc_demo (lc_request ''jwt'') 1000 lc_world = (answer, w')"
    by (cases "revoke lc_demo (lc_request ''jwt'') 1000 lc_world")
  have "lc_destroy lc_demo = TxOk" "lc_update_ok lc_demo" "app_org lc_demo_client \<noteq> []" by (simp_all add: lc_demo_def lc_demo_client_def)
  then have "\<exists>n v. destroy lc_demo lc_demo_client (AccessResolved s) lc_world = (Inr n, v)" for s
    by (auto simp: destroy_def with_tenant_def with_scope_def destroy_body_def split: prod.split)
  then have ok: "la_status answer = 200"
    using run by (auto simp: revoke_def lc_authenticated lc_token lc_world_def lc_access lifecycle_ok_def split: prod.splits sum.splits)
      (metis Pair_inject sum.distinct(1))
  have found: "resolve lc_demo lc_demo_client (form_get (form_of [(''token'', [''jwt''])]) ''token'')
      (form_get (form_of [(''token'', [''jwt''])]) ''token_type_hint'') 1000 (lw_tokens lc_world) = AccessResolved lc_demo_claims"
    by (simp add: lc_token lc_world_def lc_access)
  have sid: "claim_text lc_demo_claims ''sid'' = ''ses''" "app_id lc_demo_client = ''web''" "app_org lc_demo_client = ''org''"
    by (simp_all add: claim_text_def lc_demo_claims_def lc_demo_client_def)
  from access_revocation_ends_refresh [OF lc_authenticated _ found _ run ok] run ok show ?thesis by (auto simp: sid)
qed

lemma rotated_token_reported_active_witness:
  "\<exists>c. la_body (fst (introspect lc_demo (lc_request ''old'') (60 * second) lc_world)) = DocumentBody c \<and> c ''active'' = Some (JBool True)"
proof -
  let ?t = "demo_row ''r0'' (hash_refresh ''old'') (Some ''s0'') 0"
  have row: "?t \<in> set (lw_tokens lc_world)" "token_live (60 * second) ?t" "rt_hash ?t = hash_refresh ''old''"
    "rt_replaced_by ?t = Some ''s0''" "rt_client ?t = app_id lc_demo_client"
    by (simp_all add: lc_world_def demo_family_def demo_row_def token_live_def second_def lc_demo_client_def)
  have env: "lc_verify lc_demo ''old'' type_access_token = None" "lc_lookup_ok lc_demo" by (simp_all add: lc_demo_def)
  have tw: "tw_tokens (demo_world demo_family) = lw_tokens lc_world" "te_lineage_ok demo_env"
    by (simp_all add: demo_world_def lc_world_def demo_env_def)
  have "\<not> legitimate_retry (lineage_of (lw_tokens lc_world) ?t) (60 * second) rotation_grace"
    by (simp add: legitimate_retry_def lc_world_def demo_family_def lineage_of_def successor_of_def find_id_def demo_row_def
      rotation_grace_def time_sub_def second_def min_int64_def max_int64_def rotated_def null_string_def is_zero_def)
  moreover have "refresh_inv (60 * second) (lw_tokens lc_world)" using demo_family_inv by (simp add: lc_world_def second_def)
  ultimately show ?thesis
    using conjunct1 [OF rotated_token_reported_active [OF _ row(1-4) lc_authenticated _ _ row(5) env tw]] by (simp add: lc_token)
qed

end
