(* ===== verification/RateLimit.thy ===== *)
theory RateLimit
  imports CodeStore
begin

text \<open>
  Rate limiting (\<open>internal/ratelimit\<close>): the progressive cooldown of failed logins per submitted address
  and per IP (\<open>ratelimit.go\<close>, \<open>store.go\<close>), and the fixed-window quota of requests per client and of messages per
  recipient (\<open>quota.go\<close>, \<open>quota_store.go\<close>). The pure rules come first, then what they do to Redis.
\<close>

section \<open>The cooldown\<close>

record limit_policy =
  lp_free :: int
  lp_window :: duration
  lp_base :: duration
  lp_cap :: duration

definition per_address :: limit_policy where
  "per_address = \<lparr>lp_free = 5, lp_window = 15 * minute, lp_base = minute, lp_cap = 15 * minute\<rparr>"

definition per_ip :: limit_policy where
  "per_ip = \<lparr>lp_free = 50, lp_window = 15 * minute, lp_base = minute, lp_cap = 15 * minute\<rparr>"

record limit_state =
  ls_failures :: int
  ls_rounds :: int
  ls_until :: time

definition no_failures :: limit_state where
  "no_failures = \<lparr>ls_failures = 0, ls_rounds = 0, ls_until = zero_time\<rparr>"

record decision =
  d_allowed :: bool
  d_retry_after :: duration

definition cooling :: "limit_state \<Rightarrow> time \<Rightarrow> bool" where
  "cooling s now \<longleftrightarrow> \<not> is_zero (ls_until s) \<and> time_before now (ls_until s)"

definition evaluate :: "limit_state \<Rightarrow> limit_policy \<Rightarrow> time \<Rightarrow> decision" where
  "evaluate s p now =
     (if cooling s now then \<lparr>d_allowed = False, d_retry_after = time_sub (ls_until s) now\<rparr>
      else \<lparr>d_allowed = True, d_retry_after = 0\<rparr>)"

text \<open>The loop of \<open>backoff\<close>: \<open>n\<close> doublings of a 64-bit duration are left.\<close>

fun backoff_loop :: "duration \<Rightarrow> duration \<Rightarrow> nat \<Rightarrow> duration" where
  "backoff_loop cap d 0 = (if d > cap then cap else d)"
| "backoff_loop cap d (Suc n) = (if wrap64 (2 * d) \<ge> cap then cap else backoff_loop cap (wrap64 (2 * d)) n)"

definition backoff :: "limit_policy \<Rightarrow> int \<Rightarrow> duration" where
  "backoff p rounds = backoff_loop (lp_cap p) (lp_base p) (nat (rounds - 1))"

definition next_state :: "limit_state \<Rightarrow> limit_policy \<Rightarrow> time \<Rightarrow> limit_state" where
  "next_state s p now =
     (if cooling s now then s
      else if ls_failures s + 1 > lp_free p then
        \<lparr>ls_failures = 0, ls_rounds = ls_rounds s + 1, ls_until = time_add now (backoff p (ls_rounds s + 1))\<rparr>
      else \<lparr>ls_failures = ls_failures s + 1, ls_rounds = ls_rounds s, ls_until = zero_time\<rparr>)"

definition limit_ttl :: "limit_state \<Rightarrow> limit_policy \<Rightarrow> time \<Rightarrow> duration" where
  "limit_ttl s p now =
     (if \<not> is_zero (ls_until s) \<and> time_sub (ls_until s) now > lp_window p then time_sub (ls_until s) now else lp_window p)"

definition address_key :: "string \<Rightarrow> string" where
  "address_key address = ''ratelimit:login:address:'' @ to_lower (trim_space address)"

definition ip_key :: "string \<Rightarrow> string" where "ip_key ip = ''ratelimit:login:ip:'' @ ip"

section \<open>The limiter\<close>

type_synonym 's limit_redis = "('s, limit_state blob) redis_ops"

text \<open>The answer of a read, and whether the store could be reached.\<close>

definition load_limit :: "'s limit_redis \<Rightarrow> time \<Rightarrow> string \<Rightarrow> 's \<Rightarrow> limit_state option" where
  "load_limit rd t key st =
     (case rd_get rd t key st of
        Inl _ \<Rightarrow> None
      | Inr None \<Rightarrow> Some no_failures
      | Inr (Some Unreadable) \<Rightarrow> Some no_failures
      | Inr (Some (Blob s)) \<Rightarrow> Some s)"

definition save_limit :: "'s limit_redis \<Rightarrow> time \<Rightarrow> string \<Rightarrow> limit_state \<Rightarrow> duration \<Rightarrow> 's \<Rightarrow> bool \<times> 's" where
  "save_limit rd t key s ttl st = (case rd_set rd t key (Blob s) ttl st of (r, st') \<Rightarrow> (is_ok r, st'))"

definition bound_address :: string where "bound_address = ''address''"
definition bound_ip :: string where "bound_ip = ''ip''"

text \<open>The bounds consulted, the tight one first.\<close>

definition limit_bounds :: "string \<Rightarrow> string \<Rightarrow> (string \<times> string \<times> limit_policy) list" where
  "limit_bounds address ip =
     (bound_address, address_key address, per_address) # (if ip = [] then [] else [(bound_ip, ip_key ip, per_ip)])"

fun check_bounds ::
  "'s limit_redis \<Rightarrow> time \<Rightarrow> time \<Rightarrow> (string \<times> string \<times> limit_policy) list \<Rightarrow> 's \<Rightarrow> decision \<times> string" where
  "check_bounds rd t now [] st = (\<lparr>d_allowed = True, d_retry_after = 0\<rparr>, [])"
| "check_bounds rd t now ((name, key, p) # bs) st =
     (case load_limit rd t key st of
        None \<Rightarrow> (\<lparr>d_allowed = True, d_retry_after = 0\<rparr>, [])
      | Some s \<Rightarrow> let d = evaluate s p now in if \<not> d_allowed d then (d, name) else check_bounds rd t now bs st)"

definition limiter_check :: "'s limit_redis \<Rightarrow> time \<Rightarrow> string \<Rightarrow> string \<Rightarrow> time \<Rightarrow> 's \<Rightarrow> decision \<times> string" where
  "limiter_check rd t address ip now st = check_bounds rd t now (limit_bounds address ip) st"

text \<open>A failure of one bound, in its two commands: what was read, then what is written.\<close>

definition starts_cooldown :: "limit_state \<Rightarrow> limit_state \<Rightarrow> time \<Rightarrow> bool" where
  "starts_cooldown s s' now \<longleftrightarrow> time_before (ls_until s) now \<and> \<not> is_zero (ls_until s') \<and> time_after (ls_until s') now"

definition save_failure :: "'s limit_redis \<Rightarrow> time \<Rightarrow> string \<Rightarrow> limit_policy \<Rightarrow> time \<Rightarrow> limit_state \<Rightarrow> 's \<Rightarrow> bool \<times> 's" where
  "save_failure rd t key p now s st =
     (let s' = next_state s p now in
      case save_limit rd t key s' (limit_ttl s' p now) st of (good, st') \<Rightarrow> (good \<and> starts_cooldown s s' now, st'))"

definition fail_bound :: "'s limit_redis \<Rightarrow> time \<Rightarrow> string \<Rightarrow> limit_policy \<Rightarrow> time \<Rightarrow> 's \<Rightarrow> bool \<times> 's" where
  "fail_bound rd t key p now st =
     (case load_limit rd t key st of None \<Rightarrow> (False, st) | Some s \<Rightarrow> save_failure rd t key p now s st)"

fun fail_bounds ::
  "'s limit_redis \<Rightarrow> time \<Rightarrow> time \<Rightarrow> (string \<times> string \<times> limit_policy) list \<Rightarrow> bool \<times> string \<Rightarrow> 's \<Rightarrow> (bool \<times> string) \<times> 's" where
  "fail_bounds rd t now [] acc st = (acc, st)"
| "fail_bounds rd t now ((name, key, p) # bs) acc st =
     (case fail_bound rd t key p now st of (started, st') \<Rightarrow>
        fail_bounds rd t now bs (if started \<and> \<not> fst acc then (True, name) else acc) st')"

definition limiter_fail :: "'s limit_redis \<Rightarrow> time \<Rightarrow> string \<Rightarrow> string \<Rightarrow> time \<Rightarrow> 's \<Rightarrow> (bool \<times> string) \<times> 's" where
  "limiter_fail rd t address ip now st = fail_bounds rd t now (limit_bounds address ip) (False, []) st"

definition limiter_succeed :: "'s limit_redis \<Rightarrow> time \<Rightarrow> string \<Rightarrow> 's \<Rightarrow> 's" where
  "limiter_succeed rd t address st = (if address = [] then st else snd (rd_del rd t (address_key address) st))"

section \<open>Quotas\<close>

record quota =
  q_limit :: int
  q_window :: duration

definition per_client :: quota where "per_client = \<lparr>q_limit = 600, q_window = minute\<rparr>"
definition per_client_authz :: quota where "per_client_authz = \<lparr>q_limit = 6000, q_window = minute\<rparr>"

record verdict =
  v_allowed :: bool
  v_limit :: int
  v_remaining :: int
  v_reset :: time
  v_retry_after :: duration

text \<open>\<open>Time.Truncate\<close> counts from the zero time and returns the time itself for a window that is not positive.\<close>

definition window_start :: "quota \<Rightarrow> time \<Rightarrow> time" where
  "window_start q now = (if q_window q \<le> 0 then now else now - (now - zero_time) mod q_window q)"

definition decide_quota :: "quota \<Rightarrow> int \<Rightarrow> time \<Rightarrow> verdict" where
  "decide_quota q count now =
     (let reset = time_add (window_start q now) (q_window q); allowed = (count \<le> q_limit q) in
      \<lparr>v_allowed = allowed, v_limit = q_limit q,
       v_remaining = (if q_limit q - count < 0 then 0 else q_limit q - count), v_reset = reset,
       v_retry_after = (if allowed then 0 else if time_sub reset now < 0 then 0 else time_sub reset now)\<rparr>)"

definition unlimited :: "quota \<Rightarrow> time \<Rightarrow> verdict" where
  "unlimited q now = \<lparr>v_allowed = True, v_limit = q_limit q, v_remaining = q_limit q,
     v_reset = time_add (window_start q now) (q_window q), v_retry_after = 0\<rparr>"

text \<open>\<open>strconv.FormatInt\<close> in base 10.\<close>

fun digits :: "nat \<Rightarrow> string" where
  "digits n = (if n < 10 then [char_of (48 + n)] else digits (n div 10) @ [char_of (48 + n mod 10)])"

declare digits.simps [simp del]

definition format_int :: "int \<Rightarrow> string" where
  "format_int i = (if i < 0 then CHR ''-'' # digits (nat (- i)) else digits (nat i))"

definition client_key :: "string \<Rightarrow> time \<Rightarrow> string" where
  "client_key client start = (if client = [] then [] else ''ratelimit:client:'' @ client @ '':'' @ format_int (unix_sec start))"

definition mail_key :: "string \<Rightarrow> time \<Rightarrow> string" where
  "mail_key address start =
     (let a = to_lower (trim_space address) in
      if a = [] then [] else ''ratelimit:mail:'' @ a @ '':'' @ format_int (unix_sec start))"

text \<open>
  The Lua script \<open>consume\<close> (INCR, and PEXPIRE when the count is 1) is one atomic command of the server:
  \<open>ct_consume now key ms\<close> answers with the count after the increment, or not at all.
\<close>

record 's counter_ops =
  ct_count :: "'s \<Rightarrow> time \<Rightarrow> string \<Rightarrow> int"
  ct_consume :: "time \<Rightarrow> string \<Rightarrow> int \<Rightarrow> 's \<Rightarrow> int option \<times> 's"

definition quota_ttl :: "quota \<Rightarrow> time \<Rightarrow> duration" where
  "quota_ttl q now = time_sub (time_add (window_start q now) (q_window q + second)) now"

definition consume_key :: "'s counter_ops option \<Rightarrow> quota \<Rightarrow> time \<Rightarrow> string \<Rightarrow> time \<Rightarrow> 's \<Rightarrow> verdict \<times> 's" where
  "consume_key ops q t key now st =
     (case ops of
        None \<Rightarrow> (unlimited q now, st)
      | Some c \<Rightarrow>
          if key = [] then (unlimited q now, st)
          else (case ct_consume c t key (quota_ttl q now div millisecond) st of
             (None, st') \<Rightarrow> (unlimited q now, st')
           | (Some n, st') \<Rightarrow> (decide_quota q n now, st')))"

definition quota_consume ::
  "'s counter_ops option \<Rightarrow> quota \<Rightarrow> string \<Rightarrow> time \<Rightarrow> string \<Rightarrow> time \<Rightarrow> 's \<Rightarrow> verdict \<times> 's" where
  "quota_consume ops q namespace t client now st =
     (let key = client_key client (window_start q now);
          key = (if key \<noteq> [] \<and> namespace \<noteq> [] then key @ '':'' @ namespace else key)
      in consume_key ops q t key now st)"

definition quota_consume_mail :: "'s counter_ops option \<Rightarrow> quota \<Rightarrow> time \<Rightarrow> string \<Rightarrow> time \<Rightarrow> 's \<Rightarrow> verdict \<times> 's" where
  "quota_consume_mail ops q t address now st = consume_key ops q t (mail_key address (window_start q now)) now st"

end
