(* ===== verification/RateLimitProps.thy ===== *)
theory RateLimitProps
  imports RateLimit
begin

text \<open>
  What the limiter promises about one key when attempts are counted one after the other, what it does
  when they overlap, how a key is forgotten, and that a quota admits exactly its limit.
\<close>

section \<open>No lock-out\<close>

lemma evaluate_allowed [simp]: "d_allowed (evaluate s p t) \<longleftrightarrow> \<not> cooling s t"
  by (simp add: evaluate_def)

text \<open>No cooldown is longer than the cap, whatever the doubling does.\<close>

lemma backoff_le_cap: "backoff p k \<le> lp_cap p"
proof -
  have "backoff_loop cap d n \<le> cap" for d cap n by (induction n arbitrary: d) auto
  then show ?thesis by (simp add: backoff_def)
qed

text \<open>The doubling in closed form, below a cap whose double still fits.\<close>

lemma backoff_closed:
  assumes "0 < lp_base p" "lp_base p \<le> lp_cap p" "lp_cap p < 4611686018427387904" "0 < k"
  shows "backoff p (int k) = min (lp_cap p) (lp_base p * 2 ^ (k - 1))"
proof -
  have "0 < d \<Longrightarrow> d \<le> cap \<Longrightarrow> cap < 4611686018427387904 \<Longrightarrow> backoff_loop cap d n = min cap (d * 2 ^ n)" for d cap :: int and n
  proof (induction n arbitrary: d)
    case (Suc n)
    have w: "wrap64 (2 * d) = 2 * d" using Suc.prems by (simp add: wrap64_def)
    have "2 * d \<le> d * (2 * 2 ^ n)" using Suc.prems mult_left_mono [of 1 "2 ^ n" "2 * d"] by simp
    then have "cap \<le> 2 * d \<Longrightarrow> cap \<le> d * (2 * 2 ^ n)" by (rule order_trans [rotated])
    with Suc w show ?case by (auto simp: min_def)
  qed auto
  with assms show ?thesis by (simp add: backoff_def nat_diff_distrib)
qed

text \<open>
  C29. The limiter never locks a key out: after any sequence of failures, counted one after the other, a
  refused attempt is told to wait at most the cap, the attempt after that wait is let through, and being
  refused changes nothing, so that knocking does not prolong the cooldown.
\<close>

theorem cooldown_ends:
  assumes "0 < lp_base p" "lp_base p \<le> lp_cap p" "lp_cap p < max_int64"
    and "sorted (ts @ [t])" "s = fold (\<lambda>t s. next_state s p t) ts no_failures"
    and "\<not> d_allowed (evaluate s p t)"
  shows "0 < d_retry_after (evaluate s p t) \<and> d_retry_after (evaluate s p t) \<le> lp_cap p \<and>
    d_allowed (evaluate s p (t + d_retry_after (evaluate s p t))) \<and> next_state s p t = s"
proof -
  have "is_zero (ls_until (fold (\<lambda>t s. next_state s p t) ts s0)) \<or>
      (\<exists>u \<in> insert b (set ts). ls_until (fold (\<lambda>t s. next_state s p t) ts s0) \<le> u + lp_cap p)"
    if "is_zero (ls_until s0) \<or> ls_until s0 \<le> b + lp_cap p" for s0 b
    using that
  proof (induction ts arbitrary: s0 b)
    case (Cons x xs)
    have "ls_until (next_state s0 p x) = ls_until s0 \<or> is_zero (ls_until (next_state s0 p x)) \<or> ls_until (next_state s0 p x) \<le> x + lp_cap p"
      using backoff_le_cap [of p] by (auto simp: next_state_def time_add_def is_zero_def)
    with Cons.prems have "(is_zero (ls_until (next_state s0 p x)) \<or> ls_until (next_state s0 p x) \<le> b + lp_cap p) \<or>
        (is_zero (ls_until (next_state s0 p x)) \<or> ls_until (next_state s0 p x) \<le> x + lp_cap p)" by auto
    with Cons.IH [of "next_state s0 p x" b] Cons.IH [of "next_state s0 p x" x] show ?case by auto
  qed auto
  from this [of no_failures t] assms(5) obtain u where u: "is_zero (ls_until s) \<or> (u \<in> insert t (set ts) \<and> ls_until s \<le> u + lp_cap p)"
    by (auto simp: no_failures_def is_zero_def)
  have cool: "cooling s t" using assms(6) by simp
  with u have "u \<in> insert t (set ts)" "ls_until s \<le> u + lp_cap p" by (auto simp: cooling_def)
  moreover from this(1) assms(4) have "u \<le> t" by (auto simp: sorted_append)
  ultimately have "ls_until s \<le> t + lp_cap p" "t < ls_until s" using cool by (auto simp: cooling_def time_before_def)
  then have r: "d_retry_after (evaluate s p t) = ls_until s - t"
    using cool assms(3) by (simp add: evaluate_def time_sub_def max_int64_def min_int64_def)
  with \<open>ls_until s \<le> t + lp_cap p\<close> \<open>t < ls_until s\<close> cool show ?thesis
    by (simp add: next_state_def cooling_def time_before_def)
qed

section \<open>The counter in Redis\<close>

lemma address_key_neq_ip [simp]: "address_key a \<noteq> ip_key i" "ip_key i \<noteq> address_key a"
  by (simp_all add: address_key_def ip_key_def)

lemma save_failure_holds:
  assumes "redis rd" "save_failure rd t key p now s st = (b, st')" "0 < limit_ttl (next_state s p now) p now"
    and "is_ok (fst (rd_set rd t key (Blob (next_state s p now)) (limit_ttl (next_state s p now) p now) st))"
  shows "holds_for (rd_contents rd) st' t key (Blob (next_state s p now)) (limit_ttl (next_state s p now) p now)"
proof -
  let ?s' = "next_state s p now"
  obtain u st1 where r: "rd_set rd t key (Blob ?s') (limit_ttl ?s' p now) st = (Inr u, st1)"
    using assms(4) by (cases "rd_set rd t key (Blob ?s') (limit_ttl ?s' p now) st"; cases "fst (rd_set rd t key (Blob ?s') (limit_ttl ?s' p now) st)") auto
  with assms(2) have "st' = st1" by (simp add: save_failure_def save_limit_def Let_def)
  with redis.set_ok [OF assms(1) r assms(3)] show ?thesis by simp
qed

lemma load_limit_contents:
  assumes "redis rd" "load_limit rd t key st = Some s"
  shows "rd_contents rd st t key = Some (Blob s) \<or> s = no_failures \<and> rd_contents rd st t key \<in> {None, Some Unreadable}"
  using assms(2) redis.get [OF assms(1), of t key st]
  by (auto simp: load_limit_def split: sum.splits option.splits blob.splits)

text \<open>The second halves of several recordings that all read the same state, one after the other.\<close>

fun save_all :: "'s limit_redis \<Rightarrow> string \<Rightarrow> limit_policy \<Rightarrow> limit_state \<Rightarrow> time list \<Rightarrow> 's \<Rightarrow> 's" where
  "save_all rd key p s [] st = st"
| "save_all rd key p s (t # ts) st = save_all rd key p s ts (snd (save_failure rd t key p t s st))"

text \<open>
  A failure is recorded by a read and a write that are two commands. However many failed attempts
  overlap, each having read the counter before any of them wrote it, they count as one: after all the
  writes the counter holds the state after a single failure, so that the guesses made in parallel are free.
\<close>

theorem overlapping_failures_count_once:
  assumes redis: "redis rd" and policy: "0 < lp_window p"
    and up: "\<forall>t st v ttl. is_ok (fst (rd_set rd t key v ttl st))"
    and free: "ls_failures s + 1 \<le> lp_free p" "\<forall>t \<in> set ts. \<not> cooling s t"
    and run: "ts = us @ [t]" "st' = save_all rd key p s ts st" "t \<le> at" "at < t + lp_window p - millisecond"
    and read: "load_limit rd at key st' = Some s'"
  shows "s' = \<lparr>ls_failures = ls_failures s + 1, ls_rounds = ls_rounds s, ls_until = zero_time\<rparr> \<and>
    d_allowed (evaluate s' p at)"
proof -
  have app: "save_all rd key p s (us @ [t]) st = snd (save_failure rd t key p t s (save_all rd key p s us st))"
    by (induction us arbitrary: st) auto
  have cool: "\<not> cooling s t" using free(2) run(1) by simp
  let ?n = "\<lparr>ls_failures = ls_failures s + 1, ls_rounds = ls_rounds s, ls_until = zero_time\<rparr>"
  have n: "next_state s p t = ?n" using cool free(1) by (simp add: next_state_def)
  have ttl: "limit_ttl ?n p t = lp_window p" by (simp add: limit_ttl_def is_zero_def)
  obtain b st1 where sv: "save_failure rd t key p t s (save_all rd key p s us st) = (b, st1)"
    by (cases "save_failure rd t key p t s (save_all rd key p s us st)")
  from save_failure_holds [OF redis sv] up policy n ttl
  have "holds_for (rd_contents rd) st1 t key (Blob ?n) (lp_window p)" by simp
  moreover have "st' = st1" using run app sv by simp
  ultimately have "rd_contents rd st' at key = Some (Blob ?n)" using run(3,4) by (simp add: holds_for_def)
  with load_limit_contents [OF redis read] have "s' = ?n" by auto
  then show ?thesis by (simp add: cooling_def is_zero_def)
qed

text \<open>
  The longest cooldown forgets the rounds served: it lasts the cap, which is also how long the key is
  kept, so that when it ends the key is gone and the next cooldown is the first one, one minute, again. The
  delay therefore does not stay at the cap for an attacker who keeps guessing.
\<close>

theorem longest_cooldown_forgets_rounds:
  assumes redis: "redis rd" and long: "5 \<le> ls_rounds s + 1" "ls_failures s + 1 > 5" "\<not> cooling s now" "zero_time < now"
    and save: "save_failure rd now (address_key a) per_address now s st = (b, st')"
      "is_ok (fst (rd_set rd now (address_key a) (Blob (next_state s per_address now))
         (limit_ttl (next_state s per_address now) per_address now) st))"
    and read: "load_limit rd t (address_key a) st' = Some s'" and later: "now \<le> t"
  shows "ls_until (next_state s per_address now) = now + 15 * minute \<and>
    (d_allowed (evaluate (next_state s per_address now) per_address t) \<longrightarrow> s' = no_failures)"
proof -
  have "backoff per_address (ls_rounds s + 1) = min (15 * minute) (minute * 2 ^ (nat (ls_rounds s + 1) - 1))"
    using long(1) backoff_closed [of per_address "nat (ls_rounds s + 1)"] by (simp add: per_address_def minute_def)
  moreover have "(2 :: int) ^ 4 \<le> 2 ^ (nat (ls_rounds s + 1) - 1)" using long(1) by (intro power_increasing) auto
  then have "15 * minute \<le> minute * 2 ^ (nat (ls_rounds s + 1) - 1)" by (simp add: minute_def)
  ultimately have b: "backoff per_address (ls_rounds s + 1) = 15 * minute" by (simp add: min_def)
  have n: "next_state s per_address now = \<lparr>ls_failures = 0, ls_rounds = ls_rounds s + 1, ls_until = now + 15 * minute\<rparr>"
    using long b by (simp add: next_state_def per_address_def time_add_def)
  have ttl: "limit_ttl (next_state s per_address now) per_address now = 15 * minute"
    unfolding n limit_ttl_def by (simp add: per_address_def time_sub_def max_int64_def min_int64_def minute_def)
  from save_failure_holds [OF redis save(1) _ save(2)]
  have holds: "holds_for (rd_contents rd) st' now (address_key a) (Blob (next_state s per_address now)) (15 * minute)"
    unfolding ttl by (simp add: minute_def)
  have "s' = no_failures" if "d_allowed (evaluate (next_state s per_address now) per_address t)"
  proof -
    have "\<not> (zero_time < now + 15 * minute \<and> t < now + 15 * minute)" using that by (auto simp: n cooling_def is_zero_def time_before_def)
    then have "now + 15 * minute \<le> t" using long(4) by (simp add: minute_def)
    with holds have "rd_contents rd st' t (address_key a) = None" by (simp add: holds_for_def minute_def millisecond_def)
    with load_limit_contents [OF redis read] show ?thesis by auto
  qed
  with n show ?thesis by simp
qed

section \<open>Quotas\<close>

text \<open>The requests of one key, in the order the server counts them.\<close>

fun consume_all :: "'s counter_ops \<Rightarrow> quota \<Rightarrow> string \<Rightarrow> time list \<Rightarrow> 's \<Rightarrow> verdict list" where
  "consume_all c q key [] st = []"
| "consume_all c q key (t # ts) st =
     (case consume_key (Some c) q t key t st of (v, st') \<Rightarrow> v # consume_all c q key ts st')"

text \<open>The server that counts: one atomic script, an expiry set by the first increment only.\<close>

locale counter_server =
  fixes c :: "'s counter_ops"
  assumes answer: "ct_consume c t key ms st = (Some n, st') \<Longrightarrow> n = ct_count c st t key + 1"
    and first: "ct_consume c t key ms st = (Some 1, st') \<Longrightarrow> t \<le> u \<Longrightarrow> u < t + ms * millisecond \<Longrightarrow> ct_count c st' u key = 1"
    and further: "ct_consume c t key ms st = (Some n, st') \<Longrightarrow> 1 < n \<Longrightarrow> t \<le> u \<Longrightarrow>
      0 < ct_count c st u key \<Longrightarrow> ct_count c st' u key = n"
begin

lemma count_after:
  assumes "0 < q_window q" "q_window q \<le> 365 * 24 * hour" "end \<le> close" "start \<le> t" "t < end" "window_start q t + q_window q = close"
    and count: "\<forall>u. start \<le> u \<and> u < end \<longrightarrow> ct_count c st u key = int k"
    and n: "ct_consume c t key (quota_ttl q t div millisecond) st = (Some n, st')"
  shows "n = int (Suc k) \<and> (\<forall>u. t \<le> u \<and> u < end \<longrightarrow> ct_count c st' u key = int (Suc k))"
proof -
  have nk: "n = int (Suc k)" using answer [OF n] count assms(4,5) by simp
  have "window_start q t \<le> t" using assms(1) by (simp add: window_start_def)
  moreover have "t < window_start q t + q_window q" using assms(3,5,6) by simp
  ultimately have ttl: "quota_ttl q t = close + second - t"
    using assms(1,2,6) by (simp add: quota_ttl_def time_add_def time_sub_def max_int64_def min_int64_def hour_def second_def)
  have live: "u < t + quota_ttl q t div millisecond * millisecond" if "u < end" for u
  proof -
    have "quota_ttl q t div millisecond * millisecond = quota_ttl q t - quota_ttl q t mod millisecond"
      by (simp add: minus_mod_eq_div_mult)
    moreover have "quota_ttl q t mod millisecond < millisecond" by (simp add: millisecond_def)
    ultimately show ?thesis using that assms(3) ttl by (simp add: millisecond_def second_def)
  qed
  have "ct_count c st' u key = int (Suc k)" if u: "t \<le> u" "u < end" for u
  proof (cases k)
    case 0
    with first [OF _ u(1) live [OF u(2)]] n nk show ?thesis by simp
  next
    case (Suc m)
    then have "0 < ct_count c st u key" using count u assms(4) by simp
    with further [OF n _ u(1)] nk Suc show ?thesis by simp
  qed
  with nk show ?thesis by blast
qed

lemma counts_up:
  assumes "key \<noteq> []" "0 < q_window q" "q_window q \<le> 365 * 24 * hour" "end \<le> close"
    and answers: "\<forall>t st. fst (ct_consume c t key (quota_ttl q t div millisecond) st) \<noteq> None"
    and "sorted (start # ts)" "\<forall>t \<in> set ts. t < end" "\<forall>t \<in> set ts. window_start q t + q_window q = close"
    and "\<forall>u. start \<le> u \<and> u < end \<longrightarrow> ct_count c st u key = int k"
  shows "map v_allowed (consume_all c q key ts st) = map (\<lambda>i. int i \<le> q_limit q) [Suc k..<Suc k + length ts]"
  using assms(6-9)
proof (induction ts arbitrary: k st start)
  case (Cons t ts)
  obtain n st' where n: "ct_consume c t key (quota_ttl q t div millisecond) st = (Some n, st')"
    using answers by (metis option.exhaust prod.collapse)
  have "start \<le> t" "t < end" "window_start q t + q_window q = close" using Cons.prems by auto
  from count_after [OF assms(2,3,4) this Cons.prems(4) n] have nk: "n = int (Suc k)"
    and later: "\<forall>u. t \<le> u \<and> u < end \<longrightarrow> ct_count c st' u key = int (Suc k)" by blast+
  have "map v_allowed (consume_all c q key ts st') = map (\<lambda>i. int i \<le> q_limit q) [Suc (Suc k)..<Suc (Suc k) + length ts]"
    by (rule Cons.IH [of t]) (use Cons.prems later in auto)
  moreover have "consume_all c q key (t # ts) st = decide_quota q n t # consume_all c q key ts st'"
    using assms(1) n by (simp add: consume_key_def)
  moreover have "[Suc k..<Suc k + length (t # ts)] = Suc k # [Suc (Suc k)..<Suc (Suc k) + length ts]"
    by (subst upt_conv_Cons) simp_all
  ultimately show ?case using nk by (simp add: decide_quota_def Let_def)
qed simp

end

definition map_counter :: "(time \<Rightarrow> bool) \<Rightarrow> (string \<Rightarrow> (int \<times> time) option) counter_ops" where
  "map_counter down =
     \<lparr>ct_count = (\<lambda>st t k. case st k of None \<Rightarrow> 0 | Some (n, until) \<Rightarrow> if t < until \<and> 0 < n then n else 0),
      ct_consume = (\<lambda>t k ms st. if down t then (None, st) else
        (case st k of
           Some (n, until) \<Rightarrow> if t < until \<and> 0 < n then (Some (n + 1), st(k \<mapsto> (n + 1, until))) else (Some 1, st(k \<mapsto> (1, t + ms * millisecond)))
         | None \<Rightarrow> (Some 1, st(k \<mapsto> (1, t + ms * millisecond)))))\<rparr>"

interpretation counting: counter_server "map_counter down"
  by unfold_locales (auto simp: map_counter_def split: option.splits if_splits)

section \<open>A quota admits its limit\<close>

fun client_requests ::
  "'s counter_ops \<Rightarrow> quota \<Rightarrow> string \<Rightarrow> string \<Rightarrow> time list \<Rightarrow> 's \<Rightarrow> verdict list" where
  "client_requests c q ns client [] st = []"
| "client_requests c q ns client (t # ts) st =
     (case quota_consume (Some c) q ns t client t st of (v, st') \<Rightarrow> v # client_requests c q ns client ts st')"

definition quota_key :: "string \<Rightarrow> string \<Rightarrow> time \<Rightarrow> string" where
  "quota_key ns client start = client_key client start @ (if ns = [] then [] else '':'' @ ns)"

lemma client_requests_key:
  assumes "client \<noteq> []" "\<forall>t \<in> set ts. window_start q t = start"
  shows "client_requests c q ns client ts st = consume_all c q (quota_key ns client start) ts st"
  using assms(2)
proof (induction ts arbitrary: st)
  case (Cons t ts)
  have "quota_consume (Some c) q ns t client t st = consume_key (Some c) q t (quota_key ns client start) t st"
    using Cons.prems assms(1) by (simp add: quota_consume_def quota_key_def client_key_def Let_def)
  with Cons show ?case by (simp split: prod.split)
qed simp

lemma filter_up_to:
  "length (filter id (map (\<lambda>i. int i \<le> l) [Suc 0..<Suc n])) = min n (nat l)"
  by (induction n) (auto simp: min_def)

text \<open>
  C30. A quota admits exactly its limit: of the requests one client makes in one window, counted by a server
  whose increment is atomic and that answers every time, the first \<open>Limit\<close> are let through and all later
  ones are refused; the number let through is the smaller of the two.
\<close>

theorem quota_exact:
  assumes server: "counter_server c" and client: "client \<noteq> []"
    and window: "0 < q_window q" "q_window q \<le> 365 * 24 * hour" "sorted (start # ts)" "\<forall>t \<in> set ts. window_start q t = start"
    and answers: "\<forall>t key ms st. fst (ct_consume c t key ms st) \<noteq> None"
    and fresh: "\<forall>u \<ge> start. ct_count c st u (quota_key ns client start) = 0"
  shows "map v_allowed (client_requests c q ns client ts st) = map (\<lambda>i. int i \<le> q_limit q) [1..<Suc (length ts)] \<and>
    length (filter v_allowed (client_requests c q ns client ts st)) = min (length ts) (nat (q_limit q))"
proof -
  have inside: "\<forall>t \<in> set ts. t < start + q_window q"
  proof
    fix t assume "t \<in> set ts"
    with window(4) have "window_start q t = start" by blast
    then have "t - (t - zero_time) mod q_window q = start" using window(1) by (simp add: window_start_def)
    moreover have "(t - zero_time) mod q_window q < q_window q" using window(1) by simp
    ultimately show "t < start + q_window q" by linarith
  qed
  have "quota_key ns client start \<noteq> []" using client by (simp add: quota_key_def client_key_def)
  from counter_server.counts_up [OF server this window(1,2) order_refl _ window(3) inside _ , of st 0] window(4) answers fresh
  have m: "map v_allowed (consume_all c q (quota_key ns client start) ts st) = map (\<lambda>i. int i \<le> q_limit q) [Suc 0..<Suc (length ts)]"
    by simp
  have f: "filter v_allowed vs = [] \<or> True \<Longrightarrow> length (filter v_allowed vs) = length (filter id (map v_allowed vs))" for vs
    by (simp add: filter_map comp_def)
  show ?thesis unfolding client_requests_key [OF client window(4)]
    using m f [of "consume_all c q (quota_key ns client start) ts st"] filter_up_to [of "q_limit q" "length ts"] by simp
qed

section \<open>Witnesses\<close>

text \<open>Thirteen guesses at one key, one a second: the seventh has to wait out the first cooldown.\<close>

lemma cooldown_ends_witness:
  "\<not> d_allowed (evaluate (fold (\<lambda>t s. next_state s per_address t) [1, 2, 3, 4, 5, 6] no_failures) per_address 7) \<and>
   d_retry_after (evaluate (fold (\<lambda>t s. next_state s per_address t) [1, 2, 3, 4, 5, 6] no_failures) per_address 7) \<le> lp_cap per_address"
proof -
  have refused: "\<not> d_allowed (evaluate (fold (\<lambda>t s. next_state s per_address t) [1, 2, 3, 4, 5, 6] no_failures) per_address 7)"
    by code_simp
  have policy: "0 < lp_base per_address" "lp_base per_address \<le> lp_cap per_address" "lp_cap per_address < max_int64"
    by (simp_all add: per_address_def duration_defs max_int64_def)
  have "sorted ([1, 2, 3, 4, 5, 6] @ [7 :: time])" by code_simp
  from cooldown_ends [OF policy this refl refused] refused show ?thesis by (elim conjE) (rule conjI)
qed

abbreviation up_redis :: "('v ttl_map, 'v) redis_ops" where "up_redis \<equiv> ttl_redis (\<lambda>_. False)"

lemma load_limit_up: "\<exists>s. load_limit up_redis t k st = Some s"
  by (simp add: load_limit_def ttl_redis_def split: option.split blob.split)

lemma overlapping_failures_count_once_witness:
  "load_limit up_redis 13 ''k'' (save_all up_redis ''k'' per_address no_failures [10, 11, 12] Map.empty) =
     Some \<lparr>ls_failures = 1, ls_rounds = 0, ls_until = zero_time\<rparr>"
proof -
  obtain s' where s': "load_limit up_redis 13 ''k'' (save_all up_redis ''k'' per_address no_failures [10, 11, 12] Map.empty) = Some s'"
    using load_limit_up by blast
  have policy: "0 < lp_window per_address" "(12 :: time) \<le> 13" "13 < 12 + lp_window per_address - millisecond"
    by (simp_all add: per_address_def duration_defs millisecond_def)
  have up: "\<forall>t st v ttl. is_ok (fst (rd_set (up_redis :: (limit_state blob ttl_map, limit_state blob) redis_ops) t ''k'' v ttl st))"
    by (simp add: ttl_redis_def)
  have free: "ls_failures no_failures + 1 \<le> lp_free per_address" "\<forall>t \<in> set [10, 11, 12]. \<not> cooling no_failures t"
    by (simp_all add: per_address_def no_failures_def cooling_def is_zero_def)
  have "[10, 11, 12] = [10, 11] @ [12 :: time]" by simp
  from overlapping_failures_count_once [OF ttl.redis_axioms policy(1) up free this refl policy(2,3) s'] s'
  show ?thesis by (simp only: no_failures_def limit_state.simps) simp
qed

lemma longest_cooldown_forgets_rounds_witness:
  "load_limit up_redis (10 + 15 * minute) (address_key ''a'')
     (snd (save_failure up_redis 10 (address_key ''a'') per_address 10 \<lparr>ls_failures = 5, ls_rounds = 4, ls_until = zero_time\<rparr> Map.empty)) =
   Some no_failures"
proof -
  let ?s = "\<lparr>ls_failures = 5, ls_rounds = 4, ls_until = zero_time\<rparr>"
  let ?k = "address_key ''a''"
  obtain b st' where sv: "save_failure up_redis 10 ?k per_address 10 ?s Map.empty = (b, st')"
    by (cases "save_failure up_redis 10 ?k per_address 10 ?s Map.empty")
  obtain s' where s': "load_limit up_redis (10 + 15 * minute) ?k st' = Some s'"
    using load_limit_up by blast
  have ok: "is_ok (fst (rd_set (up_redis :: (limit_state blob ttl_map, limit_state blob) redis_ops) t k v ttl st))" for t k v ttl st
    by (simp add: ttl_redis_def)
  have s: "5 \<le> ls_rounds ?s + 1" "ls_failures ?s + 1 > 5" "\<not> cooling ?s 10" "zero_time < 10" "10 \<le> 10 + 15 * minute"
    by (simp_all add: cooling_def is_zero_def zero_time_def minute_def)
  note later = longest_cooldown_forgets_rounds [OF ttl.redis_axioms s(1-4) sv ok s' s(5)]
  then have "d_allowed (evaluate (next_state ?s per_address 10) per_address (10 + 15 * minute))"
    by (simp add: cooling_def time_before_def)
  with later have "s' = no_failures" by blast
  with sv s' show ?thesis by simp
qed

lemma quota_exact_witness:
  "length (filter v_allowed (client_requests (map_counter (\<lambda>_. False)) \<lparr>q_limit = 2, q_window = minute\<rparr> [] ''c''
     [window_start \<lparr>q_limit = 2, q_window = minute\<rparr> 0, window_start \<lparr>q_limit = 2, q_window = minute\<rparr> 0 + 1, window_start \<lparr>q_limit = 2, q_window = minute\<rparr> 0 + 2] Map.empty)) = 2"
proof -
  let ?q = "\<lparr>q_limit = 2, q_window = minute\<rparr>"
  let ?s = "window_start ?q 0"
  have "\<forall>t \<in> set [?s, ?s + 1, ?s + 2]. window_start ?q t = ?s" by code_simp
  with quota_exact [OF counting.counter_server_axioms [of "\<lambda>_. False"], of "''c''" ?q ?s "[?s, ?s + 1, ?s + 2]" Map.empty "[]"]
  show ?thesis by (simp add: map_counter_def duration_defs split: option.splits)
qed

end
