(* ===== verification/ManagerRoles.thy ===== *)
theory ManagerRoles
  imports GoStd
begin

text \<open>
  The permission model of the management API (\<open>internal/management/roles.go\<close>, \<open>policy.go\<close>, \<open>errors.go\<close>): the
  administrative roles and which satisfies which, the requirement each route declares, and \<open>Authorize\<close>, the one
  decision every management request passes. The order of the roles is made an instance of the class \<open>order\<close>,
  so that ``a higher role may do whatever a lower one may'' is monotonicity.
\<close>

section \<open>Roles\<close>

text \<open>A \<open>Role\<close> is a string of the program; those it does not know are kept as \<open>OtherRole\<close>.\<close>

datatype manager_role =
    InstanceOwner | OrgOwner | OrgAdmin | Member | ProjectOwner | ProjectGrantOwner | OtherRole string

fun satisfied_roles :: "manager_role \<Rightarrow> manager_role list" where
  "satisfied_roles InstanceOwner = [InstanceOwner, OrgOwner, OrgAdmin, ProjectOwner, ProjectGrantOwner, Member]"
| "satisfied_roles OrgOwner = [OrgOwner, OrgAdmin, ProjectOwner, ProjectGrantOwner, Member]"
| "satisfied_roles OrgAdmin = [OrgAdmin, ProjectOwner, ProjectGrantOwner, Member]"
| "satisfied_roles ProjectOwner = [ProjectOwner, Member]"
| "satisfied_roles ProjectGrantOwner = [ProjectGrantOwner, Member]"
| "satisfied_roles Member = [Member]"
| "satisfied_roles (OtherRole _) = []"

definition role_satisfies :: "manager_role \<Rightarrow> manager_role \<Rightarrow> bool" where
  "role_satisfies r required = contains (satisfied_roles r) required"

definition role_reach :: "manager_role \<Rightarrow> nat" where "role_reach r = length (satisfied_roles r)"

definition role_valid :: "manager_role \<Rightarrow> bool" where
  "role_valid r = (case r of OtherRole _ \<Rightarrow> False | _ \<Rightarrow> True)"

lemma role_satisfies_refl: "role_valid r \<Longrightarrow> role_satisfies r r"
  by (cases r) (simp_all add: role_valid_def role_satisfies_def)

lemma role_satisfies_trans: "role_satisfies a b \<Longrightarrow> role_satisfies b c \<Longrightarrow> role_satisfies a c"
  by (cases a; cases b) (auto simp: role_satisfies_def)

lemma role_satisfies_antisym: "role_satisfies a b \<Longrightarrow> role_satisfies b a \<Longrightarrow> a = b"
  by (cases a; cases b) (auto simp: role_satisfies_def)

lemma role_satisfies_valid: "role_satisfies a b \<Longrightarrow> role_valid a \<and> role_valid b"
  by (cases a) (auto simp: role_satisfies_def role_valid_def)

instantiation manager_role :: order
begin

definition less_eq_manager_role :: "manager_role \<Rightarrow> manager_role \<Rightarrow> bool" where
  "less_eq_manager_role r s \<longleftrightarrow> r = s \<or> role_satisfies s r"

definition less_manager_role :: "manager_role \<Rightarrow> manager_role \<Rightarrow> bool" where
  "less_manager_role r s \<longleftrightarrow> r \<noteq> s \<and> role_satisfies s r"

instance
  by standard (auto simp: less_eq_manager_role_def less_manager_role_def
      dest: role_satisfies_antisym intro: role_satisfies_trans)

end

lemma satisfies_mono: "r \<le> s \<Longrightarrow> role_satisfies r q \<Longrightarrow> role_satisfies s q"
  by (auto simp: less_eq_manager_role_def intro: role_satisfies_trans)

lemma instance_owner_top: "role_valid r \<Longrightarrow> r \<le> InstanceOwner"
  by (cases r) (simp_all add: less_eq_manager_role_def role_satisfies_def role_valid_def)

section \<open>Callers, requirements, targets\<close>

record role_grant =
  mg_role :: manager_role
  mg_scope :: string

record caller =
  cl_user :: string
  cl_client :: string
  cl_org :: string
  cl_session :: string
  cl_grants :: "role_grant list"

datatype permission_scope =
    ScopeUnset | ScopeOrganization | ScopeInstance | ScopeProject | ScopeSelf | ScopeProjectGrant

record requirement =
  rq_role :: manager_role
  rq_scope :: permission_scope

record target =
  tg_org :: string
  tg_project :: string
  tg_grant :: string

datatype decision_reason =
    NoReason | NoRequirementDeclared | NotAGrantedRole manager_role | NotInstanceOwner | NoOrganizationAddressed
  | NoProjectNamed | NoGrantNamed | NoGrantOver manager_role target

record access_decision =
  ad_allowed :: bool
  ad_reason :: decision_reason
  ad_instance :: bool
  ad_invisible :: bool

definition refused :: "decision_reason \<Rightarrow> bool \<Rightarrow> access_decision" where
  "refused why hidden = \<lparr>ad_allowed = False, ad_reason = why, ad_instance = False, ad_invisible = hidden\<rparr>"

definition permitted :: "bool \<Rightarrow> access_decision" where
  "permitted inst = \<lparr>ad_allowed = True, ad_reason = NoReason, ad_instance = inst, ad_invisible = False\<rparr>"

definition holds_grant_over :: "caller \<Rightarrow> string \<Rightarrow> bool" where
  "holds_grant_over c i \<longleftrightarrow> i \<noteq> [] \<and> list_ex (\<lambda>g. mg_scope g = i) (cl_grants c)"

definition holds_anything_over :: "caller \<Rightarrow> string \<Rightarrow> bool" where
  "holds_anything_over c org \<longleftrightarrow> cl_org c = org \<or> list_ex (\<lambda>g. mg_scope g = org) (cl_grants c)"

definition target_invisible :: "caller \<Rightarrow> requirement \<Rightarrow> target \<Rightarrow> bool" where
  "target_invisible c req t =
     (if rq_scope req = ScopeProject then \<not> holds_grant_over c (tg_project t) \<and> \<not> holds_grant_over c (tg_org t)
      else \<not> holds_anything_over c (tg_org t))"

definition holds_organization_role :: "caller \<Rightarrow> manager_role \<Rightarrow> string \<Rightarrow> bool" where
  "holds_organization_role c r org \<longleftrightarrow>
     list_ex (\<lambda>g. mg_role g = InstanceOwner \<or>
       (mg_role g \<noteq> ProjectGrantOwner \<and> mg_role g \<noteq> ProjectOwner \<and> mg_scope g = org \<and> role_satisfies (mg_role g) r)) (cl_grants c)"

text \<open>The body of \<open>Authorize\<close>, in its order; the two scoped loops fall through to the organization's.\<close>

definition authorize :: "caller \<Rightarrow> requirement \<Rightarrow> target \<Rightarrow> access_decision" where
  "authorize c req t =
     (if rq_scope req = ScopeUnset then refused NoRequirementDeclared False
      else if \<not> role_valid (rq_role req) then refused (NotAGrantedRole (rq_role req)) False
      else if list_ex (\<lambda>g. mg_role g = InstanceOwner \<and> role_satisfies (mg_role g) (rq_role req)) (cl_grants c)
        then permitted (tg_org t \<noteq> [] \<and> tg_org t \<noteq> cl_org c)
      else if rq_scope req = ScopeSelf then permitted False
      else if rq_scope req = ScopeInstance then refused NotInstanceOwner False
      else if tg_org t = [] then refused NoOrganizationAddressed False
      else if rq_role req = Member \<and> cl_org c = tg_org t then permitted False
      else if rq_scope req = ScopeProject \<and> tg_project t = [] then refused NoProjectNamed False
      else if rq_scope req = ScopeProject \<and>
          list_ex (\<lambda>g. mg_role g \<noteq> ProjectGrantOwner \<and> mg_scope g = tg_project t \<and> role_satisfies (mg_role g) (rq_role req)) (cl_grants c)
        then permitted False
      else if rq_scope req = ScopeProjectGrant \<and> tg_grant t = [] then refused NoGrantNamed False
      else if rq_scope req = ScopeProjectGrant \<and>
          list_ex (\<lambda>g. mg_role g = ProjectGrantOwner \<and> mg_scope g = tg_grant t \<and> cl_org c = tg_org t \<and>
            role_satisfies (mg_role g) (rq_role req)) (cl_grants c)
        then permitted False
      else if list_ex (\<lambda>g. mg_role g \<noteq> ProjectGrantOwner \<and> mg_scope g = tg_org t \<and> role_satisfies (mg_role g) (rq_role req)) (cl_grants c)
        then permitted False
      else refused (NoGrantOver (rq_role req) t) (target_invisible c req t))"

section \<open>The contract\<close>

text \<open>
  The abstract specification: a relation between a caller, a requirement and a target, one rule per reason
  for which a request may go on.
\<close>

definition declared :: "requirement \<Rightarrow> bool" where
  "declared req \<longleftrightarrow> rq_scope req \<noteq> ScopeUnset \<and> role_valid (rq_role req)"

text \<open>The request addresses an organization, and the project or the delegation when the requirement is about one.\<close>

definition addressed :: "requirement \<Rightarrow> target \<Rightarrow> bool" where
  "addressed req t \<longleftrightarrow> rq_scope req \<in> {ScopeOrganization, ScopeProject, ScopeProjectGrant} \<and> tg_org t \<noteq> []"

definition names_object :: "requirement \<Rightarrow> target \<Rightarrow> bool" where
  "names_object req t \<longleftrightarrow> (rq_scope req = ScopeProject \<longrightarrow> tg_project t \<noteq> []) \<and> (rq_scope req = ScopeProjectGrant \<longrightarrow> tg_grant t \<noteq> [])"

inductive may :: "caller \<Rightarrow> requirement \<Rightarrow> target \<Rightarrow> bool" where
  may_instance: "declared req \<Longrightarrow> g \<in> set (cl_grants c) \<Longrightarrow> mg_role g = InstanceOwner \<Longrightarrow> may c req t"
| may_self: "declared req \<Longrightarrow> rq_scope req = ScopeSelf \<Longrightarrow> may c req t"
| may_member: "declared req \<Longrightarrow> addressed req t \<Longrightarrow> rq_role req = Member \<Longrightarrow> cl_org c = tg_org t \<Longrightarrow> may c req t"
| may_organization: "declared req \<Longrightarrow> addressed req t \<Longrightarrow> names_object req t \<Longrightarrow> g \<in> set (cl_grants c) \<Longrightarrow>
    mg_role g \<noteq> ProjectGrantOwner \<Longrightarrow> mg_scope g = tg_org t \<Longrightarrow> rq_role req \<le> mg_role g \<Longrightarrow> may c req t"
| may_project: "declared req \<Longrightarrow> addressed req t \<Longrightarrow> names_object req t \<Longrightarrow> rq_scope req = ScopeProject \<Longrightarrow>
    g \<in> set (cl_grants c) \<Longrightarrow> mg_role g \<noteq> ProjectGrantOwner \<Longrightarrow> mg_scope g = tg_project t \<Longrightarrow> rq_role req \<le> mg_role g \<Longrightarrow> may c req t"
| may_delegation: "declared req \<Longrightarrow> addressed req t \<Longrightarrow> names_object req t \<Longrightarrow> rq_scope req = ScopeProjectGrant \<Longrightarrow>
    g \<in> set (cl_grants c) \<Longrightarrow> mg_role g = ProjectGrantOwner \<Longrightarrow> mg_scope g = tg_grant t \<Longrightarrow> cl_org c = tg_org t \<Longrightarrow>
    rq_role req \<le> mg_role g \<Longrightarrow> may c req t"

code_pred may .

inductive_cases mayE: "may c req t"

lemma satisfies_iff: "role_valid r \<Longrightarrow> role_satisfies s r \<longleftrightarrow> r \<le> s"
  by (auto simp: less_eq_manager_role_def role_satisfies_refl)

lemmas outcome_defs = refused_def permitted_def

lemma allowed_instance:
  "declared req \<Longrightarrow> list_ex (\<lambda>g. mg_role g = InstanceOwner \<and> role_satisfies (mg_role g) (rq_role req)) (cl_grants c) \<longleftrightarrow>
     (\<exists>g \<in> set (cl_grants c). mg_role g = InstanceOwner)"
  by (auto simp: list_ex_iff declared_def satisfies_iff instance_owner_top)

lemma authorize_cases:
  "ad_allowed (authorize c req t) \<longleftrightarrow>
     declared req \<and>
     (list_ex (\<lambda>g. mg_role g = InstanceOwner \<and> role_satisfies (mg_role g) (rq_role req)) (cl_grants c) \<or>
      rq_scope req = ScopeSelf \<or>
      (addressed req t \<and>
        ((rq_role req = Member \<and> cl_org c = tg_org t) \<or>
         (names_object req t \<and>
           ((rq_scope req = ScopeProject \<and>
              list_ex (\<lambda>g. mg_role g \<noteq> ProjectGrantOwner \<and> mg_scope g = tg_project t \<and> role_satisfies (mg_role g) (rq_role req)) (cl_grants c)) \<or>
            (rq_scope req = ScopeProjectGrant \<and>
              list_ex (\<lambda>g. mg_role g = ProjectGrantOwner \<and> mg_scope g = tg_grant t \<and> cl_org c = tg_org t \<and>
                role_satisfies (mg_role g) (rq_role req)) (cl_grants c)) \<or>
            list_ex (\<lambda>g. mg_role g \<noteq> ProjectGrantOwner \<and> mg_scope g = tg_org t \<and> role_satisfies (mg_role g) (rq_role req)) (cl_grants c))))))"
  by (cases "rq_scope req") (simp_all add: authorize_def outcome_defs declared_def addressed_def names_object_def)

text \<open>What the model calls allowed is what some rule of the specification allows.\<close>

lemma authorize_sound:
  assumes "ad_allowed (authorize c req t)"
  shows "may c req t"
proof -
  from assms have d: "declared req" by (simp add: authorize_cases)
  then have valid: "role_valid (rq_role req)" by (simp add: declared_def)
  from assms show ?thesis
    unfolding authorize_cases allowed_instance [OF d] list_ex_iff satisfies_iff [OF valid]
  proof (elim conjE disjE bexE)
    fix g assume "g \<in> set (cl_grants c)" "mg_role g = InstanceOwner"
    then show ?thesis by (rule may_instance [OF d])
  next
    assume "rq_scope req = ScopeSelf"
    then show ?thesis by (rule may_self [OF d])
  next
    assume "addressed req t" "rq_role req = Member" "cl_org c = tg_org t"
    then show ?thesis by (rule may_member [OF d])
  next
    fix g assume "addressed req t" "names_object req t" "rq_scope req = ScopeProject" "g \<in> set (cl_grants c)"
      "mg_role g \<noteq> ProjectGrantOwner" "mg_scope g = tg_project t" "rq_role req \<le> mg_role g"
    then show ?thesis by (rule may_project [OF d])
  next
    fix g assume "addressed req t" "names_object req t" "rq_scope req = ScopeProjectGrant" "g \<in> set (cl_grants c)"
      "mg_role g = ProjectGrantOwner" "mg_scope g = tg_grant t" "cl_org c = tg_org t" "rq_role req \<le> mg_role g"
    then show ?thesis by (rule may_delegation [OF d])
  next
    fix g assume "addressed req t" "names_object req t" "g \<in> set (cl_grants c)"
      "mg_role g \<noteq> ProjectGrantOwner" "mg_scope g = tg_org t" "rq_role req \<le> mg_role g"
    then show ?thesis by (rule may_organization [OF d])
  qed
qed

lemma authorize_complete:
  assumes "may c req t"
  shows "ad_allowed (authorize c req t)"
proof -
  from assms have d: "declared req" by cases
  then have valid: "role_valid (rq_role req)" by (simp add: declared_def)
  from assms show ?thesis
    unfolding authorize_cases allowed_instance [OF d] list_ex_iff satisfies_iff [OF valid]
    by cases (use d instance_owner_top [OF valid] in auto)
qed

text \<open>
  C24. \<open>Authorize\<close> implements its specification: a request is let through exactly when one of the six rules
  of the permission model applies to the caller, the requirement of the route and the target; a refusal that
  answers ``not found'' is one for a caller who holds nothing over what was addressed.
\<close>

theorem authorize_refines:
  "(ad_allowed (authorize c req t) \<longleftrightarrow> may c req t) \<and>
   (ad_invisible (authorize c req t) \<longrightarrow> \<not> may c req t \<and> target_invisible c req t)"
proof
  show iff: "ad_allowed (authorize c req t) \<longleftrightarrow> may c req t"
    by (blast intro: authorize_sound authorize_complete)
  have "ad_invisible (authorize c req t) \<longrightarrow> \<not> ad_allowed (authorize c req t) \<and> target_invisible c req t"
    by (simp add: authorize_def outcome_defs)
  with iff show "ad_invisible (authorize c req t) \<longrightarrow> \<not> may c req t \<and> target_invisible c req t" by blast
qed

lemma authorize_refines_witness:
  "\<not> may \<lparr>cl_user = ''u'', cl_client = ''c'', cl_org = ''o1'', cl_session = ''s'', cl_grants = [\<lparr>mg_role = OrgAdmin, mg_scope = ''o1''\<rparr>]\<rparr>
     \<lparr>rq_role = OrgAdmin, rq_scope = ScopeOrganization\<rparr> \<lparr>tg_org = ''o2'', tg_project = [], tg_grant = []\<rparr>"
proof -
  let ?c = "\<lparr>cl_user = ''u'', cl_client = ''c'', cl_org = ''o1'', cl_session = ''s'', cl_grants = [\<lparr>mg_role = OrgAdmin, mg_scope = ''o1''\<rparr>]\<rparr>"
    and ?req = "\<lparr>rq_role = OrgAdmin, rq_scope = ScopeOrganization\<rparr>" and ?t = "\<lparr>tg_org = ''o2'', tg_project = [], tg_grant = []\<rparr>"
  have "ad_invisible (authorize ?c ?req ?t)" by code_simp
  with authorize_refines [of ?c ?req ?t] show ?thesis by blast
qed

text \<open>Every grant of one caller is matched by one of the other over the same object, with a role at least as high.\<close>

definition dominated :: "role_grant list \<Rightarrow> role_grant list \<Rightarrow> bool" where
  "dominated gs hs \<longleftrightarrow> (\<forall>g \<in> set gs. \<exists>h \<in> set hs. mg_scope h = mg_scope g \<and> mg_role g \<le> mg_role h \<and>
     (mg_role h = ProjectGrantOwner \<longleftrightarrow> mg_role g = ProjectGrantOwner))"

lemma instance_owner_greatest: "InstanceOwner \<le> r \<Longrightarrow> r = InstanceOwner"
  by (cases r) (simp_all add: less_eq_manager_role_def role_satisfies_def)

text \<open>
  Rights flow downward only: a caller of the same organization whose grants dominate another's, each by a
  grant over the same object with a role at least as high, may do everything the other may; in particular a
  further grant never takes a permission away.
\<close>

theorem authorize_monotone:
  assumes "dominated (cl_grants c) (cl_grants c')" "cl_org c' = cl_org c" "ad_allowed (authorize c req t)"
  shows "ad_allowed (authorize c' req t)"
proof -
  from assms(3) have "may c req t" by (rule authorize_sound)
  then have "may c' req t"
  proof cases
    case (may_instance g)
    with assms(1) obtain h where "h \<in> set (cl_grants c')" "mg_role g \<le> mg_role h" by (auto simp: dominated_def)
    with may_instance show ?thesis by (auto dest: instance_owner_greatest intro: may.may_instance)
  next
    case (may_organization g)
    with assms(1) obtain h where "h \<in> set (cl_grants c')" "mg_scope h = tg_org t" "mg_role g \<le> mg_role h" "mg_role h \<noteq> ProjectGrantOwner"
      by (fastforce simp: dominated_def)
    with may_organization show ?thesis by (blast intro: may.may_organization order_trans)
  next
    case (may_project g)
    with assms(1) obtain h where "h \<in> set (cl_grants c')" "mg_scope h = tg_project t" "mg_role g \<le> mg_role h" "mg_role h \<noteq> ProjectGrantOwner"
      by (fastforce simp: dominated_def)
    with may_project show ?thesis by (blast intro: may.may_project order_trans)
  next
    case (may_delegation g)
    with assms(1) obtain h where h: "h \<in> set (cl_grants c')" "mg_scope h = tg_grant t" "mg_role g \<le> mg_role h" "mg_role h = ProjectGrantOwner"
      by (fastforce simp: dominated_def)
    from may_delegation h assms(2) show ?thesis by (intro may.may_delegation [of req t h]) (auto intro: order_trans)
  qed (use assms(2) in \<open>auto intro: may.intros\<close>)
  then show ?thesis by (rule authorize_complete)
qed

lemma authorize_monotone_witness:
  "ad_allowed (authorize \<lparr>cl_user = ''u'', cl_client = ''c'', cl_org = ''o1'', cl_session = ''s'',
       cl_grants = [\<lparr>mg_role = OrgOwner, mg_scope = ''o2''\<rparr>]\<rparr>
     \<lparr>rq_role = OrgAdmin, rq_scope = ScopeOrganization\<rparr> \<lparr>tg_org = ''o2'', tg_project = [], tg_grant = []\<rparr>)"
proof -
  let ?c = "\<lparr>cl_user = ''u'', cl_client = ''c'', cl_org = ''o1'', cl_session = ''s'', cl_grants = [\<lparr>mg_role = OrgAdmin, mg_scope = ''o2''\<rparr>]\<rparr>"
  show ?thesis
    by (rule authorize_monotone [of ?c]) (code_simp, simp, code_simp)
qed

text \<open>
  No reach into another organization without a grant: a request about an organization other than the
  caller's own, on a route that is not about the caller, is let through only for an instance owner or for the
  holder of a grant over that very organization or over the project addressed, with a role that satisfies the
  requirement; membership and delegations give nothing there.
\<close>

theorem cross_tenant_needs_grant:
  assumes "ad_allowed (authorize c req t)" "rq_scope req \<noteq> ScopeSelf" "tg_org t \<noteq> cl_org c"
  shows "\<exists>g \<in> set (cl_grants c). mg_role g = InstanceOwner \<or>
    (mg_role g \<noteq> ProjectGrantOwner \<and> rq_role req \<le> mg_role g \<and>
      (mg_scope g = tg_org t \<or> rq_scope req = ScopeProject \<and> mg_scope g = tg_project t))"
  using authorize_sound [OF assms(1)] assms(2,3) by cases auto

lemma cross_tenant_needs_grant_witness:
  "\<exists>g \<in> set [\<lparr>mg_role = OrgAdmin, mg_scope = ''o2''\<rparr>]. mg_role g = InstanceOwner \<or>
    (mg_role g \<noteq> ProjectGrantOwner \<and> OrgAdmin \<le> mg_role g \<and> (mg_scope g = ''o2'' \<or> ScopeOrganization = ScopeProject \<and> mg_scope g = []))"
proof -
  let ?c = "\<lparr>cl_user = ''u'', cl_client = ''c'', cl_org = ''o1'', cl_session = ''s'', cl_grants = [\<lparr>mg_role = OrgAdmin, mg_scope = ''o2''\<rparr>]\<rparr>"
  have "ad_allowed (authorize ?c \<lparr>rq_role = OrgAdmin, rq_scope = ScopeOrganization\<rparr> \<lparr>tg_org = ''o2'', tg_project = [], tg_grant = []\<rparr>)"
    by code_simp
  from cross_tenant_needs_grant [OF this] show ?thesis by simp
qed

end
