(* ===== verification/ManagementChain.thy ===== *)
theory ManagementChain
  imports ManagerRoles RateLimit AuditLog Claims
begin

text \<open>
  What every request to the management API passes before its handler (\<open>internal/management\<close>): the faults and
  their answers (\<open>errors.go\<close>), the requirement of a route (\<open>policy.go\<close>), authentication and permission
  (\<open>middleware.go\<close>, \<open>store.go\<close>), the request quota (\<open>quota.go\<close>), the bounded body (\<open>body.go\<close>) and pages (\<open>page.go\<close>).
  The verifier of tokens, the manager roles, the sessions and the parser of UUIDs are collaborators.
\<close>

section \<open>Faults\<close>

datatype fault_class =
    Unauthenticated | Forbidden | NotFound | Invalid | Conflict | RateLimited | Internal | Unavailable | Reauthenticate

record fault =
  f_class :: fault_class
  f_message :: string
  f_details :: "(string \<times> string) list"
  f_retry_after :: duration

definition mk_fault :: "fault_class \<Rightarrow> string \<Rightarrow> fault" where
  "mk_fault k m = \<lparr>f_class = k, f_message = m, f_details = [], f_retry_after = 0\<rparr>"

fun class_status :: "fault_class \<Rightarrow> nat" where
  "class_status Unauthenticated = 401" | "class_status Forbidden = 403" | "class_status NotFound = 404"
| "class_status Invalid = 400" | "class_status Conflict = 409" | "class_status RateLimited = 429"
| "class_status Internal = 500" | "class_status Unavailable = 503" | "class_status Reauthenticate = 403"

fun class_code :: "fault_class \<Rightarrow> string" where
  "class_code Unauthenticated = ''UNAUTHENTICATED''" | "class_code Forbidden = ''PERMISSION_DENIED''"
| "class_code NotFound = ''NOT_FOUND''" | "class_code Invalid = ''VALIDATION_ERROR''"
| "class_code Conflict = ''CONFLICT''" | "class_code RateLimited = ''RATE_LIMITED''"
| "class_code Internal = ''INTERNAL''" | "class_code Unavailable = ''UNAVAILABLE''"
| "class_code Reauthenticate = ''REAUTHENTICATION_REQUIRED''"

datatype mg_body = Bytes string | ErrorEnvelope string string "(string \<times> string) list"

record mg_answer =
  ma_status :: nat
  ma_headers :: "(string \<times> string) list"
  ma_body :: mg_body

text \<open>The seconds of \<open>Retry-After\<close>, rounded up.\<close>

definition retry_seconds :: "duration \<Rightarrow> int" where
  "retry_seconds d = (let s = d div second in if d > s * second then s + 1 else s)"

definition write_error :: "fault \<Rightarrow> mg_answer" where
  "write_error f =
     \<lparr>ma_status = class_status (f_class f),
      ma_headers = [(''Content-Type'', ''application/json''), (''Cache-Control'', ''no-store'')] @
        (if f_class f = RateLimited \<and> f_retry_after f > 0 then [(''Retry-After'', format_int (retry_seconds (f_retry_after f)))] else []),
      ma_body = ErrorEnvelope (class_code (f_class f)) (f_message f) (f_details f)\<rparr>"

definition internal_fault :: fault where "internal_fault = mk_fault Internal ''An unexpected error occurred.''"

section \<open>Routes\<close>

definition policy :: "(string \<times> requirement) list" where
  "policy = [
    (''GET /v1/me/organizations'', \<lparr>rq_role = Member, rq_scope = ScopeSelf\<rparr>),
    (''GET /v1/me/sessions'', \<lparr>rq_role = Member, rq_scope = ScopeSelf\<rparr>),
    (''DELETE /v1/me/sessions/{session_id}'', \<lparr>rq_role = Member, rq_scope = ScopeSelf\<rparr>),
    (''POST /v1/me/sessions/revoke-others'', \<lparr>rq_role = Member, rq_scope = ScopeSelf\<rparr>),
    (''GET /v1/me'', \<lparr>rq_role = Member, rq_scope = ScopeSelf\<rparr>),
    (''POST /v1/me/password'', \<lparr>rq_role = Member, rq_scope = ScopeSelf\<rparr>),
    (''GET /v1/me/mfa'', \<lparr>rq_role = Member, rq_scope = ScopeSelf\<rparr>),
    (''POST /v1/me/mfa/totp'', \<lparr>rq_role = Member, rq_scope = ScopeSelf\<rparr>),
    (''POST /v1/me/mfa/totp/{factor_id}/confirm'', \<lparr>rq_role = Member, rq_scope = ScopeSelf\<rparr>),
    (''DELETE /v1/me/mfa/factors/{factor_id}'', \<lparr>rq_role = Member, rq_scope = ScopeSelf\<rparr>),
    (''POST /v1/me/mfa/recovery-codes'', \<lparr>rq_role = Member, rq_scope = ScopeSelf\<rparr>),
    (''GET /v1/organizations/{org_id}/users/{user_id}/mfa'', \<lparr>rq_role = OrgAdmin, rq_scope = ScopeOrganization\<rparr>),
    (''GET /v1/organizations/{org_id}/users/{user_id}/sessions'', \<lparr>rq_role = OrgAdmin, rq_scope = ScopeOrganization\<rparr>),
    (''DELETE /v1/organizations/{org_id}/users/{user_id}/sessions/{session_id}'', \<lparr>rq_role = OrgAdmin, rq_scope = ScopeOrganization\<rparr>),
    (''GET /v1/organizations'', \<lparr>rq_role = InstanceOwner, rq_scope = ScopeInstance\<rparr>),
    (''POST /v1/organizations'', \<lparr>rq_role = InstanceOwner, rq_scope = ScopeInstance\<rparr>),
    (''GET /v1/organizations/{org_id}'', \<lparr>rq_role = OrgAdmin, rq_scope = ScopeOrganization\<rparr>),
    (''PATCH /v1/organizations/{org_id}'', \<lparr>rq_role = OrgOwner, rq_scope = ScopeOrganization\<rparr>),
    (''GET /v1/organizations/{org_id}/mfa-impact'', \<lparr>rq_role = OrgAdmin, rq_scope = ScopeOrganization\<rparr>),
    (''DELETE /v1/organizations/{org_id}'', \<lparr>rq_role = InstanceOwner, rq_scope = ScopeInstance\<rparr>),
    (''GET /v1/organizations/{org_id}/projects'', \<lparr>rq_role = OrgAdmin, rq_scope = ScopeOrganization\<rparr>),
    (''POST /v1/organizations/{org_id}/projects'', \<lparr>rq_role = OrgAdmin, rq_scope = ScopeOrganization\<rparr>),
    (''GET /v1/organizations/{org_id}/projects/{project_id}'', \<lparr>rq_role = OrgAdmin, rq_scope = ScopeOrganization\<rparr>),
    (''PATCH /v1/organizations/{org_id}/projects/{project_id}'', \<lparr>rq_role = OrgAdmin, rq_scope = ScopeOrganization\<rparr>),
    (''DELETE /v1/organizations/{org_id}/projects/{project_id}'', \<lparr>rq_role = OrgOwner, rq_scope = ScopeOrganization\<rparr>),
    (''GET /v1/organizations/{org_id}/projects/{project_id}/applications'', \<lparr>rq_role = OrgAdmin, rq_scope = ScopeOrganization\<rparr>),
    (''POST /v1/organizations/{org_id}/projects/{project_id}/applications'', \<lparr>rq_role = OrgAdmin, rq_scope = ScopeOrganization\<rparr>),
    (''GET /v1/organizations/{org_id}/projects/{project_id}/applications/{application_id}'', \<lparr>rq_role = OrgAdmin, rq_scope = ScopeOrganization\<rparr>),
    (''PATCH /v1/organizations/{org_id}/projects/{project_id}/applications/{application_id}'', \<lparr>rq_role = OrgAdmin, rq_scope = ScopeOrganization\<rparr>),
    (''POST /v1/organizations/{org_id}/projects/{project_id}/applications/{application_id}/rotate-secret'', \<lparr>rq_role = OrgAdmin, rq_scope = ScopeOrganization\<rparr>),
    (''DELETE /v1/organizations/{org_id}/projects/{project_id}/applications/{application_id}'', \<lparr>rq_role = OrgOwner, rq_scope = ScopeOrganization\<rparr>),
    (''GET /v1/organizations/{org_id}/projects/{project_id}/roles'', \<lparr>rq_role = ProjectOwner, rq_scope = ScopeProject\<rparr>),
    (''POST /v1/organizations/{org_id}/projects/{project_id}/roles'', \<lparr>rq_role = ProjectOwner, rq_scope = ScopeProject\<rparr>),
    (''GET /v1/organizations/{org_id}/projects/{project_id}/roles/{role_id}'', \<lparr>rq_role = ProjectOwner, rq_scope = ScopeProject\<rparr>),
    (''PATCH /v1/organizations/{org_id}/projects/{project_id}/roles/{role_id}'', \<lparr>rq_role = ProjectOwner, rq_scope = ScopeProject\<rparr>),
    (''DELETE /v1/organizations/{org_id}/projects/{project_id}/roles/{role_id}'', \<lparr>rq_role = ProjectOwner, rq_scope = ScopeProject\<rparr>),
    (''GET /v1/organizations/{org_id}/projects/{project_id}/grants'', \<lparr>rq_role = ProjectOwner, rq_scope = ScopeProject\<rparr>),
    (''POST /v1/organizations/{org_id}/projects/{project_id}/grants'', \<lparr>rq_role = ProjectOwner, rq_scope = ScopeProject\<rparr>),
    (''GET /v1/organizations/{org_id}/projects/{project_id}/grants/{grant_id}'', \<lparr>rq_role = ProjectOwner, rq_scope = ScopeProject\<rparr>),
    (''DELETE /v1/organizations/{org_id}/projects/{project_id}/grants/{grant_id}'', \<lparr>rq_role = ProjectOwner, rq_scope = ScopeProject\<rparr>),
    (''GET /v1/organizations/{org_id}/project-grants'', \<lparr>rq_role = OrgAdmin, rq_scope = ScopeOrganization\<rparr>),
    (''GET /v1/organizations/{org_id}/project-grants/{grant_id}/user-grants'', \<lparr>rq_role = ProjectGrantOwner, rq_scope = ScopeProjectGrant\<rparr>),
    (''POST /v1/organizations/{org_id}/project-grants/{grant_id}/user-grants'', \<lparr>rq_role = ProjectGrantOwner, rq_scope = ScopeProjectGrant\<rparr>),
    (''PATCH /v1/organizations/{org_id}/project-grants/{grant_id}/user-grants/{user_id}'', \<lparr>rq_role = ProjectGrantOwner, rq_scope = ScopeProjectGrant\<rparr>),
    (''DELETE /v1/organizations/{org_id}/project-grants/{grant_id}/user-grants/{user_id}'', \<lparr>rq_role = ProjectGrantOwner, rq_scope = ScopeProjectGrant\<rparr>),
    (''GET /v1/organizations/{org_id}/project-grants/{grant_id}/owners'', \<lparr>rq_role = OrgAdmin, rq_scope = ScopeOrganization\<rparr>),
    (''POST /v1/organizations/{org_id}/project-grants/{grant_id}/owners'', \<lparr>rq_role = OrgAdmin, rq_scope = ScopeOrganization\<rparr>),
    (''DELETE /v1/organizations/{org_id}/project-grants/{grant_id}/owners/{user_id}'', \<lparr>rq_role = OrgAdmin, rq_scope = ScopeOrganization\<rparr>),
    (''GET /v1/organizations/{org_id}/users'', \<lparr>rq_role = OrgAdmin, rq_scope = ScopeOrganization\<rparr>),
    (''POST /v1/organizations/{org_id}/users'', \<lparr>rq_role = OrgAdmin, rq_scope = ScopeOrganization\<rparr>),
    (''GET /v1/organizations/{org_id}/users/{user_id}'', \<lparr>rq_role = OrgAdmin, rq_scope = ScopeOrganization\<rparr>),
    (''PATCH /v1/organizations/{org_id}/users/{user_id}'', \<lparr>rq_role = OrgAdmin, rq_scope = ScopeOrganization\<rparr>),
    (''POST /v1/organizations/{org_id}/users/{user_id}/deactivate'', \<lparr>rq_role = OrgAdmin, rq_scope = ScopeOrganization\<rparr>),
    (''POST /v1/organizations/{org_id}/users/{user_id}/reactivate'', \<lparr>rq_role = OrgAdmin, rq_scope = ScopeOrganization\<rparr>),
    (''POST /v1/organizations/{org_id}/users/{user_id}/password-reset'', \<lparr>rq_role = OrgAdmin, rq_scope = ScopeOrganization\<rparr>),
    (''POST /v1/organizations/{org_id}/users/{user_id}/mfa-reset'', \<lparr>rq_role = OrgAdmin, rq_scope = ScopeOrganization\<rparr>),
    (''GET /v1/organizations/{org_id}/users/{user_id}/grants'', \<lparr>rq_role = OrgAdmin, rq_scope = ScopeOrganization\<rparr>),
    (''POST /v1/organizations/{org_id}/users/{user_id}/grants'', \<lparr>rq_role = OrgAdmin, rq_scope = ScopeOrganization\<rparr>),
    (''PATCH /v1/organizations/{org_id}/users/{user_id}/grants/{project_id}'', \<lparr>rq_role = OrgAdmin, rq_scope = ScopeOrganization\<rparr>),
    (''DELETE /v1/organizations/{org_id}/users/{user_id}/grants/{project_id}'', \<lparr>rq_role = OrgAdmin, rq_scope = ScopeOrganization\<rparr>),
    (''POST /v1/authz/check'', \<lparr>rq_role = Member, rq_scope = ScopeOrganization\<rparr>),
    (''GET /v1/organizations/{org_id}/events'', \<lparr>rq_role = OrgAdmin, rq_scope = ScopeOrganization\<rparr>)]"

definition policy_key :: "string \<Rightarrow> string \<Rightarrow> string" where
  "policy_key verb pattern =
     verb @ '' '' @ (if pattern \<noteq> [] \<and> last pattern = CHR ''/'' then butlast pattern else pattern)"

definition no_requirement :: requirement where "no_requirement = \<lparr>rq_role = OtherRole [], rq_scope = ScopeUnset\<rparr>"

text \<open>The zero \<open>Requirement\<close> stands for a route that declares none.\<close>

definition requirement_for :: "string \<Rightarrow> string option \<Rightarrow> requirement" where
  "requirement_for verb pattern =
     (case pattern of
        None \<Rightarrow> no_requirement
      | Some p \<Rightarrow> (case map_of policy (policy_key verb p) of None \<Rightarrow> no_requirement | Some req \<Rightarrow> req))"

section \<open>Authentication\<close>

record mg_request =
  mq_method :: string
  mq_pattern :: "string option"
  mq_path :: string
  mq_authorization :: string
  mq_org :: string
  mq_project :: string
  mq_grant :: string
  mq_key :: string
  mq_body :: string
  mq_broken :: bool

record mg_env =
  me_issuer :: string
  me_verify :: "string \<Rightarrow> claims option option"
  me_grants :: "string \<Rightarrow> role_grant list option"
  me_live :: "(string \<Rightarrow> time \<Rightarrow> bool) option"
  me_uuid :: "string \<Rightarrow> string option"

text \<open>\<open>strings.SplitN(header, " ", 2)\<close>, a case-insensitive scheme, a credential that is not blank.\<close>

definition bearer :: "string \<Rightarrow> string option" where
  "bearer header =
     (let scheme = takeWhile (\<lambda>c. c \<noteq> CHR '' '') header; rest = dropWhile (\<lambda>c. c \<noteq> CHR '' '') header in
      if rest = [] \<or> to_lower scheme \<noteq> ''bearer'' then None
      else let credential = trim_space (tl rest) in if credential = [] then None else Some credential)"

text \<open>
  Decoding a claim into a field of the struct: absent is the zero value, another type is an error. Of \<open>encoding/json\<close> two
  liberties are left out, a JSON null (which leaves a field as it is) and names that differ in case (which match): the payload is signed
  by this service, whose claim builders write neither.
\<close>

definition field_text :: "claims \<Rightarrow> string \<Rightarrow> string option" where
  "field_text c k = (case c k of None \<Rightarrow> Some [] | Some (JStr s) \<Rightarrow> Some s | Some _ \<Rightarrow> None)"

definition field_int :: "claims \<Rightarrow> string \<Rightarrow> int option" where
  "field_int c k = (case c k of None \<Rightarrow> Some 0 | Some (JInt n) \<Rightarrow> (if min_int64 \<le> n \<and> n \<le> max_int64 then Some n else None) | Some _ \<Rightarrow> None)"

record access_payload =
  ap_iss :: string
  ap_sub :: string
  ap_aud :: string
  ap_exp :: int
  ap_iat :: int
  ap_client :: string
  ap_org :: string
  ap_sid :: string

definition decode_access :: "claims \<Rightarrow> access_payload option" where
  "decode_access c =
     (case (field_text c ''iss'', field_text c ''sub'', field_text c ''aud'', field_int c ''exp'', field_int c ''iat'',
            field_text c ''client_id'', field_text c ''org_id'', field_text c ''sid'') of
        (Some i, Some s, Some a, Some e, Some t, Some cl, Some og, Some sd) \<Rightarrow>
          Some \<lparr>ap_iss = i, ap_sub = s, ap_aud = a, ap_exp = e, ap_iat = t, ap_client = cl, ap_org = og, ap_sid = sd\<rparr>
      | _ \<Rightarrow> None)"

definition clock_skew :: duration where "clock_skew = 30 * second"

definition unusable :: fault where "unusable = mk_fault Unauthenticated ''The access token is not valid.''"

definition payload_usable :: "mg_env \<Rightarrow> access_payload \<Rightarrow> time \<Rightarrow> bool" where
  "payload_usable env p now \<longleftrightarrow>
     ap_iss p = me_issuer env \<and> ap_aud p = me_issuer env \<and> ap_exp p \<noteq> 0 \<and> unix_sec now < ap_exp p \<and>
     ap_iat p \<le> unix_sec (time_add now clock_skew) \<and> ap_sub p \<noteq> [] \<and> ap_org p \<noteq> []"

definition mg_authenticate :: "mg_env \<Rightarrow> mg_request \<Rightarrow> time \<Rightarrow> fault + caller" where
  "mg_authenticate env r now =
     (case bearer (mq_authorization r) of
        None \<Rightarrow> Inl (mk_fault Unauthenticated ''Authentication is required.'')
      | Some presented \<Rightarrow>
          (case me_verify env presented of
             None \<Rightarrow> Inl unusable
           | Some None \<Rightarrow> Inl unusable
           | Some (Some c) \<Rightarrow>
               (case decode_access c of
                  None \<Rightarrow> Inl unusable
                | Some p \<Rightarrow>
                    if \<not> payload_usable env p now then Inl unusable
                    else if ap_sid p \<noteq> [] \<and> (case me_live env of None \<Rightarrow> False | Some live \<Rightarrow> \<not> live (ap_sid p) now) then Inl unusable
                    else (case me_grants env (ap_sub p) of
                       None \<Rightarrow> Inl internal_fault
                     | Some gs \<Rightarrow> Inr \<lparr>cl_user = ap_sub p, cl_client = ap_client p, cl_org = ap_org p,
                         cl_session = ap_sid p, cl_grants = gs\<rparr>))))"

text \<open>The table \<open>manager_roles\<close>: user, role, scope. \<open>role_named\<close> reads the text of a role.\<close>

definition role_named :: "string \<Rightarrow> manager_role" where
  "role_named s =
     (if s = ''INSTANCE_OWNER'' then InstanceOwner else if s = ''ORG_OWNER'' then OrgOwner
      else if s = ''ORG_ADMIN'' then OrgAdmin else if s = ''MEMBER'' then Member
      else if s = ''PROJECT_OWNER'' then ProjectOwner else if s = ''PROJECT_GRANT_OWNER'' then ProjectGrantOwner
      else OtherRole s)"

definition grants_for :: "bool \<Rightarrow> (string \<times> string \<times> string) list \<Rightarrow> string \<Rightarrow> role_grant list option" where
  "grants_for readable rows user =
     (if user = [] \<or> \<not> readable then None
      else Some (map (\<lambda>(_, r, s). \<lparr>mg_role = role_named r, mg_scope = s\<rparr>) (filter (\<lambda>(u, _, _). u = user) rows)))"

definition normalize_id :: "mg_env \<Rightarrow> string \<Rightarrow> string" where
  "normalize_id env raw = (if raw = [] then [] else case me_uuid env raw of None \<Rightarrow> raw | Some s \<Rightarrow> s)"

section \<open>Permission\<close>

record mg_scope =
  sc_caller :: caller
  sc_org :: string
  sc_instance :: bool

definition request_target :: "mg_env \<Rightarrow> mg_request \<Rightarrow> requirement \<Rightarrow> caller \<Rightarrow> target" where
  "request_target env r req c =
     (let org = normalize_id env (mq_org r) in
      \<lparr>tg_org = (if org = [] \<and> rq_scope req = ScopeOrganization then cl_org c else org),
       tg_project = normalize_id env (mq_project r), tg_grant = normalize_id env (mq_grant r)\<rparr>)"

definition mg_refuse :: "mg_env \<Rightarrow> fault \<Rightarrow> mg_answer" where
  "mg_refuse env f =
     (if f_class f = Unauthenticated
      then (write_error f)\<lparr>ma_headers :=
        (''WWW-Authenticate'', ''Bearer realm='' @ [CHR 0x22] @ me_issuer env @ [CHR 0x22] @ '', error='' @ [CHR 0x22] @ ''invalid_token'' @ [CHR 0x22])
          # ma_headers (write_error f)\<rparr>
      else write_error f)"

definition require :: "mg_env \<Rightarrow> requirement \<Rightarrow> mg_request \<Rightarrow> time \<Rightarrow> mg_answer + mg_scope" where
  "require env req r now =
     (case mg_authenticate env r now of
        Inl f \<Rightarrow> Inl (mg_refuse env f)
      | Inr c \<Rightarrow>
          (let t = request_target env r req c; d = authorize c req t in
           if \<not> ad_allowed d then
             Inl (mg_refuse env (if ad_invisible d then mk_fault NotFound ''The requested resource was not found.''
               else mk_fault Forbidden ''You do not have permission to perform this action.''))
           else Inr \<lparr>sc_caller = c, sc_org = tg_org t, sc_instance = ad_instance d\<rparr>))"

definition guard :: "mg_env \<Rightarrow> mg_request \<Rightarrow> time \<Rightarrow> mg_answer + mg_scope" where
  "guard env r now = require env (requirement_for (mq_method r) (mq_pattern r)) r now"

section \<open>Quota and body\<close>

record quota_bounds =
  qb_counter :: "quota \<times> string"
  qb_hot :: "(quota \<times> string) option"

definition hot_routes :: "string list" where "hot_routes = [''POST /v1/authz/check'']"

definition quota_of :: "quota_bounds \<Rightarrow> mg_request \<Rightarrow> quota \<times> string" where
  "quota_of qs r =
     (case (qb_hot qs, mq_pattern r) of
        (Some hot, Some p) \<Rightarrow> if contains hot_routes (policy_key (mq_method r) p) then hot else qb_counter qs
      | _ \<Rightarrow> qb_counter qs)"

definition quota_headers :: "verdict \<Rightarrow> (string \<times> string) list" where
  "quota_headers v =
     [(''X-RateLimit-Limit'', format_int (v_limit v)), (''X-RateLimit-Remaining'', format_int (v_remaining v)),
      (''X-RateLimit-Reset'', format_int (unix_sec (v_reset v)))]"

definition quota_fault :: "verdict \<Rightarrow> fault" where
  "quota_fault v = (mk_fault RateLimited ''Too many requests. Please retry later.'')\<lparr>f_retry_after := v_retry_after v\<rparr>"

definition rate_limit ::
  "'s counter_ops option \<Rightarrow> quota_bounds \<Rightarrow> mg_request \<Rightarrow> mg_scope \<Rightarrow> time \<Rightarrow> 's \<Rightarrow> (mg_answer + (string \<times> string) list) \<times> 's" where
  "rate_limit ops qs r sc now st =
     (case quota_of qs r of (q, ns) \<Rightarrow>
        (case quota_consume ops q ns now (cl_client (sc_caller sc)) now st of (v, st') \<Rightarrow>
           (if \<not> v_allowed v
            then Inl ((write_error (quota_fault v))\<lparr>ma_headers := quota_headers v @ ma_headers (write_error (quota_fault v))\<rparr>)
            else Inr (quota_headers v), st')))"

definition max_request_body :: nat where "max_request_body = 1048576"

text \<open>The bytes of the body when they were buffered; GET and HEAD are passed on as they are.\<close>

definition buffer_body :: "mg_request \<Rightarrow> fault + string option" where
  "buffer_body r =
     (if mq_method r = ''GET'' \<or> mq_method r = ''HEAD'' then Inr None
      else if length (mq_body r) > max_request_body then Inl (mk_fault Invalid ''The request body is too large.'')
      else if mq_broken r then Inl (mk_fault Invalid ''The request body could not be read.'')
      else Inr (Some (mq_body r)))"

section \<open>Pages\<close>

definition default_page_size :: int where "default_page_size = 20"
definition max_page_size :: int where "max_page_size = 100"

definition page_size :: "string \<Rightarrow> int" where
  "page_size requested =
     (if requested = [] then default_page_size
      else case atoi requested of
        None \<Rightarrow> default_page_size
      | Some n \<Rightarrow> if n \<le> 0 then default_page_size else if n > max_page_size then max_page_size else n)"

record page_cursor =
  cu_after :: time
  cu_id :: string
  cu_key :: string

definition no_cursor :: page_cursor where "no_cursor = \<lparr>cu_after = zero_time, cu_id = [], cu_key = []\<rparr>"

definition key_cursor :: "string \<Rightarrow> page_cursor" where "key_cursor k = no_cursor\<lparr>cu_key := k\<rparr>"

text \<open>The check of a decoded cursor: exactly one of the two positions.\<close>

definition check_cursor :: "page_cursor \<Rightarrow> fault + page_cursor" where
  "check_cursor c =
     (let timed = (cu_id c \<noteq> [] \<and> \<not> is_zero (cu_after c)); keyed = (cu_key c \<noteq> []) in
      if timed \<and> keyed \<or> \<not> timed \<and> \<not> keyed then Inl (mk_fault Invalid ''The page token is not valid.'') else Inr c)"

definition paginate :: "'r list \<Rightarrow> nat \<Rightarrow> ('r \<Rightarrow> page_cursor) \<Rightarrow> 'r list \<times> page_cursor option" where
  "paginate rows n position =
     (if length rows \<le> n then (rows, None) else (take n rows, Some (position (last (take n rows)))))"

end
