(* ===== verification/GoJson.thy ===== *)
theory GoJson
  imports GoStd
begin

text \<open>
  \<open>json.Valid\<close> of \<open>encoding/json\<close>, as the recursive descent its byte scanner performs: the grammar of RFC 8259
  over bytes, in which bytes from \<open>0x80\<close> on are accepted inside strings and arrays and objects nest at most 10000
  deep. Each function returns what follows the value it recognised.
\<close>

definition json_space :: "char \<Rightarrow> bool" where
  "json_space c \<longleftrightarrow> ord_of c \<in> {32, 9, 10, 13}"

definition skip_space :: "string \<Rightarrow> string" where "skip_space s = dropWhile json_space s"

fun hex4 :: "string \<Rightarrow> string option" where
  "hex4 (a # b # c # d # s) = (if \<forall>x \<in> set [a, b, c, d]. unhex x \<noteq> None then Some s else None)"
| "hex4 _ = None"

lemma hex4_shorter: "hex4 s = Some r \<Longrightarrow> length r < length s"
  by (cases s rule: hex4.cases) (auto split: if_splits)

text \<open>The rest of a string, after its opening quote.\<close>

function string_rest :: "string \<Rightarrow> string option" where
  "string_rest [] = None"
| "string_rest (c # s) =
     (if ord_of c = 34 then Some s
      else if ord_of c < 32 then None
      else if ord_of c \<noteq> 92 then string_rest s
      else case s of
        [] \<Rightarrow> None
      | e # r \<Rightarrow>
          if ord_of e \<in> {34, 92, 47, 98, 102, 110, 114, 116} then string_rest r
          else if ord_of e = 117 then (case hex4 r of None \<Rightarrow> None | Some r' \<Rightarrow> string_rest r')
          else None)"
  by pat_completeness auto
termination
  by (relation "measure length") (auto dest: hex4_shorter)

declare string_rest.simps(2) [simp del]

definition digits_rest :: "string \<Rightarrow> string option" where
  "digits_rest s = (case s of [] \<Rightarrow> None | c # r \<Rightarrow> if is_digit c then Some (dropWhile is_digit r) else None)"

definition fraction_rest :: "string \<Rightarrow> string option" where
  "fraction_rest s = (case s of c # r \<Rightarrow> if c = CHR ''.'' then digits_rest r else Some s | [] \<Rightarrow> Some s)"

definition exponent_rest :: "string \<Rightarrow> string option" where
  "exponent_rest s =
     (case s of
        c # r \<Rightarrow> if c = CHR ''e'' \<or> c = CHR ''E''
          then digits_rest (case r of d # r' \<Rightarrow> if d = CHR ''+'' \<or> d = CHR ''-'' then r' else r | [] \<Rightarrow> r) else Some s
      | [] \<Rightarrow> Some s)"

definition number_rest :: "string \<Rightarrow> string option" where
  "number_rest s =
     (case (case s of c # r \<Rightarrow> if c = CHR ''-'' then r else s | [] \<Rightarrow> s) of
        [] \<Rightarrow> None
      | c # r \<Rightarrow>
          if \<not> is_digit c then None
          else (case fraction_rest (if c = CHR ''0'' then r else dropWhile is_digit r) of
             None \<Rightarrow> None
           | Some t \<Rightarrow> exponent_rest t))"

definition literal_rest :: "string \<Rightarrow> string \<Rightarrow> string option" where
  "literal_rest w s = (if take (length w) s = w then Some (drop (length w) s) else None)"

definition max_nesting :: nat where "max_nesting = 10000"

text \<open>\<open>n\<close> bounds the recursion by the bytes that are left, \<open>d\<close> is the depth of nesting.\<close>

fun value_rest :: "nat \<Rightarrow> nat \<Rightarrow> string \<Rightarrow> string option"
  and members_rest :: "nat \<Rightarrow> nat \<Rightarrow> string \<Rightarrow> string option"
  and elements_rest :: "nat \<Rightarrow> nat \<Rightarrow> string \<Rightarrow> string option" where
  "value_rest 0 d s = None"
| "value_rest (Suc n) d s =
     (case skip_space s of
        [] \<Rightarrow> None
      | c # r \<Rightarrow>
          if c = CHR ''{'' then
            (if max_nesting \<le> d then None
             else (case skip_space r of
               [] \<Rightarrow> None
             | e # r' \<Rightarrow> (if e = CHR ''}'' then Some r' else members_rest n (Suc d) r)))
          else if c = CHR ''['' then
            (if max_nesting \<le> d then None
             else (case skip_space r of
               [] \<Rightarrow> None
             | e # r' \<Rightarrow> (if e = CHR '']'' then Some r' else elements_rest n (Suc d) r)))
          else if ord_of c = 34 then string_rest r
          else if c = CHR ''t'' then literal_rest ''true'' (c # r)
          else if c = CHR ''f'' then literal_rest ''false'' (c # r)
          else if c = CHR ''n'' then literal_rest ''null'' (c # r)
          else number_rest (c # r))"
| "members_rest 0 d s = None"
| "members_rest (Suc n) d s =
     (case skip_space s of
        [] \<Rightarrow> None
      | q # r \<Rightarrow>
          if ord_of q \<noteq> 34 then None
          else (case string_rest r of
            None \<Rightarrow> None
          | Some t \<Rightarrow> (case skip_space t of
               [] \<Rightarrow> None
             | k # u \<Rightarrow>
                 if k \<noteq> CHR '':'' then None
                 else (case value_rest n d u of
                   None \<Rightarrow> None
                 | Some v \<Rightarrow> (case skip_space v of
                      [] \<Rightarrow> None
                    | e # w \<Rightarrow> (if e = CHR ''}'' then Some w else if e = CHR '','' then members_rest n d w else None))))))"
| "elements_rest 0 d s = None"
| "elements_rest (Suc n) d s =
     (case value_rest n d s of
        None \<Rightarrow> None
      | Some v \<Rightarrow> (case skip_space v of
           [] \<Rightarrow> None
         | e # w \<Rightarrow> (if e = CHR '']'' then Some w else if e = CHR '','' then elements_rest n d w else None)))"

definition json_valid :: "string \<Rightarrow> bool" where
  "json_valid s = (case value_rest (Suc (2 * length s)) 0 s of None \<Rightarrow> False | Some r \<Rightarrow> skip_space r = [])"

lemma json_valid_examples:
  "json_valid ''{ }''" "json_valid ''[1,-2.5e+3,[true,null]]''" "\<not> json_valid ''[1,]''" "\<not> json_valid ''01''" "\<not> json_valid ''{''"
  by code_simp+

section \<open>The bound on the recursion is enough\<close>

lemma skip_space_length: "length (skip_space s) \<le> length s"
  by (simp add: skip_space_def length_dropWhile_le)

lemma skip_space_Cons: "skip_space s = c # r \<Longrightarrow> length r < length s"
  using skip_space_length [of s] by simp

lemma string_rest_step:
  assumes "string_rest (c # t) = Some r"
  shows "r = t \<or> (\<exists>u. string_rest u = Some r \<and> length u \<le> length t)"
proof (cases t)
  case Nil
  with assms show ?thesis by (auto simp: string_rest.simps(2) split: if_split_asm)
next
  case (Cons e v)
  have long: "hex4 v = Some u \<Longrightarrow> string_rest u = Some r \<Longrightarrow> \<exists>u. string_rest u = Some r \<and> length u \<le> Suc (length v)" for u
    using hex4_shorter [of v u] by (auto intro!: exI [of _ u])
  from assms Cons show ?thesis
    unfolding string_rest.simps(2) [of c]
    by (auto split: if_split_asm option.split_asm intro: long exI [of _ v] exI [of _ "e # v"])
qed

lemma string_rest_shorter: "string_rest s = Some r \<Longrightarrow> length r < length s"
proof (induction "length s" arbitrary: s rule: less_induct)
  case less
  then obtain c t where s: "s = c # t" by (cases s) auto
  from string_rest_step [OF less(2) [unfolded s]] show ?case
  proof (elim disjE exE conjE)
    fix u assume "string_rest u = Some r" "length u \<le> length t"
    then show ?thesis using less(1) [of u] s by simp
  qed (simp add: s)
qed

lemma digits_rest_shorter: "digits_rest s = Some r \<Longrightarrow> length r < length s"
  by (auto simp: digits_rest_def less_Suc_eq_le length_dropWhile_le split: list.splits if_splits)

lemma fraction_rest_le: "fraction_rest s = Some r \<Longrightarrow> length r \<le> length s"
  by (auto simp: fraction_rest_def split: list.splits if_splits dest: digits_rest_shorter)

lemma exponent_rest_le: "exponent_rest s = Some r \<Longrightarrow> length r \<le> length s"
  by (auto simp: exponent_rest_def split: list.splits if_splits dest!: digits_rest_shorter)

lemma number_rest_shorter:
  assumes "number_rest s = Some r"
  shows "length r < length s"
proof -
  from assms obtain c u t where u: "(case s of c # r \<Rightarrow> if c = CHR ''-'' then r else s | [] \<Rightarrow> s) = c # u"
    and t: "fraction_rest (if c = CHR ''0'' then u else dropWhile is_digit u) = Some t" "exponent_rest t = Some r"
    by (fastforce simp: number_rest_def split: list.splits if_splits option.splits)
  from u have "length u < length s" by (auto split: list.splits if_splits)
  moreover have "length t \<le> length u"
    using fraction_rest_le [OF t(1)] length_dropWhile_le [of is_digit u] by (simp split: if_splits)
  ultimately show ?thesis using exponent_rest_le [OF t(2)] by simp
qed

lemma literal_rest_shorter: "literal_rest w s = Some r \<Longrightarrow> w \<noteq> [] \<Longrightarrow> s \<noteq> [] \<Longrightarrow> length r < length s"
  by (auto simp: literal_rest_def split: if_splits)

lemma rest_shorter:
  "value_rest n d s = Some r \<Longrightarrow> length r < length s"
  "members_rest n d s = Some r \<Longrightarrow> length r < length s"
  "elements_rest n d s = Some r \<Longrightarrow> length r < length s"
proof (induction n d s and n d s and n d s arbitrary: r and r and r rule: value_rest_members_rest_elements_rest.induct)
  case (2 n d s)
  obtain c u where u: "skip_space s = c # u" using 2(3) by (auto split: list.splits)
  then have "length u < length s" by (rule skip_space_Cons)
  moreover have "length r \<le> length u"
    using 2 u skip_space_Cons [of u]
    by (fastforce dest: string_rest_shorter number_rest_shorter literal_rest_shorter split: list.splits if_splits)
  ultimately show ?case by simp
next
  case (4 n d s)
  then show ?case
    by (fastforce dest!: skip_space_Cons string_rest_shorter split: list.splits if_splits option.splits)
next
  case (6 n d s)
  then show ?case
    by (fastforce dest!: skip_space_Cons split: list.splits if_splits option.splits)
qed simp_all

lemma enough_fuel:
  "2 * length s < n \<Longrightarrow> 2 * length s < m \<Longrightarrow> value_rest n d s = value_rest m d s"
  "2 * length s < n \<Longrightarrow> 2 * length s < m \<Longrightarrow> members_rest n d s = members_rest m d s"
  "2 * length s + 1 < n \<Longrightarrow> 2 * length s + 1 < m \<Longrightarrow> elements_rest n d s = elements_rest m d s"
proof (induction n d s and n d s and n d s arbitrary: m and m and m rule: value_rest_members_rest_elements_rest.induct)
  case (2 n d s)
  obtain k where m: "m = Suc k" using 2(4) by (cases m) simp_all
  show ?case
  proof (cases "skip_space s")
    case (Cons c u)
    then have "length u < length s" by (rule skip_space_Cons)
    then have b: "2 * length u < n" "2 * length u < k" "2 * length u + 1 < n" "2 * length u + 1 < k" using 2(3,4) m by auto
    show ?thesis
    proof (cases "skip_space u")
      case Nil
      then show ?thesis by (simp add: m \<open>skip_space s = c # u\<close>)
    next
      case (Cons e r')
      have ob: "c = CHR ''{'' \<Longrightarrow> \<not> max_nesting \<le> d \<Longrightarrow> e \<noteq> CHR ''}'' \<Longrightarrow> members_rest n (Suc d) u = members_rest k (Suc d) u"
        by (rule 2(1) [OF \<open>skip_space s = c # u\<close> _ _ Cons _ b(1,2)])
      have ar: "c \<noteq> CHR ''{'' \<Longrightarrow> c = CHR ''['' \<Longrightarrow> \<not> max_nesting \<le> d \<Longrightarrow> e \<noteq> CHR '']'' \<Longrightarrow> elements_rest n (Suc d) u = elements_rest k (Suc d) u"
        by (rule 2(2) [OF \<open>skip_space s = c # u\<close> _ _ _ Cons _ b(3,4)])
      show ?thesis
        unfolding m value_rest.simps \<open>skip_space s = c # u\<close> Cons list.case
        using ob ar by (cases "c = CHR ''{''"; cases "c = CHR ''[''"; cases "max_nesting \<le> d";
          cases "e = CHR ''}''"; cases "e = CHR '']''") (simp_all only: if_True if_False simp_thms)
    qed
  qed (simp add: m)
next
  case (4 n d s)
  obtain k where m: "m = Suc k" using 4(4) by (cases m) simp_all
  show ?case
  proof (cases "skip_space s")
    case (Cons c u)
    then have cu: "length u < length s" by (rule skip_space_Cons)
    show ?thesis
    proof (cases "string_rest u")
      case (Some t)
      then have tu: "length t < length u" by (rule string_rest_shorter)
      show ?thesis
      proof (cases "skip_space t")
        case (Cons q v)
        then have "length v < length t" by (rule skip_space_Cons)
        with cu tu have b: "2 * length v < n" "2 * length v < k" and vs: "length v < length s" using 4(3,4) m by auto
        have eq: "ord_of c = 34 \<Longrightarrow> q = CHR '':'' \<Longrightarrow> value_rest n d v = value_rest k d v"
          using 4(1) [OF \<open>skip_space s = c # u\<close> _ Some Cons _ b] by simp
        have next_member: "members_rest n d w = members_rest k d w"
          if "ord_of c = 34" "q = CHR '':''" "value_rest n d v = Some x" "skip_space x = CHR '','' # w" for x w
        proof -
          have "length w < length s" using skip_space_Cons [OF that(4)] rest_shorter(1) [OF that(3)] vs by simp
          then have w: "2 * length w < n" "2 * length w < k" using 4(3,4) m by auto
          show ?thesis by (rule 4(2) [OF \<open>skip_space s = c # u\<close> _ Some Cons _ that(3,4) _ _ w]) (simp_all add: that)
        qed
        show ?thesis
        proof (cases "ord_of c = 34 \<and> q = CHR '':''")
          case True
          then have v: "value_rest n d v = value_rest k d v" using eq by simp
          show ?thesis
          proof (cases "value_rest n d v")
            case (Some x)
            then have x: "value_rest k d v = Some x" using v by simp
            have next_eq: "members_rest n d w = members_rest k d w" if "skip_space x = CHR '','' # w" for w
              using next_member [OF _ _ Some that] True by simp
            show ?thesis
              unfolding m members_rest.simps \<open>skip_space s = c # u\<close> \<open>string_rest u = Some t\<close> Cons list.case option.case Some x
              using True next_eq by (cases "skip_space x") (auto simp del: members_rest.simps)
          qed (use v True \<open>skip_space s = c # u\<close> Some Cons in \<open>simp add: m\<close>)
        qed (use \<open>skip_space s = c # u\<close> Some Cons in \<open>auto simp: m\<close>)
      qed (use \<open>skip_space s = c # u\<close> Some in \<open>simp add: m\<close>)
    qed (use Cons in \<open>simp add: m\<close>)
  qed (simp add: m)
next
  case (6 n d s)
  obtain k where m: "m = Suc k" using 6(4) by (cases m) simp_all
  have eq: "value_rest n d s = value_rest k d s" by (rule 6(1)) (use 6(3,4) m in auto)
  have next_element: "elements_rest n d w = elements_rest k d w"
    if "value_rest n d s = Some x" "skip_space x = CHR '','' # w" for x w
  proof -
    have "length w < length s" using skip_space_Cons [OF that(2)] rest_shorter(1) [OF that(1)] by simp
    then have w: "2 * length w + 1 < n" "2 * length w + 1 < k" using 6(3,4) m by auto
    show ?thesis by (rule 6(2) [OF that _ _ w]) simp_all
  qed
  show ?case unfolding m elements_rest.simps eq [symmetric]
    using next_element by (cases "value_rest n d s") (auto split: list.split simp del: elements_rest.simps)
qed simp_all

text \<open>The scanner never gives up for want of fuel: any larger bound gives the same verdict.\<close>

lemma json_valid_any_fuel:
  "2 * length s < n \<Longrightarrow> json_valid s = (case value_rest n 0 s of None \<Rightarrow> False | Some r \<Rightarrow> skip_space r = [])"
  using enough_fuel(1) [of s "Suc (2 * length s)" n 0] by (simp add: json_valid_def)

end
