(* ===== verification/Idempotency.thy ===== *)
theory Idempotency
  imports ManagementChain GoJson Sha256
begin

text \<open>
  \<open>Idempotency-Key\<close> (\<open>internal/management/idempotency.go\<close>, \<open>idempotency_middleware.go\<close>): the table
  \<open>idempotency_records\<close> with its primary key and its checks, the three transactions on it, and the middleware
  that claims a key, runs the handler while recording what it writes, and stores the answer or releases the claim.
  A handler is a function of the application's state; it answers with what it wrote, or panics.
\<close>

section \<open>Records\<close>

definition idempotency_ttl :: duration where "idempotency_ttl = 24 * hour"
definition max_key_length :: nat where "max_key_length = 255"
definition max_stored_response :: nat where "max_stored_response = 262144"

record idem_record =
  ir_hash :: string
  ir_method :: string
  ir_path :: string
  ir_answer :: "(nat \<times> string) option"
  ir_created :: time
  ir_expires :: time

type_synonym idem_id = "string \<times> string \<times> string"
type_synonym idem_table = "idem_id \<rightharpoonup> idem_record"

definition request_bytes :: "string \<Rightarrow> string \<Rightarrow> string \<Rightarrow> string" where
  "request_bytes verb path body = verb @ [CHR 0x00] @ path @ [CHR 0x00] @ body"

definition hash_request :: "string \<Rightarrow> string \<Rightarrow> string \<Rightarrow> string" where
  "hash_request verb path body = hex_encode (sha256 (bytes_of (request_bytes verb path body)))"

definition validate_idem_key :: "string \<Rightarrow> fault + unit" where
  "validate_idem_key key =
     (if key = [] then Inl (mk_fault Invalid ''The Idempotency-Key header must not be empty.'')
      else if length key > max_key_length then Inl (mk_fault Invalid ''The Idempotency-Key header is too long.'')
      else if list_ex (\<lambda>c. ord_of c < 0x21 \<or> ord_of c > 0x7E) key
        then Inl (mk_fault Invalid ''The Idempotency-Key header contains characters that are not allowed.'')
      else Inr ())"

definition fresh_record :: "string \<Rightarrow> string \<Rightarrow> string \<Rightarrow> time \<Rightarrow> idem_record" where
  "fresh_record hash verb path now =
     \<lparr>ir_hash = hash, ir_method = verb, ir_path = path, ir_answer = None, ir_created = now, ir_expires = time_add now idempotency_ttl\<rparr>"

text \<open>The three statements of \<open>Begin\<close>: the insert that claims, the read of who holds the key, the reclaim.\<close>

definition claim_insert :: "idem_id \<Rightarrow> idem_record \<Rightarrow> idem_table \<Rightarrow> bool \<times> idem_table" where
  "claim_insert i rec tbl = (case tbl i of None \<Rightarrow> (True, tbl(i \<mapsto> rec)) | Some _ \<Rightarrow> (False, tbl))"

datatype held = HeldGone | HeldExpired | HeldByOther | HeldInFlight | HeldAnswer nat string

definition read_holder :: "idem_id \<Rightarrow> string \<Rightarrow> time \<Rightarrow> idem_table \<Rightarrow> held" where
  "read_holder i hash now tbl =
     (case tbl i of
        None \<Rightarrow> HeldGone
      | Some rec \<Rightarrow>
          if \<not> time_after (ir_expires rec) now then HeldExpired
          else if ir_hash rec \<noteq> hash then HeldByOther
          else (case ir_answer rec of None \<Rightarrow> HeldInFlight | Some (st, b) \<Rightarrow> HeldAnswer st b))"

definition reclaim :: "idem_id \<Rightarrow> idem_record \<Rightarrow> idem_table \<Rightarrow> idem_table" where
  "reclaim i rec tbl = (case tbl i of None \<Rightarrow> tbl | Some _ \<Rightarrow> tbl(i \<mapsto> rec))"

definition idem_begin ::
  "string \<Rightarrow> string \<Rightarrow> string \<Rightarrow> string \<Rightarrow> string \<Rightarrow> string \<Rightarrow> time \<Rightarrow> idem_table \<Rightarrow> fault + (nat \<times> string) option \<times> idem_table" where
  "idem_begin org client key verb path body now tbl =
     bindE (validate_idem_key key) (\<lambda>_.
       let hash = hash_request verb path body; i = (org, client, key); rec = fresh_record hash verb path now in
       case claim_insert i rec tbl of
         (True, tbl') \<Rightarrow> Inr (None, tbl')
       | (False, tbl') \<Rightarrow>
           (case read_holder i hash now tbl' of
              HeldGone \<Rightarrow> Inl (mk_fault Conflict ''This request could not be completed. Please retry.'')
            | HeldExpired \<Rightarrow> Inr (None, reclaim i rec tbl')
            | HeldByOther \<Rightarrow> Inl (mk_fault Conflict ''This Idempotency-Key was already used for a different request.'')
            | HeldInFlight \<Rightarrow> Inl (mk_fault Conflict ''A request with this Idempotency-Key is still in progress.'')
            | HeldAnswer st b \<Rightarrow> Inr (Some (st, b), tbl')))"

definition idem_complete :: "idem_id \<Rightarrow> nat \<Rightarrow> string \<Rightarrow> idem_table \<Rightarrow> idem_table" where
  "idem_complete i st body tbl = (case tbl i of None \<Rightarrow> tbl | Some rec \<Rightarrow> tbl(i \<mapsto> rec\<lparr>ir_answer := Some (st, body)\<rparr>))"

definition idem_release :: "idem_id \<Rightarrow> idem_table \<Rightarrow> idem_table" where
  "idem_release i tbl = (case tbl i of None \<Rightarrow> tbl | Some rec \<Rightarrow> if ir_answer rec = None then tbl(i := None) else tbl)"

text \<open>The sweep removes some of the records past their expiry: those \<open>chosen\<close>, as many as its limit.\<close>

definition idem_sweep :: "time \<Rightarrow> (idem_id \<Rightarrow> bool) \<Rightarrow> idem_table \<Rightarrow> idem_table" where
  "idem_sweep before chosen tbl =
     (\<lambda>i. case tbl i of Some rec \<Rightarrow> if ir_expires rec < before \<and> chosen i then None else Some rec | None \<Rightarrow> None)"

section \<open>The middleware\<close>

datatype handler_result = Wrote "nat option" "string list" bool | Panicked

text \<open>What the recording writer keeps: nothing once the limit has been passed.\<close>

fun record_writes :: "nat \<Rightarrow> string list \<Rightarrow> string \<times> bool \<Rightarrow> string \<times> bool" where
  "record_writes limit [] acc = acc"
| "record_writes limit (p # ps) (b, overflowed) =
     record_writes limit ps
       (if length b + length p > limit then ([], True) else if \<not> overflowed then (b @ p, False) else (b, overflowed))"

definition recorded_status :: "nat option \<Rightarrow> string list \<Rightarrow> nat" where
  "recorded_status st ps = (case st of Some s \<Rightarrow> s | None \<Rightarrow> if ps = [] then 0 else 200)"

definition worth_storing :: "nat \<Rightarrow> string \<times> bool \<Rightarrow> bool" where
  "worth_storing st rec \<longleftrightarrow>
     200 \<le> st \<and> st \<le> 299 \<and> \<not> snd rec \<and> (fst rec = [] \<or> json_valid (fst rec))"

definition sent_answer :: "nat option \<Rightarrow> string list \<Rightarrow> mg_answer" where
  "sent_answer st ps = \<lparr>ma_status = (case st of Some s \<Rightarrow> s | None \<Rightarrow> 200), ma_headers = [], ma_body = Bytes (concat ps)\<rparr>"

definition write_replay :: "nat \<Rightarrow> string \<Rightarrow> mg_answer" where
  "write_replay st b =
     \<lparr>ma_status = st, ma_headers = [(''Content-Type'', ''application/json''), (''Cache-Control'', ''no-store''), (''Idempotency-Replayed'', ''true'')],
      ma_body = Bytes b\<rparr>"

definition read_bounded :: "mg_request \<Rightarrow> fault + string" where
  "read_bounded r =
     (if length (mq_body r) > max_request_body then Inl (mk_fault Invalid ''The request body is too large.'')
      else if mq_broken r then Inl (mk_fault Invalid ''The request body could not be read.'')
      else Inr (mq_body r))"

record idem_faults =
  if_begin :: tx_fault
  if_complete :: tx_fault
  if_release :: tx_fault

record 'h idem_world =
  iw_records :: idem_table
  iw_app :: 'h

type_synonym 'h mg_handler = "'h \<Rightarrow> handler_result \<times> 'h"

text \<open>An answer, or \<open>None\<close> when the handler panicked and the panic goes on.\<close>

definition run_handler :: "'h mg_handler \<Rightarrow> 'h idem_world \<Rightarrow> mg_answer option \<times> 'h idem_world" where
  "run_handler h w =
     (case h (iw_app w) of
        (Wrote st ps _, a) \<Rightarrow> (Some (sent_answer st ps), w\<lparr>iw_app := a\<rparr>)
      | (Panicked, a) \<Rightarrow> (None, w\<lparr>iw_app := a\<rparr>))"

definition begin_claim ::
  "idem_faults \<Rightarrow> caller \<Rightarrow> mg_request \<Rightarrow> string \<Rightarrow> time \<Rightarrow> idem_table \<Rightarrow> (fault + (nat \<times> string) option) \<times> idem_table" where
  "begin_claim faults c r body now tbl =
     (case with_tenant (if_begin faults) (cl_org c)
         (\<lambda>org. idem_begin org (cl_client c) (mq_key r) (mq_method r) (mq_path r) body now) tbl of
        (Inl (InBody f), tbl') \<Rightarrow> (Inl f, tbl')
      | (Inl _, tbl') \<Rightarrow> (Inl internal_fault, tbl')
      | (Inr x, tbl') \<Rightarrow> (Inr x, tbl'))"

definition release_claim :: "idem_faults \<Rightarrow> caller \<Rightarrow> string \<Rightarrow> 'h idem_world \<Rightarrow> 'h idem_world" where
  "release_claim faults c key w =
     w\<lparr>iw_records := snd (with_tenant (if_release faults) (cl_org c)
       (\<lambda>org tbl. (Inr ((), idem_release (org, cl_client c, key) tbl) :: unit + unit \<times> idem_table)) (iw_records w))\<rparr>"

definition complete_claim ::
  "idem_faults \<Rightarrow> caller \<Rightarrow> string \<Rightarrow> nat \<Rightarrow> string \<Rightarrow> 'h idem_world \<Rightarrow> 'h idem_world" where
  "complete_claim faults c key st body w =
     (case with_tenant (if_complete faults) (cl_org c)
         (\<lambda>org tbl. (Inr ((), idem_complete (org, cl_client c, key) st body tbl) :: unit + unit \<times> idem_table)) (iw_records w) of
        (Inr _, tbl) \<Rightarrow> w\<lparr>iw_records := tbl\<rparr>
      | (Inl _, tbl) \<Rightarrow> release_claim faults c key (w\<lparr>iw_records := tbl\<rparr>))"

text \<open>From the claim on: run, then store or release.\<close>

definition run_claimed ::
  "idem_faults \<Rightarrow> caller \<Rightarrow> string \<Rightarrow> 'h mg_handler \<Rightarrow> 'h idem_world \<Rightarrow> mg_answer option \<times> 'h idem_world" where
  "run_claimed faults c key h w =
     (case h (iw_app w) of
        (Panicked, a) \<Rightarrow> (None, release_claim faults c key (w\<lparr>iw_app := a\<rparr>))
      | (Wrote st ps _, a) \<Rightarrow>
          (Some (sent_answer st ps),
           if worth_storing (recorded_status st ps) (record_writes max_stored_response ps ([], False))
           then complete_claim faults c key (recorded_status st ps) (fst (record_writes max_stored_response ps ([], False))) (w\<lparr>iw_app := a\<rparr>)
           else release_claim faults c key (w\<lparr>iw_app := a\<rparr>)))"

definition idem_wrap ::
  "idem_faults \<Rightarrow> caller \<Rightarrow> mg_request \<Rightarrow> string option \<Rightarrow> time \<Rightarrow> 'h mg_handler \<Rightarrow> 'h idem_world \<Rightarrow> mg_answer option \<times> 'h idem_world" where
  "idem_wrap faults c r raw now h w =
     (if mq_key r = [] then run_handler h w
      else if mq_method r = ''GET'' \<or> mq_method r = ''HEAD'' then run_handler h w
      else if cl_client c = [] then
        (Some (write_error (mk_fault Invalid ''Idempotency-Key requires an access token issued to a client.'')), w)
      else case (case raw of Some b \<Rightarrow> Inr b | None \<Rightarrow> read_bounded r) of
        Inl f \<Rightarrow> (Some (write_error f), w)
      | Inr body \<Rightarrow>
          (case begin_claim faults c r body now (iw_records w) of
             (Inl f, tbl) \<Rightarrow> (Some (write_error f), w\<lparr>iw_records := tbl\<rparr>)
           | (Inr (Some (st, b)), tbl) \<Rightarrow> (Some (write_replay st b), w\<lparr>iw_records := tbl\<rparr>)
           | (Inr None, tbl) \<Rightarrow> run_claimed faults c (mq_key r) h (w\<lparr>iw_records := tbl\<rparr>)))"

section \<open>The whole chain\<close>

definition mutating :: "string \<Rightarrow> bool" where
  "mutating verb \<longleftrightarrow> contains [''POST'', ''PUT'', ''PATCH'', ''DELETE''] verb"

text \<open>The audit guard counts the mutations that succeeded without an event; it changes no answer.\<close>

definition audit_guard :: "string \<Rightarrow> 'h mg_handler \<Rightarrow> ('h \<times> nat) mg_handler" where
  "audit_guard verb h = (\<lambda>(a, alerts). case h a of
       (Panicked, a') \<Rightarrow> (Panicked, (a', alerts))
     | (Wrote st ps trail, a') \<Rightarrow>
         (Wrote st ps trail,
          (a', if mutating verb \<and> 200 \<le> recorded_status st ps \<and> recorded_status st ps \<le> 299 \<and> \<not> trail then Suc alerts else alerts)))"

definition with_headers :: "(string \<times> string) list \<Rightarrow> mg_answer \<Rightarrow> mg_answer" where
  "with_headers hs a = a\<lparr>ma_headers := hs @ ma_headers a\<rparr>"

definition guarded ::
  "mg_env \<Rightarrow> idem_faults \<Rightarrow> 's counter_ops option \<Rightarrow> quota_bounds \<Rightarrow> (mg_scope \<Rightarrow> 'h mg_handler) \<Rightarrow> mg_request \<Rightarrow> time \<Rightarrow>
     's \<Rightarrow> ('h \<times> nat) idem_world \<Rightarrow> mg_answer option \<times> 's \<times> ('h \<times> nat) idem_world" where
  "guarded env faults ops qs h r now st w =
     (case guard env r now of
        Inl ans \<Rightarrow> (Some ans, st, w)
      | Inr sc \<Rightarrow>
          (case rate_limit ops qs r sc now st of
             (Inl ans, st') \<Rightarrow> (Some ans, st', w)
           | (Inr hs, st') \<Rightarrow>
               (case buffer_body r of
                  Inl f \<Rightarrow> (Some (with_headers hs (write_error f)), st', w)
                | Inr raw \<Rightarrow>
                    (case idem_wrap faults (sc_caller sc) r raw now (audit_guard (mq_method r) (h sc)) w of
                       (a, w') \<Rightarrow> (map_option (with_headers hs) a, st', w')))))"

end
