(* ===== verification/IdempotencyProps.thy ===== *)
theory IdempotencyProps
  imports Idempotency
begin

text \<open>
  What an \<open>Idempotency-Key\<close> promises: one runner per key while the record lives, an exact replay afterwards, a
  refusal of any other request under the same key, and the hole that opens when the record has expired.
\<close>

section \<open>Requests that overlap\<close>

text \<open>
  The requests of one caller under one key, each a process: the claim is an insert, then a read, then perhaps a
  reclaim, three statements that other requests may come between; a running handler ends by storing or releasing.
  A process carries the time its request arrived.
\<close>

datatype phase = Arriving | Blocked time | Reclaiming time | Running | Ended

record idem_state =
  is_now :: time
  is_table :: idem_table
  is_phase :: "nat \<Rightarrow> phase"

inductive idem_step :: "idem_id \<Rightarrow> (nat \<Rightarrow> string \<times> string \<times> string) \<Rightarrow> idem_state \<Rightarrow> idem_state \<Rightarrow> bool" for i rq where
  step_tick: "is_now s \<le> t \<Longrightarrow> idem_step i rq s (s\<lparr>is_now := t\<rparr>)"
| step_insert: "is_phase s p = Arriving \<Longrightarrow> rq p = (hash, verb, path) \<Longrightarrow>
    claim_insert i (fresh_record hash verb path (is_now s)) (is_table s) = (won, tbl) \<Longrightarrow>
    idem_step i rq s (s\<lparr>is_table := tbl, is_phase := (is_phase s)(p := if won then Running else Blocked (is_now s))\<rparr>)"
| step_read: "is_phase s p = Blocked t \<Longrightarrow> rq p = (hash, verb, path) \<Longrightarrow>
    idem_step i rq s (s\<lparr>is_phase := (is_phase s)(p := if read_holder i hash t (is_table s) = HeldExpired then Reclaiming t else Ended)\<rparr>)"
| step_reclaim: "is_phase s p = Reclaiming t \<Longrightarrow> rq p = (hash, verb, path) \<Longrightarrow>
    idem_step i rq s (s\<lparr>is_table := reclaim i (fresh_record hash verb path t) (is_table s), is_phase := (is_phase s)(p := Running)\<rparr>)"
| step_store: "is_phase s p = Running \<Longrightarrow>
    idem_step i rq s (s\<lparr>is_table := idem_complete i st b (is_table s), is_phase := (is_phase s)(p := Ended)\<rparr>)"
| step_release: "is_phase s p = Running \<Longrightarrow>
    idem_step i rq s (s\<lparr>is_table := idem_release i (is_table s), is_phase := (is_phase s)(p := Ended)\<rparr>)"
| step_sweep: "before \<le> is_now s \<Longrightarrow> idem_step i rq s (s\<lparr>is_table := idem_sweep before chosen (is_table s)\<rparr>)"
| step_other: "tbl i = is_table s i \<Longrightarrow> idem_step i rq s (s\<lparr>is_table := tbl\<rparr>)"

definition all_arriving :: "idem_id \<Rightarrow> idem_state \<Rightarrow> bool" where
  "all_arriving i s \<longleftrightarrow> is_table s i = None \<and> (\<forall>p. is_phase s p = Arriving)"

text \<open>The invariant while the clock has not passed the end of the first claim's life.\<close>

definition one_runner :: "idem_id \<Rightarrow> time \<Rightarrow> idem_state \<Rightarrow> bool" where
  "one_runner i t0 s \<longleftrightarrow>
     t0 \<le> is_now s \<and>
     (\<forall>p t. is_phase s p = Blocked t \<longrightarrow> t0 \<le> t \<and> t \<le> is_now s) \<and>
     (\<forall>p t. is_phase s p \<noteq> Reclaiming t) \<and>
     (\<forall>rec. is_table s i = Some rec \<longrightarrow> t0 + idempotency_ttl \<le> ir_expires rec) \<and>
     (\<forall>p. is_phase s p = Running \<longrightarrow> (\<exists>rec. is_table s i = Some rec \<and> ir_answer rec = None)) \<and>
     (\<forall>p q. is_phase s p = Running \<longrightarrow> is_phase s q = Running \<longrightarrow> p = q)"

lemma one_runner_step:
  assumes "idem_step i rq s s'" "one_runner i t0 s" "is_now s' < t0 + idempotency_ttl"
  shows "one_runner i t0 s'"
  using assms(1)
proof cases
  case (step_tick t)
  with assms(2) show ?thesis by (fastforce simp: one_runner_def)
next
  case (step_insert p hash verb path won tbl)
  with assms(2) show ?thesis
    by (auto simp: one_runner_def claim_insert_def fresh_record_def time_add_def split: option.splits if_splits)
next
  case (step_read p t hash verb path)
  have "read_holder i hash t (is_table s) \<noteq> HeldExpired"
  proof (cases "is_table s i")
    case (Some rec)
    with assms(2) step_read have "t0 + idempotency_ttl \<le> ir_expires rec" "t \<le> is_now s" by (auto simp: one_runner_def)
    moreover have "is_now s < t0 + idempotency_ttl" using assms(3) step_read(1) by simp
    ultimately show ?thesis using Some by (simp add: read_holder_def time_after_def split: option.split)
  qed (simp add: read_holder_def)
  with step_read assms(2) show ?thesis by (auto simp: one_runner_def)
next
  case (step_sweep before chosen)
  then have "is_now s < t0 + idempotency_ttl" using assms(3) by simp
  with step_sweep assms(2) have "idem_sweep before chosen (is_table s) i = is_table s i"
    by (auto simp: idem_sweep_def one_runner_def split: option.splits)
  with step_sweep assms(2) show ?thesis by (simp add: one_runner_def)
qed (use assms(2) in \<open>auto simp: one_runner_def idem_complete_def idem_release_def split: option.splits\<close>)

lemma now_le_step: "idem_step i rq s s' \<Longrightarrow> is_now s \<le> is_now s'"
  by (induction rule: idem_step.induct) simp_all

lemma now_le_steps: "(idem_step i rq)\<^sup>*\<^sup>* s s' \<Longrightarrow> is_now s \<le> is_now s'"
  by (induction rule: rtranclp_induct) (auto dest: now_le_step)

lemma one_runner_steps:
  assumes "(idem_step i rq)\<^sup>*\<^sup>* s s'" "one_runner i t0 s" "is_now s' < t0 + idempotency_ttl"
  shows "one_runner i t0 s'"
  using assms
proof (induction rule: rtranclp_induct)
  case (step s1 s2)
  then have "is_now s1 < t0 + idempotency_ttl" using now_le_step [OF step(2)] by simp
  with step show ?case by (blast intro: one_runner_step)
qed

text \<open>A stored answer is there for every later request until it expires, and nobody runs.\<close>

lemma answer_stays:
  assumes "(idem_step i rq)\<^sup>*\<^sup>* s s'" "one_runner i t0 s" "is_now s' < t0 + idempotency_ttl"
    and "is_table s i = Some rec" "ir_answer rec = Some x"
  shows "\<exists>rec'. is_table s' i = Some rec' \<and> ir_answer rec' = Some x"
  using assms
proof (induction rule: rtranclp_induct)
  case (step s1 s2)
  then have now: "is_now s1 < t0 + idempotency_ttl" using now_le_step [OF step(2)] by simp
  with step obtain r where r: "is_table s1 i = Some r" "ir_answer r = Some x" by blast
  have inv: "one_runner i t0 s1" using one_runner_steps [OF step(1,4) now] .
  with r have idle: "is_phase s1 p \<noteq> Running" "is_phase s1 p \<noteq> Reclaiming t" for p t by (auto simp: one_runner_def)
  from step(2) show ?case
  proof cases
    case (step_sweep before chosen)
    with inv r now show ?thesis by (auto simp: idem_sweep_def one_runner_def)
  qed (use r idle in \<open>auto simp: claim_insert_def split: option.splits\<close>)
qed blast

text \<open>
  C27. One handler at a time per key: however the requests of one client under one key overlap, from an unused key
  and until the first claim's life has passed, at most one of them is past its claim; and from the moment an answer
  is stored nobody runs and the same answer stays in the record.
\<close>

theorem idempotent_one_runner:
  assumes start: "all_arriving i s0" and run: "(idem_step i rq)\<^sup>*\<^sup>* s0 s" "(idem_step i rq)\<^sup>*\<^sup>* s s'"
    and life: "is_now s' < is_now s0 + idempotency_ttl"
  shows "(is_phase s p = Running \<longrightarrow> is_phase s q = Running \<longrightarrow> p = q) \<and>
    (\<forall>rec x. is_table s i = Some rec \<and> ir_answer rec = Some x \<longrightarrow>
       is_phase s' p \<noteq> Running \<and> (\<exists>rec'. is_table s' i = Some rec' \<and> ir_answer rec' = Some x))"
proof -
  have inv0: "one_runner i (is_now s0) s0" using start by (auto simp: all_arriving_def one_runner_def)
  have "is_now s < is_now s0 + idempotency_ttl" using now_le_steps [OF run(2)] life by simp
  from one_runner_steps [OF run(1) inv0 this] have inv: "one_runner i (is_now s0) s" .
  have inv': "one_runner i (is_now s0) s'" using one_runner_steps [OF run(2) inv life] .
  have "is_phase s' p \<noteq> Running \<and> (\<exists>rec'. is_table s' i = Some rec' \<and> ir_answer rec' = Some x)"
    if "is_table s i = Some rec" "ir_answer rec = Some x" for rec x
    using answer_stays [OF run(2) inv life that] inv' by (auto simp: one_runner_def)
  moreover have "is_phase s p = Running \<longrightarrow> is_phase s q = Running \<longrightarrow> p = q" using inv by (auto simp: one_runner_def)
  ultimately show ?thesis by blast
qed

text \<open>
  The reclaim of an expired record is not a claim: the read that finds the record expired and the update that
  takes it over are two statements, so two requests that both arrive after the expiry both run their handlers, each
  believing the key its own.
\<close>

theorem expired_key_runs_twice:
  assumes "is_table s i = Some rec" "ir_expires rec \<le> is_now s" "p \<noteq> q"
    and "is_phase s p = Arriving" "is_phase s q = Arriving"
  shows "\<exists>s'. (idem_step i rq)\<^sup>*\<^sup>* s s' \<and> is_phase s' p = Running \<and> is_phase s' q = Running"
proof -
  obtain h1 v1 u1 h2 v2 u2 where rq: "rq p = (h1, v1, u1)" "rq q = (h2, v2, u2)" by (metis prod_cases3)
  define s1 where "s1 = s\<lparr>is_phase := (is_phase s)(p := Blocked (is_now s))\<rparr>"
  define s2 where "s2 = s1\<lparr>is_phase := (is_phase s1)(q := Blocked (is_now s))\<rparr>"
  define s3 where "s3 = s2\<lparr>is_phase := (is_phase s2)(p := Reclaiming (is_now s))\<rparr>"
  define s4 where "s4 = s3\<lparr>is_phase := (is_phase s3)(q := Reclaiming (is_now s))\<rparr>"
  define s5 where "s5 = s4\<lparr>is_table := reclaim i (fresh_record h1 v1 u1 (is_now s)) (is_table s4), is_phase := (is_phase s4)(p := Running)\<rparr>"
  define s6 where "s6 = s5\<lparr>is_table := reclaim i (fresh_record h2 v2 u2 (is_now s)) (is_table s5), is_phase := (is_phase s5)(q := Running)\<rparr>"
  have lost: "claim_insert i r (is_table s) = (False, is_table s)" for r using assms(1) by (simp add: claim_insert_def)
  have expired: "read_holder i h (is_now s) (is_table s) = HeldExpired" for h
    using assms(1,2) by (simp add: read_holder_def time_after_def)
  have same: "is_table s4 = is_table s" "is_table s3 = is_table s" "is_table s2 = is_table s" "is_table s1 = is_table s"
    "is_now s4 = is_now s" "is_now s1 = is_now s"
    by (simp_all add: s4_def s3_def s2_def s1_def)
  have ph1: "is_phase s1 q = Arriving" using assms(3,5) by (simp add: s1_def)
  have ph2: "is_phase s2 p = Blocked (is_now s)" using assms(3) by (simp add: s2_def s1_def)
  have ph3: "is_phase s3 q = Blocked (is_now s)" using assms(3) by (simp add: s3_def s2_def)
  have ph4: "is_phase s4 p = Reclaiming (is_now s)" using assms(3) by (simp add: s4_def s3_def)
  have ph5: "is_phase s5 q = Reclaiming (is_now s)" using assms(3) by (simp add: s5_def s4_def)
  have "idem_step i rq s s1"
    using step_insert [of s p rq h1 v1 u1 i False "is_table s"] assms(4) rq(1) lost by (simp add: s1_def)
  moreover have "idem_step i rq s1 s2"
    using step_insert [of s1 q rq h2 v2 u2 i False "is_table s1", OF ph1 rq(2)] lost unfolding s2_def by (simp add: same s1_def)
  moreover have "idem_step i rq s2 s3"
    using step_read [of s2 p "is_now s" rq h1 v1 u1 i, OF ph2 rq(1)] expired unfolding s3_def by (simp add: same)
  moreover have "idem_step i rq s3 s4"
    using step_read [of s3 q "is_now s" rq h2 v2 u2 i, OF ph3 rq(2)] expired unfolding s4_def by (simp add: same)
  moreover have "idem_step i rq s4 s5"
    unfolding s5_def by (rule step_reclaim [of s4 p "is_now s" rq h1 v1 u1 i, OF ph4 rq(1)])
  moreover have "idem_step i rq s5 s6"
    unfolding s6_def by (rule step_reclaim [of s5 q "is_now s" rq h2 v2 u2 i, OF ph5 rq(2)])
  ultimately have "(idem_step i rq)\<^sup>*\<^sup>* s s6" by - ((rule converse_rtranclp_into_rtranclp, assumption)+, rule rtranclp.rtrancl_refl)
  moreover have "is_phase s6 p = Running" "is_phase s6 q = Running" using assms(3) by (simp_all add: s5_def s6_def)
  ultimately show ?thesis by blast
qed

section \<open>A replay is exact\<close>

text \<open>The requests of others, one after the other, and the sweep, over the table and the application.\<close>

inductive served_after :: "time \<Rightarrow> 'h idem_world \<Rightarrow> time \<Rightarrow> 'h idem_world \<Rightarrow> bool" where
  served_now: "served_after t w t w"
| served_request: "served_after t w u w1 \<Longrightarrow> u \<le> now \<Longrightarrow> idem_wrap faults c r raw now h w1 = (a, w2) \<Longrightarrow> served_after t w now w2"
| served_sweep: "served_after t w u w1 \<Longrightarrow> u \<le> now \<Longrightarrow> served_after t w now (w1\<lparr>iw_records := idem_sweep now chosen (iw_records w1)\<rparr>)"

definition answered :: "idem_id \<Rightarrow> time \<Rightarrow> string \<Rightarrow> nat \<times> string \<Rightarrow> idem_table \<Rightarrow> bool" where
  "answered i until hash x tbl \<longleftrightarrow> (\<exists>rec. tbl i = Some rec \<and> ir_expires rec = until \<and> ir_hash rec = hash \<and> ir_answer rec = Some x)"

lemma begin_keeps_answer:
  assumes "idem_begin org client key verb path body now tbl = Inr (x, tbl')" "answered i until hash y tbl" "now < until"
  shows "answered i until hash y tbl' \<and> (i = (org, client, key) \<longrightarrow> x \<noteq> None)"
  using assms
  by (auto simp: idem_begin_def bindE_def claim_insert_def read_holder_def reclaim_def answered_def time_after_def Let_def
      split: sum.splits option.splits if_splits prod.splits held.splits)

lemma begin_claim_keeps_answer:
  assumes "begin_claim faults c r body now tbl = (res, tbl')" "answered i until hash y tbl" "now < until"
  shows "answered i until hash y tbl' \<and> (i = (cl_org c, cl_client c, mq_key r) \<longrightarrow> res \<noteq> Inr None)"
proof -
  let ?b = "\<lambda>org. idem_begin org (cl_client c) (mq_key r) (mq_method r) (mq_path r) body now"
  obtain res' tbl1 where t: "with_tenant (if_begin faults) (cl_org c) ?b tbl = (res', tbl1)" by fastforce
  have tbl: "tbl' = tbl1" using assms(1) t by (auto simp: begin_claim_def split: sum.splits tx_error.splits)
  show ?thesis
  proof (cases res')
    case (Inl e)
    with t with_tenant_err [of "if_begin faults" "cl_org c" ?b tbl e tbl1] have "tbl1 = tbl \<or> (\<exists>a. ?b (cl_org c) tbl = Inr (a, tbl1))" by auto
    then have "answered i until hash y tbl1" using begin_keeps_answer [OF _ assms(2,3)] assms(2) by blast
    with Inl assms(1) t tbl show ?thesis by (auto simp: begin_claim_def split: tx_error.splits)
  next
    case (Inr x)
    with t have "?b (cl_org c) tbl = Inr (x, tbl1)" by (simp add: with_tenant_ok)
    from begin_keeps_answer [OF this assms(2,3)] Inr assms(1) t tbl show ?thesis by (auto simp: begin_claim_def)
  qed
qed

lemma release_keeps_answer:
  "answered i until hash y (iw_records w) \<Longrightarrow> answered i until hash y (iw_records (release_claim faults c key w))"
  by (auto simp: release_claim_def with_tenant_def with_scope_def idem_release_def answered_def split: option.splits)

lemma complete_keeps_answer:
  assumes "answered i until hash y (iw_records w)" "i \<noteq> (cl_org c, cl_client c, key)"
  shows "answered i until hash y (iw_records (complete_claim faults c key st b w))"
proof -
  let ?f = "\<lambda>org tbl. (Inr ((), idem_complete (org, cl_client c, key) st b tbl) :: unit + unit \<times> idem_table)"
  obtain res tbl where t: "with_tenant (if_complete faults) (cl_org c) ?f (iw_records w) = (res, tbl)" by fastforce
  have "answered i until hash y tbl"
    using t assms by (auto simp: with_tenant_def with_scope_def idem_complete_def answered_def split: if_splits option.splits)
  then show ?thesis using t by (auto simp: complete_claim_def intro: release_keeps_answer split: sum.splits)
qed

lemma wrap_keeps_answer:
  assumes "idem_wrap faults c r raw now h w = (a, w')" "answered i until hash y (iw_records w)" "now < until"
  shows "answered i until hash y (iw_records w')"
proof (cases "mq_key r = [] \<or> mq_method r = ''GET'' \<or> mq_method r = ''HEAD'' \<or> cl_client c = []")
  case True
  with assms show ?thesis by (auto simp: idem_wrap_def run_handler_def split: prod.splits handler_result.splits if_splits)
next
  case False
  show ?thesis
  proof (cases "case raw of Some b \<Rightarrow> Inr b | None \<Rightarrow> read_bounded r")
    case (Inl f)
    with assms False show ?thesis by (simp add: idem_wrap_def)
  next
    case (Inr body)
    obtain res tbl where b: "begin_claim faults c r body now (iw_records w) = (res, tbl)" by fastforce
    note keep = begin_claim_keeps_answer [OF b assms(2,3)]
    show ?thesis
    proof (cases "res = Inr None")
      case True
      with keep have other: "i \<noteq> (cl_org c, cl_client c, mq_key r)" "answered i until hash y tbl" by auto
      have "run_claimed faults c (mq_key r) h (w\<lparr>iw_records := tbl\<rparr>) = (a, w')"
        using assms(1) False Inr b True by (simp add: idem_wrap_def)
      then show ?thesis using other
        by (auto simp: run_claimed_def intro: release_keeps_answer complete_keeps_answer split: prod.splits handler_result.splits if_splits)
    next
      case False
      with \<open>\<not> (mq_key r = [] \<or> _)\<close> assms(1) Inr b keep show ?thesis
        by (auto simp: idem_wrap_def split: sum.splits option.splits)
    qed
  qed
qed

lemma served_keeps_answer:
  assumes "served_after t w u w'" "answered i until hash y (iw_records w)" "u < until"
  shows "answered i until hash y (iw_records w')"
  using assms
proof (induction rule: served_after.induct)
  case (served_sweep t w u w1 now chosen)
  then show ?case by (fastforce simp: answered_def idem_sweep_def)
qed (auto intro: wrap_keeps_answer)

lemma run_claimed_stores:
  assumes "h (iw_app w) = (Wrote st ps trail, a)" "iw_records w i = Some rec" "i = (cl_org c, cl_client c, key)" "cl_org c \<noteq> []"
    and "worth_storing (recorded_status st ps) (record_writes max_stored_response ps ([], False))" "if_complete faults = TxOk"
  shows "run_claimed faults c key h w =
    (Some (sent_answer st ps),
     w\<lparr>iw_app := a, iw_records := (iw_records w)(i \<mapsto>
       rec\<lparr>ir_answer := Some (recorded_status st ps, fst (record_writes max_stored_response ps ([], False)))\<rparr>)\<rparr>)"
  using assms by (simp add: run_claimed_def complete_claim_def with_tenant_def with_scope_def idem_complete_def)

lemma record_writes_acc:
  "record_writes limit ps (b, False) = (r, False) \<Longrightarrow> r = b @ concat ps"
proof (induction ps arbitrary: b)
  case (Cons p ps)
  have stuck: "snd (record_writes limit qs (c, True))" for qs c by (induction qs arbitrary: c) auto
  show ?case
  proof (cases "length b + length p > limit")
    case True
    with Cons.prems stuck [of ps "[]"] show ?thesis by simp
  next
    case False
    with Cons.prems have "record_writes limit ps (b @ p, False) = (r, False)" by simp
    from Cons.IH [OF this] show ?thesis by simp
  qed
qed simp

definition no_faults :: idem_faults where
  "no_faults = \<lparr>if_begin = TxOk, if_complete = TxOk, if_release = TxOk\<rparr>"

text \<open>
  C28. A retry is answered, not run: when a request under a fresh key succeeded with a JSON answer of storable size, then after
  whatever other requests and sweeps, and until the key expires, the same request under the same key gets the very
  same status and bytes, and the application is not touched.
\<close>

theorem retry_gets_same_answer:
  assumes first: "idem_wrap no_faults c r (Some body) t h w = (a, w1)" "iw_records w (cl_org c, cl_client c, mq_key r) = None"
      "h (iw_app w) = (Wrote st ps trail, app)"
    and keyed: "mq_method r \<notin> {''GET'', ''HEAD''}" "cl_client c \<noteq> []" "cl_org c \<noteq> []" "validate_idem_key (mq_key r) = Inr ()"
    and storable: "worth_storing (recorded_status st ps) (record_writes max_stored_response ps ([], False))"
    and between: "served_after t w1 u w2" and retry: "u \<le> now" "now < t + idempotency_ttl"
      "mq_key r' = mq_key r" "mq_method r' = mq_method r" "mq_path r' = mq_path r"
      "idem_wrap no_faults c r' (Some body) now h' w2 = (a', w3)"
  shows "a = Some (sent_answer st ps) \<and> ma_status (sent_answer st ps) = recorded_status st ps \<and>
    ma_body (sent_answer st ps) = Bytes (concat ps) \<and>
    a' = Some (write_replay (recorded_status st ps) (concat ps)) \<and> w3 = w2"
proof -
  let ?i = "(cl_org c, cl_client c, mq_key r)"
  let ?hash = "hash_request (mq_method r) (mq_path r) body"
  let ?rec = "fresh_record ?hash (mq_method r) (mq_path r) t"
  let ?b = "fst (record_writes max_stored_response ps ([], False))"
  have key: "mq_key r \<noteq> []" using keyed(4) by (auto simp: validate_idem_key_def)
  have bytes: "?b = concat ps"
    using storable record_writes_acc [of max_stored_response ps "[]"] by (auto simp: worth_storing_def prod_eq_iff)
  have "begin_claim no_faults c r body t (iw_records w) = (Inr None, (iw_records w)(?i \<mapsto> ?rec))"
    using first(2) keyed by (simp add: begin_claim_def no_faults_def with_tenant_def with_scope_def idem_begin_def claim_insert_def Let_def)
  then have "run_claimed no_faults c (mq_key r) h (w\<lparr>iw_records := (iw_records w)(?i \<mapsto> ?rec)\<rparr>) = (a, w1)"
    using first(1) key keyed by (simp add: idem_wrap_def)
  moreover note run_claimed_stores [of h "w\<lparr>iw_records := (iw_records w)(?i \<mapsto> ?rec)\<rparr>" st ps trail app ?i ?rec c "mq_key r" no_faults]
  ultimately have "a = Some (sent_answer st ps) \<and> answered ?i (t + idempotency_ttl) ?hash (recorded_status st ps, concat ps) (iw_records w1)"
    using first(3) keyed storable bytes by (auto simp: answered_def no_faults_def fresh_record_def time_add_def)
  then have a: "a = Some (sent_answer st ps)" and "answered ?i (t + idempotency_ttl) ?hash (recorded_status st ps, concat ps) (iw_records w1)" by auto
  moreover have "u < t + idempotency_ttl" using retry by simp
  ultimately have "answered ?i (t + idempotency_ttl) ?hash (recorded_status st ps, concat ps) (iw_records w2)"
    using served_keeps_answer [OF between] by blast
  then obtain rec where rec: "iw_records w2 ?i = Some rec" "ir_expires rec = t + idempotency_ttl" "ir_hash rec = ?hash"
      "ir_answer rec = Some (recorded_status st ps, concat ps)" by (auto simp: answered_def)
  then have "begin_claim no_faults c r' body now (iw_records w2) = (Inr (Some (recorded_status st ps, concat ps)), iw_records w2)"
    using retry keyed
    by (simp add: begin_claim_def no_faults_def with_tenant_def with_scope_def idem_begin_def claim_insert_def read_holder_def
        time_after_def Let_def)
  then have "a' = Some (write_replay (recorded_status st ps) (concat ps)) \<and> w3 = w2"
    using retry(4,6) retry(3) key keyed by (simp add: idem_wrap_def)
  moreover have "(case st of Some s \<Rightarrow> s | None \<Rightarrow> 200) = recorded_status st ps"
    using storable by (auto simp: recorded_status_def worth_storing_def split: option.splits)
  ultimately show ?thesis using a by (simp add: sent_answer_def)
qed

text \<open>
  The hashed bytes tell requests apart when neither a method nor a path holds a NUL byte. A method is a token and never does. The
  path is \<open>r.URL.Path\<close>, which is percent-decoded, so that \<open>%00\<close> in the request line puts one there: that the
  path has none is a hypothesis of the lemmas below. The routes of the API take only identifiers in their paths.
\<close>

lemma append_NUL_inj:
  "z \<notin> set a \<Longrightarrow> z \<notin> set b \<Longrightarrow> a @ z # x = b @ z # y \<Longrightarrow> a = b \<and> x = y"
proof (induction a arbitrary: b)
  case Nil
  then show ?case by (cases b) auto
next
  case (Cons c a)
  then show ?case by (cases b) auto
qed

lemma request_bytes_inj:
  assumes "CHR 0x00 \<notin> set m" "CHR 0x00 \<notin> set p" "CHR 0x00 \<notin> set m'" "CHR 0x00 \<notin> set p'"
    and "request_bytes m p b = request_bytes m' p' b'"
  shows "m = m' \<and> p = p' \<and> b = b'"
proof -
  from assms(5) have "m @ CHR 0x00 # p @ CHR 0x00 # b = m' @ CHR 0x00 # p' @ CHR 0x00 # b'" by (simp add: request_bytes_def)
  from append_NUL_inj [OF assms(1,3) this] have "m = m'" "p @ CHR 0x00 # b = p' @ CHR 0x00 # b'" by auto
  with append_NUL_inj [OF assms(2,4)] show ?thesis by auto
qed

lemma hex_digit_inj: "m < 16 \<Longrightarrow> n < 16 \<Longrightarrow> hex_digit m = hex_digit n \<longleftrightarrow> m = n"
proof -
  have "distinct ''0123456789abcdef''" "length ''0123456789abcdef'' = 16" by code_simp+
  then show "m < 16 \<Longrightarrow> n < 16 \<Longrightarrow> hex_digit m = hex_digit n \<longleftrightarrow> m = n"
    unfolding hex_digit_def by (metis nth_eq_iff_index_eq)
qed

lemma byte_less: "unat (b :: byte) < 256"
  by (rule order_less_le_trans [OF unsigned_less]) simp

lemma hex_byte_inj: "hex_byte a = hex_byte b \<Longrightarrow> a = b"
proof -
  assume "hex_byte a = hex_byte b"
  then have "unat a div 16 = unat b div 16" "unat a mod 16 = unat b mod 16"
    using byte_less [of a] byte_less [of b] by (auto simp: hex_byte_def hex_digit_inj)
  then have "unat a = unat b" by (metis div_mult_mod_eq)
  then show "a = b" by (rule unsigned_word_eqI)
qed

lemma hex_encode_inj: "hex_encode as = hex_encode bs \<Longrightarrow> as = bs"
proof (induction as arbitrary: bs)
  case Nil
  then show ?case by (cases bs) (simp_all add: hex_encode_def hex_byte_def)
next
  case (Cons a as)
  then obtain b bs' where bs: "bs = b # bs'" using length_hex_encode [of "a # as"] length_hex_encode [of bs] by (cases bs) auto
  have "length (hex_byte a) = length (hex_byte b)" by (simp add: hex_byte_def)
  with Cons.prems have "hex_byte a = hex_byte b" "hex_encode as = hex_encode bs'" by (auto simp: hex_encode_def bs)
  with Cons.IH bs show ?case by (auto dest: hex_byte_inj)
qed

lemma bytes_of_inj: "bytes_of s = bytes_of t \<Longrightarrow> s = t"
proof -
  have "inj (\<lambda>c :: char. (word_of_nat (ord_of c) :: byte))"
  proof (rule injI)
    fix c d :: char assume "(word_of_nat (ord_of c) :: byte) = word_of_nat (ord_of d)"
    then have "unat (word_of_nat (ord_of c) :: byte) = unat (word_of_nat (ord_of d) :: byte)" by simp
    then show "c = d" by (simp add: unat_of_nat)
  qed
  then show "bytes_of s = bytes_of t \<Longrightarrow> s = t" by (simp add: bytes_of_def inj_map_eq_map)
qed

text \<open>
  A key is not a licence to do something else: while a key is held, a request under it with another method, path or body is
  refused as a conflict, and neither runs nor changes the record; unless SHA-256 gives these two different requests one hash.
\<close>

theorem key_reuse_refused:
  assumes held: "iw_records w (cl_org c, cl_client c, mq_key r) = Some rec" "now < ir_expires rec"
      "ir_hash rec = hash_request verb path body"
    and other: "(mq_method r, mq_path r, body') \<noteq> (verb, path, body)"
    and no_NUL: "CHR 0x00 \<notin> set (mq_method r @ mq_path r)" "CHR 0x00 \<notin> set (verb @ path)"
    and keyed: "mq_method r \<notin> {''GET'', ''HEAD''}" "cl_client c \<noteq> []" "cl_org c \<noteq> []" "validate_idem_key (mq_key r) = Inr ()"
    and run: "idem_wrap no_faults c r (Some body') now h w = (a, w')"
  shows "(\<exists>f. a = Some (write_error f) \<and> class_status (f_class f) = 409 \<and> w' = w) \<or>
    (let x = bytes_of (request_bytes (mq_method r) (mq_path r) body'); y = bytes_of (request_bytes verb path body)
     in x \<noteq> y \<and> sha256 x = sha256 y)"
proof (cases "hash_request (mq_method r) (mq_path r) body' = hash_request verb path body")
  case True
  then have "sha256 (bytes_of (request_bytes (mq_method r) (mq_path r) body')) = sha256 (bytes_of (request_bytes verb path body))"
    unfolding hash_request_def by (rule hex_encode_inj)
  moreover have "request_bytes (mq_method r) (mq_path r) body' \<noteq> request_bytes verb path body"
    using request_bytes_inj [of "mq_method r" "mq_path r" verb path body' body] no_NUL other by auto
  ultimately show ?thesis by (auto simp: Let_def dest: bytes_of_inj)
next
  case False
  have "mq_key r \<noteq> []" using keyed(4) by (auto simp: validate_idem_key_def)
  with False held keyed run show ?thesis
    by (auto simp: idem_wrap_def begin_claim_def no_faults_def with_tenant_def with_scope_def idem_begin_def claim_insert_def
        read_holder_def time_after_def Let_def mk_fault_def)
qed

section \<open>Witnesses\<close>

definition demo_record :: idem_record where "demo_record = fresh_record (hash_request ''POST'' ''/v1/x'' ''a'') ''POST'' ''/v1/x'' 0"

definition demo_caller :: caller where
  "demo_caller = \<lparr>cl_user = ''u'', cl_client = ''c'', cl_org = ''o'', cl_session = ''s'', cl_grants = []\<rparr>"

definition demo_post :: mg_request where
  "demo_post = \<lparr>mq_method = ''POST'', mq_pattern = Some ''/v1/x'', mq_path = ''/v1/x'', mq_authorization = ''Bearer t'', mq_org = [],
     mq_project = [], mq_grant = [], mq_key = ''k'', mq_body = ''a'', mq_broken = False\<rparr>"

lemma demo_key [simp]: "validate_idem_key ''k'' = Inr ()"
  by code_simp

lemmas demo_simps = demo_caller_def demo_post_def demo_record_def

text \<open>Two requests under one key, the first of which stores its answer.\<close>

lemma idempotent_one_runner_witness:
  "\<exists>s s'. (idem_step (''o'', ''c'', ''k'') (\<lambda>_. (''h'', ''POST'', ''/v1/x'')))\<^sup>*\<^sup>* s s' \<and> is_phase s 0 = Running \<and> is_phase s 1 \<noteq> Running \<and>
    (\<exists>rec. is_table s' (''o'', ''c'', ''k'') = Some rec \<and> ir_answer rec = Some (200, ''{}'')) \<and> is_phase s' 1 \<noteq> Running"
proof -
  let ?i = "(''o'', ''c'', ''k'')" and ?rq = "\<lambda>_ :: nat. (''h'', ''POST'', ''/v1/x'')"
  define s0 where "s0 = \<lparr>is_now = 0, is_table = Map.empty, is_phase = (\<lambda>_. Arriving)\<rparr>"
  let ?r = "fresh_record ''h'' ''POST'' ''/v1/x'' 0"
  define s1 where "s1 = s0\<lparr>is_table := [?i \<mapsto> ?r], is_phase := (\<lambda>_. Arriving)(0 := Running)\<rparr>"
  define s2 where "s2 = s1\<lparr>is_table := idem_complete ?i 200 ''{}'' (is_table s1), is_phase := (is_phase s1)(0 := Ended)\<rparr>"
  have "claim_insert ?i ?r (is_table s0) = (True, [?i \<mapsto> ?r])" by (simp add: s0_def claim_insert_def)
  then have s01: "idem_step ?i ?rq s0 s1"
    using step_insert [of s0 0 ?rq "''h''" "''POST''" "''/v1/x''" ?i True "[?i \<mapsto> ?r]"] by (simp add: s0_def s1_def)
  have s12: "idem_step ?i ?rq s1 s2" unfolding s2_def by (rule step_store) (simp add: s1_def)
  have start: "all_arriving ?i s0" by (simp add: all_arriving_def s0_def)
  have ran: "is_phase s1 0 = Running" by (simp add: s1_def)
  have stored: "is_table s2 ?i = Some (?r\<lparr>ir_answer := Some (200, ''{}'')\<rparr>)" by (simp add: s2_def s1_def idem_complete_def)
  have "is_now s2 < is_now s0 + idempotency_ttl" by (simp add: s2_def s1_def s0_def idempotency_ttl_def hour_def)
  note once = idempotent_one_runner [OF start r_into_rtranclp [of "idem_step ?i ?rq", OF s01] r_into_rtranclp [of "idem_step ?i ?rq", OF s12] this, of 0 1]
  then have "is_phase s1 1 \<noteq> Running" using ran by (metis zero_neq_one)
  moreover have "(idem_step ?i ?rq)\<^sup>*\<^sup>* s1 s2" using s12 by (rule r_into_rtranclp)
  moreover have "is_phase s2 1 \<noteq> Running" by (simp add: s2_def s1_def)
  ultimately show ?thesis using ran stored by (intro exI [of _ s1] exI [of _ s2]) simp
qed

lemma expired_key_runs_twice_witness:
  "\<exists>s'. (idem_step (''o'', ''c'', ''k'') (\<lambda>_. (''h'', ''POST'', ''/v1/x'')))\<^sup>*\<^sup>*
     \<lparr>is_now = 24 * hour, is_table = [(''o'', ''c'', ''k'') \<mapsto> fresh_record ''h'' ''POST'' ''/v1/x'' 0], is_phase = (\<lambda>_. Arriving)\<rparr> s' \<and>
     is_phase s' 0 = Running \<and> is_phase s' 1 = Running"
  by (rule expired_key_runs_twice [where rec = "fresh_record ''h'' ''POST'' ''/v1/x'' 0"])
    (simp_all add: fresh_record_def idempotency_ttl_def time_add_def)

lemma retry_gets_same_answer_witness:
  "\<exists>w1. idem_wrap no_faults demo_caller demo_post (Some ''a'') 0 (\<lambda>n. (Wrote (Some 201) [''{'', ''}''] True, Suc n)) \<lparr>iw_records = Map.empty, iw_app = 0\<rparr> =
      (Some (sent_answer (Some 201) [''{'', ''}'']), w1) \<and> iw_app w1 = 1 \<and>
    idem_wrap no_faults demo_caller demo_post (Some ''a'') second (\<lambda>n. (Wrote (Some 201) [''{'', ''}''] True, Suc n)) w1 =
      (Some (write_replay 201 ''{}''), w1)"
proof -
  let ?h = "\<lambda>n :: nat. (Wrote (Some 201) [''{'', ''}''] True, Suc n)" and ?w = "\<lparr>iw_records = Map.empty, iw_app = 0 :: nat\<rparr>"
  obtain a w1 where first: "idem_wrap no_faults demo_caller demo_post (Some ''a'') 0 ?h ?w = (a, w1)" by (rule prod.exhaust)
  obtain a' w3 where again: "idem_wrap no_faults demo_caller demo_post (Some ''a'') second ?h w1 = (a', w3)" by (rule prod.exhaust)
  have body: "record_writes max_stored_response [''{'', ''}''] ([], False) = (''{}'', False)" by (simp add: max_stored_response_def)
  have ok: "worth_storing (recorded_status (Some 201) [''{'', ''}'']) (record_writes max_stored_response [''{'', ''}''] ([], False))"
    unfolding body by code_simp
  have app: "iw_app w1 = 1"
  proof -
    let ?w1 = "?w\<lparr>iw_records := [(''o'', ''c'', ''k'') \<mapsto> demo_record]\<rparr>"
    have "begin_claim no_faults demo_caller demo_post ''a'' 0 Map.empty = (Inr None, [(''o'', ''c'', ''k'') \<mapsto> demo_record])"
      by (simp add: begin_claim_def no_faults_def with_tenant_def with_scope_def idem_begin_def claim_insert_def Let_def demo_simps)
    then have "run_claimed no_faults demo_caller ''k'' ?h ?w1 = (a, w1)"
      using first by (simp add: idem_wrap_def demo_post_def demo_caller_def)
    moreover have "run_claimed no_faults demo_caller ''k'' ?h ?w1 =
      (Some (sent_answer (Some 201) [''{'', ''}'']), ?w1\<lparr>iw_app := 1, iw_records := (iw_records ?w1)((''o'', ''c'', ''k'') \<mapsto>
         demo_record\<lparr>ir_answer := Some (recorded_status (Some 201) [''{'', ''}''], fst (record_writes max_stored_response [''{'', ''}''] ([], False)))\<rparr>)\<rparr>)"
      by (rule run_claimed_stores [OF _ _ _ _ ok]) (simp_all add: no_faults_def demo_caller_def)
    ultimately show ?thesis by (metis (no_types, lifting) prod.inject idem_world.select_convs(2) idem_world.update_convs(1,2))
  qed
  have keyed: "mq_method demo_post \<notin> {''GET'', ''HEAD''}" "cl_client demo_caller \<noteq> []" "cl_org demo_caller \<noteq> []"
    "validate_idem_key (mq_key demo_post) = Inr ()" by (simp_all add: demo_simps)
  have "(0 :: time) \<le> second" "second < 0 + idempotency_ttl" by (simp_all add: second_def idempotency_ttl_def hour_def)
  note same = retry_gets_same_answer [OF first _ _ keyed ok served_now this refl refl refl again]
  have "recorded_status (Some 201) [''{'', ''}''] = 201" by (simp add: recorded_status_def)
  moreover have "concat [''{'', ''}''] = ''{}''" by simp
  ultimately have "a = Some (sent_answer (Some 201) [''{'', ''}'']) \<and> a' = Some (write_replay 201 ''{}'') \<and> w3 = w1"
    using same by (simp only:) simp
  with first again app show ?thesis by (intro exI [of _ w1]) (simp only: simp_thms)
qed

lemma key_reuse_refused_witness:
  "(\<exists>f. fst (idem_wrap no_faults demo_caller demo_post (Some ''b'') second (\<lambda>n :: nat. (Panicked, n))
       \<lparr>iw_records = [(''o'', ''c'', ''k'') \<mapsto> demo_record], iw_app = 0\<rparr>) = Some (write_error f)) \<or>
   (let x = bytes_of (request_bytes ''POST'' ''/v1/x'' ''b''); y = bytes_of (request_bytes ''POST'' ''/v1/x'' ''a'') in x \<noteq> y \<and> sha256 x = sha256 y)"
proof -
  let ?w = "\<lparr>iw_records = [(''o'', ''c'', ''k'') \<mapsto> demo_record], iw_app = 0 :: nat\<rparr>" and ?h = "\<lambda>n :: nat. (Panicked, n)"
  obtain a w' where run: "idem_wrap no_faults demo_caller demo_post (Some ''b'') second ?h ?w = (a, w')" by (rule prod.exhaust)
  have held: "iw_records ?w (cl_org demo_caller, cl_client demo_caller, mq_key demo_post) = Some demo_record" "second < ir_expires demo_record"
    "ir_hash demo_record = hash_request ''POST'' ''/v1/x'' ''a''"
    by (simp_all add: demo_simps fresh_record_def time_add_def idempotency_ttl_def duration_defs)
  have rest: "(mq_method demo_post, mq_path demo_post, ''b'') \<noteq> (''POST'', ''/v1/x'', ''a'')"
    "CHR 0x00 \<notin> set (mq_method demo_post @ mq_path demo_post)" "CHR 0x00 \<notin> set (''POST'' @ ''/v1/x'')"
    "mq_method demo_post \<notin> {''GET'', ''HEAD''}" "cl_client demo_caller \<noteq> []" "cl_org demo_caller \<noteq> []"
    "validate_idem_key (mq_key demo_post) = Inr ()" by (simp_all add: demo_simps)
  from key_reuse_refused [OF held rest run] run show ?thesis by (auto simp: demo_post_def Let_def)
qed

end
