(* ===== verification/ManagementProps.thy ===== *)
theory ManagementProps
  imports IdempotencyProps
begin

text \<open>
  What the chain as a whole promises: nothing reaches a handler unless the caller was authenticated, the route
  declares a permission the caller has, and the quota admits the request; and a token of the token endpoint is
  accepted for what it says while it and its session live. The table of routes is checked as data.
\<close>

section \<open>The table of routes\<close>

text \<open>What a route must look like for its requirement to mean what it says.\<close>

fun route_sound :: "string \<times> requirement \<Rightarrow> bool" where
  "route_sound (k, req) =
     (case rq_scope req of
        ScopeUnset \<Rightarrow> False
      | ScopeSelf \<Rightarrow> rq_role req = Member \<and> has_infix '' /v1/me'' k
      | ScopeInstance \<Rightarrow> rq_role req = InstanceOwner
      | ScopeProject \<Rightarrow> rq_role req = ProjectOwner \<and> has_infix ''{org_id}/projects/{project_id}'' k
      | ScopeProjectGrant \<Rightarrow> rq_role req = ProjectGrantOwner \<and> has_infix ''{org_id}/project-grants/{grant_id}'' k
      | ScopeOrganization \<Rightarrow> if has_infix ''{org_id}'' k then rq_role req \<in> {OrgAdmin, OrgOwner} else k = ''POST /v1/authz/check'')"

lemma routes_sound: "list_all route_sound policy"
  by code_simp

lemma requirement_for_policy:
  "requirement_for verb pattern = no_requirement \<or> (\<exists>k. (k, requirement_for verb pattern) \<in> set policy)"
  by (auto simp: requirement_for_def dest: map_of_SomeD split: option.split)

section \<open>The chain\<close>

lemma require_passes:
  "require env req r now = Inr sc \<Longrightarrow>
     mg_authenticate env r now = Inr (sc_caller sc) \<and> may (sc_caller sc) req (request_target env r req (sc_caller sc)) \<and>
     sc_org sc = tg_org (request_target env r req (sc_caller sc))"
  by (auto simp: require_def Let_def intro: authorize_sound split: sum.splits if_splits)

lemma mg_authenticate_ok:
  assumes "mg_authenticate env r now = Inr c"
  shows "\<exists>presented cl p. bearer (mq_authorization r) = Some presented \<and> me_verify env presented = Some (Some cl) \<and>
    decode_access cl = Some p \<and> payload_usable env p now \<and> cl_user c = ap_sub p \<and> cl_org c = ap_org p \<and> cl_client c = ap_client p \<and>
    me_grants env (ap_sub p) = Some (cl_grants c) \<and>
    (ap_sid p \<noteq> [] \<longrightarrow> (case me_live env of None \<Rightarrow> True | Some live \<Rightarrow> live (ap_sid p) now))"
  using assms
  by (auto simp: mg_authenticate_def split: option.splits if_splits)

text \<open>
  C25. Nothing gets past the chain unseen: when a request changed the application, then its bearer token verified, was of this
  issuer and audience, unexpired and backed by a live session; its route is one of the table, whose requirement the
  permission model grants to that caller for that target; and the quota of the client admitted it.
\<close>

theorem management_guarded:
  assumes "guarded env faults ops qs h r now st w = (ans, st', w')" "iw_app w' \<noteq> iw_app w"
  shows "\<exists>c p cl presented req k. (k, req) \<in> set policy \<and> req = requirement_for (mq_method r) (mq_pattern r) \<and>
    bearer (mq_authorization r) = Some presented \<and> me_verify env presented = Some (Some cl) \<and> decode_access cl = Some p \<and>
    payload_usable env p now \<and> (ap_sid p \<noteq> [] \<longrightarrow> (case me_live env of None \<Rightarrow> True | Some live \<Rightarrow> live (ap_sid p) now)) \<and>
    cl_user c = ap_sub p \<and> cl_org c = ap_org p \<and> may c req (request_target env r req c) \<and>
    v_allowed (fst (quota_consume ops (fst (quota_of qs r)) (snd (quota_of qs r)) now (cl_client c) now st))"
proof -
  from assms obtain sc where sc: "guard env r now = Inr sc" by (auto simp: guarded_def split: sum.splits)
  let ?req = "requirement_for (mq_method r) (mq_pattern r)"
  note ok = require_passes [OF sc [unfolded guard_def]]
  then have "declared ?req" by (auto elim: mayE)
  then have "?req \<noteq> no_requirement" by (auto simp: declared_def no_requirement_def)
  with requirement_for_policy obtain k where k: "(k, ?req) \<in> set policy" by blast
  from mg_authenticate_ok ok obtain presented cl p where p: "bearer (mq_authorization r) = Some presented"
    "me_verify env presented = Some (Some cl)" "decode_access cl = Some p" "payload_usable env p now"
    "cl_user (sc_caller sc) = ap_sub p" "cl_org (sc_caller sc) = ap_org p"
    "ap_sid p \<noteq> [] \<longrightarrow> (case me_live env of None \<Rightarrow> True | Some live \<Rightarrow> live (ap_sid p) now)" by blast
  have "v_allowed (fst (quota_consume ops (fst (quota_of qs r)) (snd (quota_of qs r)) now (cl_client (sc_caller sc)) now st))"
    using assms sc by (auto simp: guarded_def rate_limit_def split: prod.splits sum.splits if_splits)
  with k p ok show ?thesis by blast
qed

section \<open>From the token endpoint to the management API\<close>

lemma manager_role_claim_neq [simp]:
  "manager_role_claim \<noteq> ''iss''" "manager_role_claim \<noteq> ''sub''" "manager_role_claim \<noteq> ''aud''" "manager_role_claim \<noteq> ''iat''"
  "manager_role_claim \<noteq> ''exp''" "manager_role_claim \<noteq> ''client_id''" "manager_role_claim \<noteq> ''org_id''"
  "manager_role_claim \<noteq> ''sid''"
  by (simp_all add: manager_role_claim_def)

lemma validate_subject_ok: "validate_subject s = Inr u \<Longrightarrow> s_user s \<noteq> [] \<and> s_org s \<noteq> []"
  by (simp add: validate_subject_def split: if_splits)

lemma claims_field:
  assumes "access_token_claims s t = Inr c"
  shows "c ''iss'' = Some (JStr (s_issuer s))" "c ''sub'' = Some (JStr (s_user s))" "c ''aud'' = Some (JStr (s_audience s))"
    "c ''exp'' = Some (JInt (unix_sec (time_add t access_token_lifetime)))" "c ''iat'' = Some (JInt (unix_sec t))"
    "c ''client_id'' = Some (JStr (s_client s))" "c ''org_id'' = Some (JStr (s_org s))"
    "c ''sid'' = (if s_session s = [] then None else Some (JStr (s_session s)))"
    "s_user s \<noteq> [] \<and> s_org s \<noteq> []"
proof -
  obtain u where v: "validate_subject s = Inr u" using assms by (cases "validate_subject s") (auto simp: access_token_claims_def)
  note c = assms [unfolded access_token_claims_def v bindE_simps Let_def, simplified sum.inject, symmetric]
  show "c ''iss'' = Some (JStr (s_issuer s))" "c ''sub'' = Some (JStr (s_user s))" "c ''aud'' = Some (JStr (s_audience s))"
    "c ''exp'' = Some (JInt (unix_sec (time_add t access_token_lifetime)))" "c ''iat'' = Some (JInt (unix_sec t))"
    "c ''client_id'' = Some (JStr (s_client s))" "c ''org_id'' = Some (JStr (s_org s))"
    "c ''sid'' = (if s_session s = [] then None else Some (JStr (s_session s)))"
    by (simp_all add: c role_claim_namespace_neq [symmetric] manager_role_claim_neq [symmetric])
  show "s_user s \<noteq> [] \<and> s_org s \<noteq> []" using v by (rule validate_subject_ok)
qed

text \<open>
  C26. The two ends agree: the payload the token endpoint builds for a user is accepted by the management API, as that user, client,
  organization and session, from the moment it is issued until the second of its expiry, as long as the session lives
  and the manager roles can be read.
\<close>

theorem issued_token_authenticates:
  assumes issued: "access_token_claims s t = Inr c" "s_issuer s = me_issuer env" "s_audience s = me_issuer env"
    and time: "unix_sec t \<le> unix_sec (time_add now clock_skew)" "unix_sec now < unix_sec (time_add t access_token_lifetime)"
      "0 < unix_sec (time_add t access_token_lifetime)" "unix_sec (time_add t access_token_lifetime) \<le> max_int64" "min_int64 \<le> unix_sec t"
    and presented: "bearer (mq_authorization r) = Some token" "me_verify env token = Some (Some c)"
    and live: "s_session s \<noteq> [] \<longrightarrow> (case me_live env of None \<Rightarrow> True | Some live \<Rightarrow> live (s_session s) now)"
    and roles: "me_grants env (s_user s) = Some gs"
  shows "mg_authenticate env r now =
    Inr \<lparr>cl_user = s_user s, cl_client = s_client s, cl_org = s_org s, cl_session = s_session s, cl_grants = gs\<rparr>"
proof -
  let ?p = "\<lparr>ap_iss = s_issuer s, ap_sub = s_user s, ap_aud = s_audience s, ap_exp = unix_sec (time_add t access_token_lifetime),
    ap_iat = unix_sec t, ap_client = s_client s, ap_org = s_org s, ap_sid = s_session s\<rparr>"
  have "unix_sec t \<le> unix_sec (time_add t access_token_lifetime)"
    by (simp add: unix_sec_def time_add_def lifetime_defs zdiv_mono1)
  with time have range: "unix_sec t \<le> max_int64" "min_int64 \<le> unix_sec (time_add t access_token_lifetime)"
    by (simp_all add: min_int64_def)
  have "decode_access c = Some ?p"
    using claims_field [OF issued(1)] time range by (simp add: decode_access_def field_text_def field_int_def)
  moreover have "payload_usable env ?p now" using issued time claims_field(9) [OF issued(1)] by (simp add: payload_usable_def)
  ultimately show ?thesis using presented live roles by (auto simp: mg_authenticate_def split: option.splits)
qed

section \<open>Witnesses\<close>

definition demo_subject :: subject where
  "demo_subject = \<lparr>s_issuer = ''i'', s_audience = ''i'', s_client = ''c'', s_project = [], s_org = ''o'', s_user = ''u'',
     s_session = ''s'', s_auth_methods = [''pwd''], s_auth_time = 0, s_nonce = [], s_scope = [''openid''], s_role_keys = [],
     s_role_org = [], s_manager_roles = []\<rparr>"

definition demo_env :: "claims \<Rightarrow> mg_env" where
  "demo_env c = \<lparr>me_issuer = ''i'', me_verify = (\<lambda>t. if t = ''t'' then Some (Some c) else None),
     me_grants = (\<lambda>_. Some [\<lparr>mg_role = InstanceOwner, mg_scope = []\<rparr>]), me_live = Some (\<lambda>s now. s = ''s''), me_uuid = (\<lambda>_. None)\<rparr>"

definition demo_create :: mg_request where
  "demo_create = \<lparr>mq_method = ''POST'', mq_pattern = Some ''/v1/organizations'', mq_path = ''/v1/organizations'',
     mq_authorization = ''Bearer t'', mq_org = [], mq_project = [], mq_grant = [], mq_key = [], mq_body = ''a'', mq_broken = False\<rparr>"

lemma demo_bearer: "bearer ''Bearer t'' = Some ''t''"
  by code_simp

lemma demo_payload: "\<exists>c. access_token_claims demo_subject 0 = Inr c"
  by (simp add: access_token_claims_def validate_subject_def demo_subject_def Let_def)

definition demo_owner :: caller where
  "demo_owner = \<lparr>cl_user = ''u'', cl_client = ''c'', cl_org = ''o'', cl_session = ''s'', cl_grants = [\<lparr>mg_role = InstanceOwner, mg_scope = []\<rparr>]\<rparr>"

lemma issued_token_authenticates_witness:
  "\<exists>c. access_token_claims demo_subject 0 = Inr c \<and> mg_authenticate (demo_env c) demo_create (9 * minute) = Inr demo_owner"
proof -
  obtain c where c: "access_token_claims demo_subject 0 = Inr c" using demo_payload by blast
  have t: "unix_sec 0 \<le> unix_sec (time_add (9 * minute) clock_skew)" "unix_sec (9 * minute) < unix_sec (time_add 0 access_token_lifetime)"
    "0 < unix_sec (time_add 0 access_token_lifetime)" "unix_sec (time_add 0 access_token_lifetime) \<le> max_int64" "min_int64 \<le> unix_sec 0"
    by (simp_all add: unix_sec_def time_add_def clock_skew_def lifetime_defs max_int64_def min_int64_def)
  have "mg_authenticate (demo_env c) demo_create (9 * minute) = Inr \<lparr>cl_user = s_user demo_subject, cl_client = s_client demo_subject,
      cl_org = s_org demo_subject, cl_session = s_session demo_subject, cl_grants = [\<lparr>mg_role = InstanceOwner, mg_scope = []\<rparr>]\<rparr>"
    by (rule issued_token_authenticates [OF c _ _ t, where token = "''t''"])
      (simp_all add: demo_subject_def demo_env_def demo_create_def demo_bearer)
  with c show ?thesis by (auto simp: demo_subject_def demo_owner_def)
qed

lemma demo_decoded:
  assumes "access_token_claims demo_subject 0 = Inr c"
  shows "decode_access c = Some \<lparr>ap_iss = ''i'', ap_sub = ''u'', ap_aud = ''i'', ap_exp = 600, ap_iat = 0, ap_client = ''c'', ap_org = ''o'', ap_sid = ''s''\<rparr>"
  using claims_field [OF assms]
  by (simp add: decode_access_def field_text_def field_int_def demo_subject_def unix_sec_def time_add_def lifetime_defs max_int64_def min_int64_def)

lemma demo_authenticates:
  "access_token_claims demo_subject 0 = Inr c \<Longrightarrow> mg_authenticate (demo_env c) demo_create 0 = Inr demo_owner"
  by (simp add: demo_decoded mg_authenticate_def demo_env_def demo_create_def demo_bearer payload_usable_def unix_sec_def time_add_def
      clock_skew_def lifetime_defs demo_owner_def)

text \<open>A request that creates an organization, by an owner of the instance.\<close>

lemma management_guarded_witness:
  "\<exists>cl c req k. access_token_claims demo_subject 0 = Inr cl \<and> (k, req) \<in> set policy \<and> cl_user c = ''u'' \<and>
     may c req (request_target (demo_env cl) demo_create req c)"
proof -
  obtain cl where cl: "access_token_claims demo_subject 0 = Inr cl" using demo_payload by blast
  define h where "h = (\<lambda>(_ :: mg_scope) n :: nat. (Wrote (Some 201) [''x''] True, Suc n))"
  define w where "w = \<lparr>iw_records = Map.empty, iw_app = (0 :: nat, 0 :: nat)\<rparr>"
  define qs where "qs = \<lparr>qb_counter = (per_client, []), qb_hot = None\<rparr>"
  have "requirement_for (mq_method demo_create) (mq_pattern demo_create) = \<lparr>rq_role = InstanceOwner, rq_scope = ScopeInstance\<rparr>"
    by code_simp
  moreover have "authorize demo_owner \<lparr>rq_role = InstanceOwner, rq_scope = ScopeInstance\<rparr> \<lparr>tg_org = [], tg_project = [], tg_grant = []\<rparr> = permitted False"
    by code_simp
  moreover have "request_target (demo_env cl) demo_create \<lparr>rq_role = InstanceOwner, rq_scope = ScopeInstance\<rparr> demo_owner =
      \<lparr>tg_org = [], tg_project = [], tg_grant = []\<rparr>"
    by (simp add: request_target_def normalize_id_def demo_create_def)
  ultimately have "guard (demo_env cl) demo_create 0 = Inr \<lparr>sc_caller = demo_owner, sc_org = [], sc_instance = False\<rparr>"
    by (simp add: guard_def require_def demo_authenticates [OF cl] permitted_def)
  moreover have "idem_wrap no_faults demo_owner demo_create (Some ''a'') 0 (audit_guard ''POST'' (h sc)) w =
      (Some (sent_answer (Some 201) [''x'']), w\<lparr>iw_app := (1, 0)\<rparr>)" for sc
    by (simp add: idem_wrap_def run_handler_def audit_guard_def h_def w_def demo_create_def)
  ultimately obtain ans st' w' where run: "guarded (demo_env cl) no_faults (None :: unit counter_ops option) qs h demo_create 0 () w = (ans, st', w')"
      "iw_app w' = (1, 0)"
    by (simp add: guarded_def rate_limit_def quota_of_def quota_consume_def consume_key_def unlimited_def Let_def qs_def buffer_body_def
        max_request_body_def demo_create_def)
  then have "iw_app w' \<noteq> iw_app w" by (simp add: w_def)
  from management_guarded [OF run(1) this] obtain c p req k presented where
    got: "(k, req) \<in> set policy" "me_verify (demo_env cl) presented = Some (Some cl)" "decode_access cl = Some p" "cl_user c = ap_sub p"
      "may c req (request_target (demo_env cl) demo_create req c)" by (auto simp: demo_env_def split: if_splits)
  moreover have "cl_user c = ''u''" using got(4) got(3) [unfolded demo_decoded [OF cl]] by auto
  ultimately show ?thesis using cl by blast
qed

end
