(* ===== verification/Roles.thy ===== *)
theory Roles
  imports ManagementChain UrlQuery
begin

text \<open>
  Project roles (\<open>internal/role\<close>): what a role may be called and carry (\<open>role.go\<close>, \<open>pattern.gen.go\<close>), the
  tables the permission system keeps, and the store of roles (\<open>store.go\<close>). The row-level policies and the triggers
  of the migrations are part of each statement; what a statement refuses is a text, which the store classifies.
\<close>

section \<open>What a role may be called and carry\<close>

definition key_char :: "char \<Rightarrow> bool" where
  "key_char c \<longleftrightarrow> is_lower c \<or> is_digit c \<or> c = CHR ''_''"

definition max_role_key_length :: nat where "max_role_key_length = 63"
definition max_permission_key_length :: nat where "max_permission_key_length = 128"
definition max_display_name_length :: nat where "max_display_name_length = 128"
definition max_permission_keys :: nat where "max_permission_keys = 256"

text \<open>\<open>^[a-z0-9][a-z0-9_-]{0,62}$\<close>\<close>

definition role_key_shape :: "string \<Rightarrow> bool" where
  "role_key_shape s =
     (case s of [] \<Rightarrow> False
      | c # r \<Rightarrow> (is_lower c \<or> is_digit c) \<and> length r \<le> 62 \<and> list_all (\<lambda>c. key_char c \<or> c = CHR ''-'') r)"

text \<open>\<open>^[a-z][a-z0-9_]*(\.[a-z][a-z0-9_]*)*:[a-z][a-z0-9_]*$\<close>\<close>

definition key_word :: "string \<Rightarrow> bool" where
  "key_word s = (case s of [] \<Rightarrow> False | c # r \<Rightarrow> is_lower c \<and> list_all key_char r)"

definition permission_key_shape :: "string \<Rightarrow> bool" where
  "permission_key_shape s =
     (case split_on (CHR '':'') s of
        [r, a] \<Rightarrow> list_all key_word (split_on (CHR ''.'') r) \<and> key_word a
      | _ \<Rightarrow> False)"

definition reserved_keys :: "string list" where
  "reserved_keys = [''instance_owner'', ''org_owner'', ''org_admin'', ''project_owner'', ''project_grant_owner'']"

datatype permission_error = PermissionEmpty | PermissionTooLong | PermissionWildcard | PermissionMalformed

datatype role_rule =
    KeyRequired | KeyTooLong | KeyMalformed | KeyReserved | NameRequired | NameTooLong
  | TooManyPermissions | PermissionRefused permission_error | PermissionRepeated nat

text \<open>A field error names the field and the rule it broke.\<close>

type_synonym field_error = "string \<times> role_rule"

definition validate_key :: "string \<Rightarrow> field_error + unit" where
  "validate_key key =
     (if key = [] then Inl (''key'', KeyRequired)
      else if length key > max_role_key_length then Inl (''key'', KeyTooLong)
      else if \<not> role_key_shape key then Inl (''key'', KeyMalformed)
      else if contains reserved_keys key then Inl (''key'', KeyReserved)
      else Inr ())"

definition validate_display_name :: "string \<Rightarrow> field_error + unit" where
  "validate_display_name name =
     (if trim_space name = [] then Inl (''display_name'', NameRequired)
      else if length (trim_space name) > max_display_name_length then Inl (''display_name'', NameTooLong)
      else Inr ())"

definition validate_permission_key :: "string \<Rightarrow> permission_error + unit" where
  "validate_permission_key key =
     (if key = [] then Inl PermissionEmpty
      else if length key > max_permission_key_length then Inl PermissionTooLong
      else if contains key (CHR ''*'') then Inl PermissionWildcard
      else if \<not> permission_key_shape key then Inl PermissionMalformed
      else Inr ())"

definition indexed_field :: "string \<Rightarrow> nat \<Rightarrow> string" where
  "indexed_field name i = name @ ''['' @ digits i @ '']''"

definition index_of :: "'a \<Rightarrow> 'a list \<Rightarrow> nat" where "index_of x xs = length (takeWhile (\<lambda>y. y \<noteq> x) xs)"

text \<open>\<open>seen\<close> holds the keys before the one looked at, in order.\<close>

fun check_permission_keys :: "string list \<Rightarrow> string list \<Rightarrow> field_error + unit" where
  "check_permission_keys seen [] = Inr ()"
| "check_permission_keys seen (k # ks) =
     (case validate_permission_key k of
        Inl e \<Rightarrow> Inl (indexed_field ''permission_keys'' (length seen), PermissionRefused e)
      | Inr _ \<Rightarrow>
          if contains seen k then Inl (indexed_field ''permission_keys'' (length seen), PermissionRepeated (index_of k seen))
          else check_permission_keys (seen @ [k]) ks)"

definition validate_permission_keys :: "string list \<Rightarrow> field_error + unit" where
  "validate_permission_keys keys =
     (if length keys > max_permission_keys then Inl (''permission_keys'', TooManyPermissions) else check_permission_keys [] keys)"

definition validate_role :: "string \<Rightarrow> string \<Rightarrow> string list \<Rightarrow> field_error + unit" where
  "validate_role key name permissions =
     bindE (validate_key key) (\<lambda>_. bindE (validate_display_name name) (\<lambda>_. validate_permission_keys permissions))"

section \<open>The tables\<close>

record role =
  ro_id :: string
  ro_project :: string
  ro_org :: string
  ro_key :: string
  ro_name :: string
  ro_permissions :: "string list"
  ro_builtin :: bool
  ro_created :: time
  ro_updated :: time

text \<open>A row of \<open>user_grants\<close>; \<open>ug_via\<close> is its \<open>project_grant_id\<close>.\<close>

record user_grant =
  ug_id :: string
  ug_user :: string
  ug_project :: string
  ug_org :: string
  ug_via :: "string option"
  ug_keys :: "string list"
  ug_created :: time
  ug_updated :: time

record project_grant =
  pg_id :: string
  pg_project :: string
  pg_granting :: string
  pg_granted :: string
  pg_keys :: "string list"
  pg_active :: bool
  pg_created :: time
  pg_revoked :: "time option"

text \<open>
  Projects and users with the organization each belongs to, the organizations that accept grants, and the
  tables the operations write. \<open>rb_owners\<close> are the rows of \<open>manager_roles\<close> for \<open>PROJECT_GRANT_OWNER\<close>.
\<close>

record rbac =
  rb_projects :: "string \<rightharpoonup> string"
  rb_users :: "string \<rightharpoonup> string"
  rb_accepting :: "string \<Rightarrow> bool"
  rb_roles :: "role list"
  rb_grants :: "user_grant list"
  rb_delegations :: "project_grant list"
  rb_owners :: "(string \<times> string \<times> time) list"
  rb_log :: "audit_event list"

section \<open>Errors\<close>

datatype rbac_error =
    FieldInvalid field_error | RequestInvalid string | Missing | RoleBuiltin | RoleInUse nat nat
  | Conflicting | UnknownRole string | KeyNotDelegated string | GrantRevoked
  | UnknownRoles "string list" | NotDelegated "string list" "string list" | DelegationRevoked
  | SelfService | AlreadyOwner | NoScope | Refused string

text \<open>The class of the fault each error is answered with (\<open>faultFrom\<close> of the three packages).\<close>

fun rbac_class :: "rbac_error \<Rightarrow> fault_class" where
  "rbac_class (FieldInvalid e) = Invalid"
| "rbac_class (RequestInvalid f) = Invalid"
| "rbac_class Missing = NotFound"
| "rbac_class RoleBuiltin = Conflict"
| "rbac_class (RoleInUse n m) = Conflict"
| "rbac_class Conflicting = Conflict"
| "rbac_class (UnknownRole k) = Invalid"
| "rbac_class (KeyNotDelegated k) = Invalid"
| "rbac_class GrantRevoked = Conflict"
| "rbac_class (UnknownRoles ks) = Invalid"
| "rbac_class (NotDelegated ks ds) = Invalid"
| "rbac_class DelegationRevoked = Conflict"
| "rbac_class SelfService = Forbidden"
| "rbac_class AlreadyOwner = Conflict"
| "rbac_class NoScope = Internal"
| "rbac_class (Refused t) = Internal"

text \<open>\<open>wrapConstraint\<close>: the text of a refusal of the database, in the order of its cases.\<close>

definition role_constraint :: "string \<Rightarrow> rbac_error" where
  "role_constraint t =
     (if has_infix ''roles_project_key_key'' t then Conflicting
      else if has_infix ''roles_permission_keys_well_formed'' t then RequestInvalid ''permission_keys''
      else if has_infix ''roles_permission_keys_bounded'' t then RequestInvalid ''permission_keys''
      else if has_infix ''roles_permission_keys_distinct'' t then RequestInvalid ''permission_keys''
      else if has_infix ''roles_key_shape'' t \<or> has_infix ''roles_key_not_blank'' t then RequestInvalid ''key''
      else if has_infix ''does not match project'' t \<or> has_infix ''not visible in this tenant'' t then Missing
      else if has_infix ''cannot be deleted'' t \<or> has_infix ''cannot be re-keyed'' t \<or> has_infix ''cannot stop being built-in'' t
        then RoleBuiltin
      else Refused t)"

definition unique_violation :: "string \<Rightarrow> string" where
  "unique_violation index = ''duplicate key value violates unique constraint '' @ [CHR 0x22] @ index @ [CHR 0x22]"

definition invisible_project :: "string \<Rightarrow> string \<Rightarrow> string" where
  "invisible_project table project = table @ '' references project '' @ project @ '' which is not visible in this tenant''"

section \<open>The store of roles\<close>

definition visible_roles :: "string \<Rightarrow> rbac \<Rightarrow> role list" where
  "visible_roles org rb = filter (\<lambda>r. ro_org r = org) (rb_roles rb)"

text \<open>Rows of one's own tenant, and the delegated rows of grants this tenant made.\<close>

definition visible_grants :: "string \<Rightarrow> rbac \<Rightarrow> user_grant list" where
  "visible_grants org rb =
     filter (\<lambda>g. ug_org g = org \<or>
       (case ug_via g of None \<Rightarrow> False | Some d \<Rightarrow> list_ex (\<lambda>p. pg_id p = d \<and> pg_granting p = org) (rb_delegations rb))) (rb_grants rb)"

definition visible_delegations :: "string \<Rightarrow> rbac \<Rightarrow> project_grant list" where
  "visible_delegations org rb = filter (\<lambda>p. pg_granting p = org \<or> pg_granted p = org) (rb_delegations rb)"

definition role_get :: "string \<Rightarrow> string \<Rightarrow> rbac \<Rightarrow> rbac_error + role" where
  "role_get org i rb = (case List.find (\<lambda>r. ro_id r = i) (visible_roles org rb) of None \<Rightarrow> Inl Missing | Some r \<Rightarrow> Inr r)"

definition role_get_by_key :: "string \<Rightarrow> string \<Rightarrow> string \<Rightarrow> rbac \<Rightarrow> rbac_error + role" where
  "role_get_by_key org project key rb =
     (case List.find (\<lambda>r. ro_project r = project \<and> ro_key r = key) (visible_roles org rb) of None \<Rightarrow> Inl Missing | Some r \<Rightarrow> Inr r)"

definition grant_counts :: "string \<Rightarrow> string \<Rightarrow> rbac \<Rightarrow> string \<Rightarrow> nat" where
  "grant_counts org project rb k =
     count_list (concat (map ug_keys (filter (\<lambda>g. ug_project g = project) (visible_grants org rb)))) k"

text \<open>The insert, with its trigger, its unique index and its primary key; the checks of the table repeat \<open>validate_role\<close>.\<close>

definition insert_role :: "string \<Rightarrow> role \<Rightarrow> rbac \<Rightarrow> string + rbac" where
  "insert_role org r rb =
     (case rb_projects rb (ro_project r) of
        None \<Rightarrow> Inl (invisible_project ''roles'' (ro_project r))
      | Some owner \<Rightarrow>
          if owner \<noteq> org then Inl (invisible_project ''roles'' (ro_project r))
          else if list_ex (\<lambda>s. ro_project s = ro_project r \<and> ro_key s = ro_key r) (rb_roles rb) then Inl (unique_violation ''roles_project_key_key'')
          else if list_ex (\<lambda>s. ro_id s = ro_id r) (rb_roles rb) then Inl (unique_violation ''roles_pkey'')
          else Inr (rb\<lparr>rb_roles := rb_roles rb @ [r]\<rparr>))"

definition role_create ::
  "string \<Rightarrow> string \<Rightarrow> string \<Rightarrow> string \<Rightarrow> string \<Rightarrow> string list \<Rightarrow> time \<Rightarrow> rbac \<Rightarrow> rbac_error + role \<times> rbac" where
  "role_create org i project key name permissions now rb =
     (case validate_role key name permissions of
        Inl e \<Rightarrow> Inl (FieldInvalid e)
      | Inr _ \<Rightarrow>
          if org = [] then Inl NoScope
          else let r = \<lparr>ro_id = i, ro_project = project, ro_org = org, ro_key = key, ro_name = trim_space name,
                 ro_permissions = permissions, ro_builtin = False, ro_created = now, ro_updated = now\<rparr> in
            (case insert_role org r rb of Inl t \<Rightarrow> Inl (role_constraint t) | Inr rb' \<Rightarrow> Inr (r, rb')))"

definition role_update :: "string \<Rightarrow> string \<Rightarrow> string \<Rightarrow> string list \<Rightarrow> time \<Rightarrow> rbac \<Rightarrow> rbac_error + role \<times> rbac" where
  "role_update org i name permissions now rb =
     (case bindE (validate_display_name name) (\<lambda>_. validate_permission_keys permissions) of
        Inl e \<Rightarrow> Inl (FieldInvalid e)
      | Inr _ \<Rightarrow>
          bindE (role_get org i rb) (\<lambda>r.
            let r' = r\<lparr>ro_name := trim_space name, ro_permissions := permissions, ro_updated := now\<rparr> in
            Inr (r', rb\<lparr>rb_roles := map (\<lambda>s. if ro_id s = i \<and> ro_org s = org then r' else s) (rb_roles rb)\<rparr>)))"

text \<open>The two counts of \<open>Delete\<close>, then the statement that deletes.\<close>

definition grants_holding :: "string \<Rightarrow> string \<Rightarrow> string \<Rightarrow> rbac \<Rightarrow> nat" where
  "grants_holding org project key rb =
     length (filter (\<lambda>g. ug_project g = project \<and> contains (ug_keys g) key) (visible_grants org rb))"

definition delegations_carrying :: "string \<Rightarrow> string \<Rightarrow> string \<Rightarrow> rbac \<Rightarrow> nat" where
  "delegations_carrying org project key rb =
     length (filter (\<lambda>p. pg_project p = project \<and> pg_active p \<and> contains (pg_keys p) key) (visible_delegations org rb))"

definition role_unreferenced :: "string \<Rightarrow> role \<Rightarrow> rbac \<Rightarrow> rbac_error + unit" where
  "role_unreferenced org r rb =
     (if ro_builtin r then Inl RoleBuiltin
      else if grants_holding org (ro_project r) (ro_key r) rb > 0 then Inl (RoleInUse (grants_holding org (ro_project r) (ro_key r) rb) 0)
      else if delegations_carrying org (ro_project r) (ro_key r) rb > 0 then Inl (RoleInUse 0 (delegations_carrying org (ro_project r) (ro_key r) rb))
      else Inr ())"

definition remove_role :: "string \<Rightarrow> string \<Rightarrow> rbac \<Rightarrow> rbac_error + unit \<times> rbac" where
  "remove_role org i rb =
     (case List.find (\<lambda>r. ro_id r = i) (visible_roles org rb) of
        None \<Rightarrow> Inl Missing
      | Some r \<Rightarrow>
          if ro_builtin r then Inl (role_constraint (''built-in role '' @ ro_key r @ '' cannot be deleted''))
          else Inr ((), rb\<lparr>rb_roles := filter (\<lambda>s. \<not> (ro_id s = i \<and> ro_org s = org)) (rb_roles rb)\<rparr>))"

definition role_delete :: "string \<Rightarrow> string \<Rightarrow> rbac \<Rightarrow> rbac_error + unit \<times> rbac" where
  "role_delete org i rb =
     bindE (role_get org i rb) (\<lambda>r. bindE (role_unreferenced org r rb) (\<lambda>_. remove_role org i rb))"

section \<open>The handlers of roles\<close>

text \<open>
  What surrounds every handler of the three packages: its transaction, the audit event in it, and the orders to
  the cache that follow a commit.
\<close>

datatype cache_order = DropGrants string string string | DropRoles string string | BumpGrant string

record rbac_env =
  re_fault :: tx_fault
  re_stored :: bool
  re_org :: string
  re_actor :: string
  re_now :: time
  re_id :: string

type_synonym 'a rbac_result = "(rbac_error + 'a) \<times> cache_order list \<times> rbac"

definition in_scope :: "rbac_env \<Rightarrow> (rbac \<Rightarrow> rbac_error + 'a \<times> rbac) \<Rightarrow> rbac \<Rightarrow> (rbac_error + 'a) \<times> rbac" where
  "in_scope env body rb =
     (if re_org env = [] then (Inl NoScope, rb)
      else case with_tenant (re_fault env) (re_org env) (\<lambda>_. body) rb of
        (Inl (InBody e), rb') \<Rightarrow> (Inl e, rb')
      | (Inl _, rb') \<Rightarrow> (Inl (Refused ''transaction''), rb')
      | (Inr a, rb') \<Rightarrow> (Inr a, rb'))"

definition record_event :: "rbac_env \<Rightarrow> string \<Rightarrow> (string \<times> payload) list \<Rightarrow> rbac \<Rightarrow> rbac_error + rbac" where
  "record_event env kind p rb =
     (case write_event (re_stored env) (re_org env)
         \<lparr>ev_org = re_org env, ev_actor = re_actor env, ev_type = kind, ev_payload = p\<rparr> (rb_log rb) of
        Inl _ \<Rightarrow> Inl (Refused ''audit'')
      | Inr log \<Rightarrow> Inr (rb\<lparr>rb_log := log\<rparr>))"

definition then_orders :: "cache_order list \<Rightarrow> (rbac_error + 'a) \<times> rbac \<Rightarrow> 'a rbac_result" where
  "then_orders orders r = (fst r, if is_ok (fst r) then orders else [], snd r)"

definition require_project :: "string \<Rightarrow> string \<Rightarrow> rbac \<Rightarrow> rbac_error + unit" where
  "require_project org project rb = (if rb_projects rb project = Some org then Inr () else Inl Missing)"

text \<open>What \<open>after\<close> has and \<open>before\<close> had not, and the other way round.\<close>

definition gained_lost :: "string list \<Rightarrow> string list \<Rightarrow> string list \<times> string list" where
  "gained_lost before after = (filter (\<lambda>k. \<not> contains before k) after, filter (\<lambda>k. \<not> contains after k) before)"

definition create_role :: "rbac_env \<Rightarrow> string \<Rightarrow> string \<Rightarrow> string \<Rightarrow> string list \<Rightarrow> rbac \<Rightarrow> role rbac_result" where
  "create_role env project key name permissions rb =
     then_orders [DropRoles (re_org env) project] (in_scope env (\<lambda>rb.
       bindE (require_project (re_org env) project rb) (\<lambda>_.
       bindE (role_create (re_org env) (re_id env) project key name permissions (re_now env) rb) (\<lambda>(r, rb1).
       bindE (record_event env ''role.created''
         [(''project_id'', Leaf (JStr (ro_project r))), (''key'', Leaf (JStr (ro_key r))), (''permission_keys'', Leaf (JStrs (ro_permissions r)))] rb1)
         (\<lambda>rb2. Inr (r, rb2))))) rb)"

definition get_role :: "rbac_env \<Rightarrow> string \<Rightarrow> string \<Rightarrow> rbac \<Rightarrow> (role \<times> nat) rbac_result" where
  "get_role env project i rb =
     then_orders [] (in_scope env (\<lambda>rb.
       bindE (require_project (re_org env) project rb) (\<lambda>_.
       bindE (role_get (re_org env) i rb) (\<lambda>r.
       if ro_project r \<noteq> project then Inl Missing
       else Inr ((r, grant_counts (re_org env) project rb (ro_key r)), rb)))) rb)"

definition update_role :: "rbac_env \<Rightarrow> string \<Rightarrow> string \<Rightarrow> string \<Rightarrow> string list \<Rightarrow> rbac \<Rightarrow> (role \<times> nat) rbac_result" where
  "update_role env project i name permissions rb =
     then_orders [DropRoles (re_org env) project] (in_scope env (\<lambda>rb.
       bindE (require_project (re_org env) project rb) (\<lambda>_.
       bindE (role_get (re_org env) i rb) (\<lambda>old.
       if ro_project old \<noteq> project then Inl Missing
       else bindE (role_update (re_org env) i name permissions (re_now env) rb) (\<lambda>(r, rb1).
         case gained_lost (ro_permissions old) (ro_permissions r) of (added, removed) \<Rightarrow>
         bindE (record_event env ''role.updated''
           [(''project_id'', Leaf (JStr (ro_project r))), (''key'', Leaf (JStr (ro_key r))),
            (''permissions_added'', Leaf (JStrs added)), (''permissions_removed'', Leaf (JStrs removed))] rb1)
           (\<lambda>rb2. Inr ((r, grant_counts (re_org env) project rb2 (ro_key r)), rb2)))))) rb)"

definition delete_role :: "rbac_env \<Rightarrow> string \<Rightarrow> string \<Rightarrow> rbac \<Rightarrow> unit rbac_result" where
  "delete_role env project i rb =
     then_orders [DropRoles (re_org env) project] (in_scope env (\<lambda>rb.
       bindE (require_project (re_org env) project rb) (\<lambda>_.
       bindE (role_get (re_org env) i rb) (\<lambda>r.
       if ro_project r \<noteq> project then Inl Missing
       else bindE (role_delete (re_org env) i rb) (\<lambda>(_, rb1).
         bindE (record_event env ''role.deleted''
           [(''project_id'', Leaf (JStr (ro_project r))), (''key'', Leaf (JStr (ro_key r))), (''permission_keys'', Leaf (JStrs (ro_permissions r)))] rb1)
           (\<lambda>rb2. Inr ((), rb2)))))) rb)"

section \<open>The shapes\<close>

lemma key_word_free: "key_word w \<Longrightarrow> CHR ''.'' \<notin> set w \<and> CHR '':'' \<notin> set w \<and> CHR ''*'' \<notin> set w"
  by (cases w) (auto simp: key_word_def key_char_def is_lower_def is_digit_def list_all_iff)

lemma join_free: "c \<noteq> d \<Longrightarrow> (\<forall>w \<in> set ws. d \<notin> set w) \<Longrightarrow> d \<notin> set (join_on c ws)"
  by (induction c ws rule: join_on.induct) auto

text \<open>The shape is the language of the regular expression: words joined by dots, a colon, a word.\<close>

lemma permission_key_shape_iff:
  "permission_key_shape s \<longleftrightarrow>
     (\<exists>ws a. ws \<noteq> [] \<and> (\<forall>w \<in> set ws. key_word w) \<and> key_word a \<and> s = join_on (CHR ''.'') ws @ CHR '':'' # a)"
proof
  assume "permission_key_shape s"
  then obtain r a where split: "split_on (CHR '':'') s = [r, a]" and words: "list_all key_word (split_on (CHR ''.'') r)" "key_word a"
    by (auto simp: permission_key_shape_def split: list.splits)
  have "s = join_on (CHR '':'') [r, a]" by (simp only: split [symmetric] join_split_on)
  with words show "\<exists>ws a. ws \<noteq> [] \<and> (\<forall>w \<in> set ws. key_word w) \<and> key_word a \<and> s = join_on (CHR ''.'') ws @ CHR '':'' # a"
    by (intro exI [of _ "split_on (CHR ''.'') r"] exI [of _ a]) (simp add: list_all_iff join_split_on)
next
  assume "\<exists>ws a. ws \<noteq> [] \<and> (\<forall>w \<in> set ws. key_word w) \<and> key_word a \<and> s = join_on (CHR ''.'') ws @ CHR '':'' # a"
  then obtain ws a where s: "ws \<noteq> []" "\<forall>w \<in> set ws. key_word w" "key_word a" "s = join_on (CHR ''.'') ws @ CHR '':'' # a" by blast
  then have "CHR '':'' \<notin> set (join_on (CHR ''.'') ws)" by (intro join_free) (auto dest: key_word_free)
  moreover have "split_on (CHR '':'') a = [a]" using s(3) by (intro split_on_id) (auto dest: key_word_free)
  moreover have "split_on (CHR ''.'') (join_on (CHR ''.'') ws) = ws" using s(1,2) by (intro split_join_on) (auto dest: key_word_free)
  ultimately show "permission_key_shape s" using s by (simp add: permission_key_shape_def split_on_append list_all_iff)
qed

lemma check_permission_keys_ok:
  "check_permission_keys seen ks = Inr () \<longleftrightarrow>
     (\<forall>k \<in> set ks. validate_permission_key k = Inr ()) \<and> distinct ks \<and> set ks \<inter> set seen = {}"
  by (induction seen ks rule: check_permission_keys.induct) (auto split: sum.splits if_splits)

lemma validate_permission_keys_ok:
  "validate_permission_keys ks = Inr () \<longleftrightarrow> length ks \<le> 256 \<and> (\<forall>k \<in> set ks. validate_permission_key k = Inr ()) \<and> distinct ks"
  by (auto simp: validate_permission_keys_def check_permission_keys_ok max_permission_keys_def)

lemma validate_role_ok:
  "validate_role key name ks = Inr () \<longleftrightarrow>
     validate_key key = Inr () \<and> validate_display_name name = Inr () \<and> validate_permission_keys ks = Inr ()"
  by (auto simp: validate_role_def bindE_Inr_iff)

section \<open>Lemmas on the store\<close>

lemma in_scope_ok:
  "in_scope env body rb = (Inr a, rb') \<longleftrightarrow> re_org env \<noteq> [] \<and> re_fault env = TxOk \<and> body rb = Inr (a, rb')"
  by (cases "re_fault env") (auto simp: in_scope_def with_tenant_def with_scope_def split: prod.splits sum.splits tx_error.splits if_splits)

lemma in_scope_state: "snd (in_scope env body rb) = rb \<or> (\<exists>a. body rb = Inr (a, snd (in_scope env body rb)))"
proof -
  have "snd (in_scope env body rb) = rb \<or> snd (in_scope env body rb) = snd (with_tenant (re_fault env) (re_org env) (\<lambda>_. body) rb)"
    by (auto simp: in_scope_def split: prod.splits sum.splits tx_error.splits)
  then show ?thesis using with_tenant_state [of "re_fault env" "re_org env" "\<lambda>_. body" rb] by metis
qed

lemma record_event_ok: "record_event env kind p rb = Inr rb' \<Longrightarrow> \<exists>log. rb' = rb\<lparr>rb_log := log\<rparr> \<and> (\<exists>e. log = rb_log rb @ [e])"
  by (auto simp: record_event_def dest!: write_event_ok split: sum.splits)

lemma visible_roles_iff [simp]: "r \<in> set (visible_roles org rb) \<longleftrightarrow> r \<in> set (rb_roles rb) \<and> ro_org r = org"
  by (auto simp: visible_roles_def)

lemma role_get_ok: "role_get org i rb = Inr r \<Longrightarrow> r \<in> set (rb_roles rb) \<and> ro_id r = i \<and> ro_org r = org"
  by (auto simp: role_get_def dest!: find_Some_in split: option.splits)

end
