(* ===== verification/Grants.thy ===== *)
theory Grants
  imports Roles "HOL-Library.Product_Lexorder"
begin

text \<open>
  Who holds which role (\<open>internal/grant\<close>, \<open>internal/projectgrant\<close>, \<open>internal/grantsql\<close>): direct grants to users of
  the organization that owns a project, project grants that delegate roles to another organization, the delegated
  grants that organization makes, and the owners it appoints. The triggers of \<open>user_grants\<close> run under the row-level
  policies of the tenant that writes.
\<close>

section \<open>The triggers of user_grants\<close>

definition no_delegation_text :: "string \<Rightarrow> string" where
  "no_delegation_text d = ''delegated grant: project grant '' @ d @ '' is not visible in this tenant''"

definition revoked_text :: "string \<Rightarrow> string" where
  "revoked_text d = ''delegated grant: project grant '' @ d @ '' is revoked''"

definition not_delegated_text :: "string \<Rightarrow> string \<Rightarrow> string" where
  "not_delegated_text k d = ''delegated grant: role key '' @ k @ '' is not delegated by project grant '' @ d"

definition unknown_role_text :: "string \<Rightarrow> string \<Rightarrow> string" where
  "unknown_role_text k project = ''role key '' @ k @ '' does not exist in project '' @ project"

definition user_is_in :: "string \<Rightarrow> string \<Rightarrow> string \<Rightarrow> rbac \<Rightarrow> bool" where
  "user_is_in tenant user org rb \<longleftrightarrow> rb_users rb user = Some org \<and> org = tenant"

definition delegation_closed :: "string \<Rightarrow> user_grant \<Rightarrow> rbac \<Rightarrow> string + unit" where
  "delegation_closed org g rb =
     (case ug_via g of
        None \<Rightarrow> Inr ()
      | Some d \<Rightarrow>
          (case List.find (\<lambda>p. pg_id p = d) (visible_delegations org rb) of
             None \<Rightarrow> Inl (no_delegation_text d)
           | Some p \<Rightarrow>
               if \<not> pg_active p then Inl (revoked_text d)
               else if pg_granted p \<noteq> ug_org g then Inl (''delegated grant: org_id '' @ ug_org g @ '' is not the organization project grant '' @ d @ '' was granted to'')
               else if pg_project p \<noteq> ug_project g then Inl (''delegated grant: project '' @ ug_project g @ '' is not the project of project grant '' @ d)
               else (case List.find (\<lambda>k. \<not> contains (pg_keys p) k) (ug_keys g) of
                  Some k \<Rightarrow> Inl (not_delegated_text k d)
                | None \<Rightarrow>
                    if \<not> user_is_in org (ug_user g) (ug_org g) rb
                    then Inl (''delegated grant: user '' @ ug_user g @ '' is not a member of organization '' @ ug_org g)
                    else Inr ())))"

definition grant_org_matches :: "string \<Rightarrow> user_grant \<Rightarrow> rbac \<Rightarrow> string + unit" where
  "grant_org_matches org g rb =
     (if ug_via g \<noteq> None then Inr ()
      else if rb_projects rb (ug_project g) \<noteq> Some org then Inl (invisible_project ''user_grants'' (ug_project g))
      else if ug_org g \<noteq> org then Inl (''user_grants org_id does not match project '' @ ug_project g)
      else Inr ())"

definition grant_roles_exist :: "string \<Rightarrow> user_grant \<Rightarrow> rbac \<Rightarrow> string + unit" where
  "grant_roles_exist org g rb =
     (if ug_via g \<noteq> None then Inr ()
      else case List.find (\<lambda>k. \<not> list_ex (\<lambda>r. ro_project r = ug_project g \<and> ro_key r = k) (visible_roles org rb)) (ug_keys g) of
        Some k \<Rightarrow> Inl (unknown_role_text k (ug_project g))
      | None \<Rightarrow> Inr ())"

text \<open>An insert: the triggers in the order of their names, the check of the row, its unique index and its foreign keys.\<close>

definition insert_grant :: "string \<Rightarrow> user_grant \<Rightarrow> rbac \<Rightarrow> string + rbac" where
  "insert_grant org g rb =
     bindE (delegation_closed org g rb) (\<lambda>_.
     bindE (grant_org_matches org g rb) (\<lambda>_.
     bindE (grant_roles_exist org g rb) (\<lambda>_.
       if ug_org g \<noteq> org then Inl ''new row violates row-level security policy for table user_grants''
       else if ug_keys g = [] then Inl ''user_grants_role_keys_not_empty''
       else if list_ex (\<lambda>h. ug_id h = ug_id g) (rb_grants rb) then Inl (unique_violation ''user_grants_pkey'')
       else if list_ex (\<lambda>h. ug_user h = ug_user g \<and> ug_project h = ug_project g) (rb_grants rb)
         then Inl (unique_violation ''user_grants_user_project_key'')
       else if rb_users rb (ug_user g) = None then Inl ''insert or update on table user_grants violates foreign key constraint''
       else Inr (rb\<lparr>rb_grants := rb_grants rb @ [g]\<rparr>))))"

text \<open>An update of the role keys of the rows of this tenant that \<open>which\<close> selects; the unique index leaves at most one.\<close>

definition update_grant_keys ::
  "string \<Rightarrow> (user_grant \<Rightarrow> bool) \<Rightarrow> string list \<Rightarrow> time \<Rightarrow> rbac \<Rightarrow> string + (user_grant option \<times> rbac)" where
  "update_grant_keys org which keys now rb =
     (case List.find (\<lambda>g. ug_org g = org \<and> which g) (rb_grants rb) of
        None \<Rightarrow> Inr (None, rb)
      | Some g \<Rightarrow>
          let g' = g\<lparr>ug_keys := keys, ug_updated := now\<rparr> in
          bindE (delegation_closed org g' rb) (\<lambda>_.
          bindE (grant_roles_exist org g' rb) (\<lambda>_.
            if keys = [] then Inl ''user_grants_role_keys_not_empty''
            else Inr (Some g', rb\<lparr>rb_grants := map (\<lambda>h. if ug_id h = ug_id g then g' else h) (rb_grants rb)\<rparr>))))"

definition delete_grant :: "string \<Rightarrow> (user_grant \<Rightarrow> bool) \<Rightarrow> rbac \<Rightarrow> user_grant option \<times> rbac" where
  "delete_grant org which rb =
     (case List.find (\<lambda>g. ug_org g = org \<and> which g) (rb_grants rb) of
        None \<Rightarrow> (None, rb)
      | Some g \<Rightarrow> (Some g, rb\<lparr>rb_grants := filter (\<lambda>h. ug_id h \<noteq> ug_id g) (rb_grants rb)\<rparr>))"

section \<open>The store of user grants\<close>

definition max_grant_role_keys :: nat where "max_grant_role_keys = 64"

fun check_repeated :: "string \<Rightarrow> string list \<Rightarrow> string list \<Rightarrow> rbac_error + unit" where
  "check_repeated field seen [] = Inr ()"
| "check_repeated field seen (k # ks) =
     (if contains seen k then Inl (RequestInvalid (indexed_field field (length seen))) else check_repeated field (seen @ [k]) ks)"

definition validate_grant_keys :: "string list \<Rightarrow> rbac_error + unit" where
  "validate_grant_keys keys =
     (if keys = [] then Inl (RequestInvalid ''role_keys'')
      else if length keys > max_grant_role_keys then Inl (RequestInvalid ''role_keys'')
      else check_repeated ''role_keys'' [] keys)"

text \<open>\<open>keyFrom\<close> and \<open>delegatedKeyFrom\<close> cut the key out of the text of the trigger.\<close>

fun after_infix :: "string \<Rightarrow> string \<Rightarrow> string option" where
  "after_infix w [] = (if w = [] then Some [] else None)"
| "after_infix w (c # s) = (if starts_with w (c # s) then Some (drop (length w) (c # s)) else after_infix w s)"

definition key_from :: "string \<Rightarrow> string \<Rightarrow> string" where
  "key_from until t =
     (case after_infix ''role key '' t of
        None \<Rightarrow> []
      | Some rest \<Rightarrow> if has_infix until rest then before_infix until rest else [])"

definition grant_constraint :: "string \<Rightarrow> rbac_error" where
  "grant_constraint t =
     (if has_infix ''does not exist in project'' t then UnknownRole (key_from '' does not exist'' t)
      else if has_infix ''is not delegated by project grant'' t then KeyNotDelegated (key_from '' is not delegated'' t)
      else if has_infix ''delegated grant: project grant'' t \<and> has_infix ''is revoked'' t then GrantRevoked
      else if has_infix ''project_grant_id cannot change'' t then Conflicting
      else if has_infix ''user_grants_user_project_key'' t then Conflicting
      else if has_infix ''user_grants_role_keys_not_empty'' t then RequestInvalid ''role_keys''
      else if has_infix ''does not match project'' t \<or> has_infix ''not visible in this tenant'' t then Missing
      else if has_infix ''violates foreign key constraint'' t then Missing
      else Refused t)"

definition grant_get :: "string \<Rightarrow> string \<Rightarrow> string \<Rightarrow> rbac \<Rightarrow> rbac_error + user_grant" where
  "grant_get org user project rb =
     (case List.find (\<lambda>g. ug_user g = user \<and> ug_project g = project) (visible_grants org rb) of None \<Rightarrow> Inl Missing | Some g \<Rightarrow> Inr g)"

definition role_keys_for :: "string \<Rightarrow> string \<Rightarrow> string \<Rightarrow> rbac \<Rightarrow> string list" where
  "role_keys_for org user project rb = (case grant_get org user project rb of Inl _ \<Rightarrow> [] | Inr g \<Rightarrow> ug_keys g)"

definition grants_of_user :: "string \<Rightarrow> string \<Rightarrow> rbac \<Rightarrow> user_grant list" where
  "grants_of_user org user rb = sort_key ug_project (filter (\<lambda>g. ug_user g = user) (visible_grants org rb))"

definition grant_create :: "string \<Rightarrow> string \<Rightarrow> string \<Rightarrow> string \<Rightarrow> string list \<Rightarrow> time \<Rightarrow> rbac \<Rightarrow> rbac_error + user_grant \<times> rbac" where
  "grant_create org i user project keys now rb =
     bindE (validate_grant_keys keys) (\<lambda>_.
       if org = [] then Inl NoScope
       else let g = \<lparr>ug_id = i, ug_user = user, ug_project = project, ug_org = org, ug_via = None, ug_keys = keys,
              ug_created = now, ug_updated = now\<rparr> in
         (case insert_grant org g rb of Inl t \<Rightarrow> Inl (grant_constraint t) | Inr rb' \<Rightarrow> Inr (g, rb')))"

definition grant_replace :: "string \<Rightarrow> string \<Rightarrow> string \<Rightarrow> string list \<Rightarrow> time \<Rightarrow> rbac \<Rightarrow> rbac_error + user_grant \<times> rbac" where
  "grant_replace org user project keys now rb =
     bindE (validate_grant_keys keys) (\<lambda>_.
       (case update_grant_keys org (\<lambda>g. ug_user g = user \<and> ug_project g = project) keys now rb of
          Inl t \<Rightarrow> Inl (grant_constraint t)
        | Inr (None, rb') \<Rightarrow> Inl Missing
        | Inr (Some g, rb') \<Rightarrow> Inr (g, rb')))"

definition grant_revoke :: "string \<Rightarrow> string \<Rightarrow> string \<Rightarrow> rbac \<Rightarrow> rbac_error + user_grant \<times> rbac" where
  "grant_revoke org user project rb =
     (case delete_grant org (\<lambda>g. ug_user g = user \<and> ug_project g = project) rb of
        (None, rb') \<Rightarrow> Inl Missing
      | (Some g, rb') \<Rightarrow> Inr (g, rb'))"

section \<open>The handlers of user grants\<close>

definition refuse_self :: "string \<Rightarrow> string \<Rightarrow> rbac_error + unit" where
  "refuse_self actor subject = (if actor = subject then Inl SelfService else Inr ())"

definition require_user :: "string \<Rightarrow> string \<Rightarrow> rbac \<Rightarrow> rbac_error + unit" where
  "require_user org user rb = (if rb_users rb user = Some org then Inr () else Inl Missing)"

definition grant_roles_to_user :: "rbac_env \<Rightarrow> string \<Rightarrow> string \<Rightarrow> string list \<Rightarrow> rbac \<Rightarrow> user_grant rbac_result" where
  "grant_roles_to_user env user project keys rb =
     (case refuse_self (re_actor env) user of
        Inl e \<Rightarrow> (Inl e, [], rb)
      | Inr _ \<Rightarrow> then_orders [DropGrants (re_org env) user project] (in_scope env (\<lambda>rb.
          bindE (require_user (re_org env) user rb) (\<lambda>_.
          bindE (grant_create (re_org env) (re_id env) user project keys (re_now env) rb) (\<lambda>(g, rb1).
          bindE (record_event env ''role.assigned''
            [(''subject_user_id'', Leaf (JStr (ug_user g))), (''project_id'', Leaf (JStr (ug_project g))), (''roles_added'', Leaf (JStrs (ug_keys g)))] rb1)
            (\<lambda>rb2. Inr (g, rb2))))) rb))"

definition replace_user_grant :: "rbac_env \<Rightarrow> string \<Rightarrow> string \<Rightarrow> string list \<Rightarrow> rbac \<Rightarrow> user_grant rbac_result" where
  "replace_user_grant env user project keys rb =
     (case refuse_self (re_actor env) user of
        Inl e \<Rightarrow> (Inl e, [], rb)
      | Inr _ \<Rightarrow> then_orders [DropGrants (re_org env) user project] (in_scope env (\<lambda>rb.
          bindE (require_user (re_org env) user rb) (\<lambda>_.
          bindE (grant_get (re_org env) user project rb) (\<lambda>old.
          bindE (grant_replace (re_org env) user project keys (re_now env) rb) (\<lambda>(g, rb1).
          case gained_lost (ug_keys old) (ug_keys g) of (added, removed) \<Rightarrow>
          bindE (record_event env ''role.assigned''
            [(''subject_user_id'', Leaf (JStr (ug_user g))), (''project_id'', Leaf (JStr (ug_project g))),
             (''roles_added'', Leaf (JStrs added)), (''roles_removed'', Leaf (JStrs removed))] rb1)
            (\<lambda>rb2. Inr (g, rb2)))))) rb))"

definition revoke_user_grant :: "rbac_env \<Rightarrow> string \<Rightarrow> string \<Rightarrow> rbac \<Rightarrow> unit rbac_result" where
  "revoke_user_grant env user project rb =
     then_orders [DropGrants (re_org env) user project] (in_scope env (\<lambda>rb.
       bindE (require_user (re_org env) user rb) (\<lambda>_.
       bindE (grant_revoke (re_org env) user project rb) (\<lambda>(g, rb1).
       bindE (record_event env ''role.revoked''
         [(''subject_user_id'', Leaf (JStr (ug_user g))), (''project_id'', Leaf (JStr (ug_project g))), (''roles_removed'', Leaf (JStrs (ug_keys g)))] rb1)
         (\<lambda>rb2. Inr ((), rb2))))) rb)"

section \<open>Project grants\<close>

definition max_delegated_keys :: nat where "max_delegated_keys = 50"

fun repeats :: "'a list \<Rightarrow> bool" where
  "repeats [] = False"
| "repeats (x # xs) = (if contains xs x then True else repeats xs)"

definition delegation_role_keys :: "string list \<Rightarrow> rbac_error + string list" where
  "delegation_role_keys keys =
     (if keys = [] \<or> length keys > max_delegated_keys \<or> repeats keys then Inl (RequestInvalid ''role_keys'') else Inr (sort keys))"

definition unknown_roles :: "string \<Rightarrow> string \<Rightarrow> string list \<Rightarrow> rbac \<Rightarrow> string list" where
  "unknown_roles org project keys rb =
     sort (filter (\<lambda>k. \<not> list_ex (\<lambda>r. ro_project r = project \<and> ro_key r = k) (visible_roles org rb)) keys)"

definition insert_delegation :: "string \<Rightarrow> project_grant \<Rightarrow> rbac \<Rightarrow> string + rbac" where
  "insert_delegation org p rb =
     (if rb_projects rb (pg_project p) \<noteq> Some org then Inl (invisible_project ''project_grants'' (pg_project p))
      else if pg_granting p \<noteq> org then Inl (''project_grants org_id does not match project '' @ pg_project p)
      else if pg_granting p = pg_granted p then Inl ''project_grants_no_self_grant''
      else if list_ex (\<lambda>q. pg_id q = pg_id p) (rb_delegations rb) then Inl (unique_violation ''project_grants_pkey'')
      else if list_ex (\<lambda>q. pg_project q = pg_project p \<and> pg_granted q = pg_granted p \<and> pg_active q) (rb_delegations rb)
        then Inl (unique_violation ''project_grants_project_granted_org_key'')
      else Inr (rb\<lparr>rb_delegations := rb_delegations rb @ [p]\<rparr>))"

definition delegation_create ::
  "string \<Rightarrow> string \<Rightarrow> string \<Rightarrow> string \<Rightarrow> string list \<Rightarrow> time \<Rightarrow> rbac \<Rightarrow> rbac_error + project_grant \<times> rbac" where
  "delegation_create org i project granted keys now rb =
     (if granted = org then Inl (RequestInvalid ''granted_org_id'')
      else if \<not> rb_accepting rb granted then Inl (RequestInvalid ''granted_org_id'')
      else if unknown_roles org project keys rb \<noteq> [] then Inl (UnknownRoles (unknown_roles org project keys rb))
      else let p = \<lparr>pg_id = i, pg_project = project, pg_granting = org, pg_granted = granted, pg_keys = keys, pg_active = True,
             pg_created = now, pg_revoked = None\<rparr> in
        (case insert_delegation org p rb of
           Inl t \<Rightarrow> Inl (if has_infix ''project_grants_project_granted_org_key'' t then Conflicting else Refused t)
         | Inr rb' \<Rightarrow> Inr (p, rb')))"

definition delegation_get :: "string \<Rightarrow> string \<Rightarrow> string \<Rightarrow> rbac \<Rightarrow> rbac_error + project_grant" where
  "delegation_get org project i rb =
     (case List.find (\<lambda>p. pg_id p = i \<and> pg_granting p = org \<and> pg_project p = project) (visible_delegations org rb) of
        None \<Rightarrow> Inl Missing | Some p \<Rightarrow> Inr p)"

definition delegation_revoke :: "string \<Rightarrow> string \<Rightarrow> string \<Rightarrow> time \<Rightarrow> rbac \<Rightarrow> rbac_error + (project_grant \<times> bool) \<times> rbac" where
  "delegation_revoke org project i now rb =
     bindE (delegation_get org project i rb) (\<lambda>p.
       if \<not> pg_active p then Inr ((p, False), rb)
       else let p' = p\<lparr>pg_active := False, pg_revoked := Some now\<rparr> in
         Inr ((p', True), rb\<lparr>rb_delegations := map (\<lambda>q. if pg_id q = i then p' else q) (rb_delegations rb)\<rparr>))"

definition delegation_received :: "string \<Rightarrow> string \<Rightarrow> rbac \<Rightarrow> rbac_error + project_grant" where
  "delegation_received org i rb =
     (case List.find (\<lambda>p. pg_id p = i \<and> pg_granted p = org) (visible_delegations org rb) of None \<Rightarrow> Inl Missing | Some p \<Rightarrow> Inr p)"

text \<open>The users that hold a role through a grant, as the granting side counts them.\<close>

definition holder_count :: "string \<Rightarrow> string \<Rightarrow> rbac \<Rightarrow> nat" where
  "holder_count org i rb =
     (if list_ex (\<lambda>p. pg_id p = i \<and> pg_granting p = org) (rb_delegations rb)
      then length (remdups (map ug_user (filter (\<lambda>g. ug_via g = Some i) (rb_grants rb)))) else 0)"

definition create_project_grant :: "rbac_env \<Rightarrow> string \<Rightarrow> string \<Rightarrow> string list \<Rightarrow> rbac \<Rightarrow> project_grant rbac_result" where
  "create_project_grant env project granted keys rb =
     (case delegation_role_keys keys of
        Inl e \<Rightarrow> (Inl e, [], rb)
      | Inr keys \<Rightarrow> then_orders [] (in_scope env (\<lambda>rb.
          bindE (require_project (re_org env) project rb) (\<lambda>_.
          bindE (delegation_create (re_org env) (re_id env) project granted keys (re_now env) rb) (\<lambda>(p, rb1).
          bindE (record_event env ''project_grant.created''
            [(''grant_id'', Leaf (JStr (pg_id p))), (''project_id'', Leaf (JStr (pg_project p))),
             (''granted_org_id'', Leaf (JStr (pg_granted p))), (''granted_role_keys'', Leaf (JStrs (pg_keys p)))] rb1)
            (\<lambda>rb2. Inr (p, rb2))))) rb))"

definition revoke_project_grant :: "rbac_env \<Rightarrow> string \<Rightarrow> string \<Rightarrow> rbac \<Rightarrow> unit rbac_result" where
  "revoke_project_grant env project i rb =
     then_orders [BumpGrant i] (in_scope env (\<lambda>rb.
       bindE (require_project (re_org env) project rb) (\<lambda>_.
       bindE (delegation_revoke (re_org env) project i (re_now env) rb) (\<lambda>((p, changed), rb1).
       if \<not> changed then Inr ((), rb1)
       else bindE (record_event env ''project_grant.revoked''
         [(''grant_id'', Leaf (JStr (pg_id p))), (''project_id'', Leaf (JStr (pg_project p))),
          (''granted_org_id'', Leaf (JStr (pg_granted p))), (''granted_role_keys'', Leaf (JStrs (pg_keys p))),
          (''revoked_at'', Leaf (JTime (re_now env)))] rb1)
         (\<lambda>rb2. Inr ((), rb2))))) rb)"

section \<open>Delegated grants\<close>

definition max_assigned_keys :: nat where "max_assigned_keys = 64"

definition delegated_keys :: "string list \<Rightarrow> rbac_error + string list" where
  "delegated_keys keys =
     (if keys = [] \<or> length keys > max_assigned_keys \<or> repeats keys then Inl (RequestInvalid ''role_keys'') else Inr (sort keys))"

definition require_assignable :: "project_grant \<Rightarrow> string list \<Rightarrow> rbac_error + unit" where
  "require_assignable p keys =
     (if \<not> pg_active p then Inl DelegationRevoked
      else let missing = filter (\<lambda>k. \<not> contains (pg_keys p) k) keys in
        if missing \<noteq> [] then Inl (NotDelegated (sort missing) (pg_keys p)) else Inr ())"

definition require_standing :: "caller \<Rightarrow> project_grant \<Rightarrow> rbac_error + unit" where
  "require_standing c p =
     (if holds_organization_role c OrgAdmin (pg_granted p) then Inr ()
      else if \<not> pg_active p then Inl Missing else Inr ())"

definition delegated_constraint :: "string \<Rightarrow> rbac_error" where
  "delegated_constraint t =
     (if has_infix ''user_grants_user_project_key'' t then Conflicting
      else if has_infix ''is revoked'' t then DelegationRevoked
      else if has_infix ''is not delegated by project grant'' t then RequestInvalid ''role_keys''
      else if has_infix ''is not a member of organization'' t \<or> has_infix ''violates foreign key constraint'' t then Missing
      else Refused t)"

text \<open>What the user already holds for the project: free, to be replaced, or taken.\<close>

definition superseded_grant :: "string \<Rightarrow> project_grant \<Rightarrow> string \<Rightarrow> rbac \<Rightarrow> rbac_error + string option" where
  "superseded_grant org p user rb =
     (case List.find (\<lambda>g. ug_org g = org \<and> ug_user g = user \<and> ug_project g = pg_project p) (rb_grants rb) of
        None \<Rightarrow> Inr None
      | Some g \<Rightarrow>
          (case ug_via g of
             None \<Rightarrow> Inl Conflicting
           | Some d \<Rightarrow>
               if d = pg_id p then Inl Conflicting
               else (case List.find (\<lambda>q. pg_id q = d) (visible_delegations org rb) of
                  None \<Rightarrow> Inl Conflicting
                | Some q \<Rightarrow> if pg_active q then Inl Conflicting else Inr (Some d))))"

definition assign_delegated ::
  "string \<Rightarrow> string \<Rightarrow> project_grant \<Rightarrow> string \<Rightarrow> string list \<Rightarrow> time \<Rightarrow> rbac \<Rightarrow> rbac_error + (user_grant \<times> string option) \<times> rbac" where
  "assign_delegated org i p user keys now rb =
     bindE (superseded_grant org p user rb) (\<lambda>superseded.
       let rb1 = (if superseded = None then rb
                  else snd (delete_grant org (\<lambda>g. ug_user g = user \<and> ug_project g = pg_project p) rb));
           g = \<lparr>ug_id = i, ug_user = user, ug_project = pg_project p, ug_org = pg_granted p, ug_via = Some (pg_id p),
                ug_keys = keys, ug_created = now, ug_updated = now\<rparr> in
       case insert_grant org g rb1 of
         Inl t \<Rightarrow> Inl (delegated_constraint t)
       | Inr rb2 \<Rightarrow> Inr ((g, superseded), rb2))"

definition replace_delegated ::
  "string \<Rightarrow> string \<Rightarrow> string \<Rightarrow> string list \<Rightarrow> time \<Rightarrow> rbac \<Rightarrow> rbac_error + (user_grant \<times> user_grant) \<times> rbac" where
  "replace_delegated org i user keys now rb =
     (case List.find (\<lambda>g. ug_org g = org \<and> ug_user g = user \<and> ug_via g = Some i) (rb_grants rb) of
        None \<Rightarrow> Inl Missing
      | Some old \<Rightarrow>
          (case update_grant_keys org (\<lambda>g. ug_user g = user \<and> ug_via g = Some i) keys now rb of
             Inl t \<Rightarrow> Inl (delegated_constraint t)
           | Inr (None, rb') \<Rightarrow> Inl (Refused ''no rows'')
           | Inr (Some g, rb') \<Rightarrow> Inr ((old, g), rb')))"

definition remove_delegated :: "string \<Rightarrow> string \<Rightarrow> string \<Rightarrow> rbac \<Rightarrow> rbac_error + user_grant \<times> rbac" where
  "remove_delegated org i user rb =
     (case delete_grant org (\<lambda>g. ug_user g = user \<and> ug_via g = Some i) rb of
        (None, rb') \<Rightarrow> Inl Missing
      | (Some g, rb') \<Rightarrow> Inr (g, rb'))"

definition delegated_payload :: "project_grant \<Rightarrow> string \<Rightarrow> (string \<times> payload) list" where
  "delegated_payload p user =
     [(''grant_id'', Leaf (JStr (pg_id p))), (''project_id'', Leaf (JStr (pg_project p))),
      (''granting_org_id'', Leaf (JStr (pg_granting p))), (''granted_org_id'', Leaf (JStr (pg_granted p))),
      (''subject_user_id'', Leaf (JStr user))]"

definition assign_delegated_roles :: "rbac_env \<Rightarrow> caller \<Rightarrow> string \<Rightarrow> string \<Rightarrow> string list \<Rightarrow> rbac \<Rightarrow> user_grant rbac_result" where
  "assign_delegated_roles env c i user keys rb =
     (case bindE (delegated_keys keys) (\<lambda>ks. bindE (refuse_self (re_actor env) user) (\<lambda>_. Inr ks)) of
        Inl e \<Rightarrow> (Inl e, [], rb)
      | Inr keys \<Rightarrow> then_orders [] (in_scope env (\<lambda>rb.
          bindE (delegation_received (re_org env) i rb) (\<lambda>p.
          bindE (require_standing c p) (\<lambda>_.
          bindE (require_assignable p keys) (\<lambda>_.
          bindE (require_user (re_org env) user rb) (\<lambda>_.
          bindE (assign_delegated (re_org env) (re_id env) p user keys (re_now env) rb) (\<lambda>((g, superseded), rb1).
          bindE (record_event env ''delegated_role.assigned''
            (delegated_payload p user @ [(''roles_added'', Leaf (JStrs (ug_keys g)))] @
              (case superseded of None \<Rightarrow> [] | Some d \<Rightarrow> [(''superseded_grant_id'', Leaf (JStr d))])) rb1)
            (\<lambda>rb2. Inr (g, rb2)))))))) rb))"

definition replace_delegated_roles :: "rbac_env \<Rightarrow> caller \<Rightarrow> string \<Rightarrow> string \<Rightarrow> string list \<Rightarrow> rbac \<Rightarrow> user_grant rbac_result" where
  "replace_delegated_roles env c i user keys rb =
     (case bindE (delegated_keys keys) (\<lambda>ks. bindE (refuse_self (re_actor env) user) (\<lambda>_. Inr ks)) of
        Inl e \<Rightarrow> (Inl e, [], rb)
      | Inr keys \<Rightarrow> then_orders [] (in_scope env (\<lambda>rb.
          bindE (delegation_received (re_org env) i rb) (\<lambda>p.
          bindE (require_standing c p) (\<lambda>_.
          bindE (require_assignable p keys) (\<lambda>_.
          bindE (require_user (re_org env) user rb) (\<lambda>_.
          bindE (replace_delegated (re_org env) (pg_id p) user keys (re_now env) rb) (\<lambda>((old, g), rb1).
          case gained_lost (ug_keys old) (ug_keys g) of (added, removed) \<Rightarrow>
          if added = [] \<and> removed = [] then Inr (g, rb1)
          else bindE (record_event env ''delegated_role.replaced''
            (delegated_payload p user @ [(''roles_added'', Leaf (JStrs added)), (''roles_removed'', Leaf (JStrs removed))]) rb1)
            (\<lambda>rb2. Inr (g, rb2)))))))) rb))"

definition remove_delegated_roles :: "rbac_env \<Rightarrow> caller \<Rightarrow> string \<Rightarrow> string \<Rightarrow> rbac \<Rightarrow> unit rbac_result" where
  "remove_delegated_roles env c i user rb =
     then_orders [] (in_scope env (\<lambda>rb.
       bindE (delegation_received (re_org env) i rb) (\<lambda>p.
       bindE (require_standing c p) (\<lambda>_.
       bindE (remove_delegated (re_org env) (pg_id p) user rb) (\<lambda>(g, rb1).
       bindE (record_event env ''delegated_role.removed'' (delegated_payload p user @ [(''roles_removed'', Leaf (JStrs (ug_keys g)))]) rb1)
         (\<lambda>rb2. Inr ((), rb2)))))) rb)"

section \<open>Owners of a project grant\<close>

definition owners_of :: "string \<Rightarrow> string \<Rightarrow> rbac \<Rightarrow> (string \<times> time) list" where
  "owners_of org i rb =
     map (\<lambda>(u, _, t). (u, t)) (sort_key (\<lambda>(u, _, t). (t, u)) (filter (\<lambda>(u, s, _). s = i \<and> rb_users rb u = Some org) (rb_owners rb)))"

definition add_owner :: "string \<Rightarrow> string \<Rightarrow> time \<Rightarrow> rbac \<Rightarrow> rbac_error + time \<times> rbac" where
  "add_owner i user now rb =
     (if list_ex (\<lambda>(u, s, _). u = user \<and> s = i) (rb_owners rb) then Inl AlreadyOwner
      else if rb_users rb user = None then Inl (Refused ''manager_roles_user_id_fkey'')
      else Inr (now, rb\<lparr>rb_owners := rb_owners rb @ [(user, i, now)]\<rparr>))"

definition remove_owner :: "string \<Rightarrow> string \<Rightarrow> string \<Rightarrow> rbac \<Rightarrow> rbac_error + unit \<times> rbac" where
  "remove_owner org i user rb =
     (if rb_users rb user = Some org \<and> list_ex (\<lambda>(u, s, _). u = user \<and> s = i) (rb_owners rb)
      then Inr ((), rb\<lparr>rb_owners := filter (\<lambda>(u, s, _). \<not> (u = user \<and> s = i)) (rb_owners rb)\<rparr>)
      else Inl Missing)"

definition owner_role :: string where "owner_role = ''PROJECT_GRANT_OWNER''"

definition assign_owner :: "rbac_env \<Rightarrow> string \<Rightarrow> string \<Rightarrow> rbac \<Rightarrow> time rbac_result" where
  "assign_owner env i user rb =
     (case refuse_self (re_actor env) user of
        Inl e \<Rightarrow> (Inl e, [], rb)
      | Inr _ \<Rightarrow> then_orders [] (in_scope env (\<lambda>rb.
          bindE (delegation_received (re_org env) i rb) (\<lambda>p.
          if \<not> pg_active p then Inl DelegationRevoked
          else bindE (require_user (re_org env) user rb) (\<lambda>_.
          bindE (add_owner (pg_id p) user (re_now env) rb) (\<lambda>(t, rb1).
          bindE (record_event env ''manager_role.assigned'' (delegated_payload p user @ [(''role'', Leaf (JStr owner_role))]) rb1)
            (\<lambda>rb2. Inr (t, rb2)))))) rb))"

definition dismiss_owner :: "rbac_env \<Rightarrow> string \<Rightarrow> string \<Rightarrow> rbac \<Rightarrow> unit rbac_result" where
  "dismiss_owner env i user rb =
     then_orders [] (in_scope env (\<lambda>rb.
       bindE (delegation_received (re_org env) i rb) (\<lambda>p.
       bindE (remove_owner (re_org env) (pg_id p) user rb) (\<lambda>(_, rb1).
       bindE (record_event env ''manager_role.revoked'' (delegated_payload p user @ [(''role'', Leaf (JStr owner_role))]) rb1)
         (\<lambda>rb2. Inr ((), rb2))))) rb)"

section \<open>Effective roles\<close>

text \<open>\<open>grantsql.EffectiveRoleKeys\<close> under the policies of a tenant: the row and its project grant, both as the tenant sees them.\<close>

definition effective_keys :: "string \<Rightarrow> string \<Rightarrow> string \<Rightarrow> rbac \<Rightarrow> string list" where
  "effective_keys org user project rb =
     (case List.find (\<lambda>g. ug_user g = user \<and> ug_project g = project) (visible_grants org rb) of
        None \<Rightarrow> []
      | Some g \<Rightarrow>
          (case ug_via g of
             None \<Rightarrow> ug_keys g
           | Some d \<Rightarrow>
               (case List.find (\<lambda>p. pg_id p = d) (visible_delegations org rb) of
                  None \<Rightarrow> []
                | Some p \<Rightarrow> if \<not> pg_active p then [] else sort (filter (contains (pg_keys p)) (ug_keys g)))))"

end
