(* ===== verification/Authz.thy ===== *)
theory Authz
  imports Grants Redis CodeStore
begin

text \<open>
  The authorization engine (\<open>authz/decide.go\<close>, \<open>authz/cache.go\<close>, \<open>authz/handler.go\<close>): the pure decision, the Redis
  cache of its two inputs (what a user holds in a project, what the roles of a project carry) with the
  revocation counter of a project grant, and the handler that falls through to the database. Metrics are left out; the
  log line of a decision is a value, because it carries what the answer must not.
\<close>

section \<open>The decision\<close>

record authz_request =
  ar_subject :: string
  ar_action :: string
  ar_type :: string

record held_role =
  hr_key :: string
  hr_permissions :: "string list"

datatype decision_reason = HoldsRole string | RoleCarries string string | HoldsNoRoleCarrying string

record authz_decision =
  ad_allowed :: bool
  ad_policy :: string
  ad_reasons :: "decision_reason list"

definition asked_permission :: "authz_request \<Rightarrow> string" where
  "asked_permission rq = ar_type rq @ '':'' @ ar_action rq"

datatype request_problem = SubjectRequired | ActionRequired | TypeRequired | NoPermissionKey permission_error

definition validate_request :: "authz_request \<Rightarrow> request_problem + unit" where
  "validate_request rq =
     (if ar_subject rq = [] then Inl SubjectRequired
      else if ar_action rq = [] then Inl ActionRequired
      else if ar_type rq = [] then Inl TypeRequired
      else case validate_permission_key (asked_permission rq) of
        Inl e \<Rightarrow> Inl (NoPermissionKey e)
      | Inr _ \<Rightarrow> Inr ())"

definition decide_access :: "authz_request \<Rightarrow> held_role list \<Rightarrow> authz_decision" where
  "decide_access rq held =
     (case List.find (\<lambda>g. contains (hr_permissions g) (asked_permission rq)) held of
        Some g \<Rightarrow> \<lparr>ad_allowed = True, ad_policy = hr_key g,
          ad_reasons = [HoldsRole (hr_key g), RoleCarries (hr_key g) (asked_permission rq)]\<rparr>
      | None \<Rightarrow> \<lparr>ad_allowed = False, ad_policy = [], ad_reasons = [HoldsNoRoleCarrying (asked_permission rq)]\<rparr>)"

section \<open>The cache\<close>

text \<open>
  A value under a key of the cache: an entry with the time it was written, or the counter of a project grant. \<open>Via\<close> is
  empty for a direct grant.
\<close>

datatype authz_value =
    CachedGrants time "string list" string int
  | CachedRoles time "(string \<times> string list) list"
  | Generation int

record 's authz_redis =
  az_ops :: "('s, authz_value blob) redis_ops"
  az_incr :: "time \<Rightarrow> string \<Rightarrow> 's \<Rightarrow> (unit + int) \<times> 's"
  az_expire :: "time \<Rightarrow> string \<Rightarrow> duration \<Rightarrow> 's \<Rightarrow> (unit + bool) \<times> 's"

record 's authz_cache =
  ac_redis :: "'s authz_redis option"
  ac_ttl :: duration

definition authz_ttl :: duration where "authz_ttl = 30 * second"
definition generation_ttl :: duration where "generation_ttl = 24 * hour"

definition new_authz_cache :: "'s authz_redis \<Rightarrow> 's authz_cache" where
  "new_authz_cache az = \<lparr>ac_redis = Some az, ac_ttl = authz_ttl\<rparr>"

definition grants_key :: "string \<Rightarrow> string \<Rightarrow> string \<Rightarrow> string" where
  "grants_key org user project = ''authz:grants:'' @ org @ '':'' @ user @ '':'' @ project"

definition roles_key :: "string \<Rightarrow> string \<Rightarrow> string" where
  "roles_key org project = ''authz:roles:'' @ org @ '':'' @ project"

definition generation_key :: "string \<Rightarrow> string" where
  "generation_key i = ''authz:grantgen:'' @ i"

definition authz_get :: "'s authz_cache \<Rightarrow> time \<Rightarrow> string \<Rightarrow> 's \<Rightarrow> authz_value option" where
  "authz_get c now key st =
     (case ac_redis c of
        None \<Rightarrow> None
      | Some az \<Rightarrow>
          (case rd_get (az_ops az) now key st of
             Inr (Some (Blob v)) \<Rightarrow> Some v
           | _ \<Rightarrow> None))"

text \<open>\<open>Cache.generation\<close>: 0 without a counter, -1 when it cannot be read or is no number.\<close>

definition generation :: "'s authz_cache \<Rightarrow> time \<Rightarrow> string \<Rightarrow> 's \<Rightarrow> int" where
  "generation c now i st =
     (case ac_redis c of
        None \<Rightarrow> 0
      | Some az \<Rightarrow>
          (case rd_get (az_ops az) now (generation_key i) st of
             Inr None \<Rightarrow> 0
           | Inr (Some (Blob (Generation n))) \<Rightarrow> n
           | _ \<Rightarrow> -1))"

definition cached_role_keys :: "'s authz_cache \<Rightarrow> time \<Rightarrow> string \<Rightarrow> string \<Rightarrow> string \<Rightarrow> 's \<Rightarrow> (string list \<times> string) option" where
  "cached_role_keys c now org user project st =
     (case authz_get c now (grants_key org user project) st of
        Some (CachedGrants at keys via gen) \<Rightarrow>
          if via \<noteq> [] \<and> generation c now via st \<noteq> gen then None else Some (keys, via)
      | _ \<Rightarrow> None)"

definition cached_roles :: "'s authz_cache \<Rightarrow> time \<Rightarrow> string \<Rightarrow> string \<Rightarrow> 's \<Rightarrow> (string \<times> string list) list option" where
  "cached_roles c now org project st =
     (case authz_get c now (roles_key org project) st of
        Some (CachedRoles at defs) \<Rightarrow> Some defs
      | _ \<Rightarrow> None)"

definition authz_put :: "'s authz_cache \<Rightarrow> time \<Rightarrow> string \<Rightarrow> authz_value \<Rightarrow> 's \<Rightarrow> 's" where
  "authz_put c now key v st =
     (case ac_redis c of
        None \<Rightarrow> st
      | Some az \<Rightarrow> snd (rd_set (az_ops az) now key (Blob v) (ac_ttl c) st))"

definition put_role_keys :: "'s authz_cache \<Rightarrow> time \<Rightarrow> string \<Rightarrow> string \<Rightarrow> string \<Rightarrow> string list \<Rightarrow> string \<Rightarrow> 's \<Rightarrow> 's" where
  "put_role_keys c now org user project keys via st =
     (let gen = (if via = [] then 0 else generation c now via st) in
      if gen < 0 then st else authz_put c now (grants_key org user project) (CachedGrants now keys via gen) st)"

definition put_roles :: "'s authz_cache \<Rightarrow> time \<Rightarrow> string \<Rightarrow> string \<Rightarrow> (string \<times> string list) list \<Rightarrow> 's \<Rightarrow> 's" where
  "put_roles c now org project defs st = authz_put c now (roles_key org project) (CachedRoles now defs) st"

text \<open>The invalidations report whether they landed, which the code logs; \<open>ac_redis = None\<close> has nothing to invalidate.\<close>

definition authz_del :: "'s authz_cache \<Rightarrow> time \<Rightarrow> string \<Rightarrow> 's \<Rightarrow> bool \<times> 's" where
  "authz_del c now key st =
     (case ac_redis c of
        None \<Rightarrow> (True, st)
      | Some az \<Rightarrow> (case rd_del (az_ops az) now key st of (r, st') \<Rightarrow> (is_ok r, st')))"

definition invalidate_user :: "'s authz_cache \<Rightarrow> time \<Rightarrow> string \<Rightarrow> string \<Rightarrow> string \<Rightarrow> 's \<Rightarrow> bool \<times> 's" where
  "invalidate_user c now org user project st = authz_del c now (grants_key org user project) st"

definition invalidate_project_roles :: "'s authz_cache \<Rightarrow> time \<Rightarrow> string \<Rightarrow> string \<Rightarrow> 's \<Rightarrow> bool \<times> 's" where
  "invalidate_project_roles c now org project st = authz_del c now (roles_key org project) st"

definition invalidate_grant :: "'s authz_cache \<Rightarrow> time \<Rightarrow> string \<Rightarrow> 's \<Rightarrow> bool \<times> 's" where
  "invalidate_grant c now i st =
     (case ac_redis c of
        None \<Rightarrow> (True, st)
      | Some az \<Rightarrow>
          if i = [] then (True, st)
          else (case az_incr az now (generation_key i) st of
            (Inl _, st') \<Rightarrow> (False, st')
          | (Inr _, st') \<Rightarrow> (True, snd (az_expire az now (generation_key i) generation_ttl st'))))"

definition run_order :: "'s authz_cache \<Rightarrow> time \<Rightarrow> cache_order \<Rightarrow> 's \<Rightarrow> bool \<times> 's" where
  "run_order c now order st =
     (case order of
        DropGrants org user project \<Rightarrow> invalidate_user c now org user project st
      | DropRoles org project \<Rightarrow> invalidate_project_roles c now org project st
      | BumpGrant i \<Rightarrow> invalidate_grant c now i st)"

section \<open>The handler\<close>

text \<open>
  What a check meets: the applications (their organization and project), the time at which it reads the cache and the time at which
  it writes it, and which of its statements fail.
\<close>

record authz_env =
  ae_apps :: "string \<rightharpoonup> string \<times> string"
  ae_asked :: time
  ae_filled :: time
  ae_lookup_fault :: tx_fault
  ae_fault :: tx_fault
  ae_keys_read :: bool
  ae_roles_read :: bool

definition project_of :: "authz_env \<Rightarrow> string \<Rightarrow> string \<Rightarrow> unit + string" where
  "project_of env org client =
     (case fst (with_tenant (ae_lookup_fault env) org
        (\<lambda>org w. case ae_apps env client of
           Some (o', project) \<Rightarrow> if o' = org then Inr (project, w) else Inl ()
         | None \<Rightarrow> Inl ()) ()) of
        Inl _ \<Rightarrow> Inl ()
      | Inr project \<Rightarrow> Inr project)"

text \<open>\<open>readRoleKeys\<close>: the effective keys, the project grant of the row a tenant sees, and whether the user exists in it.\<close>

definition via_of :: "string \<Rightarrow> string \<Rightarrow> string \<Rightarrow> rbac \<Rightarrow> string" where
  "via_of org user project rb =
     (case List.find (\<lambda>g. ug_user g = user \<and> ug_project g = project) (visible_grants org rb) of
        None \<Rightarrow> []
      | Some g \<Rightarrow> (case ug_via g of None \<Rightarrow> [] | Some d \<Rightarrow> d))"

definition read_role_keys :: "string \<Rightarrow> string \<Rightarrow> string \<Rightarrow> rbac \<Rightarrow> string list \<times> string \<times> bool" where
  "read_role_keys org user project rb = (effective_keys org user project rb, via_of org user project rb, rb_users rb user = Some org)"

definition read_role_definitions :: "string \<Rightarrow> string \<Rightarrow> rbac \<Rightarrow> (string \<times> string list) list" where
  "read_role_definitions org project rb =
     map (\<lambda>r. (ro_key r, ro_permissions r)) (filter (\<lambda>r. ro_project r = project) (visible_roles org rb))"

text \<open>A Go map filled row by row holds the last row of a key.\<close>

definition definition_of :: "(string \<times> string list) list \<Rightarrow> string \<Rightarrow> string list option" where
  "definition_of defs key = map_of (rev defs) key"

definition resolve_roles :: "(string \<times> string list) list \<Rightarrow> string list \<Rightarrow> held_role list" where
  "resolve_roles defs keys =
     List.map_filter (\<lambda>k. map_option (\<lambda>ps. \<lparr>hr_key = k, hr_permissions = ps\<rparr>) (definition_of defs k)) keys"

text \<open>
  The transaction of \<open>grantsFor\<close>: the reads that missed, each cached as soon as it is read. What is written to Redis
  stays when a later statement or the commit fails.
\<close>

type_synonym held_inputs = "(string list \<times> bool) \<times> (string \<times> string list) list"

definition fill_inputs ::
  "authz_env \<Rightarrow> 's authz_cache \<Rightarrow> string \<Rightarrow> string \<Rightarrow> string \<Rightarrow> (string list \<times> bool) option \<Rightarrow> (string \<times> string list) list option \<Rightarrow>
   rbac \<Rightarrow> 's \<Rightarrow> (unit + held_inputs) \<times> 's" where
  "fill_inputs env c org user project keys defs rb st =
     (if org = [] \<or> ae_fault env = BeginFails \<or> ae_fault env = ScopeFails \<or> keys = None \<and> \<not> ae_keys_read env then (Inl (), st)
      else
        let (ks, via, exists) = read_role_keys org user project rb;
            st1 = (if keys = None then put_role_keys c (ae_filled env) org user project ks via st else st);
            held = (case keys of None \<Rightarrow> (ks, exists) | Some held \<Rightarrow> held)
        in
        if defs = None \<and> \<not> ae_roles_read env then (Inl (), st1)
        else
          let ds = read_role_definitions org project rb;
              st2 = (if defs = None then put_roles c (ae_filled env) org project ds st1 else st1)
          in
          if ae_fault env = CommitFails \<or> ae_fault env = CommitLost then (Inl (), st2)
          else (Inr (held, (case defs of None \<Rightarrow> ds | Some ds \<Rightarrow> ds)), st2))"

definition held_roles_for ::
  "authz_env \<Rightarrow> 's authz_cache \<Rightarrow> string \<Rightarrow> string \<Rightarrow> string \<Rightarrow> rbac \<Rightarrow> 's \<Rightarrow> (unit + held_role list \<times> bool) \<times> 's" where
  "held_roles_for env c org client user rb st =
     (case project_of env org client of
        Inl _ \<Rightarrow> (Inl (), st)
      | Inr project \<Rightarrow>
          let keys = map_option (\<lambda>(ks, via). (ks, True)) (cached_role_keys c (ae_asked env) org user project st);
              defs = cached_roles c (ae_asked env) org project st
          in
          (case (case (keys, defs) of
                   (Some k, Some d) \<Rightarrow> (Inr (k, d), st)
                 | _ \<Rightarrow> fill_inputs env c org user project keys defs rb st) of
             (Inl _, st') \<Rightarrow> (Inl (), st')
           | (Inr ((ks, exists), ds), st') \<Rightarrow> (Inr (resolve_roles ds ks, exists), st')))"

datatype authz_answer =
    Decided authz_decision
  | CheckMalformed request_problem
  | CheckUnscoped
  | CheckUnavailable

datatype authz_log = LoggedDecision bool string bool string string | LoggedFailure string string

definition answer_class :: "authz_answer \<Rightarrow> fault_class option" where
  "answer_class a =
     (case a of Decided _ \<Rightarrow> None | CheckMalformed _ \<Rightarrow> Some Invalid | CheckUnscoped \<Rightarrow> Some Internal | CheckUnavailable \<Rightarrow> Some Unavailable)"

definition check_authorization ::
  "authz_env \<Rightarrow> 's authz_cache \<Rightarrow> string \<Rightarrow> string \<Rightarrow> authz_request \<Rightarrow> rbac \<Rightarrow> 's \<Rightarrow> authz_answer \<times> authz_log list \<times> 's" where
  "check_authorization env c org client rq rb st =
     (case validate_request rq of
        Inl p \<Rightarrow> (CheckMalformed p, [], st)
      | Inr _ \<Rightarrow>
          if org = [] \<or> client = [] then (CheckUnscoped, [], st)
          else case held_roles_for env c org client (ar_subject rq) rb st of
            (Inl _, st') \<Rightarrow> (CheckUnavailable, [LoggedFailure client (asked_permission rq)], st')
          | (Inr (held, exists), st') \<Rightarrow>
              let d = decide_access rq held in
              (Decided d, [LoggedDecision (ad_allowed d) (asked_permission rq) exists (ad_policy d) client], st'))"

end
