(* ===== verification/RbacInv.thy ===== *)
theory RbacInv
  imports Grants
begin

text \<open>
  The well-formedness of the permission tables and that every operation of the two APIs keeps it, whatever its
  arguments and whichever way its transaction ends: no grant names a role that its project does not have or that its
  project grant does not delegate, no tenant writes into another one, and every key of the tables is unique.
\<close>

section \<open>Well-formed tables\<close>

definition has_role :: "rbac \<Rightarrow> string \<Rightarrow> string \<Rightarrow> bool" where
  "has_role rb project k \<longleftrightarrow> (\<exists>r \<in> set (rb_roles rb). ro_project r = project \<and> ro_key r = k)"

definition role_sound :: "rbac \<Rightarrow> role \<Rightarrow> bool" where
  "role_sound rb r \<longleftrightarrow>
     rb_projects rb (ro_project r) = Some (ro_org r) \<and> validate_key (ro_key r) = Inr () \<and>
     validate_permission_keys (ro_permissions r) = Inr () \<and> ro_name r \<noteq> [] \<and> length (ro_name r) \<le> max_display_name_length"

definition delegation_sound :: "rbac \<Rightarrow> project_grant \<Rightarrow> bool" where
  "delegation_sound rb p \<longleftrightarrow>
     rb_projects rb (pg_project p) = Some (pg_granting p) \<and> pg_granting p \<noteq> pg_granted p \<and>
     pg_keys p \<noteq> [] \<and> sorted (pg_keys p) \<and> distinct (pg_keys p) \<and> (pg_active p \<longleftrightarrow> pg_revoked p = None) \<and>
     (pg_active p \<longrightarrow> (\<forall>k \<in> set (pg_keys p). has_role rb (pg_project p) k))"

definition grant_sound :: "rbac \<Rightarrow> user_grant \<Rightarrow> bool" where
  "grant_sound rb g \<longleftrightarrow>
     ug_keys g \<noteq> [] \<and> distinct (ug_keys g) \<and> rb_users rb (ug_user g) = Some (ug_org g) \<and>
     (case ug_via g of
        None \<Rightarrow> rb_projects rb (ug_project g) = Some (ug_org g) \<and> (\<forall>k \<in> set (ug_keys g). has_role rb (ug_project g) k)
      | Some d \<Rightarrow> \<exists>p \<in> set (rb_delegations rb). pg_id p = d \<and> pg_granted p = ug_org g \<and> pg_project p = ug_project g \<and>
          set (ug_keys g) \<subseteq> set (pg_keys p))"

definition rbac_keys :: "rbac \<Rightarrow> bool" where
  "rbac_keys rb \<longleftrightarrow>
     distinct (map ro_id (rb_roles rb)) \<and> distinct (map (\<lambda>r. (ro_project r, ro_key r)) (rb_roles rb)) \<and>
     distinct (map ug_id (rb_grants rb)) \<and> distinct (map (\<lambda>g. (ug_user g, ug_project g)) (rb_grants rb)) \<and>
     distinct (map pg_id (rb_delegations rb)) \<and>
     distinct (map (\<lambda>p. (pg_project p, pg_granted p)) (filter pg_active (rb_delegations rb))) \<and>
     distinct (map (\<lambda>(u, s, _). (u, s)) (rb_owners rb))"

definition rbac_ok :: "rbac \<Rightarrow> bool" where
  "rbac_ok rb \<longleftrightarrow>
     (\<forall>r \<in> set (rb_roles rb). role_sound rb r) \<and> (\<forall>p \<in> set (rb_delegations rb). delegation_sound rb p) \<and>
     (\<forall>g \<in> set (rb_grants rb). grant_sound rb g) \<and> rbac_keys rb"

lemma rbac_okD:
  assumes "rbac_ok rb"
  shows "r \<in> set (rb_roles rb) \<Longrightarrow> role_sound rb r" "p \<in> set (rb_delegations rb) \<Longrightarrow> delegation_sound rb p"
    "g \<in> set (rb_grants rb) \<Longrightarrow> grant_sound rb g" "rbac_keys rb"
  using assms by (simp_all add: rbac_ok_def)

lemma rbac_keysD:
  assumes "rbac_ok rb"
  shows "distinct (map ro_id (rb_roles rb))" "distinct (map (\<lambda>r. (ro_project r, ro_key r)) (rb_roles rb))"
    "distinct (map ug_id (rb_grants rb))" "distinct (map (\<lambda>g. (ug_user g, ug_project g)) (rb_grants rb))"
    "distinct (map pg_id (rb_delegations rb))" "distinct (map (\<lambda>p. (pg_project p, pg_granted p)) (filter pg_active (rb_delegations rb)))"
    "distinct (map (\<lambda>(u, s, _). (u, s)) (rb_owners rb))"
  using assms by (simp_all add: rbac_ok_def rbac_keys_def)

lemmas rbac_sound_defs = role_sound_def delegation_sound_def grant_sound_def has_role_def

section \<open>Lists with a key\<close>

lemma map_key_update: "(\<And>x. x \<in> set xs \<Longrightarrow> f (h x) = f x) \<Longrightarrow> map f (map h xs) = map f xs"
  by simp

lemma key_unique: "distinct (map f xs) \<Longrightarrow> x \<in> set xs \<Longrightarrow> y \<in> set xs \<Longrightarrow> f x = f y \<Longrightarrow> x = y"
  by (auto simp: distinct_map inj_on_def)

lemma distinct_filter_map: "distinct (map f xs) \<Longrightarrow> distinct (map f (filter P xs))"
  by (auto simp: distinct_map inj_on_def)

section \<open>The writes\<close>

definition same_contract :: "project_grant \<Rightarrow> project_grant \<Rightarrow> bool" where
  "same_contract p q \<longleftrightarrow> pg_id q = pg_id p \<and> pg_granted q = pg_granted p \<and> pg_project q = pg_project p \<and> pg_keys q = pg_keys p"

lemma same_contract_refl [simp]: "same_contract p p"
  by (simp add: same_contract_def)

lemma grant_sound_mono:
  assumes "grant_sound rb g" "rb_users rb' = rb_users rb" "rb_projects rb' = rb_projects rb"
    and "\<And>k. ug_via g = None \<Longrightarrow> k \<in> set (ug_keys g) \<Longrightarrow> has_role rb (ug_project g) k \<Longrightarrow> has_role rb' (ug_project g) k"
    and "\<And>p. p \<in> set (rb_delegations rb) \<Longrightarrow>
      \<exists>q \<in> set (rb_delegations rb'). same_contract p q"
  shows "grant_sound rb' g"
proof (cases "ug_via g")
  case None
  with assms(1-4) show ?thesis by (simp add: grant_sound_def)
next
  case (Some d)
  with assms(1) obtain p where "p \<in> set (rb_delegations rb)" "pg_id p = d" "pg_granted p = ug_org g" "pg_project p = ug_project g"
    "set (ug_keys g) \<subseteq> set (pg_keys p)" by (auto simp: grant_sound_def)
  with assms(5) [of p] obtain q where "q \<in> set (rb_delegations rb')" "pg_id q = d" "pg_granted q = ug_org g" "pg_project q = ug_project g"
    "set (ug_keys g) \<subseteq> set (pg_keys q)" by (auto simp: same_contract_def)
  with Some assms(1,2) show ?thesis by (auto simp: grant_sound_def)
qed

lemma grant_sound_frame:
  assumes "grant_sound rb g" "rb_users rb' = rb_users rb" "rb_projects rb' = rb_projects rb" "rb_delegations rb' = rb_delegations rb"
    and "\<And>k. ug_via g = None \<Longrightarrow> k \<in> set (ug_keys g) \<Longrightarrow> has_role rb (ug_project g) k \<Longrightarrow> has_role rb' (ug_project g) k"
  shows "grant_sound rb' g"
  by (rule grant_sound_mono [OF assms(1-3) assms(5)]) (use assms(4) same_contract_refl in \<open>metis+\<close>)

lemma rbac_ok_log [simp]: "rbac_ok (rb\<lparr>rb_log := log\<rparr>) \<longleftrightarrow> rbac_ok rb"
  by (simp add: rbac_ok_def rbac_sound_defs rbac_keys_def cong: option.case_cong)

lemma insert_role_keeps:
  assumes "rbac_ok rb" "insert_role org r rb = Inr rb'" "ro_org r = org" "role_sound rb r"
  shows "rbac_ok rb'"
proof -
  from assms(2) have rb': "rb' = rb\<lparr>rb_roles := rb_roles rb @ [r]\<rparr>" "rb_projects rb (ro_project r) = Some org"
    "\<forall>s \<in> set (rb_roles rb). ro_id s \<noteq> ro_id r \<and> \<not> (ro_project s = ro_project r \<and> ro_key s = ro_key r)"
    by (auto simp: insert_role_def list_ex_iff split: option.splits if_splits)
  have more: "has_role rb p k \<Longrightarrow> has_role rb' p k" for p k by (auto simp: rb' has_role_def)
  have "\<forall>r \<in> set (rb_roles rb'). role_sound rb' r" using assms rb' by (auto simp: rbac_ok_def role_sound_def)
  moreover have "\<forall>p \<in> set (rb_delegations rb'). delegation_sound rb' p"
    using assms(1) more by (auto simp: rbac_ok_def delegation_sound_def rb')
  moreover have "\<forall>g \<in> set (rb_grants rb'). grant_sound rb' g"
  proof
    fix g assume "g \<in> set (rb_grants rb')"
    then have "grant_sound rb g" using rbac_okD(3) [OF assms(1)] by (simp add: rb'(1))
    then show "grant_sound rb' g" by (rule grant_sound_frame) (use more in \<open>simp_all add: rb'(1)\<close>)
  qed
  moreover have "rbac_keys rb'" using assms(1) rb'(3) by (auto simp: rbac_ok_def rbac_keys_def rb'(1))
  ultimately show ?thesis by (simp add: rbac_ok_def)
qed

lemma role_update_keeps:
  assumes "rbac_ok rb" "role_update org i name ks now rb = Inr (r, rb')"
  shows "rbac_ok rb'"
proof -
  from assms(2) obtain old where valid: "validate_display_name name = Inr ()" "validate_permission_keys ks = Inr ()"
    and old: "role_get org i rb = Inr old" and r: "r = old\<lparr>ro_name := trim_space name, ro_permissions := ks, ro_updated := now\<rparr>"
    and rb': "rb' = rb\<lparr>rb_roles := map (\<lambda>s. if ro_id s = i \<and> ro_org s = org then r else s) (rb_roles rb)\<rparr>"
    by (auto simp: role_update_def bindE_Inr_iff Let_def bindE_Inl_iff split: sum.splits)
  let ?h = "\<lambda>s. if ro_id s = i \<and> ro_org s = org then r else s"
  note got = role_get_ok [OF old]
  have same: "ro_id (?h s) = ro_id s \<and> ro_project (?h s) = ro_project s \<and> ro_key (?h s) = ro_key s \<and> ro_org (?h s) = ro_org s"
    if "s \<in> set (rb_roles rb)" for s
  proof -
    have "s = old" if "ro_id s = i" using key_unique [of ro_id "rb_roles rb" s old] assms(1) got that \<open>s \<in> set (rb_roles rb)\<close>
      by (simp add: rbac_ok_def rbac_keys_def)
    then show ?thesis by (auto simp: r got)
  qed
  have roles: "has_role rb' p k = has_role rb p k" for p k using same by (fastforce simp: has_role_def rb')
  have "role_sound rb' r" using rbac_okD(1) [OF assms(1), of old] got valid
    by (auto simp: role_sound_def rb' r validate_display_name_def split: if_splits)
  moreover have "role_sound rb' s" if "s \<in> set (rb_roles rb)" for s using rbac_okD(1) [OF assms(1) that] by (simp add: role_sound_def rb')
  ultimately have "\<forall>s \<in> set (map ?h (rb_roles rb)). role_sound rb' s" by auto
  then have "\<forall>s \<in> set (rb_roles rb'). role_sound rb' s" unfolding rb' by simp
  moreover have "\<forall>p \<in> set (rb_delegations rb'). delegation_sound rb' p"
    using rbac_okD(2) [OF assms(1)] roles by (simp add: delegation_sound_def) (simp add: rb')
  moreover have "\<forall>g \<in> set (rb_grants rb'). grant_sound rb' g"
  proof
    fix g assume "g \<in> set (rb_grants rb')"
    then have "grant_sound rb g" using rbac_okD(3) [OF assms(1)] by (simp add: rb')
    then show "grant_sound rb' g" by (rule grant_sound_frame) (simp_all add: roles, simp_all add: rb')
  qed
  moreover have "map ro_id (map ?h (rb_roles rb)) = map ro_id (rb_roles rb)"
      "map (\<lambda>r. (ro_project r, ro_key r)) (map ?h (rb_roles rb)) = map (\<lambda>r. (ro_project r, ro_key r)) (rb_roles rb)"
    by (rule map_key_update, use same in force)+
  then have "rbac_keys rb'" using rbac_okD(4) [OF assms(1)] unfolding rbac_keys_def rb' by (simp del: map_map)
  ultimately show ?thesis by (simp add: rbac_ok_def)
qed

lemma role_delete_keeps:
  assumes "rbac_ok rb" "role_delete org i rb = Inr (u, rb')"
  shows "rbac_ok rb'"
proof -
  from assms(2) obtain r where r: "role_get org i rb = Inr r" and free: "role_unreferenced org r rb = Inr ()"
    and rm: "remove_role org i rb = Inr (u, rb')" by (auto simp: role_delete_def bindE_Inr_iff)
  from rm have rb': "rb' = rb\<lparr>rb_roles := filter (\<lambda>s. \<not> (ro_id s = i \<and> ro_org s = org)) (rb_roles rb)\<rparr>"
    by (auto simp: remove_role_def split: option.splits if_splits)
  note got = role_get_ok [OF r]
  then have owner: "rb_projects rb (ro_project r) = Some org" using assms(1) by (auto simp: rbac_ok_def role_sound_def)
  have only: "s = r" if "s \<in> set (rb_roles rb)" "ro_id s = i" for s
    using key_unique [of ro_id "rb_roles rb" s r] assms(1) got that by (simp add: rbac_ok_def rbac_keys_def)
  have kept: "has_role rb' p k" if "has_role rb p k" "\<not> (p = ro_project r \<and> k = ro_key r)" for p k
    using that only by (auto simp: has_role_def rb')
  have grants: "\<forall>g \<in> set (visible_grants org rb). ug_project g = ro_project r \<longrightarrow> ro_key r \<notin> set (ug_keys g)"
    and delegations: "\<forall>p \<in> set (visible_delegations org rb). pg_project p = ro_project r \<longrightarrow> pg_active p \<longrightarrow> ro_key r \<notin> set (pg_keys p)"
    using free by (auto simp: role_unreferenced_def grants_holding_def delegations_carrying_def filter_empty_conv split: if_splits)
  have "\<forall>s \<in> set (rb_roles rb'). role_sound rb' s" using assms(1) by (auto simp: rbac_ok_def role_sound_def rb')
  moreover have "delegation_sound rb' p" if p: "p \<in> set (rb_delegations rb)" for p
  proof -
    have "pg_granting p = org" if "pg_project p = ro_project r" using assms(1) p that owner by (auto simp: rbac_ok_def delegation_sound_def)
    then have "ro_key r \<notin> set (pg_keys p)" if "pg_project p = ro_project r" "pg_active p"
      using delegations p that by (auto simp: visible_delegations_def)
    moreover have "delegation_sound rb p" using assms(1) p by (simp add: rbac_ok_def)
    ultimately show ?thesis using kept by (auto simp: delegation_sound_def rb')
  qed
  moreover have "grant_sound rb' g" if g: "g \<in> set (rb_grants rb)" for g
  proof -
    have sound: "grant_sound rb g" using assms(1) g by (simp add: rbac_ok_def)
    have "ro_key r \<notin> set (ug_keys g)" if "ug_project g = ro_project r" "ug_via g = None"
    proof -
      have "ug_org g = org" using sound that owner by (simp add: grant_sound_def)
      with grants g that show ?thesis by (auto simp: visible_grants_def)
    qed
    then show ?thesis using kept by (intro grant_sound_frame [OF sound]) (auto simp: rb')
  qed
  moreover have "rbac_keys rb'" using assms(1) by (auto simp: rbac_ok_def rbac_keys_def rb' intro: distinct_filter_map)
  ultimately show ?thesis by (simp add: rbac_ok_def rb')
qed

text \<open>What the triggers leave is a sound row.\<close>

lemma visible_delegations_iff: "p \<in> set (visible_delegations org rb) \<longleftrightarrow> p \<in> set (rb_delegations rb) \<and> (pg_granting p = org \<or> pg_granted p = org)"
  by (auto simp: visible_delegations_def)

lemma delegation_closed_ok:
  assumes "delegation_closed org g rb = Inr ()" "ug_via g = Some d"
  shows "\<exists>p \<in> set (rb_delegations rb). pg_id p = d \<and> pg_active p \<and> pg_granted p = ug_org g \<and> pg_project p = ug_project g \<and>
    set (ug_keys g) \<subseteq> set (pg_keys p) \<and> rb_users rb (ug_user g) = Some (ug_org g)"
proof -
  from assms obtain p where p: "List.find (\<lambda>p. pg_id p = d) (visible_delegations org rb) = Some p"
    by (auto simp: delegation_closed_def split: option.splits)
  then have "p \<in> set (rb_delegations rb)" "pg_id p = d" by (auto dest!: find_Some_in simp: visible_delegations_iff)
  moreover have "pg_active p" "pg_granted p = ug_org g" "pg_project p = ug_project g" "rb_users rb (ug_user g) = Some (ug_org g)"
    "List.find (\<lambda>k. \<not> contains (pg_keys p) k) (ug_keys g) = None"
    using assms p by (auto simp: delegation_closed_def user_is_in_def split: option.splits if_splits)
  ultimately show ?thesis by (auto simp: find_None_all)
qed

lemma grant_roles_exist_ok:
  "grant_roles_exist org g rb = Inr () \<Longrightarrow> ug_via g = None \<Longrightarrow> \<forall>k \<in> set (ug_keys g). has_role rb (ug_project g) k"
  by (fastforce simp: grant_roles_exist_def find_None_all list_ex_iff has_role_def split: option.splits)

lemma grants_update_keeps:
  assumes "rbac_ok rb" "\<forall>g \<in> set gs. grant_sound rb g" "distinct (map ug_id gs)" "distinct (map (\<lambda>g. (ug_user g, ug_project g)) gs)"
  shows "rbac_ok (rb\<lparr>rb_grants := gs\<rparr>)"
  using assms by (simp add: rbac_ok_def rbac_sound_defs rbac_keys_def cong: option.case_cong)

lemma insert_grant_keeps:
  assumes "rbac_ok rb" "insert_grant org g rb = Inr rb'" "distinct (ug_keys g)" "rb_users rb (ug_user g) = Some (ug_org g)"
  shows "rbac_ok rb'"
proof -
  from assms(2) have rb': "rb' = rb\<lparr>rb_grants := rb_grants rb @ [g]\<rparr>" and triggers: "delegation_closed org g rb = Inr ()"
      "grant_org_matches org g rb = Inr ()" "grant_roles_exist org g rb = Inr ()" and row: "ug_org g = org" "ug_keys g \<noteq> []"
    and new: "\<forall>h \<in> set (rb_grants rb). ug_id h \<noteq> ug_id g \<and> \<not> (ug_user h = ug_user g \<and> ug_project h = ug_project g)"
    by (auto simp: insert_grant_def bindE_Inr_iff list_ex_iff split: if_splits)
  have "grant_sound rb g"
  proof (cases "ug_via g")
    case None
    with triggers row assms(3,4) grant_roles_exist_ok [OF triggers(3) None] show ?thesis
      by (auto simp: grant_sound_def grant_org_matches_def split: if_splits)
  next
    case (Some d)
    with delegation_closed_ok [OF triggers(1) Some] row assms(3,4) show ?thesis by (auto simp: grant_sound_def)
  qed
  moreover have "\<forall>g \<in> set (rb_grants rb). grant_sound rb g" "distinct (map ug_id (rb_grants rb))"
      "distinct (map (\<lambda>g. (ug_user g, ug_project g)) (rb_grants rb))"
    using assms(1) by (simp_all add: rbac_ok_def rbac_keys_def)
  ultimately show ?thesis unfolding rb' using assms(1) new by (intro grants_update_keeps) auto
qed

lemma update_grant_keys_keeps:
  assumes "rbac_ok rb" "update_grant_keys org which keys now rb = Inr (g, rb')" "distinct keys"
  shows "rbac_ok rb'"
proof (cases "List.find (\<lambda>g. ug_org g = org \<and> which g) (rb_grants rb)")
  case None
  with assms show ?thesis by (simp add: update_grant_keys_def)
next
  case (Some old)
  let ?new = "old\<lparr>ug_keys := keys, ug_updated := now\<rparr>"
  let ?h = "\<lambda>h. if ug_id h = ug_id old then ?new else h"
  from assms(2) Some have rb': "rb' = rb\<lparr>rb_grants := map ?h (rb_grants rb)\<rparr>" and triggers: "delegation_closed org ?new rb = Inr ()"
      "grant_roles_exist org ?new rb = Inr ()" and "keys \<noteq> []"
    by (auto simp: update_grant_keys_def bindE_Inr_iff Let_def split: if_splits)
  from Some have old: "old \<in> set (rb_grants rb)" by (auto dest: find_Some_in)
  then have sound: "grant_sound rb old" using assms(1) by (simp add: rbac_ok_def)
  have new: "grant_sound rb ?new"
  proof (cases "ug_via old")
    case None
    with sound grant_roles_exist_ok [OF triggers(2)] \<open>keys \<noteq> []\<close> assms(3) show ?thesis by (auto simp: grant_sound_def)
  next
    case (Some d)
    with sound delegation_closed_ok [OF triggers(1), of d] \<open>keys \<noteq> []\<close> assms(3) show ?thesis by (auto simp: grant_sound_def)
  qed
  have only: "h = old" if "h \<in> set (rb_grants rb)" "ug_id h = ug_id old" for h
    using key_unique [of ug_id "rb_grants rb" h old] assms(1) old that by (simp add: rbac_ok_def rbac_keys_def)
  have "map ug_id (map ?h (rb_grants rb)) = map ug_id (rb_grants rb)"
      "map (\<lambda>g. (ug_user g, ug_project g)) (map ?h (rb_grants rb)) = map (\<lambda>g. (ug_user g, ug_project g)) (rb_grants rb)"
    by (rule map_key_update, use only in force)+
  then have "distinct (map ug_id (map ?h (rb_grants rb)))" "distinct (map (\<lambda>g. (ug_user g, ug_project g)) (map ?h (rb_grants rb)))"
    using rbac_keysD(3,4) [OF assms(1)] by (simp_all only:)
  moreover have "\<forall>g \<in> set (map ?h (rb_grants rb)). grant_sound rb g" using assms(1) new by (auto simp: rbac_ok_def)
  ultimately show ?thesis unfolding rb' using assms(1) by (intro grants_update_keeps)
qed

lemma delete_grant_keeps:
  assumes "rbac_ok rb" "delete_grant org which rb = (g, rb')"
  shows "rbac_ok rb'"
proof -
  have "rbac_ok (rb\<lparr>rb_grants := filter P (rb_grants rb)\<rparr>)" for P
    using rbac_okD(3) [OF assms(1)] rbac_keysD(3,4) [OF assms(1)]
    by (intro grants_update_keeps [OF assms(1)]) (auto intro: distinct_filter_map)
  with assms show ?thesis by (auto simp: delete_grant_def split: option.splits)
qed

lemma delegations_update_keeps:
  assumes "rbac_ok rb" "\<forall>p \<in> set ps. delegation_sound rb p" "distinct (map pg_id ps)"
    "distinct (map (\<lambda>p. (pg_project p, pg_granted p)) (filter pg_active ps))"
    and carried: "\<And>p. p \<in> set (rb_delegations rb) \<Longrightarrow>
      \<exists>q \<in> set ps. same_contract p q"
  shows "rbac_ok (rb\<lparr>rb_delegations := ps\<rparr>)"
proof -
  have "grant_sound (rb\<lparr>rb_delegations := ps\<rparr>) g" if "grant_sound rb g" for g
    by (rule grant_sound_mono [OF that]) (use carried in \<open>simp_all add: has_role_def\<close>)
  with assms(1-4) show ?thesis by (simp add: rbac_ok_def role_sound_def delegation_sound_def has_role_def rbac_keys_def)
qed

lemma delegation_create_keeps:
  assumes "rbac_ok rb" "delegation_create org i project granted keys now rb = Inr (p, rb')" "keys \<noteq> []" "sorted keys" "distinct keys"
  shows "rbac_ok rb'"
proof -
  from assms(2) have p: "p = \<lparr>pg_id = i, pg_project = project, pg_granting = org, pg_granted = granted, pg_keys = keys, pg_active = True,
      pg_created = now, pg_revoked = None\<rparr>" and known: "unknown_roles org project keys rb = []"
    and ins: "insert_delegation org p rb = Inr rb'" by (auto simp: delegation_create_def Let_def split: if_splits sum.splits)
  from ins p have rb': "rb' = rb\<lparr>rb_delegations := rb_delegations rb @ [p]\<rparr>" and facts: "rb_projects rb project = Some org" "org \<noteq> granted"
    and new: "\<forall>q \<in> set (rb_delegations rb). pg_id q \<noteq> i \<and> \<not> (pg_project q = project \<and> pg_granted q = granted \<and> pg_active q)"
    by (auto simp: insert_delegation_def list_ex_iff split: if_splits)
  have "\<forall>k \<in> set keys. has_role rb project k"
    using arg_cong [OF known, of set] by (fastforce simp: unknown_roles_def list_ex_iff has_role_def)
  then have "delegation_sound rb p" using assms(3-5) facts by (simp add: delegation_sound_def p)
  moreover have "\<forall>p \<in> set (rb_delegations rb). delegation_sound rb p" "distinct (map pg_id (rb_delegations rb))"
      "distinct (map (\<lambda>p. (pg_project p, pg_granted p)) (filter pg_active (rb_delegations rb)))"
    using assms(1) by (simp_all add: rbac_ok_def rbac_keys_def)
  moreover from this have "\<exists>r \<in> set (rb_delegations rb @ [p]). same_contract q r" if "q \<in> set (rb_delegations rb)" for q
    using that by (intro bexI [of _ q]) simp_all
  ultimately show ?thesis unfolding rb'
  proof (intro delegations_update_keeps [OF assms(1)])
    show "distinct (map pg_id (rb_delegations rb @ [p]))" using rbac_keysD(5) [OF assms(1)] new by (auto simp: p)
    show "distinct (map (\<lambda>p. (pg_project p, pg_granted p)) (filter pg_active (rb_delegations rb @ [p])))"
      using rbac_keysD(6) [OF assms(1)] new by (auto simp: p)
  qed simp_all
qed

lemma delegation_revoke_keeps:
  assumes "rbac_ok rb" "delegation_revoke org project i now rb = Inr (pc, rb')"
  shows "rbac_ok rb'"
proof -
  from assms(2) obtain p where p: "delegation_get org project i rb = Inr p"
    and "rb' = rb \<or> rb' = rb\<lparr>rb_delegations := map (\<lambda>q. if pg_id q = i then p\<lparr>pg_active := False, pg_revoked := Some now\<rparr> else q) (rb_delegations rb)\<rparr>"
    by (auto simp: delegation_revoke_def bindE_Inr_iff Let_def split: if_splits)
  then consider "rb' = rb" | "rb' = rb\<lparr>rb_delegations := map (\<lambda>q. if pg_id q = i then p\<lparr>pg_active := False, pg_revoked := Some now\<rparr> else q) (rb_delegations rb)\<rparr>"
    by blast
  then show ?thesis
  proof cases
    case 2
    let ?h = "\<lambda>q. if pg_id q = i then p\<lparr>pg_active := False, pg_revoked := Some now\<rparr> else q"
    from p have p: "p \<in> set (rb_delegations rb)" "pg_id p = i"
      by (auto simp: delegation_get_def visible_delegations_iff dest!: find_Some_in split: option.splits)
    have only: "q = p" if "q \<in> set (rb_delegations rb)" "pg_id q = i" for q
      using key_unique [of pg_id "rb_delegations rb" q p] assms(1) p that by (simp add: rbac_ok_def rbac_keys_def)
    have "map pg_id (map ?h (rb_delegations rb)) = map pg_id (rb_delegations rb)" by (rule map_key_update) (use p in simp)
    then have "distinct (map pg_id (map ?h (rb_delegations rb)))" using rbac_keysD(5) [OF assms(1)] by (simp only:)
    moreover have "filter pg_active (map ?h qs) = filter (\<lambda>q. pg_id q \<noteq> i \<and> pg_active q) qs" for qs by (induction qs) auto
    then have "distinct (map (\<lambda>p. (pg_project p, pg_granted p)) (filter pg_active (map ?h (rb_delegations rb))))"
      using assms(1) by (auto simp: rbac_ok_def rbac_keys_def distinct_map inj_on_def)
    moreover have "\<forall>q \<in> set (map ?h (rb_delegations rb)). delegation_sound rb q"
      using assms(1) p by (auto simp: rbac_ok_def delegation_sound_def)
    moreover have "\<exists>r \<in> set (map ?h (rb_delegations rb)). same_contract q r" if "q \<in> set (rb_delegations rb)" for q
      using that only [of q] by (intro bexI [of _ "?h q"]) (auto simp: same_contract_def)
    ultimately show ?thesis unfolding 2 by (intro delegations_update_keeps [OF assms(1)]) blast+
  qed (use assms(1) in simp)
qed

lemma owners_update_keeps:
  "rbac_ok rb \<Longrightarrow> distinct (map (\<lambda>(u, s, _). (u, s)) os) \<Longrightarrow> rbac_ok (rb\<lparr>rb_owners := os\<rparr>)"
  by (simp add: rbac_ok_def rbac_sound_defs rbac_keys_def cong: option.case_cong)

lemma add_owner_keeps:
  assumes "rbac_ok rb" "add_owner i user now rb = Inr (t, rb')"
  shows "rbac_ok rb'"
proof -
  from assms(2) have "rb' = rb\<lparr>rb_owners := rb_owners rb @ [(user, i, now)]\<rparr>" "\<forall>(u, s, _) \<in> set (rb_owners rb). \<not> (u = user \<and> s = i)"
    by (auto simp: add_owner_def list_ex_iff split: if_splits)
  moreover from this(2) have "distinct (map (\<lambda>(u, s, _). (u, s)) (rb_owners rb @ [(user, i, now)]))"
    using rbac_keysD(7) [OF assms(1)] by auto
  ultimately show ?thesis using owners_update_keeps [OF assms(1)] by simp
qed

lemma remove_owner_keeps:
  assumes "rbac_ok rb" "remove_owner org i user rb = Inr (u, rb')"
  shows "rbac_ok rb'"
proof -
  from assms(2) have rb': "rb' = rb\<lparr>rb_owners := filter (\<lambda>(u, s, _). \<not> (u = user \<and> s = i)) (rb_owners rb)\<rparr>"
    by (auto simp: remove_owner_def split: if_splits)
  show ?thesis unfolding rb' using rbac_keysD(7) [OF assms(1)] by (intro owners_update_keeps [OF assms(1)] distinct_filter_map)
qed

end
