(* ===== verification/RbacProps.thy ===== *)
theory RbacProps
  imports RbacInv
begin

text \<open>
  What the permission tables promise. Every handler is a step; a chain of steps keeps the tables well formed, a
  revoked project grant never confers anything again, and nobody adds to what they hold themselves. The statement
  that resolves a row to roles (\<open>grantsql\<close>) computes the abstract relation \<open>entitled\<close>.
\<close>

section \<open>Steps\<close>

text \<open>One request of an actor, whatever it asks for and however its transaction ends.\<close>

inductive acts :: "string \<Rightarrow> rbac \<Rightarrow> rbac \<Rightarrow> bool" where
  act_create_role: "acts (re_actor env) rb (snd (snd (create_role env project key name ks rb)))"
| act_update_role: "acts (re_actor env) rb (snd (snd (update_role env project i name ks rb)))"
| act_delete_role: "acts (re_actor env) rb (snd (snd (delete_role env project i rb)))"
| act_grant: "acts (re_actor env) rb (snd (snd (grant_roles_to_user env user project ks rb)))"
| act_replace: "acts (re_actor env) rb (snd (snd (replace_user_grant env user project ks rb)))"
| act_revoke: "acts (re_actor env) rb (snd (snd (revoke_user_grant env user project rb)))"
| act_delegate: "acts (re_actor env) rb (snd (snd (create_project_grant env project granted ks rb)))"
| act_end_delegation: "acts (re_actor env) rb (snd (snd (revoke_project_grant env project i rb)))"
| act_assign: "acts (re_actor env) rb (snd (snd (assign_delegated_roles env c i user ks rb)))"
| act_reassign: "acts (re_actor env) rb (snd (snd (replace_delegated_roles env c i user ks rb)))"
| act_remove: "acts (re_actor env) rb (snd (snd (remove_delegated_roles env c i user rb)))"
| act_appoint: "acts (re_actor env) rb (snd (snd (assign_owner env i user rb)))"
| act_dismiss: "acts (re_actor env) rb (snd (snd (dismiss_owner env i user rb)))"

inductive_cases actsE: "acts a rb rb'"

definition rbac_step :: "rbac \<Rightarrow> rbac \<Rightarrow> bool" where "rbac_step rb rb' \<longleftrightarrow> (\<exists>a. acts a rb rb')"

lemma then_orders_state [simp]: "snd (snd (then_orders os r)) = snd r" "fst (then_orders os r) = fst r"
  by (simp_all add: then_orders_def)

lemma then_orders_ok:
  "then_orders os (in_scope env body rb) = (Inr a, orders, rb') \<longleftrightarrow>
     re_org env \<noteq> [] \<and> re_fault env = TxOk \<and> body rb = Inr (a, rb') \<and> orders = os"
  using in_scope_ok [of env body rb a rb'] by (cases "in_scope env body rb") (auto simp: then_orders_def)

text \<open>
  What holds of the old state and of every state the body of a transaction can produce holds of the state after it.
\<close>

lemma in_scope_keeps:
  assumes "P rb" "\<And>a rb'. body rb = Inr (a, rb') \<Longrightarrow> P rb'"
  shows "P (snd (in_scope env body rb))"
  using in_scope_state [of env body rb] assms by metis

lemma record_event_frame:
  "record_event env kind p rb = Inr rb' \<Longrightarrow>
     rb_roles rb' = rb_roles rb \<and> rb_grants rb' = rb_grants rb \<and> rb_delegations rb' = rb_delegations rb \<and>
     rb_projects rb' = rb_projects rb \<and> rb_users rb' = rb_users rb \<and> (rbac_ok rb' \<longleftrightarrow> rbac_ok rb)"
  by (auto dest!: record_event_ok)

lemma check_repeated_ok: "check_repeated f seen ks = Inr () \<longleftrightarrow> distinct ks \<and> set ks \<inter> set seen = {}"
  by (induction f seen ks rule: check_repeated.induct) auto

lemma repeats_iff [simp]: "repeats xs \<longleftrightarrow> \<not> distinct xs"
  by (induction xs) auto

lemma validate_grant_keys_ok: "validate_grant_keys ks = Inr u \<Longrightarrow> ks \<noteq> [] \<and> distinct ks"
  by (auto simp: validate_grant_keys_def check_repeated_ok split: if_splits)

lemma sorted_keys_ok:
  "delegated_keys ks = Inr ks' \<Longrightarrow> ks' \<noteq> [] \<and> sorted ks' \<and> distinct ks' \<and> set ks' = set ks"
  "delegation_role_keys ks = Inr ks' \<Longrightarrow> ks' \<noteq> [] \<and> sorted ks' \<and> distinct ks' \<and> set ks' = set ks"
  by (auto simp: delegated_keys_def delegation_role_keys_def split: if_splits dest: arg_cong [of _ _ set])

section \<open>The tables stay well formed\<close>

lemma role_create_keeps:
  assumes "rbac_ok rb" "role_create org i project key name ks now rb = Inr (r, rb')"
  shows "rbac_ok rb'"
proof -
  from assms(2) have valid: "validate_role key name ks = Inr ()" and ins: "insert_role org r rb = Inr rb'"
    and r: "r = \<lparr>ro_id = i, ro_project = project, ro_org = org, ro_key = key, ro_name = trim_space name, ro_permissions = ks,
      ro_builtin = False, ro_created = now, ro_updated = now\<rparr>"
    by (auto simp: role_create_def Let_def split: sum.splits if_splits)
  have "rb_projects rb project = Some org" using ins by (auto simp: insert_role_def r split: option.splits if_splits)
  then have "role_sound rb r" using valid by (auto simp: role_sound_def r validate_role_ok validate_display_name_def split: if_splits)
  with insert_role_keeps [OF assms(1) ins] show ?thesis by (simp add: r)
qed

lemma grant_create_keeps:
  assumes "rbac_ok rb" "grant_create org i user project ks now rb = Inr (g, rb')" "rb_users rb user = Some org"
  shows "rbac_ok rb'"
proof -
  from assms(2) have valid: "validate_grant_keys ks = Inr ()" and ins: "insert_grant org g rb = Inr rb'"
    and g: "g = \<lparr>ug_id = i, ug_user = user, ug_project = project, ug_org = org, ug_via = None, ug_keys = ks, ug_created = now, ug_updated = now\<rparr>"
    by (auto simp: grant_create_def bindE_Inr_iff Let_def split: sum.splits if_splits)
  show ?thesis by (rule insert_grant_keeps [OF assms(1) ins]) (use validate_grant_keys_ok [OF valid] assms(3) in \<open>simp_all add: g\<close>)
qed

lemma grant_replace_keeps:
  "rbac_ok rb \<Longrightarrow> grant_replace org user project ks now rb = Inr (g, rb') \<Longrightarrow> rbac_ok rb'"
  by (auto simp: grant_replace_def bindE_Inr_iff split: sum.splits prod.splits option.splits
      dest!: validate_grant_keys_ok intro: update_grant_keys_keeps)

lemma grant_revoke_keeps: "rbac_ok rb \<Longrightarrow> grant_revoke org user project rb = Inr (g, rb') \<Longrightarrow> rbac_ok rb'"
  by (auto simp: grant_revoke_def split: prod.splits option.splits intro: delete_grant_keeps)

lemma delete_grant_frame:
  "rb_users (snd (delete_grant org which rb)) = rb_users rb" "rb_delegations (snd (delete_grant org which rb)) = rb_delegations rb"
  "set (rb_grants (snd (delete_grant org which rb))) \<subseteq> set (rb_grants rb)"
  by (auto simp: delete_grant_def split: option.splits)

lemma assign_delegated_split:
  assumes "assign_delegated org i p user ks now rb = Inr (gs, rb')"
  shows "\<exists>g rb1. insert_grant org g rb1 = Inr rb' \<and> ug_user g = user \<and> ug_keys g = ks \<and>
    (rb1 = rb \<or> rb1 = snd (delete_grant org (\<lambda>g. ug_user g = user \<and> ug_project g = pg_project p) rb))"
proof -
  obtain superseded where rest: "(let rb1 = (if superseded = None then rb
        else snd (delete_grant org (\<lambda>g. ug_user g = user \<and> ug_project g = pg_project p) rb));
      g = \<lparr>ug_id = i, ug_user = user, ug_project = pg_project p, ug_org = pg_granted p, ug_via = Some (pg_id p), ug_keys = ks,
        ug_created = now, ug_updated = now\<rparr> in
      case insert_grant org g rb1 of Inl t \<Rightarrow> Inl (delegated_constraint t) | Inr rb2 \<Rightarrow> Inr ((g, superseded), rb2)) = Inr (gs, rb')"
    using assms unfolding assign_delegated_def bindE_Inr_iff by blast
  define rb1 where rb1: "rb1 = (if superseded = None then rb else snd (delete_grant org (\<lambda>g. ug_user g = user \<and> ug_project g = pg_project p) rb))"
  define g where g: "g = \<lparr>ug_id = i, ug_user = user, ug_project = pg_project p, ug_org = pg_granted p, ug_via = Some (pg_id p), ug_keys = ks,
      ug_created = now, ug_updated = now\<rparr>"
  have "insert_grant org g rb1 = Inr rb'"
    using rest unfolding Let_def rb1 [symmetric] g [symmetric] by (cases "insert_grant org g rb1") simp_all
  then show ?thesis by (intro exI [of _ g] exI [of _ rb1]) (simp add: g rb1)
qed

lemma assign_delegated_keeps:
  assumes "rbac_ok rb" "assign_delegated org i p user ks now rb = Inr (gs, rb')" "rb_users rb user = Some org" "distinct ks"
  shows "rbac_ok rb'"
proof -
  from assign_delegated_split [OF assms(2)] obtain g rb1 where ins: "insert_grant org g rb1 = Inr rb'" "ug_user g = user" "ug_keys g = ks"
    and rb1: "rb1 = rb \<or> rb1 = snd (delete_grant org (\<lambda>g. ug_user g = user \<and> ug_project g = pg_project p) rb)" by blast
  have "rbac_ok rb1" using assms(1) rb1 delete_grant_keeps [OF assms(1) prod.collapse [symmetric]] by auto
  moreover have "ug_org g = org" using ins by (auto simp: insert_grant_def bindE_Inr_iff split: if_splits)
  then have "rb_users rb1 (ug_user g) = Some (ug_org g)" using assms(3) rb1 ins by (auto simp: delete_grant_frame)
  ultimately show ?thesis using ins assms(4) by (intro insert_grant_keeps [OF _ ins(1)]) simp_all
qed

lemma replace_delegated_keeps:
  "rbac_ok rb \<Longrightarrow> replace_delegated org i user ks now rb = Inr (og, rb') \<Longrightarrow> distinct ks \<Longrightarrow> rbac_ok rb'"
  by (auto simp: replace_delegated_def split: sum.splits prod.splits option.splits intro: update_grant_keys_keeps)

lemma remove_delegated_keeps: "rbac_ok rb \<Longrightarrow> remove_delegated org i user rb = Inr (g, rb') \<Longrightarrow> rbac_ok rb'"
  by (auto simp: remove_delegated_def split: prod.splits option.splits intro: delete_grant_keeps)

lemmas rbac_handlers =
  create_role_def update_role_def delete_role_def grant_roles_to_user_def replace_user_grant_def revoke_user_grant_def
  create_project_grant_def revoke_project_grant_def assign_delegated_roles_def replace_delegated_roles_def
  remove_delegated_roles_def assign_owner_def dismiss_owner_def

lemmas rbac_keeps =
  role_create_keeps role_update_keeps role_delete_keeps grant_create_keeps grant_replace_keeps grant_revoke_keeps
  delegation_create_keeps delegation_revoke_keeps assign_delegated_keeps replace_delegated_keeps remove_delegated_keeps
  add_owner_keeps remove_owner_keeps

lemma acts_keeps:
  assumes "acts a rb rb'" "rbac_ok rb"
  shows "rbac_ok rb'"
  using assms
proof cases
  case (act_create_role env project key name ks)
  show ?thesis unfolding act_create_role(2) create_role_def then_orders_state
    by (rule in_scope_keeps [where P = rbac_ok, OF assms(2)])
      (use assms(2) in \<open>auto simp: bindE_Inr_iff dest!: record_event_frame dest: rbac_keeps\<close>)
next
  case (act_update_role env project i name ks)
  show ?thesis unfolding act_update_role(2) update_role_def then_orders_state
    by (rule in_scope_keeps [where P = rbac_ok, OF assms(2)])
      (use assms(2) in \<open>auto simp: bindE_Inr_iff gained_lost_def dest!: record_event_frame dest: rbac_keeps split: if_splits\<close>)
next
  case (act_delete_role env project i)
  show ?thesis unfolding act_delete_role(2) delete_role_def then_orders_state
    by (rule in_scope_keeps [where P = rbac_ok, OF assms(2)])
      (use assms(2) in \<open>auto simp: bindE_Inr_iff dest!: record_event_frame dest: rbac_keeps split: if_splits\<close>)
next
  case (act_grant env user project ks)
  then show ?thesis using assms(2)
    by (auto simp: grant_roles_to_user_def require_user_def bindE_Inr_iff dest!: record_event_frame dest: rbac_keeps
        intro!: in_scope_keeps [where P = rbac_ok] split: sum.splits if_splits)
next
  case (act_replace env user project ks)
  then show ?thesis using assms(2)
    by (auto simp: replace_user_grant_def gained_lost_def bindE_Inr_iff dest!: record_event_frame dest: rbac_keeps
        intro!: in_scope_keeps [where P = rbac_ok] split: sum.splits)
next
  case (act_revoke env user project)
  then show ?thesis using assms(2)
    by (auto simp: revoke_user_grant_def bindE_Inr_iff dest!: record_event_frame dest: rbac_keeps intro!: in_scope_keeps [where P = rbac_ok])
next
  case (act_delegate env project granted ks)
  then show ?thesis using assms(2)
    by (auto simp: create_project_grant_def bindE_Inr_iff dest!: record_event_frame sorted_keys_ok dest: rbac_keeps
        intro!: in_scope_keeps [where P = rbac_ok] split: sum.splits)
next
  case (act_end_delegation env project i)
  then show ?thesis using assms(2)
    by (auto simp: revoke_project_grant_def bindE_Inr_iff dest!: record_event_frame dest: rbac_keeps
        intro!: in_scope_keeps [where P = rbac_ok] split: if_splits)
next
  case (act_assign env c i user ks)
  then show ?thesis using assms(2)
    by (auto simp: assign_delegated_roles_def require_user_def bindE_Inr_iff dest!: record_event_frame sorted_keys_ok dest: rbac_keeps
        intro!: in_scope_keeps [where P = rbac_ok] split: sum.splits if_splits)
next
  case (act_reassign env c i user ks)
  then show ?thesis using assms(2)
    by (auto simp: replace_delegated_roles_def gained_lost_def bindE_Inr_iff dest!: record_event_frame sorted_keys_ok dest: rbac_keeps
        intro!: in_scope_keeps [where P = rbac_ok] split: sum.splits if_splits)
next
  case (act_remove env c i user)
  then show ?thesis using assms(2)
    by (auto simp: remove_delegated_roles_def bindE_Inr_iff dest!: record_event_frame dest: rbac_keeps
        intro!: in_scope_keeps [where P = rbac_ok])
next
  case (act_appoint env i user)
  then show ?thesis using assms(2)
    by (auto simp: assign_owner_def bindE_Inr_iff dest!: record_event_frame dest: rbac_keeps
        intro!: in_scope_keeps [where P = rbac_ok] split: sum.splits if_splits)
next
  case (act_dismiss env i user)
  then show ?thesis using assms(2)
    by (auto simp: dismiss_owner_def bindE_Inr_iff dest!: record_event_frame dest: rbac_keeps
        intro!: in_scope_keeps [where P = rbac_ok])
qed

lemma steps_keep: "rbac_step\<^sup>*\<^sup>* rb rb' \<Longrightarrow> rbac_ok rb \<Longrightarrow> rbac_ok rb'"
  by (induction rule: rtranclp_induct) (auto simp: rbac_step_def dest: acts_keeps)

text \<open>
  C31. The permission tables stay well formed under any requests of any actors, served one after another: every direct grant names roles its project
  has, to a user of the organization that owns the project; every delegated grant is to a user of the organization
  the project grant was made to and stays within what it delegates; an active project grant delegates only existing
  roles of the granting organization's own project; there is one grant per user and project, and one active project
  grant per project and organization. (Requests that overlap are another matter: \<open>role_delete_race\<close> below.)
\<close>

theorem permission_tables_well_formed:
  assumes "rbac_step\<^sup>*\<^sup>* rb rb'" "rbac_ok rb"
  shows "rbac_ok rb'"
  using assms by (rule steps_keep)

section \<open>Who is entitled to what\<close>

text \<open>The specification of the permission tables: a role is held directly, or through an active project grant that delegates it.\<close>

inductive entitled :: "rbac \<Rightarrow> string \<Rightarrow> string \<Rightarrow> string \<Rightarrow> bool" for rb where
  held_directly: "g \<in> set (rb_grants rb) \<Longrightarrow> ug_user g = user \<Longrightarrow> ug_project g = project \<Longrightarrow> ug_via g = None \<Longrightarrow> k \<in> set (ug_keys g) \<Longrightarrow>
    entitled rb user project k"
| held_by_delegation: "g \<in> set (rb_grants rb) \<Longrightarrow> ug_user g = user \<Longrightarrow> ug_project g = project \<Longrightarrow> ug_via g = Some (pg_id p) \<Longrightarrow>
    p \<in> set (rb_delegations rb) \<Longrightarrow> pg_active p \<Longrightarrow> k \<in> set (ug_keys g) \<Longrightarrow> k \<in> set (pg_keys p) \<Longrightarrow> entitled rb user project k"

inductive_cases entitledE: "entitled rb user project k"

lemma find_grant:
  assumes "rbac_ok rb" "g \<in> set (visible_grants org rb)"
  shows "List.find (\<lambda>h. ug_user h = ug_user g \<and> ug_project h = ug_project g) (visible_grants org rb) = Some g"
proof (rule find_unique [OF assms(2)])
  fix h assume "h \<in> set (visible_grants org rb)" "ug_user h = ug_user g \<and> ug_project h = ug_project g"
  with assms show "h = g" using key_unique [OF rbac_keysD(4) [OF assms(1)], of h g] by (auto simp: visible_grants_def)
qed simp

lemma find_delegation:
  assumes "rbac_ok rb" "p \<in> set (visible_delegations org rb)"
  shows "List.find (\<lambda>q. pg_id q = pg_id p) (visible_delegations org rb) = Some p"
proof (rule find_unique [OF assms(2)])
  fix q assume "q \<in> set (visible_delegations org rb)" "pg_id q = pg_id p"
  with assms show "q = p" using key_unique [OF rbac_keysD(5) [OF assms(1)], of q p] by (auto simp: visible_delegations_iff)
qed simp

text \<open>What any tenant computes is something the user is entitled to.\<close>

lemma effective_entitled:
  assumes "k \<in> set (effective_keys org user project rb)"
  shows "entitled rb user project k"
proof -
  from assms obtain g where g: "List.find (\<lambda>g. ug_user g = user \<and> ug_project g = project) (visible_grants org rb) = Some g"
    by (cases "List.find (\<lambda>g. ug_user g = user \<and> ug_project g = project) (visible_grants org rb)") (simp_all add: effective_keys_def)
  then have in_g: "g \<in> set (rb_grants rb)" "ug_user g = user" "ug_project g = project" by (auto dest!: find_Some_in simp: visible_grants_def)
  show ?thesis
  proof (cases "ug_via g")
    case None
    with assms g in_g show ?thesis by (intro entitled.held_directly [of g]) (auto simp: effective_keys_def)
  next
    case (Some d)
    with assms g obtain p where p: "List.find (\<lambda>p. pg_id p = d) (visible_delegations org rb) = Some p" "pg_active p"
      "k \<in> set (pg_keys p)" "k \<in> set (ug_keys g)"
      by (cases "List.find (\<lambda>p. pg_id p = d) (visible_delegations org rb)") (auto simp: effective_keys_def split: if_splits)
    then have "p \<in> set (rb_delegations rb)" "pg_id p = d" by (auto dest!: find_Some_in simp: visible_delegations_iff)
    with p Some in_g show ?thesis by (intro entitled.held_by_delegation [of g rb user project p]) auto
  qed
qed

lemma entitled_effective:
  assumes "rbac_ok rb" "rb_projects rb project = Some org" "entitled rb user project k"
  shows "k \<in> set (effective_keys org user project rb)"
  using assms(3)
proof cases
  case (held_directly g)
  note 1 = this
  have "ug_org g = org" using rbac_okD(3) [OF assms(1) 1(1)] 1 assms(2) by (simp add: grant_sound_def)
  then have "g \<in> set (visible_grants org rb)" using 1 by (simp add: visible_grants_def)
  from find_grant [OF assms(1) this] 1 show ?thesis by (simp add: effective_keys_def)
next
  case (held_by_delegation g p)
  note 2 = this
  have same: "pg_project p = project"
  proof -
    obtain q where "q \<in> set (rb_delegations rb)" "pg_id q = pg_id p" "pg_project q = ug_project g"
      using rbac_okD(3) [OF assms(1) 2(1)] 2 by (auto simp: grant_sound_def)
    with key_unique [OF rbac_keysD(5) [OF assms(1)], of q p] 2 show ?thesis by simp
  qed
  then have granting: "pg_granting p = org" using rbac_okD(2) [OF assms(1) 2(5)] assms(2) by (simp add: delegation_sound_def)
  then have "g \<in> set (visible_grants org rb)" using 2 by (auto simp: visible_grants_def list_ex_iff)
  from find_grant [OF assms(1) this] 2 have "List.find (\<lambda>h. ug_user h = user \<and> ug_project h = project) (visible_grants org rb) = Some g" by simp
  moreover have "List.find (\<lambda>q. pg_id q = pg_id p) (visible_delegations org rb) = Some p"
    using 2 granting by (intro find_delegation [OF assms(1)]) (simp add: visible_delegations_iff)
  ultimately show ?thesis using 2 by (simp add: effective_keys_def)
qed

text \<open>
  C32. The query that resolves roles computes the specification: for the organization that owns a project, as it sees
  the tables, the effective roles of a user in the project are exactly the roles the user is entitled to there,
  directly or through an active project grant, and no tenant ever computes more.
\<close>

theorem effective_roles_exact:
  assumes "rbac_ok rb" "rb_projects rb project = Some org"
  shows "set (effective_keys org user project rb) = {k. entitled rb user project k} \<and>
    set (effective_keys other user project rb) \<subseteq> {k. entitled rb user project k}"
  using entitled_effective [OF assms] by (auto dest: effective_entitled)

text \<open>
  Access crosses organizations only through a delegation: a user entitled to a role of a project holds an existing
  role of it and belongs to the organization that owns the project, or to one to which that organization delegates this
  very role by an active project grant.
\<close>

theorem entitlement_justified:
  assumes "rbac_ok rb" "entitled rb user project k" "rb_projects rb project = Some owner"
  shows "has_role rb project k \<and>
    (rb_users rb user = Some owner \<or>
     (\<exists>p \<in> set (rb_delegations rb). pg_active p \<and> pg_project p = project \<and> pg_granting p = owner \<and>
        rb_users rb user = Some (pg_granted p) \<and> k \<in> set (pg_keys p)))"
  using assms(2)
proof cases
  case (held_directly g)
  note 1 = this
  with rbac_okD(3) [OF assms(1) 1(1)] assms(3) show ?thesis by (auto simp: grant_sound_def)
next
  case (held_by_delegation g p)
  note 2 = this
  obtain q where q: "q \<in> set (rb_delegations rb)" "pg_id q = pg_id p" "pg_project q = project" "rb_users rb user = Some (pg_granted q)"
    using rbac_okD(3) [OF assms(1) 2(1)] 2 by (auto simp: grant_sound_def)
  with key_unique [OF rbac_keysD(5) [OF assms(1)], of q p] 2 have "q = p" by simp
  with q 2 rbac_okD(2) [OF assms(1) 2(5)] assms(3) show ?thesis by (auto simp: delegation_sound_def)
qed

section \<open>Revocation is final, and nobody promotes themselves\<close>

lemma entitled_mono:
  assumes "entitled rb' user project k" "set (rb_grants rb') \<subseteq> set (rb_grants rb)"
    "\<And>p. p \<in> set (rb_delegations rb') \<Longrightarrow> pg_active p \<Longrightarrow> p \<in> set (rb_delegations rb)"
  shows "entitled rb user project k"
  using assms(1)
proof cases
  case (held_directly g)
  note 1 = this then show ?thesis using assms(2) by (intro entitled.held_directly [of g]) auto
next
  case (held_by_delegation g p)
  note 2 = this then show ?thesis using assms(2,3) by (intro entitled.held_by_delegation [of g rb user project p]) auto
qed

lemma role_frames:
  "role_create org i project key name ks now rb = Inr (r, rb') \<Longrightarrow> rb_grants rb' = rb_grants rb \<and> rb_delegations rb' = rb_delegations rb"
  "role_update org i name ks now rb = Inr (r, rb') \<Longrightarrow> rb_grants rb' = rb_grants rb \<and> rb_delegations rb' = rb_delegations rb"
  "role_delete org i rb = Inr (u, rb') \<Longrightarrow> rb_grants rb' = rb_grants rb \<and> rb_delegations rb' = rb_delegations rb"
  "add_owner i user now rb = Inr (t, rb') \<Longrightarrow> rb_grants rb' = rb_grants rb \<and> rb_delegations rb' = rb_delegations rb"
  "remove_owner org i user rb = Inr (u, rb') \<Longrightarrow> rb_grants rb' = rb_grants rb \<and> rb_delegations rb' = rb_delegations rb"
  by (auto simp: role_create_def insert_role_def role_update_def role_delete_def remove_role_def add_owner_def remove_owner_def
      bindE_Inr_iff Let_def split: sum.splits option.splits if_splits)

text \<open>The rows of other users stay as they were.\<close>

definition others_kept :: "string \<Rightarrow> rbac \<Rightarrow> rbac \<Rightarrow> bool" where
  "others_kept user rb rb' \<longleftrightarrow> rb_delegations rb' = rb_delegations rb \<and> (\<forall>g \<in> set (rb_grants rb'). ug_user g \<noteq> user \<longrightarrow> g \<in> set (rb_grants rb))"

lemma others_kept_refl: "others_kept user rb rb"
  by (simp add: others_kept_def)

lemma insert_grant_others: "insert_grant org g rb = Inr rb' \<Longrightarrow> others_kept (ug_user g) rb rb'"
  by (auto simp: insert_grant_def bindE_Inr_iff others_kept_def split: if_splits)

lemma update_grant_others:
  "update_grant_keys org which ks now rb = Inr (go, rb') \<Longrightarrow> (\<And>g. which g \<Longrightarrow> ug_user g = user) \<Longrightarrow> others_kept user rb rb'"
  by (auto simp: update_grant_keys_def bindE_Inr_iff others_kept_def Let_def dest!: find_Some_in split: option.splits if_splits)

lemma delete_grant_others: "delete_grant org which rb = (g, rb') \<Longrightarrow> others_kept user rb rb'"
  by (auto simp: delete_grant_def others_kept_def split: option.splits)

lemma others_kept_trans: "others_kept user rb rb1 \<Longrightarrow> others_kept user rb1 rb2 \<Longrightarrow> others_kept user rb rb2"
  by (auto simp: others_kept_def)

lemma grant_others:
  "grant_create org i user project ks now rb = Inr (g, rb') \<Longrightarrow> others_kept user rb rb'"
  "grant_replace org user project ks now rb = Inr (g, rb') \<Longrightarrow> others_kept user rb rb'"
  "grant_revoke org user project rb = Inr (g, rb') \<Longrightarrow> others_kept user rb rb'"
  "replace_delegated org i user ks now rb = Inr (og, rb') \<Longrightarrow> others_kept user rb rb'"
  "remove_delegated org i user rb = Inr (g, rb') \<Longrightarrow> others_kept user rb rb'"
  by (auto simp: grant_create_def grant_replace_def grant_revoke_def replace_delegated_def remove_delegated_def bindE_Inr_iff Let_def
      dest!: insert_grant_others update_grant_others [where user = user] delete_grant_others [where user = user]
      split: sum.splits prod.splits option.splits if_splits)

lemma assign_delegated_others:
  assumes "assign_delegated org i p user ks now rb = Inr (gs, rb')"
  shows "others_kept user rb rb'"
proof -
  from assign_delegated_split [OF assms] obtain g rb1 where ins: "insert_grant org g rb1 = Inr rb'" "ug_user g = user"
    and rb1: "rb1 = rb \<or> rb1 = snd (delete_grant org (\<lambda>g. ug_user g = user \<and> ug_project g = pg_project p) rb)" by blast
  have "others_kept user rb rb1" using rb1 delete_grant_others [OF prod.collapse [symmetric]] by (auto simp: others_kept_refl)
  then show ?thesis using insert_grant_others [OF ins(1)] ins(2) by (auto intro: others_kept_trans)
qed

lemma delegation_create_others:
  assumes "delegation_create org i project granted ks now rb = Inr (p, rb')"
  shows "rb_grants rb' = rb_grants rb \<and> rb_delegations rb' = rb_delegations rb @ [p] \<and> pg_active p \<and> pg_id p \<notin> pg_id ` set (rb_delegations rb)"
  using assms by (auto simp: delegation_create_def insert_delegation_def list_ex_iff Let_def split: if_splits)

lemma delegation_revoke_others:
  assumes "delegation_revoke org project i now rb = Inr (pc, rb')"
  shows "rb_grants rb' = rb_grants rb \<and> (\<forall>p \<in> set (rb_delegations rb'). pg_active p \<longrightarrow> p \<in> set (rb_delegations rb)) \<and>
    (\<forall>p \<in> set (rb_delegations rb). \<not> pg_active p \<longrightarrow> (\<exists>q \<in> set (rb_delegations rb'). pg_id q = pg_id p \<and> \<not> pg_active q)) \<and>
    (\<exists>q \<in> set (rb_delegations rb'). pg_id q = i \<and> \<not> pg_active q)"
proof -
  from assms obtain p where p: "p \<in> set (rb_delegations rb)" "pg_id p = i"
    and rb': "(\<not> pg_active p \<and> rb' = rb) \<or>
      rb' = rb\<lparr>rb_delegations := map (\<lambda>q. if pg_id q = i then p\<lparr>pg_active := False, pg_revoked := Some now\<rparr> else q) (rb_delegations rb)\<rparr>"
    by (auto simp: delegation_revoke_def delegation_get_def bindE_Inr_iff visible_delegations_iff Let_def
        dest!: find_Some_in split: if_splits option.splits)
  from rb' show ?thesis
  proof
    assume "\<not> pg_active p \<and> rb' = rb" then show ?thesis using p by auto
  next
    assume "rb' = rb\<lparr>rb_delegations := map (\<lambda>q. if pg_id q = i then p\<lparr>pg_active := False, pg_revoked := Some now\<rparr> else q) (rb_delegations rb)\<rparr>"
    note rb' = this
    let ?p = "p\<lparr>pg_active := False, pg_revoked := Some now\<rparr>"
    have "?p \<in> set (rb_delegations rb')" using p by (auto simp: rb' intro!: image_eqI [of _ _ p])
    then have "\<exists>q \<in> set (rb_delegations rb'). pg_id q = i \<and> \<not> pg_active q" using p(2) by (intro bexI [of _ ?p]) simp_all
    moreover have "\<exists>q \<in> set (rb_delegations rb'). pg_id q = pg_id r \<and> \<not> pg_active q" if "r \<in> set (rb_delegations rb)" "\<not> pg_active r" for r
      using that p by (intro bexI [of _ "if pg_id r = i then ?p else r"]) (auto simp: rb')
    moreover have "rb_grants rb' = rb_grants rb" "\<forall>p \<in> set (rb_delegations rb'). pg_active p \<longrightarrow> p \<in> set (rb_delegations rb)"
      using p by (auto simp: rb' split: if_splits)
    ultimately show ?thesis by blast
  qed
qed

definition delegation_over :: "string \<Rightarrow> rbac \<Rightarrow> bool" where
  "delegation_over i rb \<longleftrightarrow> (\<exists>p \<in> set (rb_delegations rb). pg_id p = i \<and> \<not> pg_active p)"

text \<open>Each request leaves the rows of everybody but its subject alone, and the rows of its actor too unless it removes them.\<close>

definition harmless :: "string \<Rightarrow> rbac \<Rightarrow> rbac \<Rightarrow> bool" where
  "harmless a rb rb' \<longleftrightarrow> (rbac_ok rb \<longrightarrow> (\<forall>project k. entitled rb' a project k \<longrightarrow> entitled rb a project k)) \<and>
     (\<forall>i. delegation_over i rb \<longrightarrow> delegation_over i rb')"

lemma harmless_same: "rb_grants rb' = rb_grants rb \<Longrightarrow> rb_delegations rb' = rb_delegations rb \<Longrightarrow> harmless a rb rb'"
  by (auto simp: harmless_def delegation_over_def elim!: entitled_mono)

lemma harmless_refl: "harmless a rb rb"
  by (simp add: harmless_same)

lemma harmless_others:
  assumes "others_kept user rb rb'" "a \<noteq> user"
  shows "harmless a rb rb'"
proof -
  have "entitled rb a project k" if "entitled rb' a project k" for project k
    using that
  proof cases
    case (held_directly g)
    with assms show ?thesis by (intro entitled.held_directly [of g]) (auto simp: others_kept_def)
  next
    case (held_by_delegation g p)
    with assms show ?thesis by (intro entitled.held_by_delegation [of g rb a project p]) (auto simp: others_kept_def)
  qed
  with assms show ?thesis by (auto simp: harmless_def delegation_over_def others_kept_def)
qed

lemma harmless_delete: "delete_grant org which rb = (g, rb') \<Longrightarrow> harmless a rb rb'"
  by (auto simp: harmless_def delegation_over_def delete_grant_def elim!: entitled_mono split: option.splits)

lemma harmless_remove:
  "grant_revoke org user project rb = Inr (g, rb') \<Longrightarrow> harmless a rb rb'"
  "remove_delegated org i user rb = Inr (g, rb') \<Longrightarrow> harmless a rb rb'"
  by (auto simp: grant_revoke_def remove_delegated_def intro: harmless_delete split: prod.splits option.splits)

lemma harmless_delegate:
  assumes "delegation_create org i project granted ks now rb = Inr (p, rb')"
  shows "harmless a rb rb'"
proof -
  note new = delegation_create_others [OF assms]
  have "entitled rb a pr k" if ok: "rbac_ok rb" and "entitled rb' a pr k" for pr k
    using that(2)
  proof cases
    case (held_directly g)
    with new show ?thesis by (intro entitled.held_directly [of g]) auto
  next
    case (held_by_delegation g q)
    then have "grant_sound rb g" using new rbac_okD(3) [OF ok] by simp
    then obtain r where "r \<in> set (rb_delegations rb)" "pg_id r = pg_id q" using held_by_delegation by (auto simp: grant_sound_def)
    then have "q \<noteq> p" using new by (metis image_eqI)
    with held_by_delegation new show ?thesis by (intro entitled.held_by_delegation [of g rb a pr q]) simp_all
  qed
  with new show ?thesis by (auto simp: harmless_def delegation_over_def)
qed

lemma harmless_end: "delegation_revoke org project i now rb = Inr (pc, rb') \<Longrightarrow> harmless a rb rb'"
  by (auto simp: harmless_def delegation_over_def elim!: entitled_mono dest!: delegation_revoke_others)

lemma harmless_event:
  assumes "record_event env kind p rb1 = Inr rb2" "harmless a rb rb1"
  shows "harmless a rb rb2"
proof -
  have "delegation_over i rb2 = delegation_over i rb1" for i using record_event_frame [OF assms(1)] by (simp add: delegation_over_def)
  moreover have "entitled rb1 a project k" if "entitled rb2 a project k" for project k
    using that record_event_frame [OF assms(1)] by (auto elim!: entitled_mono)
  ultimately show ?thesis using assms(2) by (auto simp: harmless_def)
qed

lemma harmless_scope:
  "(\<And>x rb'. body rb = Inr (x, rb') \<Longrightarrow> harmless a rb rb') \<Longrightarrow> harmless a rb (snd (in_scope env body rb))"
  using in_scope_keeps [where P = "harmless a rb"] harmless_refl by metis

lemma harmless_writes:
  "role_create org i project key name ks now rb = Inr (r, rb') \<Longrightarrow> harmless a rb rb'"
  "role_update org i name ks now rb = Inr (r, rb') \<Longrightarrow> harmless a rb rb'"
  "role_delete org i rb = Inr (u, rb') \<Longrightarrow> harmless a rb rb'"
  "add_owner i user now rb = Inr (t, rb') \<Longrightarrow> harmless a rb rb'"
  "remove_owner org i user rb = Inr (u, rb') \<Longrightarrow> harmless a rb rb'"
  "grant_create org i user project ks now rb = Inr (g, rb') \<Longrightarrow> a \<noteq> user \<Longrightarrow> harmless a rb rb'"
  "grant_replace org user project ks now rb = Inr (g, rb') \<Longrightarrow> a \<noteq> user \<Longrightarrow> harmless a rb rb'"
  "replace_delegated org i user ks now rb = Inr (og, rb') \<Longrightarrow> a \<noteq> user \<Longrightarrow> harmless a rb rb'"
  "assign_delegated org i p user ks now rb = Inr (gs, rb') \<Longrightarrow> a \<noteq> user \<Longrightarrow> harmless a rb rb'"
  by (blast dest: role_frames grant_others assign_delegated_others intro: harmless_same harmless_others)+

lemmas harmless_all = harmless_writes harmless_remove harmless_delegate harmless_end harmless_event harmless_refl

lemma acts_harmless:
  assumes "acts a rb rb'"
  shows "harmless a rb rb'"
  using assms
proof cases
  case (act_create_role env project key name ks)
  then show ?thesis
    by (auto simp: create_role_def bindE_Inr_iff intro!: harmless_scope) (blast intro: harmless_all)+
next
  case (act_update_role env project i name ks)
  then show ?thesis
    by (auto simp: update_role_def gained_lost_def bindE_Inr_iff intro!: harmless_scope split: if_splits) (blast intro: harmless_all)+
next
  case (act_delete_role env project i)
  then show ?thesis
    by (auto simp: delete_role_def bindE_Inr_iff intro!: harmless_scope split: if_splits) (blast intro: harmless_all)+
next
  case (act_grant env user project ks)
  then show ?thesis
    by (auto simp: grant_roles_to_user_def refuse_self_def bindE_Inr_iff intro!: harmless_scope split: sum.splits if_splits) (blast intro: harmless_all)+
next
  case (act_replace env user project ks)
  then show ?thesis
    by (auto simp: replace_user_grant_def refuse_self_def gained_lost_def bindE_Inr_iff intro!: harmless_scope split: sum.splits if_splits) (blast intro: harmless_all)+
next
  case (act_revoke env user project)
  then show ?thesis
    by (auto simp: revoke_user_grant_def bindE_Inr_iff intro!: harmless_scope) (blast intro: harmless_all)+
next
  case (act_delegate env project granted ks)
  then show ?thesis
    by (auto simp: create_project_grant_def bindE_Inr_iff intro!: harmless_scope split: sum.splits) (blast intro: harmless_all)+
next
  case (act_end_delegation env project i)
  then show ?thesis
    by (auto simp: revoke_project_grant_def bindE_Inr_iff intro!: harmless_scope split: if_splits) (blast intro: harmless_all)+
next
  case (act_assign env c i user ks)
  then show ?thesis
    by (auto simp: assign_delegated_roles_def refuse_self_def bindE_Inr_iff intro!: harmless_scope split: sum.splits if_splits) (blast intro: harmless_all)+
next
  case (act_reassign env c i user ks)
  then show ?thesis
    by (auto simp: replace_delegated_roles_def refuse_self_def gained_lost_def bindE_Inr_iff intro!: harmless_scope split: sum.splits if_splits) (blast intro: harmless_all)+
next
  case (act_remove env c i user)
  then show ?thesis
    by (auto simp: remove_delegated_roles_def bindE_Inr_iff intro!: harmless_scope) (blast intro: harmless_all)+
next
  case (act_appoint env i user)
  then show ?thesis
    by (auto simp: assign_owner_def refuse_self_def bindE_Inr_iff intro!: harmless_scope split: sum.splits if_splits) (blast intro: harmless_all)+
next
  case (act_dismiss env i user)
  then show ?thesis
    by (auto simp: dismiss_owner_def bindE_Inr_iff intro!: harmless_scope) (blast intro: harmless_all)+
qed

text \<open>
  C33. Nobody promotes themselves: whatever a user asks in a request of the role, grant and project-grant endpoints, and whatever manager
  roles the user holds, the user is entitled to no role afterwards that was not held before.
\<close>

theorem no_self_promotion:
  assumes "acts a rb rb'" "rbac_ok rb" "entitled rb' a project k"
  shows "entitled rb a project k"
  using acts_harmless [OF assms(1)] assms(2,3) by (auto simp: harmless_def)

lemma revoked_stays_over:
  assumes "rbac_ok rb" "revoke_project_grant env project i rb = (Inr (), orders, rb1)" "rbac_step\<^sup>*\<^sup>* rb1 rb2"
  shows "rbac_ok rb2 \<and> delegation_over i rb2"
proof
  have "acts (re_actor env) rb rb1" using act_end_delegation [of env rb project i] assms(2) by simp
  then have ok1: "rbac_ok rb1" using acts_keeps assms(1) by blast
  from assms(2) obtain pc rb0 where "delegation_revoke (re_org env) project i (re_now env) rb = Inr (pc, rb0)"
      "rb_delegations rb1 = rb_delegations rb0"
    by (auto simp: revoke_project_grant_def then_orders_ok bindE_Inr_iff dest!: record_event_frame split: if_splits)
  then have "delegation_over i rb1" by (auto simp: delegation_over_def dest!: delegation_revoke_others)
  with assms(3) show "delegation_over i rb2"
  proof (induction rule: rtranclp_induct)
    case (step u v)
    then obtain a where "acts a u v" by (auto simp: rbac_step_def)
    from acts_harmless [OF this] step.IH step.prems show ?case by (simp add: harmless_def)
  qed
  show "rbac_ok rb2" using assms(3) ok1 by (rule steps_keep)
qed

lemma over_confers_nothing:
  assumes "rbac_ok rb" "delegation_over i rb" "g \<in> set (rb_grants rb)" "ug_via g = Some i"
  shows "\<not> entitled rb (ug_user g) (ug_project g) k" "effective_keys org (ug_user g) (ug_project g) rb = []"
proof -
  have none: "\<not> entitled rb (ug_user g) (ug_project g) k" for k
  proof
    assume "entitled rb (ug_user g) (ug_project g) k"
    then show False
    proof cases
      case (held_directly h)
      with key_unique [OF rbac_keysD(4) [OF assms(1)], of h g] assms(3,4) show ?thesis by simp
    next
      case (held_by_delegation h p)
      with key_unique [OF rbac_keysD(4) [OF assms(1)], of h g] assms(3,4) have "pg_id p = i" by simp
      moreover from assms(2) obtain q where "q \<in> set (rb_delegations rb)" "pg_id q = i" "\<not> pg_active q" by (auto simp: delegation_over_def)
      ultimately show ?thesis using held_by_delegation(5,6) key_unique [OF rbac_keysD(5) [OF assms(1)], of q p] by simp
    qed
  qed
  then show "\<not> entitled rb (ug_user g) (ug_project g) k" .
  from none show "effective_keys org (ug_user g) (ug_project g) rb = []"
    using effective_entitled by (metis list.set_intros(1) neq_Nil_conv)
qed

text \<open>
  The end of a project grant is final and complete: once it is revoked, whatever is requested afterwards, no tenant
  computes any role for any user through it, whatever rows still name it.
\<close>

theorem revocation_ends_delegation:
  assumes "rbac_ok rb" "revoke_project_grant env project i rb = (Inr (), orders, rb1)" "rbac_step\<^sup>*\<^sup>* rb1 rb2"
    and "g \<in> set (rb_grants rb2)" "ug_via g = Some i"
  shows "\<not> entitled rb2 (ug_user g) (ug_project g) k \<and> effective_keys org (ug_user g) (ug_project g) rb2 = []"
  using revoked_stays_over [OF assms(1-3)] over_confers_nothing assms(4,5) by blast

section \<open>A run\<close>

text \<open>Organization \<open>o1\<close> owns project \<open>p\<close> and delegates its role \<open>editor\<close> to \<open>o2\<close>, which gives it to its user \<open>u2\<close>; then the delegation ends.\<close>

definition demo_rbac :: rbac where
  "demo_rbac = \<lparr>rb_projects = [''p'' \<mapsto> ''o1''], rb_users = [''a1'' \<mapsto> ''o1'', ''u1'' \<mapsto> ''o1'', ''a2'' \<mapsto> ''o2'', ''u2'' \<mapsto> ''o2''],
     rb_accepting = (\<lambda>_. True), rb_roles = [], rb_grants = [], rb_delegations = [], rb_owners = [], rb_log = []\<rparr>"

definition demo_request :: "string \<Rightarrow> string \<Rightarrow> string \<Rightarrow> rbac_env" where
  "demo_request org actor i = \<lparr>re_fault = TxOk, re_stored = True, re_org = org, re_actor = actor, re_now = 0, re_id = i\<rparr>"

definition demo_admin :: caller where
  "demo_admin = \<lparr>cl_user = ''a2'', cl_client = ''c'', cl_org = ''o2'', cl_session = ''s'', cl_grants = [\<lparr>mg_role = OrgAdmin, mg_scope = ''o2''\<rparr>]\<rparr>"

definition demo_role :: role where
  "demo_role = \<lparr>ro_id = ''r1'', ro_project = ''p'', ro_org = ''o1'', ro_key = ''editor'', ro_name = ''Editor'', ro_permissions = [''doc:write''],
     ro_builtin = False, ro_created = 0, ro_updated = 0\<rparr>"

definition demo_delegation :: project_grant where
  "demo_delegation = \<lparr>pg_id = ''d1'', pg_project = ''p'', pg_granting = ''o1'', pg_granted = ''o2'', pg_keys = [''editor''],
     pg_active = True, pg_created = 0, pg_revoked = None\<rparr>"

definition demo_grant :: user_grant where
  "demo_grant = \<lparr>ug_id = ''g1'', ug_user = ''u2'', ug_project = ''p'', ug_org = ''o2'', ug_via = Some ''d1'', ug_keys = [''editor''],
     ug_created = 0, ug_updated = 0\<rparr>"

definition demo_with_role :: rbac where "demo_with_role = demo_rbac\<lparr>rb_roles := [demo_role]\<rparr>"

definition demo_assigned :: rbac where
  "demo_assigned = demo_with_role\<lparr>rb_delegations := [demo_delegation], rb_grants := [demo_grant]\<rparr>"

definition demo_ended :: rbac where
  "demo_ended = snd (snd (revoke_project_grant (demo_request ''o1'' ''a1'' []) ''p'' ''d1'' demo_assigned))"

definition demo_later :: "rbac \<Rightarrow> rbac" where
  "demo_later rb = snd (snd (grant_roles_to_user (demo_request ''o1'' ''u2'' ''g2'') ''u1'' ''p'' [''editor''] rb))"

lemma demo_acts: "acts ''u2'' rb (demo_later rb)"
  using act_grant [of "demo_request ''o1'' ''u2'' ''g2''" rb "''u1''" "''p''" "[''editor'']"]
  by (simp add: demo_later_def demo_request_def)

lemma demo_run: "rbac_step\<^sup>*\<^sup>* rb (demo_later rb)"
proof -
  have "rbac_step rb (demo_later rb)" using demo_acts by (auto simp: rbac_step_def)
  then show ?thesis by (rule r_into_rtranclp)
qed

lemma demo_tables: "rb_grants demo_assigned = [demo_grant]" "rb_delegations demo_assigned = [demo_delegation]"
  by (simp_all add: demo_assigned_def)

lemma demo_role_valid: "validate_key ''editor'' = Inr ()" "validate_permission_keys [''doc:write''] = Inr ()"
  by code_simp+

lemma demo_assigned_ok: "rbac_ok demo_assigned"
  by (simp add: rbac_ok_def rbac_keys_def rbac_sound_defs demo_assigned_def demo_with_role_def demo_rbac_def demo_role_def demo_delegation_def
    demo_grant_def demo_role_valid max_display_name_length_def)

lemma permission_tables_well_formed_witness:
  "rbac_ok (demo_later demo_assigned) \<and> length (rb_grants (demo_later demo_assigned)) = 2"
proof -
  have "length (rb_grants (demo_later demo_assigned)) = 2" by code_simp
  with permission_tables_well_formed [OF demo_run demo_assigned_ok] show ?thesis by simp
qed

lemma effective_roles_exact_witness: "entitled demo_assigned ''u2'' ''p'' ''editor'' \<and> \<not> entitled demo_assigned ''u1'' ''p'' ''editor''"
proof -
  have "rb_projects demo_assigned ''p'' = Some ''o1''" by code_simp
  note exact = effective_roles_exact [OF demo_assigned_ok this, THEN conjunct1]
  have "effective_keys ''o1'' ''u2'' ''p'' demo_assigned = [''editor'']" "effective_keys ''o1'' ''u1'' ''p'' demo_assigned = []" by code_simp+
  with exact [of "''u2''"] exact [of "''u1''"] show ?thesis by auto
qed

lemma demo_entitled: "entitled demo_assigned ''u2'' ''p'' ''editor''"
  using entitled.held_by_delegation [of "hd (rb_grants demo_assigned)" demo_assigned "''u2''" "''p''"
    "hd (rb_delegations demo_assigned)" "''editor''"] by (simp add: demo_tables demo_grant_def demo_delegation_def)

lemma entitlement_justified_witness:
  "has_role demo_assigned ''p'' ''editor'' \<and> (\<exists>p \<in> set (rb_delegations demo_assigned). pg_granted p = ''o2'' \<and> ''editor'' \<in> set (pg_keys p))"
proof -
  have "rb_projects demo_assigned ''p'' = Some ''o1''" "rb_users demo_assigned ''u2'' = Some ''o2''" by code_simp+
  with entitlement_justified [OF demo_assigned_ok demo_entitled this(1)] show ?thesis by auto
qed

lemma demo_later_grants: "length (rb_grants (demo_later demo_assigned)) = 2" "hd (rb_grants (demo_later demo_assigned)) = hd (rb_grants demo_assigned)"
  by code_simp+

lemma demo_later_delegations: "rb_delegations (demo_later demo_assigned) = [hd (rb_delegations demo_assigned)]"
  by code_simp

lemma first_of_two: "length xs = 2 \<Longrightarrow> hd xs \<in> set xs"
  by (cases xs) simp_all

lemma no_self_promotion_witness:
  "length (rb_grants (demo_later demo_assigned)) = 2 \<and> entitled demo_assigned ''u2'' ''p'' ''editor''"
proof -
  have "hd (rb_grants demo_assigned) \<in> set (rb_grants (demo_later demo_assigned))"
    using first_of_two [OF demo_later_grants(1)] by (simp add: demo_later_grants(2))
  then have "entitled (demo_later demo_assigned) ''u2'' ''p'' ''editor''"
    using entitled.held_by_delegation [of "hd (rb_grants demo_assigned)" "demo_later demo_assigned" "''u2''" "''p''"
      "hd (rb_delegations demo_assigned)" "''editor''"] by (simp add: demo_later_delegations demo_tables demo_grant_def demo_delegation_def)
  from no_self_promotion [OF demo_acts demo_assigned_ok this] demo_later_grants show ?thesis by simp
qed

lemma demo_end: "revoke_project_grant (demo_request ''o1'' ''a1'' []) ''p'' ''d1'' demo_assigned = (Inr (), [BumpGrant ''d1''], demo_ended)"
proof -
  have "fst (revoke_project_grant (demo_request ''o1'' ''a1'' []) ''p'' ''d1'' demo_assigned) = Inr ()"
    "fst (snd (revoke_project_grant (demo_request ''o1'' ''a1'' []) ''p'' ''d1'' demo_assigned)) = [BumpGrant ''d1'']" by code_simp+
  then show ?thesis by (simp add: demo_ended_def prod_eq_iff)
qed

lemma revocation_ends_delegation_witness:
  "length (rb_grants (demo_later demo_ended)) = 2 \<and> \<not> entitled (demo_later demo_ended) ''u2'' ''p'' ''editor''"
proof -
  have "hd (rb_grants (demo_later demo_ended)) = hd (rb_grants demo_assigned)" and two: "length (rb_grants (demo_later demo_ended)) = 2" by code_simp+
  then have "hd (rb_grants demo_assigned) \<in> set (rb_grants (demo_later demo_ended))" using first_of_two [OF two] by simp
  from revocation_ends_delegation [OF demo_assigned_ok demo_end demo_run this, of "''editor''"] two show ?thesis by (simp add: demo_tables demo_grant_def demo_delegation_def)
qed

section \<open>Two requests at once\<close>

text \<open>
  The statements of \<open>Delete\<close> read and write apart: a grant committed after the counts and before the deletion is left
  with a role that is gone, and holds whatever role is created later under the same key.
\<close>

lemma role_delete_race:
  "case role_get ''o1'' ''r1'' demo_with_role of
     Inr r \<Rightarrow> role_unreferenced ''o1'' r demo_with_role = Inr () \<and>
       (case remove_role ''o1'' ''r1'' (demo_later demo_with_role) of
          Inr (_, rb) \<Rightarrow> rb_roles rb = [] \<and> effective_keys ''o1'' ''u1'' ''p'' rb = [''editor'']
        | Inl _ \<Rightarrow> False)
   | Inl _ \<Rightarrow> False"
  by code_simp

text \<open>
  The rows made through a revoked project grant count as references: the organization that owns the role can
  neither delete it nor remove those rows, which belong to the other organization.
\<close>

lemma revoked_delegation_blocks_delete:
  "fst (delete_role (demo_request ''o1'' ''a1'' []) ''p'' ''r1'' demo_ended) = Inl (RoleInUse 1 0) \<and>
   fst (revoke_user_grant (demo_request ''o1'' ''a1'' []) ''u2'' ''p'' demo_ended) = Inl Missing"
  by code_simp

end
