(* ===== verification/AuthzProps.thy ===== *)
theory AuthzProps
  imports Authz RbacProps
begin

text \<open>
  What the authorization engine guarantees: without a cached input it decides exactly the permission relation of the
  tables; it says the same of a user who does not exist and of one who holds nothing; a cached input is never older than its time to
  live and the length of the read that wrote it; the end of a project grant is seen at the next check. And where it falls
  short: a read that overlaps an invalidation writes the old answer after it.
\<close>

section \<open>The decision\<close>

lemma find_some_iff: "(\<exists>x. List.find P xs = Some x) \<longleftrightarrow> (\<exists>x \<in> set xs. P x)"
  by (induction xs) auto

lemma decide_allows: "ad_allowed (decide_access rq held) \<longleftrightarrow> (\<exists>g \<in> set held. asked_permission rq \<in> set (hr_permissions g))"
  using find_some_iff [of "\<lambda>g. asked_permission rq \<in> set (hr_permissions g)" held]
  by (auto simp: decide_access_def contains_iff split: option.splits)

lemma decide_refuses: "\<not> ad_allowed (decide_access rq held) \<Longrightarrow>
    decide_access rq held = \<lparr>ad_allowed = False, ad_policy = [], ad_reasons = [HoldsNoRoleCarrying (asked_permission rq)]\<rparr>"
  by (auto simp: decide_access_def split: option.splits)

lemma resolved_set: "g \<in> set (resolve_roles defs keys) \<longleftrightarrow>
    hr_key g \<in> set keys \<and> definition_of defs (hr_key g) = Some (hr_permissions g)"
  by (cases g) (auto simp: resolve_roles_def List.map_filter_def image_iff)

text \<open>The permission relation of the tables.\<close>

definition permitted :: "rbac \<Rightarrow> string \<Rightarrow> string \<Rightarrow> string \<Rightarrow> bool" where
  "permitted rb user project permission \<longleftrightarrow>
     (\<exists>r \<in> set (rb_roles rb). ro_project r = project \<and> entitled rb user project (ro_key r) \<and> permission \<in> set (ro_permissions r))"

lemma map_of_reversed: "distinct (map fst xs) \<Longrightarrow> map_of (rev xs) = map_of xs"
  by (rule map_of_inject_set [THEN iffD2]) (simp_all add: rev_map [symmetric])

lemma definitions_of_project:
  assumes "rbac_ok rb"
  shows "definition_of (read_role_definitions org project rb) k = Some ps \<longleftrightarrow>
    (\<exists>r \<in> set (rb_roles rb). ro_org r = org \<and> ro_project r = project \<and> ro_key r = k \<and> ro_permissions r = ps)"
proof -
  let ?rows = "filter (\<lambda>r. ro_project r = project) (visible_roles org rb)"
  have "distinct (map (\<lambda>r. (ro_project r, ro_key r)) ?rows)"
    unfolding visible_roles_def by (intro distinct_filter_map rbac_keysD(2) [OF assms])
  then have "distinct (map ro_key ?rows)" by (auto simp: distinct_map inj_on_def)
  then have d: "distinct (map fst (read_role_definitions org project rb))" by (simp add: read_role_definitions_def comp_def)
  then have "definition_of (read_role_definitions org project rb) k = Some ps \<longleftrightarrow> (k, ps) \<in> set (read_role_definitions org project rb)"
    by (simp add: definition_of_def map_of_reversed map_of_eq_Some_iff)
  also have "\<dots> \<longleftrightarrow> (\<exists>r \<in> set (rb_roles rb). ro_org r = org \<and> ro_project r = project \<and> ro_key r = k \<and> ro_permissions r = ps)"
    by (auto simp: read_role_definitions_def visible_roles_def)
  finally show ?thesis .
qed

section \<open>A check\<close>

definition nothing_cached :: "'s authz_cache \<Rightarrow> time \<Rightarrow> string \<Rightarrow> string \<Rightarrow> string \<Rightarrow> 's \<Rightarrow> bool" where
  "nothing_cached c now org user project st \<longleftrightarrow> cached_role_keys c now org user project st = None \<and> cached_roles c now org project st = None"

definition quiet :: "authz_env \<Rightarrow> bool" where
  "quiet env \<longleftrightarrow> ae_lookup_fault env = TxOk \<and> ae_fault env = TxOk \<and> ae_keys_read env \<and> ae_roles_read env"

lemma project_of_ok: "org \<noteq> [] \<Longrightarrow> ae_lookup_fault env = TxOk \<Longrightarrow> ae_apps env client = Some (org, project) \<Longrightarrow> project_of env org client = Inr project"
  by (simp add: project_of_def with_tenant_def with_scope_def)

lemma project_of_app: "project_of env org client = Inr project \<Longrightarrow> ae_apps env client = Some (org, project) \<and> org \<noteq> []"
  by (auto simp: project_of_def with_tenant_def with_scope_def split: sum.splits option.splits if_splits prod.splits)

text \<open>Every decision is made from keys and definitions that are cached or read now.\<close>

lemma decided_from:
  assumes "check_authorization env c org client rq rb st = (Decided d, log, st')"
  obtains project keys defs where "ae_apps env client = Some (org, project)" "d = decide_access rq (resolve_roles defs keys)"
    "keys = (case cached_role_keys c (ae_asked env) org (ar_subject rq) project st of
       None \<Rightarrow> effective_keys org (ar_subject rq) project rb | Some (ks, _) \<Rightarrow> ks)"
    "defs = (case cached_roles c (ae_asked env) org project st of None \<Rightarrow> read_role_definitions org project rb | Some ds \<Rightarrow> ds)"
proof -
  from assms obtain held exists where held: "held_roles_for env c org client (ar_subject rq) rb st = (Inr (held, exists), st')"
    and d: "d = decide_access rq held"
    by (auto simp: check_authorization_def Let_def split: sum.splits if_splits prod.splits)
  then obtain project where project: "project_of env org client = Inr project"
    by (auto simp: held_roles_for_def split: sum.splits)
  from held project show ?thesis
    by (intro that [of project]) (auto simp: held_roles_for_def fill_inputs_def read_role_keys_def Let_def d dest: project_of_app
      split: option.splits sum.splits prod.splits if_splits)
qed

lemma quiet_decides:
  assumes "quiet env" "org \<noteq> []" "client \<noteq> []" "ae_apps env client = Some (org, project)" "validate_request rq = Inr ()"
  shows "\<exists>d log st'. check_authorization env c org client rq rb st = (Decided d, log, st')"
  using assms project_of_ok [OF assms(2) _ assms(4)]
  by (auto simp: check_authorization_def held_roles_for_def fill_inputs_def read_role_keys_def quiet_def Let_def split: option.splits prod.splits)

text \<open>
  Without a cached input a check reaches a decision, and it allows exactly what the tables permit: a user is allowed when and
  only when the user is entitled to a role of the asking client's project that carries the permission.
\<close>

theorem check_exact:
  assumes "rbac_ok rb" "rb_projects rb project = Some org" "ae_apps env client = Some (org, project)" "org \<noteq> []" "client \<noteq> []"
    and "quiet env" "nothing_cached c (ae_asked env) org (ar_subject rq) project st" "validate_request rq = Inr ()"
  shows "\<exists>d log st'. check_authorization env c org client rq rb st = (Decided d, log, st') \<and>
    (ad_allowed d \<longleftrightarrow> permitted rb (ar_subject rq) project (asked_permission rq))"
proof -
  from quiet_decides [OF assms(6,4,5,3,8), of c rb st] obtain d log st' where run: "check_authorization env c org client rq rb st = (Decided d, log, st')" by blast
  have d: "d = decide_access rq (resolve_roles (read_role_definitions org project rb) (effective_keys org (ar_subject rq) project rb))"
    by (rule decided_from [OF run]) (use assms(3,7) in \<open>simp add: nothing_cached_def\<close>)
  have own: "ro_org r = org" if "r \<in> set (rb_roles rb)" "ro_project r = project" for r
    using rbac_okD(1) [OF assms(1) that(1)] that(2) assms(2) by (simp add: role_sound_def)
  have effective: "k \<in> set (effective_keys org user project rb) \<longleftrightarrow> entitled rb user project k" for user k
    using entitled_effective [OF assms(1,2)] by (auto dest: effective_entitled)
  have "ad_allowed d \<longleftrightarrow> permitted rb (ar_subject rq) project (asked_permission rq)"
  proof
    assume "ad_allowed d"
    then obtain g r where "r \<in> set (rb_roles rb)" "ro_project r = project" "entitled rb (ar_subject rq) project (ro_key r)"
      "asked_permission rq \<in> set (ro_permissions r)"
      by (auto simp: d decide_allows resolved_set definitions_of_project [OF assms(1)] effective)
    then show "permitted rb (ar_subject rq) project (asked_permission rq)" by (auto simp: permitted_def)
  next
    assume "permitted rb (ar_subject rq) project (asked_permission rq)"
    then obtain r where r: "r \<in> set (rb_roles rb)" "ro_project r = project" "entitled rb (ar_subject rq) project (ro_key r)"
      "asked_permission rq \<in> set (ro_permissions r)" by (auto simp: permitted_def)
    let ?g = "\<lparr>hr_key = ro_key r, hr_permissions = ro_permissions r\<rparr>"
    have "?g \<in> set (resolve_roles (read_role_definitions org project rb) (effective_keys org (ar_subject rq) project rb))"
      using r own by (auto simp: resolved_set definitions_of_project [OF assms(1)] effective)
    with r show "ad_allowed d" by (auto simp: d decide_allows intro!: bexI [of _ ?g])
  qed
  with run show ?thesis by blast
qed


lemma effective_of_unknown:
  assumes "rbac_ok rb" "rb_users rb user = None"
  shows "effective_keys org user project rb = []"
proof -
  have "ug_user g \<noteq> user" if "g \<in> set (visible_grants org rb)" for g
    using rbac_okD(3) [OF assms(1), of g] that assms(2) by (auto simp: visible_grants_def grant_sound_def)
  then have "List.find (\<lambda>g. ug_user g = user \<and> ug_project g = project) (visible_grants org rb) = None"
    by (auto simp: find_None_iff)
  then show ?thesis by (simp add: effective_keys_def)
qed

text \<open>
  The answer does not tell who exists: a check of a user nobody knows is answered with the same decision, the same policy and
  the same reasons as any refusal of that permission to a user who does exist.
\<close>

theorem unknown_subject_same_answer:
  assumes "rbac_ok rb" "rb_users rb user = None" "ae_apps env client = Some (org, project)" "org \<noteq> []" "client \<noteq> []"
    and "quiet env" "nothing_cached c (ae_asked env) org user project st" "validate_request (rq\<lparr>ar_subject := user\<rparr>) = Inr ()"
    and "check_authorization env' c' org' client' rq rb' st' = (Decided d, log', w')" "\<not> ad_allowed d"
  shows "\<exists>log w. check_authorization env c org client (rq\<lparr>ar_subject := user\<rparr>) rb st = (Decided d, log, w)"
proof -
  let ?rq = "rq\<lparr>ar_subject := user\<rparr>"
  from quiet_decides [OF assms(6,4,5,3,8), of c rb st] obtain e log w
    where run: "check_authorization env c org client ?rq rb st = (Decided e, log, w)" by blast
  have "e = decide_access ?rq []"
    by (rule decided_from [OF run])
      (use assms(3,7) effective_of_unknown [OF assms(1,2)] in \<open>simp add: nothing_cached_def resolve_roles_def List.map_filter_def\<close>)
  moreover have "d = decide_access ?rq []"
  proof (rule decided_from [OF assms(9)])
    fix keys defs assume "d = decide_access rq (resolve_roles defs keys)"
    with decide_refuses [of rq "resolve_roles defs keys"] assms(10) show ?thesis by (simp add: decide_access_def asked_permission_def)
  qed
  ultimately show ?thesis using run by blast
qed

section \<open>The cache server\<close>

text \<open>The documented behaviour of \<open>INCR\<close> and \<open>EXPIRE\<close>: an increment keeps the time to live of the key, and a new key has none.\<close>

locale authz_server = redis "az_ops az" for az :: "'s authz_redis" +
  assumes incr_new: "az_incr az now k st = (Inr n, st') \<Longrightarrow> rd_contents (az_ops az) st now k = None \<Longrightarrow> now \<le> t \<Longrightarrow>
      n = 1 \<and> rd_contents (az_ops az) st' t k = Some (Blob (Generation 1))"
    and incr_other: "az_incr az now k st = (r, st') \<Longrightarrow> k' \<noteq> k \<Longrightarrow> same_at (rd_contents (az_ops az)) now k' st st'"
    and expire_for: "az_expire az now k ttl st = (b, st') \<Longrightarrow> 0 < ttl \<Longrightarrow> rd_contents (az_ops az) st now k = Some v \<Longrightarrow>
      same_at (rd_contents (az_ops az)) now k st st' \<or> holds_for (rd_contents (az_ops az)) st' now k v ttl"
    and expire_other: "az_expire az now k ttl st = (b, st') \<Longrightarrow> k' \<noteq> k \<Longrightarrow> same_at (rd_contents (az_ops az)) now k' st st'"
begin

lemma get_some: "authz_get (new_authz_cache az) now key st = Some v \<Longrightarrow> rd_contents (az_ops az) st now key = Some (Blob v)"
  by (auto simp: authz_get_def new_authz_cache_def dest!: get split: sum.splits option.splits blob.splits)

lemma put_wrote:
  assumes "now \<le> t" "rd_contents (az_ops az) (authz_put (new_authz_cache az) now key v st) t key' = Some (Blob x)"
  shows "rd_contents (az_ops az) st t key' = Some (Blob x) \<or> key' = key \<and> x = v \<and> t < now + authz_ttl"
proof (cases "key' = key")
  case False
  with assms show ?thesis using set_other
    by (cases "rd_set (az_ops az) now key (Blob v) authz_ttl st") (auto simp: authz_put_def new_authz_cache_def same_at_def)
next
  case True
  obtain r st' where set: "rd_set (az_ops az) now key (Blob v) authz_ttl st = (r, st')" by (rule prod.exhaust)
  have ttl: "0 < authz_ttl" "max authz_ttl millisecond = authz_ttl" by (simp_all add: authz_ttl_def second_def millisecond_def)
  have "same_at (rd_contents (az_ops az)) now key st st' \<or> holds_for (rd_contents (az_ops az)) st' now key (Blob v) authz_ttl"
  proof (cases r)
    case (Inl e)
    show ?thesis by (rule set_err [OF set [unfolded Inl] ttl(1)])
  next
    case (Inr u)
    show ?thesis by (rule disjI2) (rule set_ok [OF set [unfolded Inr] ttl(1)])
  qed
  then show ?thesis
  proof
    assume "same_at (rd_contents (az_ops az)) now key st st'"
    with assms True set show ?thesis by (simp add: authz_put_def new_authz_cache_def same_at_def)
  next
    assume h: "holds_for (rd_contents (az_ops az)) st' now key (Blob v) authz_ttl"
    have now: "rd_contents (az_ops az) st' t key = Some (Blob x)" using assms(2) True set by (simp add: authz_put_def new_authz_cache_def)
    with h assms(1) have "x = v" by (auto simp: holds_for_def)
    moreover have "t < now + authz_ttl"
    proof (rule ccontr)
      assume "\<not> t < now + authz_ttl"
      with h assms(1) now show False by (simp add: holds_for_def ttl(2))
    qed
    ultimately show ?thesis using True by simp
  qed
qed

lemma del_keeps:
  assumes "now \<le> t" "rd_contents (az_ops az) (snd (authz_del (new_authz_cache az) now key st)) t key' = Some x"
  shows "rd_contents (az_ops az) st t key' = Some x"
proof -
  obtain r st' where del: "rd_del (az_ops az) now key st = (r, st')" by (rule prod.exhaust)
  with assms have now: "rd_contents (az_ops az) st' t key' = Some x" by (simp add: authz_del_def new_authz_cache_def)
  show ?thesis
  proof (cases "key' = key")
    case False
    with del_other [OF del this] now assms(1) show ?thesis by (simp add: same_at_def)
  next
    case True
    with now assms(1) del show ?thesis using del_ok del_err by (cases r) (fastforce simp: same_at_def gone_at_def)+
  qed
qed

lemma bump_keeps:
  assumes "now \<le> t" "key \<noteq> generation_key i"
  shows "rd_contents (az_ops az) (snd (invalidate_grant (new_authz_cache az) now i st)) t key = rd_contents (az_ops az) st t key"
proof (cases "i = []")
  case True then show ?thesis by (simp add: invalidate_grant_def new_authz_cache_def)
next
  case False
  obtain r st' where incr: "az_incr az now (generation_key i) st = (r, st')" by (rule prod.exhaust)
  obtain b st2 where expire: "az_expire az now (generation_key i) generation_ttl st' = (b, st2)" by (rule prod.exhaust)
  from incr_other [OF incr assms(2)] expire_other [OF expire assms(2)] assms(1) False show ?thesis
    by (cases r) (simp_all add: invalidate_grant_def new_authz_cache_def incr expire same_at_def)
qed

lemma first_bump:
  assumes "i \<noteq> []" "invalidate_grant (new_authz_cache az) now i st = (True, st')" "rd_contents (az_ops az) st now (generation_key i) = None"
    and "now \<le> t" "t < now + generation_ttl - millisecond"
  shows "rd_contents (az_ops az) st' t (generation_key i) = Some (Blob (Generation 1))"
proof -
  obtain n st1 where incr: "az_incr az now (generation_key i) st = (Inr n, st1)"
    using assms(1,2) by (auto simp: invalidate_grant_def new_authz_cache_def split: prod.splits sum.splits)
  obtain b st2 where expire: "az_expire az now (generation_key i) generation_ttl st1 = (b, st2)" by (rule prod.exhaust)
  have "st' = st2" using assms(1,2) by (simp add: invalidate_grant_def new_authz_cache_def incr expire)
  note one = incr_new [OF incr assms(3), THEN conjunct2]
  have ttl: "0 < generation_ttl" by (simp add: generation_ttl_def hour_def second_def)
  from expire_for [OF expire ttl one [of now]] one [OF assms(4)] assms(4,5) show ?thesis
    unfolding \<open>st' = st2\<close> by (auto simp: same_at_def holds_for_def)
qed

end

section \<open>A concrete server\<close>

type_synonym 'v key_store = "string \<Rightarrow> ('v \<times> time option) option"

definition live_value :: "'v key_store \<Rightarrow> time \<Rightarrow> string \<Rightarrow> 'v option" where
  "live_value st t k =
     (case st k of None \<Rightarrow> None | Some (v, None) \<Rightarrow> Some v | Some (v, Some end) \<Rightarrow> if t < end then Some v else None)"

definition map_redis :: "(time \<Rightarrow> bool) \<Rightarrow> ('v key_store, 'v) redis_ops" where
  "map_redis down =
     \<lparr>rd_contents = live_value,
      rd_get = (\<lambda>now k st. if down now then Inl () else Inr (live_value st now k)),
      rd_set = (\<lambda>now k v ttl st. if down now then (Inl (), st) else (Inr (), st(k \<mapsto> (v, Some (now + ttl))))),
      rd_setnx = (\<lambda>now k v ttl st.
        if down now then (Inl (), st)
        else if live_value st now k = None then (Inr True, st(k \<mapsto> (v, Some (now + ttl)))) else (Inr False, st)),
      rd_getdel = (\<lambda>now k st. if down now then (Inl (), st) else (Inr (live_value st now k), st(k := None))),
      rd_del = (\<lambda>now k st. if down now then (Inl (), st) else (Inr (), st(k := None)))\<rparr>"

definition map_authz :: "(time \<Rightarrow> bool) \<Rightarrow> authz_value blob key_store authz_redis" where
  "map_authz down =
     \<lparr>az_ops = map_redis down,
      az_incr = (\<lambda>now k st.
        if down now then (Inl (), st)
        else case live_value st now k of
          None \<Rightarrow> (Inr 1, st(k \<mapsto> (Blob (Generation 1), None)))
        | Some (Blob (Generation n)) \<Rightarrow> (Inr (n + 1), st(k \<mapsto> (Blob (Generation (n + 1)), snd (the (st k)))))
        | Some _ \<Rightarrow> (Inl (), st)),
      az_expire = (\<lambda>now k ttl st.
        if down now then (Inl (), st)
        else case live_value st now k of
          None \<Rightarrow> (Inr False, st)
        | Some v \<Rightarrow> (Inr True, st(k \<mapsto> (v, Some (now + ttl)))))\<rparr>"

lemmas map_authz_defs = map_authz_def map_redis_def live_value_def holds_for_def same_at_def gone_at_def millisecond_def

interpretation map_redis: redis "map_redis down"
  by unfold_locales (auto simp: map_authz_defs split: option.splits if_splits)

interpretation map_authz: authz_server "map_authz down"
proof -
  have ops: "az_ops (map_authz down) = map_redis down" by (simp add: map_authz_def)
  have other: "same_at live_value now k' st (st(k \<mapsto> v))" if "k' \<noteq> k" for now k' k v and st :: "authz_value blob key_store"
    using that by (simp add: same_at_def live_value_def)
  show "authz_server (map_authz down)"
    unfolding authz_server_def authz_server_axioms_def ops
  proof (intro conjI allI impI map_redis.redis_axioms)
    fix now k st n st' t
    assume "az_incr (map_authz down) now k st = (Inr n, st')" "rd_contents (map_redis down) st now k = None"
    then show "n = 1" "rd_contents (map_redis down) st' t k = Some (Blob (Generation 1))"
      by (auto simp: map_authz_defs split: option.splits if_splits blob.splits authz_value.splits)
  next
    fix now k st r st' k'
    assume "az_incr (map_authz down) now k st = (r, st')" "k' \<noteq> k"
    then show "same_at (rd_contents (map_redis down)) now k' st st'"
      by (auto simp: map_authz_defs split: option.splits if_splits blob.splits authz_value.splits)
  next
    fix now k ttl st b st' v
    assume "az_expire (map_authz down) now k ttl st = (b, st')" "(0::duration) < ttl" "rd_contents (map_redis down) st now k = Some v"
    then show "same_at (rd_contents (map_redis down)) now k st st' \<or> holds_for (rd_contents (map_redis down)) st' now k v ttl"
      by (cases "down now") (auto simp: map_authz_defs split: option.splits if_splits)
  next
    fix now k ttl st b st' k'
    assume "az_expire (map_authz down) now k ttl st = (b, st')" "k' \<noteq> k"
    then show "same_at (rd_contents (map_redis down)) now k' st st'"
      by (auto simp: map_authz_defs split: option.splits if_splits)
  qed
qed

section \<open>Staleness\<close>

text \<open>
  How the cache moves: time passes; a check writes what it read of the database at most \<open>d\<close> before; a change of the
  tables sends its orders, which may fail, or sends none. Identifiers are UUIDs: the keys are injective because they hold no colon.
\<close>

definition colon_free :: "string \<Rightarrow> bool" where
  "colon_free s \<longleftrightarrow> CHR '':'' \<notin> set s"

inductive cache_reach :: "'s authz_redis \<Rightarrow> (time \<Rightarrow> rbac) \<Rightarrow> duration \<Rightarrow> time \<Rightarrow> 's \<Rightarrow> time \<Rightarrow> 's \<Rightarrow> bool"
  for az hist d t0 st0 where
  begin_: "cache_reach az hist d t0 st0 t0 st0"
| wait: "cache_reach az hist d t0 st0 now st \<Longrightarrow> now \<le> later \<Longrightarrow> cache_reach az hist d t0 st0 later st"
| fill_keys: "cache_reach az hist d t0 st0 now st \<Longrightarrow> r \<le> now \<Longrightarrow> now \<le> r + d \<Longrightarrow> colon_free org \<Longrightarrow> colon_free user \<Longrightarrow>
    cache_reach az hist d t0 st0 now
      (put_role_keys (new_authz_cache az) now org user project (effective_keys org user project (hist r)) (via_of org user project (hist r)) st)"
| fill_roles: "cache_reach az hist d t0 st0 now st \<Longrightarrow> r \<le> now \<Longrightarrow> now \<le> r + d \<Longrightarrow> colon_free org \<Longrightarrow>
    cache_reach az hist d t0 st0 now (put_roles (new_authz_cache az) now org project (read_role_definitions org project (hist r)) st)"
| order: "cache_reach az hist d t0 st0 now st \<Longrightarrow> cache_reach az hist d t0 st0 now (snd (run_order (new_authz_cache az) now ord st))"

lemma joined_inj: "colon_free a \<Longrightarrow> colon_free b \<Longrightarrow> a @ CHR '':'' # x = b @ CHR '':'' # y \<longleftrightarrow> a = b \<and> x = y"
proof (induction a arbitrary: b)
  case (Cons c a)
  then show ?case by (cases b) (auto simp: colon_free_def)
qed (case_tac b; auto simp: colon_free_def)

lemma key_simps [simp]:
  "grants_key org user project \<noteq> roles_key org' project'" "roles_key org' project' \<noteq> grants_key org user project"
  "grants_key org user project \<noteq> generation_key i" "roles_key org' project' \<noteq> generation_key i"
  "generation_key i \<noteq> grants_key org user project" "generation_key i \<noteq> roles_key org' project'"
  by (simp_all add: grants_key_def roles_key_def generation_key_def)

lemma grants_key_inj: "colon_free org \<Longrightarrow> colon_free org' \<Longrightarrow> colon_free user \<Longrightarrow> colon_free user' \<Longrightarrow>
    grants_key org user project = grants_key org' user' project' \<longleftrightarrow> org = org' \<and> user = user' \<and> project = project'"
  using joined_inj [of org org'] joined_inj [of user user'] by (simp add: grants_key_def)

lemma roles_key_inj: "colon_free org \<Longrightarrow> colon_free org' \<Longrightarrow> roles_key org project = roles_key org' project' \<longleftrightarrow> org = org' \<and> project = project'"
  using joined_inj [of org org'] by (simp add: roles_key_def)

text \<open>Every input in the cache was read at most \<open>d\<close> and the time to live before it stops being served.\<close>

definition grants_fresh :: "'s authz_redis \<Rightarrow> (time \<Rightarrow> rbac) \<Rightarrow> duration \<Rightarrow> time \<Rightarrow> 's \<Rightarrow> bool" where
  "grants_fresh az hist d now st \<longleftrightarrow>
     (\<forall>t org user project at keys via gen. now \<le> t \<longrightarrow> colon_free org \<longrightarrow> colon_free user \<longrightarrow>
        rd_contents (az_ops az) st t (grants_key org user project) = Some (Blob (CachedGrants at keys via gen)) \<longrightarrow>
        (\<exists>r \<le> now. t < r + d + authz_ttl \<and> keys = effective_keys org user project (hist r)))"

definition roles_fresh :: "'s authz_redis \<Rightarrow> (time \<Rightarrow> rbac) \<Rightarrow> duration \<Rightarrow> time \<Rightarrow> 's \<Rightarrow> bool" where
  "roles_fresh az hist d now st \<longleftrightarrow>
     (\<forall>t org project at defs. now \<le> t \<longrightarrow> colon_free org \<longrightarrow>
        rd_contents (az_ops az) st t (roles_key org project) = Some (Blob (CachedRoles at defs)) \<longrightarrow>
        (\<exists>r \<le> now. t < r + d + authz_ttl \<and> defs = read_role_definitions org project (hist r)))"

definition no_inputs :: "'s authz_redis \<Rightarrow> time \<Rightarrow> 's \<Rightarrow> bool" where
  "no_inputs az now st \<longleftrightarrow>
     (\<forall>t \<ge> now. \<forall>org user project. rd_contents (az_ops az) st t (grants_key org user project) = None \<and>
        rd_contents (az_ops az) st t (roles_key org project) = None)"

context authz_server
begin

lemma order_keeps:
  assumes "now \<le> t" "key = grants_key org user project \<or> key = roles_key org project"
    and "rd_contents (az_ops az) (snd (run_order (new_authz_cache az) now ord st)) t key = Some x"
  shows "rd_contents (az_ops az) st t key = Some x"
proof (cases ord)
  case (BumpGrant i)
  have "key \<noteq> generation_key i" using assms(2) by auto
  from bump_keeps [OF assms(1) this] assms(3) BumpGrant show ?thesis by (simp add: run_order_def)
next
  case (DropGrants o' u' p')
  show ?thesis by (rule del_keeps [OF assms(1)]) (use assms(3) DropGrants in \<open>simp add: run_order_def invalidate_user_def\<close>)
next
  case (DropRoles o' p')
  show ?thesis by (rule del_keeps [OF assms(1)]) (use assms(3) DropRoles in \<open>simp add: run_order_def invalidate_project_roles_def\<close>)
qed

lemma put_roles_keeps:
  assumes "now \<le> t" "rd_contents (az_ops az) (put_roles (new_authz_cache az) now org project defs st) t (grants_key o' u' p') = Some (Blob x)"
  shows "rd_contents (az_ops az) st t (grants_key o' u' p') = Some (Blob x)"
  using put_wrote [OF assms(1) assms(2) [unfolded put_roles_def]] by simp

lemma put_keys_keeps:
  assumes "now \<le> t" "rd_contents (az_ops az) (put_role_keys (new_authz_cache az) now org user project keys via st) t (roles_key o' p') = Some (Blob x)"
  shows "rd_contents (az_ops az) st t (roles_key o' p') = Some (Blob x)"
proof (cases "(if via = [] then 0 else generation (new_authz_cache az) now via st) < 0")
  case True
  with assms(2) show ?thesis by (simp add: put_role_keys_def)
next
  case False
  with assms(2) have "rd_contents (az_ops az) (authz_put (new_authz_cache az) now (grants_key org user project)
      (CachedGrants now keys via (if via = [] then 0 else generation (new_authz_cache az) now via st)) st) t (roles_key o' p') = Some (Blob x)"
    by (simp add: put_role_keys_def)
  from put_wrote [OF assms(1) this] show ?thesis by simp
qed

lemma grants_fresh_frame:
  assumes "grants_fresh az hist d now st"
    and "\<And>t org user project x. now \<le> t \<Longrightarrow> rd_contents (az_ops az) st' t (grants_key org user project) = Some (Blob x) \<Longrightarrow>
      rd_contents (az_ops az) st t (grants_key org user project) = Some (Blob x)"
  shows "grants_fresh az hist d now st'"
  unfolding grants_fresh_def
proof (intro allI impI)
  fix t org user project at keys via gen
  assume a: "now \<le> t" "colon_free org" "colon_free user"
    "rd_contents (az_ops az) st' t (grants_key org user project) = Some (Blob (CachedGrants at keys via gen))"
  from assms(1) [unfolded grants_fresh_def, rule_format, OF a(1-3) assms(2) [OF a(1,4)]]
  show "\<exists>r \<le> now. t < r + d + authz_ttl \<and> keys = effective_keys org user project (hist r)" .
qed

lemma roles_fresh_frame:
  assumes "roles_fresh az hist d now st"
    and "\<And>t org project x. now \<le> t \<Longrightarrow> rd_contents (az_ops az) st' t (roles_key org project) = Some (Blob x) \<Longrightarrow>
      rd_contents (az_ops az) st t (roles_key org project) = Some (Blob x)"
  shows "roles_fresh az hist d now st'"
  unfolding roles_fresh_def
proof (intro allI impI)
  fix t org project at defs
  assume a: "now \<le> t" "colon_free org" "rd_contents (az_ops az) st' t (roles_key org project) = Some (Blob (CachedRoles at defs))"
  from assms(1) [unfolded roles_fresh_def, rule_format, OF a(1,2) assms(2) [OF a(1,3)]]
  show "\<exists>r \<le> now. t < r + d + authz_ttl \<and> defs = read_role_definitions org project (hist r)" .
qed

lemma reach_later: "cache_reach az hist d t0 st0 now st \<Longrightarrow> t0 \<le> now"
  by (induction rule: cache_reach.induct) auto

lemma reach_grants_fresh:
  assumes "cache_reach az hist d t0 st0 now st" "no_inputs az t0 st0"
  shows "grants_fresh az hist d now st"
  using assms
proof (induction rule: cache_reach.induct)
  case begin_
  then show ?case by (simp add: grants_fresh_def no_inputs_def)
next
  case (wait now st later)
  then show ?case unfolding grants_fresh_def by (meson order_trans)
next
  case (fill_keys now st r org user project)
  show ?case
    unfolding grants_fresh_def
  proof (intro allI impI)
    fix t o' u' p' at keys via gen
    assume a: "now \<le> t" "colon_free o'" "colon_free u'"
      "rd_contents (az_ops az) (put_role_keys (new_authz_cache az) now org user project (effective_keys org user project (hist r))
        (via_of org user project (hist r)) st) t (grants_key o' u' p') = Some (Blob (CachedGrants at keys via gen))"
    have "rd_contents (az_ops az) st t (grants_key o' u' p') = Some (Blob (CachedGrants at keys via gen)) \<or>
        grants_key o' u' p' = grants_key org user project \<and> keys = effective_keys org user project (hist r) \<and> t < now + authz_ttl"
    proof (cases "(if via_of org user project (hist r) = [] then 0 else generation (new_authz_cache az) now (via_of org user project (hist r)) st) < 0")
      case True
      with a(4) show ?thesis by (simp add: put_role_keys_def)
    next
      case False
      from put_wrote [OF a(1) a(4) [unfolded put_role_keys_def Let_def if_not_P [OF False]]] show ?thesis by auto
    qed
    then show "\<exists>r \<le> now. t < r + d + authz_ttl \<and> keys = effective_keys o' u' p' (hist r)"
    proof
      assume "rd_contents (az_ops az) st t (grants_key o' u' p') = Some (Blob (CachedGrants at keys via gen))"
      with fill_keys.IH [OF fill_keys.prems] a show ?thesis unfolding grants_fresh_def by blast
    next
      assume "grants_key o' u' p' = grants_key org user project \<and> keys = effective_keys org user project (hist r) \<and> t < now + authz_ttl"
      with grants_key_inj [OF a(2) fill_keys.hyps(4) a(3) fill_keys.hyps(5)]
      have "t < r + d + authz_ttl" "keys = effective_keys o' u' p' (hist r)" using fill_keys.hyps(3) by auto
      with fill_keys.hyps(2) show ?thesis by blast
    qed
  qed
next
  case (fill_roles now st r org project)
  from grants_fresh_frame [OF fill_roles.IH [OF fill_roles.prems] put_roles_keeps] show ?case .
next
  case (order now st ord)
  show ?case by (rule grants_fresh_frame [OF order.IH [OF order.prems]], rule order_keeps [OF _ disjI1 [OF refl]])
qed

lemma reach_roles_fresh:
  assumes "cache_reach az hist d t0 st0 now st" "no_inputs az t0 st0"
  shows "roles_fresh az hist d now st"
  using assms
proof (induction rule: cache_reach.induct)
  case begin_
  then show ?case by (simp add: roles_fresh_def no_inputs_def)
next
  case (wait now st later)
  then show ?case unfolding roles_fresh_def by (meson order_trans)
next
  case (fill_roles now st r org project)
  show ?case
    unfolding roles_fresh_def
  proof (intro allI impI)
    fix t o' p' at defs
    assume a: "now \<le> t" "colon_free o'"
      "rd_contents (az_ops az) (put_roles (new_authz_cache az) now org project (read_role_definitions org project (hist r)) st) t (roles_key o' p') =
        Some (Blob (CachedRoles at defs))"
    from put_wrote [OF a(1) a(3) [unfolded put_roles_def]]
    show "\<exists>r \<le> now. t < r + d + authz_ttl \<and> defs = read_role_definitions o' p' (hist r)"
    proof
      assume "rd_contents (az_ops az) st t (roles_key o' p') = Some (Blob (CachedRoles at defs))"
      with fill_roles.IH [OF fill_roles.prems] a show ?thesis unfolding roles_fresh_def by blast
    next
      assume "roles_key o' p' = roles_key org project \<and> CachedRoles at defs = CachedRoles now (read_role_definitions org project (hist r)) \<and>
        t < now + authz_ttl"
      with roles_key_inj [OF a(2) fill_roles.hyps(4)]
      have "t < r + d + authz_ttl" "defs = read_role_definitions o' p' (hist r)" using fill_roles.hyps(3) by auto
      with fill_roles.hyps(2) show ?thesis by blast
    qed
  qed
next
  case (fill_keys now st r org user project)
  from roles_fresh_frame [OF fill_keys.IH [OF fill_keys.prems] put_keys_keeps] show ?case .
next
  case (order now st ord)
  show ?case by (rule roles_fresh_frame [OF order.IH [OF order.prems]], rule order_keeps [OF _ disjI2 [OF refl]])
qed

lemma served_keys:
  assumes "cache_reach az hist d t0 st0 now st" "no_inputs az t0 st0" "colon_free org" "colon_free user"
    and "cached_role_keys (new_authz_cache az) now org user project st = Some (ks, via)"
  shows "\<exists>r \<le> now. now < r + d + authz_ttl \<and> ks = effective_keys org user project (hist r)"
proof -
  from assms(5) obtain at gen where "authz_get (new_authz_cache az) now (grants_key org user project) st = Some (CachedGrants at ks via gen)"
    by (auto simp: cached_role_keys_def split: option.splits authz_value.splits if_splits)
  from reach_grants_fresh [OF assms(1,2), unfolded grants_fresh_def, rule_format, OF order_refl assms(3,4) get_some [OF this]] show ?thesis .
qed

lemma served_roles:
  assumes "cache_reach az hist d t0 st0 now st" "no_inputs az t0 st0" "colon_free org"
    and "cached_roles (new_authz_cache az) now org project st = Some ds"
  shows "\<exists>r \<le> now. now < r + d + authz_ttl \<and> ds = read_role_definitions org project (hist r)"
proof -
  from assms(4) obtain at where "authz_get (new_authz_cache az) now (roles_key org project) st = Some (CachedRoles at ds)"
    by (auto simp: cached_roles_def split: option.splits authz_value.splits)
  from reach_roles_fresh [OF assms(1,2), unfolded roles_fresh_def, rule_format, OF order_refl assms(3) get_some [OF this]] show ?thesis .
qed

end

text \<open>
  C34. However stale the cache, an allowed answer was justified less than the time to live and the length of one read ago:
  whatever is written to the tables, whichever invalidations are lost or never sent and however checks overlap with writes, each of
  the two inputs of a decision held in the tables within the last thirty seconds and the time a check takes from
  its read to its write.
\<close>

theorem authorization_bounded_staleness:
  assumes "authz_server az" "cache_reach az hist d t0 st0 now st" "no_inputs az t0 st0" "0 \<le> d"
    and "ae_asked env = now" "ae_apps env client = Some (org, project)" "colon_free org" "colon_free (ar_subject rq)"
    and ok: "\<And>t. rbac_ok (hist t)" "\<And>t. rb_projects (hist t) project = Some org"
    and "check_authorization env (new_authz_cache az) org client rq (hist now) st = (Decided a, log, st')" "ad_allowed a"
  shows "\<exists>r1 r2 k. now < r1 + d + authz_ttl \<and> r1 \<le> now \<and> now < r2 + d + authz_ttl \<and> r2 \<le> now \<and>
    entitled (hist r1) (ar_subject rq) project k \<and>
    (\<exists>r \<in> set (rb_roles (hist r2)). ro_project r = project \<and> ro_key r = k \<and> asked_permission rq \<in> set (ro_permissions r))"
proof -
  have pos: "0 < authz_ttl" by (simp add: authz_ttl_def second_def)
  obtain keys defs where a: "a = decide_access rq (resolve_roles defs keys)"
    and keys: "keys = (case cached_role_keys (new_authz_cache az) now org (ar_subject rq) project st of
       None \<Rightarrow> effective_keys org (ar_subject rq) project (hist now) | Some (ks, _) \<Rightarrow> ks)"
    and defs: "defs = (case cached_roles (new_authz_cache az) now org project st of
       None \<Rightarrow> read_role_definitions org project (hist now) | Some ds \<Rightarrow> ds)"
    by (rule decided_from [OF assms(11)]) (use assms(5,6) in auto)
  have "\<exists>r1 \<le> now. now < r1 + d + authz_ttl \<and> keys = effective_keys org (ar_subject rq) project (hist r1)"
  proof (cases "cached_role_keys (new_authz_cache az) now org (ar_subject rq) project st")
    case None
    with keys assms(4) pos show ?thesis by (intro exI [of _ now]) simp
  next
    case (Some p)
    with keys authz_server.served_keys [OF assms(1,2,3,7,8), of project "fst p" "snd p"] show ?thesis by (simp add: case_prod_beta)
  qed
  then obtain r1 where r1: "r1 \<le> now" "now < r1 + d + authz_ttl" "keys = effective_keys org (ar_subject rq) project (hist r1)" by blast
  have "\<exists>r2 \<le> now. now < r2 + d + authz_ttl \<and> defs = read_role_definitions org project (hist r2)"
  proof (cases "cached_roles (new_authz_cache az) now org project st")
    case None
    with defs assms(4) pos show ?thesis by (intro exI [of _ now]) simp
  next
    case (Some ds)
    with defs authz_server.served_roles [OF assms(1,2,3,7), of project ds] show ?thesis by simp
  qed
  then obtain r2 where r2: "r2 \<le> now" "now < r2 + d + authz_ttl" "defs = read_role_definitions org project (hist r2)" by blast
  from assms(12) obtain g where "g \<in> set (resolve_roles defs keys)" and carries: "asked_permission rq \<in> set (hr_permissions g)"
    unfolding a decide_allows by blast
  then have g: "hr_key g \<in> set keys" "definition_of defs (hr_key g) = Some (hr_permissions g)" by (simp_all add: resolved_set)
  from g(1) r1(3) have "entitled (hist r1) (ar_subject rq) project (hr_key g)"
    by (auto dest: effective_entitled)
  moreover have "\<exists>r \<in> set (rb_roles (hist r2)). ro_project r = project \<and> ro_key r = hr_key g \<and> asked_permission rq \<in> set (ro_permissions r)"
    using g(2) carries definitions_of_project [OF ok(1)] unfolding r2(3) by fastforce
  ultimately show ?thesis using r1 r2 by blast
qed

section \<open>The end of a project grant\<close>

context authz_server
begin

lemma bumped_entries_miss:
  assumes "invalidate_grant (new_authz_cache az) now i st = (True, st')" "i \<noteq> []" "rd_contents (az_ops az) st now (generation_key i) = None"
    and "now \<le> t" "t < now + generation_ttl - millisecond"
    and entry: "\<And>at keys via gen. rd_contents (az_ops az) st t (grants_key org user project) = Some (Blob (CachedGrants at keys via gen)) \<Longrightarrow>
      via = i \<and> gen = 0"
  shows "cached_role_keys (new_authz_cache az) t org user project st' = None"
proof (cases "authz_get (new_authz_cache az) t (grants_key org user project) st'")
  case None
  then show ?thesis by (simp add: cached_role_keys_def)
next
  case (Some v)
  show ?thesis
  proof (cases v)
    case (CachedGrants at keys via gen)
    from get_some [OF Some] bump_keeps [OF assms(4), of "grants_key org user project" i st] assms(1) CachedGrants
    have "rd_contents (az_ops az) st t (grants_key org user project) = Some (Blob (CachedGrants at keys via gen))" by simp
    with entry have via: "via = i" "gen = 0" by blast+
    have one: "rd_contents (az_ops az) st' t (generation_key i) = Some (Blob (Generation 1))"
      by (rule first_bump [OF assms(2,1,3-5)])
    have "generation (new_authz_cache az) t i st' \<noteq> 0"
    proof (cases "rd_get (az_ops az) t (generation_key i) st'")
      case (Inr r)
      with get [OF Inr] one show ?thesis by (simp add: generation_def new_authz_cache_def)
    qed (simp add: generation_def new_authz_cache_def)
    with Some CachedGrants via assms(2) show ?thesis by (simp add: cached_role_keys_def)
  qed (use Some in \<open>simp_all add: cached_role_keys_def\<close>)
qed

end


section \<open>A run\<close>

definition demo_cache :: "authz_value blob key_store authz_cache" where
  "demo_cache = new_authz_cache (map_authz (\<lambda>_. False))"

definition demo_check :: "time \<Rightarrow> authz_env" where
  "demo_check t = \<lparr>ae_apps = [''c1'' \<mapsto> (''o1'', ''p'')], ae_asked = t, ae_filled = t, ae_lookup_fault = TxOk, ae_fault = TxOk,
     ae_keys_read = True, ae_roles_read = True\<rparr>"

definition demo_question :: "string \<Rightarrow> authz_request" where
  "demo_question user = \<lparr>ar_subject = user, ar_action = ''write'', ar_type = ''doc''\<rparr>"

definition demo_answer :: authz_decision where
  "demo_answer = \<lparr>ad_allowed = True, ad_policy = ''editor'', ad_reasons = [HoldsRole ''editor'', RoleCarries ''editor'' ''doc:write'']\<rparr>"

lemma demo_question_ok: "validate_request (demo_question ''u2'') = Inr ()" "validate_request (demo_question ''nobody'') = Inr ()"
  by code_simp+

lemma demo_permitted: "permitted demo_assigned ''u2'' ''p'' ''doc:write''"
  using demo_entitled by (simp add: permitted_def demo_assigned_def demo_with_role_def demo_role_def)

lemma demo_quiet: "quiet (demo_check t)" "ae_apps (demo_check t) ''c1'' = Some (''o1'', ''p'')" "ae_asked (demo_check t) = t"
  by (simp_all add: quiet_def demo_check_def)

lemma demo_empty: "nothing_cached demo_cache t org user project Map.empty"
  by (simp add: nothing_cached_def cached_role_keys_def cached_roles_def authz_get_def demo_cache_def new_authz_cache_def map_authz_defs)

lemma check_exact_witness:
  "\<exists>d log st'. check_authorization (demo_check 0) demo_cache ''o1'' ''c1'' (demo_question ''u2'') demo_assigned Map.empty = (Decided d, log, st') \<and> ad_allowed d"
proof -
  have "rb_projects demo_assigned ''p'' = Some ''o1''" by code_simp
  from check_exact [OF demo_assigned_ok this demo_quiet(2) _ _ demo_quiet(1), of demo_cache 0 "demo_question ''u2''" Map.empty]
    demo_empty demo_question_ok(1) demo_permitted
  show ?thesis by (simp add: demo_quiet(3) demo_question_def asked_permission_def)
qed

lemma unknown_subject_same_answer_witness:
  "\<exists>d log st' log' st''. check_authorization (demo_check 0) demo_cache ''o1'' ''c1'' (demo_question ''u1'') demo_assigned Map.empty = (Decided d, log, st') \<and>
    check_authorization (demo_check 0) demo_cache ''o1'' ''c1'' (demo_question ''nobody'') demo_assigned Map.empty = (Decided d, log', st'')"
proof -
  let ?r = "check_authorization (demo_check 0) demo_cache ''o1'' ''c1'' (demo_question ''u1'') demo_assigned Map.empty"
  have "case fst ?r of Decided d \<Rightarrow> \<not> ad_allowed d | _ \<Rightarrow> False" by code_simp
  then obtain d log st' where run: "?r = (Decided d, log, st')" and no: "\<not> ad_allowed d"
    by (cases ?r) (auto split: authz_answer.splits)
  have who: "demo_question ''u1''\<lparr>ar_subject := ''nobody''\<rparr> = demo_question ''nobody''" by (simp add: demo_question_def)
  have "rb_users demo_assigned ''nobody'' = None" by code_simp
  from unknown_subject_same_answer [OF demo_assigned_ok this demo_quiet(2) _ _ demo_quiet(1) demo_empty _ run no]
  show ?thesis using run by (simp add: who demo_question_ok)
qed

lemma demo_ended_ok: "rbac_ok demo_ended"
proof -
  have "acts ''a1'' demo_assigned demo_ended"
    using act_end_delegation [of "demo_request ''o1'' ''a1'' []" demo_assigned "''p''" "''d1''"] by (simp add: demo_ended_def demo_request_def)
  then show ?thesis using demo_assigned_ok by (rule acts_keeps)
qed

definition demo_history :: "time \<Rightarrow> rbac" where
  "demo_history t = (if t < 10 * second then demo_assigned else demo_ended)"

definition demo_served :: "authz_value blob key_store" where
  "demo_served = put_roles demo_cache 0 ''o1'' ''p'' [(''editor'', [''doc:write''])]
     (put_role_keys demo_cache 0 ''o1'' ''u2'' ''p'' [''editor''] ''d1'' Map.empty)"

lemma demo_reads: "effective_keys ''o1'' ''u2'' ''p'' demo_assigned = [''editor'']" "via_of ''o1'' ''u2'' ''p'' demo_assigned = ''d1''"
  "read_role_definitions ''o1'' ''p'' demo_assigned = [(''editor'', [''doc:write''])]"
  by code_simp+

lemma demo_projects: "rb_projects demo_assigned ''p'' = Some ''o1''" "rb_projects demo_ended ''p'' = Some ''o1''"
  by code_simp+

lemma demo_reach: "cache_reach (map_authz (\<lambda>_. False)) demo_history 0 0 Map.empty (20 * second) demo_served"
proof -
  have h: "demo_history 0 = demo_assigned" by (simp add: demo_history_def second_def)
  let ?az = "map_authz (\<lambda>_. False)"
  let ?c = "new_authz_cache ?az"
  have "cache_reach ?az demo_history 0 0 Map.empty 0
      (put_role_keys ?c 0 ''o1'' ''u2'' ''p'' (effective_keys ''o1'' ''u2'' ''p'' (demo_history 0)) (via_of ''o1'' ''u2'' ''p'' (demo_history 0)) Map.empty)"
    by (rule fill_keys [OF begin_]) (simp_all add: colon_free_def)
  then have "cache_reach ?az demo_history 0 0 Map.empty 0 (put_roles ?c 0 ''o1'' ''p'' (read_role_definitions ''o1'' ''p'' (demo_history 0))
      (put_role_keys ?c 0 ''o1'' ''u2'' ''p'' (effective_keys ''o1'' ''u2'' ''p'' (demo_history 0)) (via_of ''o1'' ''u2'' ''p'' (demo_history 0)) Map.empty))"
    by (rule fill_roles) (simp_all add: colon_free_def)
  then have "cache_reach ?az demo_history 0 0 Map.empty 0 demo_served"
    by (simp add: demo_served_def h demo_reads demo_cache_def)
  then show ?thesis by (rule wait) (simp add: second_def)
qed

lemma authorization_bounded_staleness_witness:
  "fst (check_authorization (demo_check (20 * second)) demo_cache ''o1'' ''c1'' (demo_question ''u2'') demo_ended demo_served) = Decided demo_answer \<and>
   (\<exists>r1 > - 10 * second. r1 \<le> 20 * second \<and> (\<exists>k. entitled (demo_history r1) ''u2'' ''p'' k))"
proof -
  let ?r = "check_authorization (demo_check (20 * second)) demo_cache ''o1'' ''c1'' (demo_question ''u2'') demo_ended demo_served"
  have fst: "fst ?r = Decided demo_answer" by code_simp
  then have run: "check_authorization (demo_check (20 * second)) (new_authz_cache (map_authz (\<lambda>_. False))) ''o1'' ''c1'' (demo_question ''u2'')
      (demo_history (20 * second)) demo_served = (Decided demo_answer, fst (snd ?r), snd (snd ?r))"
    by (simp add: prod_eq_iff demo_cache_def demo_history_def second_def)
  have "rbac_ok (demo_history t)" "rb_projects (demo_history t) ''p'' = Some ''o1''" for t
    using demo_assigned_ok demo_ended_ok demo_projects by (simp_all add: demo_history_def)
  from authorization_bounded_staleness [OF map_authz.authz_server_axioms demo_reach _ _ _ demo_quiet(2) _ _ this run]
  have "\<exists>r1 > - 10 * second. r1 \<le> 20 * second \<and> (\<exists>k. entitled (demo_history r1) ''u2'' ''p'' k)"
    by (force simp: no_inputs_def map_authz_defs demo_check_def colon_free_def demo_question_def demo_answer_def authz_ttl_def second_def)
  with fst show ?thesis by blast
qed


text \<open>
  A check reads the roles of a user, the project grant is revoked and the counter raised, and then the check writes what
  it read: under the new generation, so the next checks serve the revoked role from the cache.
\<close>

lemma overlapping_read_restores_access:
  "case read_role_keys ''o1'' ''u2'' ''p'' demo_assigned of (keys, via, _) \<Rightarrow>
     case run_order demo_cache 1 (BumpGrant ''d1'') Map.empty of (landed, st1) \<Rightarrow>
       landed \<and> effective_keys ''o1'' ''u2'' ''p'' demo_ended = [] \<and>
       fst (check_authorization (demo_check 3) demo_cache ''o1'' ''c1'' (demo_question ''u2'') demo_ended
         (put_role_keys demo_cache 2 ''o1'' ''u2'' ''p'' keys via st1)) = Decided demo_answer"
  by code_simp

text \<open>
  Removing a delegated assignment orders nothing of the cache, and removing it through the grants of the user drops
  an entry of the wrong tenant: the checks of the project's client go on allowing what was removed.
\<close>

definition demo_filled :: "authz_value blob key_store" where
  "demo_filled = snd (snd (check_authorization (demo_check 0) demo_cache ''o1'' ''c1'' (demo_question ''u2'') demo_assigned Map.empty))"

definition demo_removal :: "unit rbac_result" where
  "demo_removal = remove_delegated_roles (demo_request ''o2'' ''a2'' []) demo_admin ''d1'' ''u2'' demo_assigned"

definition demo_withdrawal :: "unit rbac_result" where
  "demo_withdrawal = revoke_user_grant (demo_request ''o2'' ''a2'' []) ''u2'' ''p'' demo_assigned"

lemma demo_still_cached: "cached_role_keys demo_cache 1 ''o1'' ''u2'' ''p'' demo_filled = Some ([''editor''], ''d1'')"
  "cached_role_keys demo_cache 1 ''o1'' ''u2'' ''p'' (snd (run_order demo_cache 1 (DropGrants ''o2'' ''u2'' ''p'') demo_filled)) = Some ([''editor''], ''d1'')"
  by code_simp+

lemma demo_removed: "fst demo_removal = Inr ()" "fst (snd demo_removal) = []"
  by code_simp+

lemma demo_removed_keys: "effective_keys ''o1'' ''u2'' ''p'' (snd (snd demo_removal)) = []"
  by code_simp

lemma demo_withdrawn: "fst demo_withdrawal = Inr ()" "fst (snd demo_withdrawal) = [DropGrants ''o2'' ''u2'' ''p'']"
  by code_simp+

lemma demo_withdrawn_keys: "effective_keys ''o1'' ''u2'' ''p'' (snd (snd demo_withdrawal)) = []"
  by code_simp

lemma delegated_removal_not_pushed:
  "fst demo_removal = Inr () \<and> effective_keys ''o1'' ''u2'' ''p'' (snd (snd demo_removal)) = [] \<and>
   fst demo_withdrawal = Inr () \<and> effective_keys ''o1'' ''u2'' ''p'' (snd (snd demo_withdrawal)) = [] \<and>
   (\<forall>order \<in> set (fst (snd demo_removal) @ fst (snd demo_withdrawal)).
      cached_role_keys demo_cache 1 ''o1'' ''u2'' ''p'' (snd (run_order demo_cache 1 order demo_filled)) = Some ([''editor''], ''d1''))"
  by (simp add: demo_removed demo_removed_keys demo_withdrawn demo_withdrawn_keys demo_still_cached)

end
