(* ===== verification/Totp.thy ===== *)
theory Totp
  imports Sha256 RateLimit
begin

text \<open>
  Time-based one-time passwords (\<open>mfa/totp.go\<close>) and the text of recovery codes (\<open>mfa/recovery.go\<close>). Secrets and
  codes are drawn by the caller: the random bytes are an argument. The message authentication code is an argument \<open>mac\<close> of the
  definitions; \<open>hmac_sha1\<close> is the one the code passes, and all that the lemmas need of it is
  that it is twenty bytes long.
\<close>

section \<open>HMAC-SHA1\<close>

type_synonym sha1_state = "u32 \<times> u32 \<times> u32 \<times> u32 \<times> u32"

definition rotl :: "nat \<Rightarrow> u32 \<Rightarrow> u32" where "rotl n x = push_bit n x OR drop_bit (32 - n) x"

fun sha1_schedule :: "nat \<Rightarrow> u32 list \<Rightarrow> u32 list \<Rightarrow> u32 list" where
  "sha1_schedule 0 w out = rev out"
| "sha1_schedule (Suc n) w out =
     (let x = rotl 1 (w ! 2 XOR w ! 7 XOR w ! 13 XOR w ! 15) in sha1_schedule n (x # take 15 w) (x # out))"

definition sha1_mix :: "nat \<Rightarrow> u32 \<Rightarrow> u32 \<Rightarrow> u32 \<Rightarrow> u32" where
  "sha1_mix t b c d =
     (if t < 20 then (b AND c) OR (NOT b AND d)
      else if t < 40 then b XOR c XOR d
      else if t < 60 then (b AND c) OR (b AND d) OR (c AND d)
      else b XOR c XOR d)"

definition sha1_k :: "nat \<Rightarrow> u32" where
  "sha1_k t = (if t < 20 then 0x5a827999 else if t < 40 then 0x6ed9eba1 else if t < 60 then 0x8f1bbcdc else 0xca62c1d6)"

fun sha1_round :: "nat \<times> u32 \<Rightarrow> sha1_state \<Rightarrow> sha1_state" where
  "sha1_round (t, w) (a, b, c, d, e) = (rotl 5 a + sha1_mix t b c d + e + sha1_k t + w, a, rotl 30 b, c, d)"

fun sha1_add :: "sha1_state \<Rightarrow> sha1_state \<Rightarrow> sha1_state" where
  "sha1_add (a, b, c, d, e) (a', b', c', d', e') = (a + a', b + b', c + c', d + d', e + e')"

definition sha1_compress :: "sha1_state \<Rightarrow> u32 list \<Rightarrow> sha1_state" where
  "sha1_compress st blk = sha1_add st (fold sha1_round (zip [0..<80] (blk @ sha1_schedule 64 (rev blk) [])) st)"

fun sha1_blocks :: "nat \<Rightarrow> sha1_state \<Rightarrow> u32 list \<Rightarrow> sha1_state" where
  "sha1_blocks 0 st ws = st"
| "sha1_blocks (Suc n) st ws = sha1_blocks n (sha1_compress st (take 16 ws)) (drop 16 ws)"

fun sha1_digest :: "sha1_state \<Rightarrow> byte list" where
  "sha1_digest (a, b, c, d, e) = concat (map be_bytes [a, b, c, d, e])"

definition sha1 :: "byte list \<Rightarrow> byte list" where
  "sha1 m = (let p = pad m in
     sha1_digest (sha1_blocks (length p div 64) (0x67452301, 0xefcdab89, 0x98badcfe, 0x10325476, 0xc3d2e1f0) (be_words p)))"

definition hmac_sha1 :: "byte list \<Rightarrow> byte list \<Rightarrow> byte list" where
  "hmac_sha1 key m =
     (let k = (if 64 < length key then sha1 key else key); k = k @ replicate (64 - length k) 0 in
      sha1 (map (\<lambda>b. b XOR 0x5c) k @ sha1 (map (\<lambda>b. b XOR 0x36) k @ m)))"

lemma length_sha1_digest [simp]: "length (sha1_digest st) = 20"
  by (cases st rule: sha1_digest.cases) simp

lemma length_hmac_sha1: "length (hmac_sha1 key m) = 20"
  by (simp add: hmac_sha1_def sha1_def Let_def)

section \<open>Codes\<close>

definition totp_digits :: nat where "totp_digits = 6"
definition totp_period :: duration where "totp_period = 30 * second"
definition totp_skew :: int where "totp_skew = 1"
definition totp_secret_bytes :: nat where "totp_secret_bytes = 20"

type_synonym mac = "byte list \<Rightarrow> byte list \<Rightarrow> byte list"

definition be64 :: "64 word \<Rightarrow> byte list" where
  "be64 x = map (\<lambda>i. ucast (drop_bit (8 * i) x)) [7, 6, 5, 4, 3, 2, 1, 0]"

definition pow10 :: "nat \<Rightarrow> u32" where "pow10 n = 10 ^ n"

text \<open>\<open>%0*d\<close>: the decimal digits, filled with zeros to the left.\<close>

definition zero_padded :: "nat \<Rightarrow> nat \<Rightarrow> string" where
  "zero_padded width n = (let ds = digits n in replicate (width - length ds) (CHR ''0'') @ ds)"

definition truncated :: "byte list \<Rightarrow> u32" where
  "truncated mac_sum =
     (let offset = unat (mac_sum ! (length mac_sum - 1) AND 0x0f) in
      push_bit 24 (ucast (mac_sum ! offset) AND 0x7f) OR push_bit 16 (ucast (mac_sum ! (offset + 1))) OR
      push_bit 8 (ucast (mac_sum ! (offset + 2))) OR ucast (mac_sum ! (offset + 3)))"

definition totp_code :: "mac \<Rightarrow> byte list \<Rightarrow> 64 word \<Rightarrow> string" where
  "totp_code mac secret counter = zero_padded totp_digits (unat (truncated (mac secret (be64 counter)) mod pow10 totp_digits))"

definition totp_counter :: "time \<Rightarrow> 64 word" where
  "totp_counter at = word_of_int (unix_sec at) div 30"

text \<open>The loop over the steps \<open>-TOTPSkew\<close> to \<open>TOTPSkew\<close>, which goes on after a match.\<close>

fun scan_steps :: "mac \<Rightarrow> byte list \<Rightarrow> string \<Rightarrow> 64 word list \<Rightarrow> 64 word \<times> bool \<Rightarrow> 64 word \<times> bool" where
  "scan_steps mac secret code [] found = found"
| "scan_steps mac secret code (candidate # cs) found =
     scan_steps mac secret code cs (if totp_code mac secret candidate = code then (candidate, True) else found)"

definition accepted_steps :: "time \<Rightarrow> 64 word list" where
  "accepted_steps at = map (\<lambda>step. totp_counter at + word_of_int step) [- totp_skew..totp_skew]"

definition verify_totp :: "mac \<Rightarrow> byte list \<Rightarrow> string \<Rightarrow> time \<Rightarrow> 64 word \<times> bool" where
  "verify_totp mac secret code at =
     (let code = trim_space code in
      if length code \<noteq> totp_digits then (0, False)
      else scan_steps mac secret code (accepted_steps at) (0, False))"

lemma scan_steps_found:
  "scan_steps mac secret code cs (m, ok) = (counter, True) \<Longrightarrow>
   counter \<in> set cs \<and> totp_code mac secret counter = code \<or> ok \<and> counter = m"
  by (induction cs arbitrary: m ok) (fastforce split: if_splits)+

lemma scan_steps_complete: "snd (scan_steps mac secret code cs (m, ok)) \<longleftrightarrow> ok \<or> (\<exists>c \<in> set cs. totp_code mac secret c = code)"
  by (induction cs arbitrary: m ok) auto

lemma accepted_steps_eq: "accepted_steps at = [totp_counter at - 1, totp_counter at, totp_counter at + 1]"
  by (simp add: accepted_steps_def totp_skew_def upto.simps)

lemma verify_totp_ok:
  assumes "verify_totp mac secret code at = (counter, True)"
  shows "trim_space code = totp_code mac secret counter" "counter \<in> {totp_counter at - 1, totp_counter at, totp_counter at + 1}"
  using assms scan_steps_found [of mac secret "trim_space code" "accepted_steps at" 0 False counter]
  by (auto simp: verify_totp_def Let_def accepted_steps_eq split: if_splits)

section \<open>Recovery codes\<close>

definition recovery_code_bytes :: nat where "recovery_code_bytes = 10"
definition recovery_code_count :: nat where "recovery_code_count = 10"
definition recovery_group :: nat where "recovery_group = 4"

definition b32_digit :: "nat \<Rightarrow> char" where "b32_digit n = ''ABCDEFGHIJKLMNOPQRSTUVWXYZ234567'' ! n"

text \<open>Base 32 without padding: five bits to a digit, the last group filled with zeros.\<close>

definition byte_bits :: "byte \<Rightarrow> bool list" where "byte_bits b = map (\<lambda>i. bit b i) [7, 6, 5, 4, 3, 2, 1, 0]"

definition bits_value :: "bool list \<Rightarrow> nat" where "bits_value bs = foldl (\<lambda>n b. 2 * n + of_bool b) 0 bs"

fun b32_groups :: "bool list \<Rightarrow> nat list" where
  "b32_groups [] = []"
| "b32_groups [a] = [bits_value [a, False, False, False, False]]"
| "b32_groups [a, b] = [bits_value [a, b, False, False, False]]"
| "b32_groups [a, b, c] = [bits_value [a, b, c, False, False]]"
| "b32_groups [a, b, c, d] = [bits_value [a, b, c, d, False]]"
| "b32_groups (a # b # c # d # e # bs) = bits_value [a, b, c, d, e] # b32_groups bs"

definition b32_encode :: "byte list \<Rightarrow> string" where
  "b32_encode bs = map b32_digit (b32_groups (concat (map byte_bits bs)))"

definition encode_totp_secret :: "byte list \<Rightarrow> string" where "encode_totp_secret secret = b32_encode secret"

definition to_upper_char :: "char \<Rightarrow> char" where
  "to_upper_char c = (if is_lower c then char_of (ord_of c - 32) else c)"

text \<open>\<open>FormatRecoveryCode\<close>, whose argument is the encoded code: ASCII.\<close>

fun grouped_from :: "nat \<Rightarrow> string \<Rightarrow> string" where
  "grouped_from i [] = []"
| "grouped_from i (c # s) = (if 0 < i \<and> i mod recovery_group = 0 then [CHR ''-'', c] else [c]) @ grouped_from (Suc i) s"

definition format_recovery_code :: "string \<Rightarrow> string" where
  "format_recovery_code code = grouped_from 0 (map to_upper_char (trim_space code))"

definition new_recovery_code :: "byte list \<Rightarrow> string" where
  "new_recovery_code raw = format_recovery_code (b32_encode raw)"

text \<open>
  \<open>NewRecoveryCodes\<close> draws until it has \<open>count\<close> different codes. The draws are a list; \<open>None\<close> is a batch of no codes or
  a list of draws that is too short, where the code goes on drawing.
\<close>

fun mint_batch :: "nat \<Rightarrow> byte list list \<Rightarrow> string list \<Rightarrow> string list option" where
  "mint_batch 0 draws codes = Some codes"
| "mint_batch (Suc n) [] codes = None"
| "mint_batch (Suc n) (raw # draws) codes =
     (let code = new_recovery_code raw in
      if contains codes code then mint_batch (Suc n) draws codes else mint_batch n draws (codes @ [code]))"

definition new_recovery_codes :: "int \<Rightarrow> byte list list \<Rightarrow> string list option" where
  "new_recovery_codes count draws = (if count \<le> 0 then None else mint_batch (nat count) draws [])"

text \<open>
  What somebody typed is a list of runes, because \<open>strings.ToUpper\<close> reads runes: \<open>upper\<close> is \<open>unicode.ToUpper\<close>, of which
  the lemmas use what it does to ASCII.
\<close>

definition confusable :: "nat \<Rightarrow> nat option" where
  "confusable r = map_of [(48, 79), (49, 73), (56, 66), (57, 71)] r"

definition ascii_upper :: "(nat \<Rightarrow> nat) \<Rightarrow> bool" where
  "ascii_upper upper \<longleftrightarrow> (\<forall>r < 128. upper r = (if 97 \<le> r \<and> r \<le> 122 then r - 32 else r))"

definition code_rune :: "nat \<Rightarrow> bool" where "code_rune r \<longleftrightarrow> 65 \<le> r \<and> r \<le> 90 \<or> 50 \<le> r \<and> r \<le> 55"

definition repaired :: "nat \<Rightarrow> nat" where "repaired r = (case confusable r of None \<Rightarrow> r | Some r' \<Rightarrow> r')"

definition normalise_recovery_code :: "(nat \<Rightarrow> nat) \<Rightarrow> nat list \<Rightarrow> string" where
  "normalise_recovery_code upper typed = map char_of (filter code_rune (map (\<lambda>r. repaired (upper r)) typed))"

definition recovery_code_length :: nat where "recovery_code_length = (8 * recovery_code_bytes + 4) div 5"

definition valid_recovery_code_shape :: "string \<Rightarrow> bool" where
  "valid_recovery_code_shape code \<longleftrightarrow> length code = recovery_code_length"

definition runes_of :: "string \<Rightarrow> nat list" where "runes_of s = map ord_of s"

text \<open>\<open>HashRecoveryCode\<close> normalises once more what it is given.\<close>

definition hash_recovery_code :: "(nat \<Rightarrow> nat) \<Rightarrow> nat list \<Rightarrow> byte list" where
  "hash_recovery_code upper typed = sha256 (bytes_of (normalise_recovery_code upper typed))"

end
