(* ===== verification/MfaStore.thy ===== *)
theory MfaStore
  imports Totp AuditLog
begin

text \<open>
  The factors of a user (\<open>mfa/factor.go\<close>, \<open>mfa/store.go\<close>, \<open>mfa/totpfactor.go\<close>, \<open>mfa/seal.go\<close>,
  \<open>mfa/webauthn.go\<close>, \<open>mfa/webauthnstore.go\<close>) and the recovery codes (\<open>mfa/recoverystore.go\<close>): the two tables with their
  constraints, policies and triggers, one definition per store method, and the verifiers that run inside a
  tenant transaction. AES-GCM, and the WebAuthn library with its ceremonies, are arguments.
\<close>

section \<open>Factors\<close>

datatype factor_status = PendingFactor | ActiveFactor

type_synonym factor_type = string

definition type_totp :: factor_type where "type_totp = ''totp''"
definition type_webauthn :: factor_type where "type_webauthn = ''webauthn''"

definition factor_amr :: "factor_type \<Rightarrow> string" where
  "factor_amr t = (if t = type_totp then ''otp'' else if t = type_webauthn then ''hwk'' else [])"

definition factor_type_valid :: "factor_type \<Rightarrow> bool" where "factor_type_valid t \<longleftrightarrow> factor_amr t \<noteq> []"

record factor =
  fa_id :: string
  fa_user :: string
  fa_org :: string
  fa_type :: factor_type
  fa_label :: string
  fa_status :: factor_status
  fa_secret :: "byte list option"
  fa_counter :: "int option"
  fa_credential :: "byte list option"
  fa_public_key :: "byte list"
  fa_sign_count :: "32 word"
  fa_used :: "time option"
  fa_created :: time

record recovery_row =
  rc_user :: string
  rc_org :: string
  rc_hash :: "byte list"
  rc_batch :: string
  rc_used :: "time option"
  rc_created :: time

record mfa_db =
  mf_users :: "string \<rightharpoonup> string"
  mf_factors :: "factor list"
  mf_codes :: "recovery_row list"

datatype mfa_error =
    NoSuchFactor | WrongCode | UnsupportedFactor | AlreadyEnrolled | NoSealKey | SealBroken | FactorNotFound
  | NoChallenge | ChallengeSpent | TooManyAttempts | NoRecoveryCode | OriginMismatch | ClonedAuthenticator
  | MfaFault string

definition factor_active :: "factor \<Rightarrow> bool" where "factor_active f \<longleftrightarrow> fa_status f = ActiveFactor"

definition max_label :: nat where "max_label = 64"

text \<open>The row's constraints: its trigger, its policy, its checks and the two unique indexes.\<close>

definition insert_factor_row :: "string \<Rightarrow> factor \<Rightarrow> mfa_db \<Rightarrow> mfa_error + mfa_db" where
  "insert_factor_row org f db =
     (if mf_users db (fa_user f) \<noteq> Some (fa_org f) \<or> fa_org f \<noteq> org then Inl (MfaFault ''org'')
      else if max_label < length (fa_label f) then Inl (MfaFault ''label'')
      else if fa_type f \<notin> {type_totp, type_webauthn} then Inl (MfaFault ''type'')
      else if list_ex (\<lambda>g. fa_id g = fa_id f) (mf_factors db) then Inl (MfaFault ''id'')
      else if fa_type f = type_totp \<and> list_ex (\<lambda>g. fa_user g = fa_user f \<and> fa_type g = type_totp) (mf_factors db)
        then Inl (MfaFault ''user_mfa_factors_one_totp'')
      else if fa_credential f \<noteq> None \<and> list_ex (\<lambda>g. fa_credential g = fa_credential f) (mf_factors db)
        then Inl (MfaFault ''user_mfa_factors_credential_unique'')
      else Inr (db\<lparr>mf_factors := mf_factors db @ [f]\<rparr>))"

definition insert_factor ::
  "string \<Rightarrow> string \<Rightarrow> string \<Rightarrow> string \<Rightarrow> factor_type \<Rightarrow> string \<Rightarrow> byte list \<Rightarrow> time \<Rightarrow> mfa_db \<Rightarrow> mfa_error + string \<times> mfa_db" where
  "insert_factor org i user owner t label sealed now db =
     (if \<not> factor_type_valid t then Inl UnsupportedFactor
      else if sealed = [] then Inl (MfaFault ''no secret'')
      else bindE (insert_factor_row org
        \<lparr>fa_id = i, fa_user = user, fa_org = owner, fa_type = t, fa_label = label, fa_status = PendingFactor, fa_secret = Some sealed,
         fa_counter = None, fa_credential = None, fa_public_key = [], fa_sign_count = 0, fa_used = None, fa_created = now\<rparr> db)
        (\<lambda>db. Inr (i, db)))"

definition discard_pending :: "string \<Rightarrow> string \<Rightarrow> factor_type \<Rightarrow> mfa_db \<Rightarrow> mfa_db" where
  "discard_pending org user t db =
     db\<lparr>mf_factors := filter (\<lambda>f. \<not> (fa_org f = org \<and> fa_user f = user \<and> fa_type f = t \<and> fa_status f = PendingFactor)) (mf_factors db)\<rparr>"

definition has_active :: "string \<Rightarrow> string \<Rightarrow> factor_type \<Rightarrow> mfa_db \<Rightarrow> bool" where
  "has_active org user t db =
     list_ex (\<lambda>f. fa_org f = org \<and> fa_user f = user \<and> fa_type f = t \<and> factor_active f) (mf_factors db)"

definition find_factor :: "string \<Rightarrow> string \<Rightarrow> mfa_db \<Rightarrow> factor option" where
  "find_factor org i db = List.find (\<lambda>f. fa_id f = i \<and> fa_org f = org) (mf_factors db)"

definition sealed_secret :: "string \<Rightarrow> string \<Rightarrow> mfa_db \<Rightarrow> mfa_error + byte list \<times> factor_status" where
  "sealed_secret org i db =
     (case find_factor org i db of
        None \<Rightarrow> Inl FactorNotFound
      | Some f \<Rightarrow>
          (case fa_secret f of
             None \<Rightarrow> Inl (MfaFault ''no stored secret'')
           | Some s \<Rightarrow> if s = [] then Inl (MfaFault ''no stored secret'') else Inr (s, fa_status f)))"

definition update_factor :: "string \<Rightarrow> (factor \<Rightarrow> bool) \<Rightarrow> (factor \<Rightarrow> factor) \<Rightarrow> mfa_db \<Rightarrow> mfa_db" where
  "update_factor org P h db = db\<lparr>mf_factors := map (\<lambda>f. if fa_org f = org \<and> P f then h f else f) (mf_factors db)\<rparr>"

definition activate_factor :: "string \<Rightarrow> string \<Rightarrow> mfa_db \<Rightarrow> mfa_error + mfa_db" where
  "activate_factor org i db =
     (if list_ex (\<lambda>f. fa_org f = org \<and> fa_id f = i \<and> fa_status f = PendingFactor) (mf_factors db)
      then Inr (update_factor org (\<lambda>f. fa_id f = i \<and> fa_status f = PendingFactor) (\<lambda>f. f\<lparr>fa_status := ActiveFactor\<rparr>) db)
      else Inl (MfaFault ''not pending''))"

text \<open>\<open>RecordUse\<close>: one conditional update; the column is a signed 64-bit integer. The boolean says whether the step was spent already.\<close>

definition counter_below :: "factor \<Rightarrow> int \<Rightarrow> bool" where
  "counter_below f n \<longleftrightarrow> (case fa_counter f of None \<Rightarrow> True | Some m \<Rightarrow> m < n)"

definition record_use :: "string \<Rightarrow> string \<Rightarrow> 64 word \<Rightarrow> time \<Rightarrow> mfa_db \<Rightarrow> bool \<times> mfa_db" where
  "record_use org i counter now db =
     (if list_ex (\<lambda>f. fa_org f = org \<and> fa_id f = i \<and> counter_below f (sint counter)) (mf_factors db)
      then (False, update_factor org (\<lambda>f. fa_id f = i \<and> counter_below f (sint counter))
        (\<lambda>f. f\<lparr>fa_counter := Some (sint counter), fa_used := Some now\<rparr>) db)
      else (True, db))"

definition delete_factor :: "string \<Rightarrow> string \<Rightarrow> mfa_db \<Rightarrow> mfa_error + mfa_db" where
  "delete_factor org i db =
     (if find_factor org i db = None then Inl FactorNotFound
      else Inr (db\<lparr>mf_factors := filter (\<lambda>f. \<not> (fa_org f = org \<and> fa_id f = i)) (mf_factors db)\<rparr>))"

definition factors_of_user :: "string \<Rightarrow> string \<Rightarrow> mfa_db \<Rightarrow> factor list" where
  "factors_of_user org user db = sort_key fa_created (filter (\<lambda>f. fa_org f = org \<and> fa_user f = user) (mf_factors db))"

section \<open>Sealing\<close>

record sealer =
  se_seal :: "byte list \<Rightarrow> byte list \<Rightarrow> byte list"
  se_open :: "byte list \<Rightarrow> byte list \<Rightarrow> byte list option"

definition nonce_bytes :: nat where "nonce_bytes = 12"

definition seal_secret :: "sealer option \<Rightarrow> byte list \<Rightarrow> byte list \<Rightarrow> mfa_error + byte list" where
  "seal_secret se nonce plain =
     (case se of
        None \<Rightarrow> Inl NoSealKey
      | Some s \<Rightarrow> if plain = [] then Inl (MfaFault ''empty secret'') else Inr (nonce @ se_seal s nonce plain))"

definition open_secret :: "sealer option \<Rightarrow> byte list \<Rightarrow> mfa_error + byte list" where
  "open_secret se sealed =
     (case se of
        None \<Rightarrow> Inl NoSealKey
      | Some s \<Rightarrow>
          if length sealed < nonce_bytes + 1 then Inl SealBroken
          else (case se_open s (take nonce_bytes sealed) (drop nonce_bytes sealed) of None \<Rightarrow> Inl SealBroken | Some p \<Rightarrow> Inr p))"

section \<open>A transaction of a tenant\<close>

definition in_tenant :: "tx_fault \<Rightarrow> string \<Rightarrow> (mfa_db \<Rightarrow> mfa_error + 'a \<times> mfa_db) \<Rightarrow> mfa_db \<Rightarrow> (mfa_error + 'a) \<times> mfa_db" where
  "in_tenant fault org body db =
     (case with_tenant fault org (\<lambda>_. body) db of
        (Inl (InBody e), db') \<Rightarrow> (Inl e, db')
      | (Inl _, db') \<Rightarrow> (Inl (MfaFault ''transaction''), db')
      | (Inr a, db') \<Rightarrow> (Inr a, db'))"

definition confirmed_factors :: "tx_fault \<Rightarrow> string \<Rightarrow> string \<Rightarrow> mfa_db \<Rightarrow> mfa_error + factor list" where
  "confirmed_factors fault org user db =
     fst (in_tenant fault org (\<lambda>db. Inr (filter factor_active (factors_of_user org user db), db)) db)"

section \<open>The authenticator app\<close>

record totp_env =
  te_sealer :: "sealer option"
  te_mac :: mac
  te_fault :: tx_fault

definition totp_begin ::
  "totp_env \<Rightarrow> byte list option \<Rightarrow> byte list \<Rightarrow> string \<Rightarrow> string \<Rightarrow> string \<Rightarrow> string \<Rightarrow> time \<Rightarrow> mfa_db \<Rightarrow> (mfa_error + string \<times> string) \<times> mfa_db" where
  "totp_begin te secret nonce i user org label now db =
     (if te_sealer te = None then (Inl NoSealKey, db)
      else case secret of
        None \<Rightarrow> (Inl (MfaFault ''random''), db)
      | Some secret \<Rightarrow>
          (case seal_secret (te_sealer te) nonce secret of
             Inl e \<Rightarrow> (Inl e, db)
           | Inr sealed \<Rightarrow>
               (case in_tenant (te_fault te) org (\<lambda>db.
                  if has_active org user type_totp db then Inl AlreadyEnrolled
                  else insert_factor org i user org type_totp label sealed now (discard_pending org user type_totp db)) db of
                  (Inl e, db') \<Rightarrow> (Inl e, db')
                | (Inr i, db') \<Rightarrow> (Inr (i, encode_totp_secret secret), db'))))"

text \<open>\<open>OrgOf\<close> is the function \<open>mfa_factor_org\<close>, which sees every tenant.\<close>

definition org_of_factor :: "string \<Rightarrow> mfa_db \<Rightarrow> string option" where
  "org_of_factor i db = map_option fa_org (List.find (\<lambda>f. fa_id f = i) (mf_factors db))"

definition check_code :: "totp_env \<Rightarrow> string \<Rightarrow> string \<Rightarrow> string \<Rightarrow> bool \<Rightarrow> time \<Rightarrow> mfa_db \<Rightarrow> mfa_error + unit \<times> mfa_db" where
  "check_code te org i code activating now db =
     bindE (sealed_secret org i db) (\<lambda>(sealed, status).
       if activating \<and> status \<noteq> PendingFactor then Inl (MfaFault ''already active'')
       else if \<not> activating \<and> status \<noteq> ActiveFactor then Inl NoSuchFactor
       else bindE (open_secret (te_sealer te) sealed) (\<lambda>secret.
         case verify_totp (te_mac te) secret code now of (counter, ok) \<Rightarrow>
           if \<not> ok then Inl WrongCode
           else case record_use org i counter now db of (replayed, db1) \<Rightarrow>
             if replayed then Inl WrongCode
             else if activating then bindE (activate_factor org i db1) (\<lambda>db2. Inr ((), db2))
             else Inr ((), db1)))"

definition totp_check :: "totp_env \<Rightarrow> string \<Rightarrow> string \<Rightarrow> bool \<Rightarrow> time \<Rightarrow> mfa_db \<Rightarrow> (mfa_error + unit) \<times> mfa_db" where
  "totp_check te i code activating now db =
     (if te_sealer te = None then (Inl NoSealKey, db)
      else case org_of_factor i db of
        None \<Rightarrow> (Inl (MfaFault ''organization''), db)
      | Some org \<Rightarrow> in_tenant (te_fault te) org (check_code te org i code activating now) db)"

definition totp_confirm :: "totp_env \<Rightarrow> string \<Rightarrow> string \<Rightarrow> time \<Rightarrow> mfa_db \<Rightarrow> (mfa_error + unit) \<times> mfa_db" where
  "totp_confirm te i code now db = totp_check te i code True now db"

definition totp_verify :: "totp_env \<Rightarrow> string \<Rightarrow> string \<Rightarrow> time \<Rightarrow> mfa_db \<Rightarrow> (mfa_error + unit) \<times> mfa_db" where
  "totp_verify te i code now db = totp_check te i code False now db"

definition totp_remove :: "totp_env \<Rightarrow> string \<Rightarrow> mfa_db \<Rightarrow> (mfa_error + unit) \<times> mfa_db" where
  "totp_remove te i db =
     (case org_of_factor i db of
        None \<Rightarrow> (Inl (MfaFault ''organization''), db)
      | Some org \<Rightarrow> in_tenant (te_fault te) org (\<lambda>db. bindE (delete_factor org i db) (\<lambda>db. Inr ((), db))) db)"

section \<open>Passkeys\<close>

record credential =
  sc_factor :: string
  sc_id :: "byte list"
  sc_key :: "byte list"
  sc_count :: "32 word"
  sc_status :: factor_status

definition stored_credentials :: "string \<Rightarrow> string \<Rightarrow> mfa_db \<Rightarrow> credential list" where
  "stored_credentials org user db =
     List.map_filter (\<lambda>f. if fa_type f = type_webauthn
         then map_option (\<lambda>c. \<lparr>sc_factor = fa_id f, sc_id = c, sc_key = fa_public_key f, sc_count = fa_sign_count f, sc_status = fa_status f\<rparr>)
           (fa_credential f)
         else None)
       (factors_of_user org user db)"

text \<open>
  What the library answers: \<open>wn_begin\<close> the options and the session of a login ceremony, \<open>wn_session\<close> whether a session
  decodes, \<open>wn_parse\<close> whether an assertion parses, \<open>wn_validate\<close> the credential that signed and its counter, or an
  error, with its text when it is a protocol error.
\<close>

record webauthn_env =
  wn_begin :: "string \<Rightarrow> credential list \<Rightarrow> unit + byte list \<times> byte list"
  wn_session :: "byte list \<Rightarrow> bool"
  wn_parse :: "byte list \<Rightarrow> bool"
  wn_validate :: "string \<Rightarrow> credential list \<Rightarrow> byte list \<Rightarrow> byte list \<Rightarrow> string option + byte list \<times> 32 word"
  wn_read_fault :: tx_fault
  wn_write_fault :: tx_fault

definition active_credentials :: "string \<Rightarrow> string \<Rightarrow> mfa_db \<Rightarrow> credential list" where
  "active_credentials org user db = filter (\<lambda>c. sc_status c = ActiveFactor) (stored_credentials org user db)"

definition begin_login :: "webauthn_env \<Rightarrow> string \<Rightarrow> string \<Rightarrow> mfa_db \<Rightarrow> mfa_error + (byte list \<times> byte list) option" where
  "begin_login wn user org db =
     (case fst (in_tenant (wn_read_fault wn) org (\<lambda>db. Inr (active_credentials org user db, db)) db) of
        Inl _ \<Rightarrow> Inl (MfaFault ''reading credentials'')
      | Inr creds \<Rightarrow>
          if creds = [] then Inr None
          else (case wn_begin wn user creds of
            Inl _ \<Rightarrow> Inl (MfaFault ''beginning a WebAuthn login'')
          | Inr (options, session) \<Rightarrow> Inr (Some (options, session))))"

definition counter_acceptable :: "32 word \<Rightarrow> 32 word \<Rightarrow> bool" where
  "counter_acceptable stored presented \<longleftrightarrow> (if stored = 0 \<and> presented = 0 then True else stored < presented)"

definition classify_ceremony :: "string option \<Rightarrow> mfa_error" where
  "classify_ceremony detail =
     (case detail of
        Some d \<Rightarrow> if has_infix ''origin'' (to_lower d) then OriginMismatch else WrongCode
      | None \<Rightarrow> WrongCode)"

definition max_assertion_bytes :: nat where "max_assertion_bytes = 65536"

definition bounded_assertion :: "byte list \<Rightarrow> byte list" where "bounded_assertion a = take max_assertion_bytes a"

definition record_sign_count :: "string \<Rightarrow> string \<Rightarrow> 32 word \<Rightarrow> time \<Rightarrow> mfa_db \<Rightarrow> mfa_db" where
  "record_sign_count org i count now db =
     update_factor org (\<lambda>f. fa_id f = i) (\<lambda>f. f\<lparr>fa_sign_count := count, fa_used := Some now\<rparr>) db"

definition finish_login ::
  "webauthn_env \<Rightarrow> string \<Rightarrow> string \<Rightarrow> byte list \<Rightarrow> byte list \<Rightarrow> time \<Rightarrow> mfa_db \<Rightarrow> (mfa_error + string) \<times> mfa_db" where
  "finish_login wn user org session assertion now db =
     (if \<not> wn_parse wn (bounded_assertion assertion) then (Inl WrongCode, db)
      else case fst (in_tenant (wn_read_fault wn) org (\<lambda>db. Inr (active_credentials org user db, db)) db) of
        Inl _ \<Rightarrow> (Inl (MfaFault ''reading credentials''), db)
      | Inr creds \<Rightarrow>
          (case wn_validate wn user creds session (bounded_assertion assertion) of
             Inl detail \<Rightarrow> (Inl (classify_ceremony detail), db)
           | Inr (signer, count) \<Rightarrow>
               (case List.find (\<lambda>c. sc_id c = signer) (rev creds) of
                  None \<Rightarrow> (Inl WrongCode, db)
                | Some c \<Rightarrow>
                    if \<not> counter_acceptable (sc_count c) count then (Inl ClonedAuthenticator, db)
                    else (Inr (sc_factor c),
                      snd (in_tenant (wn_write_fault wn) org (\<lambda>db. Inr ((), record_sign_count org (sc_factor c) count now db)) db)))))"

definition verify_assertion ::
  "webauthn_env \<Rightarrow> string \<Rightarrow> string \<Rightarrow> byte list \<Rightarrow> byte list \<Rightarrow> time \<Rightarrow> mfa_db \<Rightarrow> (mfa_error + string) \<times> mfa_db" where
  "verify_assertion wn org user session assertion now db =
     (if \<not> wn_session wn session then (Inl (MfaFault ''decoding a passkey session''), db)
      else finish_login wn user org session assertion now db)"

section \<open>Recovery codes\<close>

definition insert_recovery_row :: "string \<Rightarrow> recovery_row \<Rightarrow> mfa_db \<Rightarrow> mfa_error + mfa_db" where
  "insert_recovery_row org r db =
     (if mf_users db (rc_user r) \<noteq> Some (rc_org r) \<or> rc_org r \<noteq> org then Inl (MfaFault ''org'')
      else if length (rc_hash r) \<noteq> 32 then Inl (MfaFault ''user_recovery_codes_hash_length'')
      else if list_ex (\<lambda>s. rc_user s = rc_user r \<and> rc_hash s = rc_hash r) (mf_codes db) then Inl (MfaFault ''user_recovery_codes_unique'')
      else Inr (db\<lparr>mf_codes := mf_codes db @ [r]\<rparr>))"

fun insert_recovery_rows :: "string \<Rightarrow> recovery_row list \<Rightarrow> mfa_db \<Rightarrow> mfa_error + mfa_db" where
  "insert_recovery_rows org [] db = Inr db"
| "insert_recovery_rows org (r # rs) db = bindE (insert_recovery_row org r db) (insert_recovery_rows org rs)"

definition clear_recovery :: "string \<Rightarrow> string \<Rightarrow> mfa_db \<Rightarrow> nat \<times> mfa_db" where
  "clear_recovery org user db =
     (let mine = (\<lambda>r. rc_org r = org \<and> rc_user r = user) in
      (length (filter mine (mf_codes db)), db\<lparr>mf_codes := filter (\<lambda>r. \<not> mine r) (mf_codes db)\<rparr>))"

definition issue_recovery ::
  "(nat \<Rightarrow> nat) \<Rightarrow> string \<Rightarrow> string \<Rightarrow> string \<Rightarrow> int \<Rightarrow> byte list list \<Rightarrow> string \<Rightarrow> time \<Rightarrow> mfa_db \<Rightarrow> mfa_error + string list \<times> mfa_db" where
  "issue_recovery upper org user owner count draws batch now db =
     (case new_recovery_codes count draws of
        None \<Rightarrow> Inl (MfaFault ''batch'')
      | Some codes \<Rightarrow>
          bindE (insert_recovery_rows org
            (map (\<lambda>code. \<lparr>rc_user = user, rc_org = owner, rc_hash = hash_recovery_code upper (runes_of code), rc_batch = batch,
               rc_used = None, rc_created = now\<rparr>) codes)
            (snd (clear_recovery org user db))) (\<lambda>db. Inr (codes, db)))"

definition remaining_codes :: "string \<Rightarrow> string \<Rightarrow> mfa_db \<Rightarrow> nat" where
  "remaining_codes org user db = length (filter (\<lambda>r. rc_org r = org \<and> rc_user r = user \<and> rc_used r = None) (mf_codes db))"

definition consume_recovery :: "(nat \<Rightarrow> nat) \<Rightarrow> string \<Rightarrow> string \<Rightarrow> nat list \<Rightarrow> time \<Rightarrow> mfa_db \<Rightarrow> mfa_error + nat \<times> mfa_db" where
  "consume_recovery upper org user submitted now db =
     (let normalised = normalise_recovery_code upper submitted in
      if \<not> valid_recovery_code_shape normalised then Inl NoRecoveryCode
      else
        let h = hash_recovery_code upper (runes_of normalised);
            spends = (\<lambda>r. rc_org r = org \<and> rc_user r = user \<and> rc_hash r = h \<and> rc_used r = None) in
        if \<not> list_ex spends (mf_codes db) then Inl NoRecoveryCode
        else let db1 = db\<lparr>mf_codes := map (\<lambda>r. if spends r then r\<lparr>rc_used := Some now\<rparr> else r) (mf_codes db)\<rparr> in
          Inr (remaining_codes org user db1, db1))"

definition unspent_recovery :: "tx_fault \<Rightarrow> string \<Rightarrow> string \<Rightarrow> mfa_db \<Rightarrow> mfa_error + bool" where
  "unspent_recovery fault org user db = fst (in_tenant fault org (\<lambda>db. Inr (0 < remaining_codes org user db, db)) db)"

definition spend_recovery :: "(nat \<Rightarrow> nat) \<Rightarrow> tx_fault \<Rightarrow> string \<Rightarrow> string \<Rightarrow> nat list \<Rightarrow> time \<Rightarrow> mfa_db \<Rightarrow> (mfa_error + nat) \<times> mfa_db" where
  "spend_recovery upper fault org user code now db = in_tenant fault org (consume_recovery upper org user code now) db"

definition clear_factors :: "string \<Rightarrow> string \<Rightarrow> mfa_db \<Rightarrow> nat \<times> mfa_db" where
  "clear_factors org user db =
     (let mine = (\<lambda>f. fa_org f = org \<and> fa_user f = user) in
      (length (filter mine (mf_factors db)), db\<lparr>mf_factors := filter (\<lambda>f. \<not> mine f) (mf_factors db)\<rparr>))"

end
