(* ===== verification/MfaFramework.thy ===== *)
theory MfaFramework
  imports MfaStore CodeStore
begin

text \<open>
  The second step of a login (\<open>mfa/framework.go\<close>, \<open>mfa/challenge.go\<close>, \<open>mfa/redisstore.go\<close>, \<open>mfa/attempts.go\<close> and the
  methods of \<open>mfa/factor.go\<close>): the challenge kept in Redis under a hashed handle, the bound on a user's guesses, and
  the framework that raises, answers and consumes a challenge. One record carries what a request meets: the parts that are configured,
  the clock and what fails.
\<close>

section \<open>What a session records\<close>

definition method_password :: string where "method_password = ''pwd''"
definition method_multi_factor :: string where "method_multi_factor = ''mfa''"

definition add_method :: "string \<Rightarrow> string list \<Rightarrow> string list" where
  "add_method m ms = (if m = [] \<or> contains ms m then ms else ms @ [m])"

text \<open>\<open>sort.Strings\<close> sorts by bytes.\<close>

fun byte_less_eq :: "string \<Rightarrow> string \<Rightarrow> bool" where
  "byte_less_eq [] t = True"
| "byte_less_eq (c # s) [] = False"
| "byte_less_eq (c # s) (d # t) \<longleftrightarrow> ord_of c < ord_of d \<or> c = d \<and> byte_less_eq s t"

fun insert_string :: "string \<Rightarrow> string list \<Rightarrow> string list" where
  "insert_string s [] = [s]"
| "insert_string s (t # ts) = (if byte_less_eq s t then s # t # ts else t # insert_string s ts)"

definition sort_strings :: "string list \<Rightarrow> string list" where
  "sort_strings ss = foldr insert_string ss []"

definition auth_methods :: "bool \<Rightarrow> factor_type list \<Rightarrow> string list" where
  "auth_methods password used =
     (let ms = fold add_method (map factor_amr used) (if password then [method_password] else []) in
      sort_strings (if 1 < length ms then add_method method_multi_factor ms else ms))"

definition auth_methods_with_recovery :: "bool \<Rightarrow> bool \<Rightarrow> factor_type list \<Rightarrow> string list" where
  "auth_methods_with_recovery password recovery used =
     (let ms = auth_methods password used in
      if \<not> recovery \<or> contains ms method_multi_factor then ms else sort_strings (ms @ [method_multi_factor]))"

definition step_up :: "string list \<Rightarrow> string list \<Rightarrow> bool" where
  "step_up have want = list_all (contains have) want"

section \<open>Challenges\<close>

record challenge =
  ch_user :: string
  ch_org :: string
  ch_pending :: string
  ch_factors :: "string list"
  ch_attempts :: int
  ch_methods :: "factor_type list"
  ch_options :: "byte list"
  ch_session :: "byte list"
  ch_created :: time

definition challenge_ttl :: duration where "challenge_ttl = 5 * minute"
definition max_attempts :: int where "max_attempts = 5"

definition challenge_spent :: "challenge \<Rightarrow> bool" where "challenge_spent c \<longleftrightarrow> max_attempts \<le> ch_attempts c"

text \<open>\<open>rd_replace\<close> is \<open>SET key value XX KEEPTTL\<close>: it answers whether there was a key to replace.\<close>

record 's challenge_redis =
  cr_ops :: "('s, challenge blob) redis_ops"
  cr_replace :: "time \<Rightarrow> string \<Rightarrow> challenge blob \<Rightarrow> 's \<Rightarrow> (unit + bool) \<times> 's"

definition handle_key :: "string \<Rightarrow> string" where
  "handle_key handle = (if handle = [] then [] else ''mfa:challenge:'' @ b64url_encode (sha256 (bytes_of handle)))"

text \<open>A handle is 32 random bytes; \<open>None\<close> when they cannot be drawn.\<close>

definition new_handle :: "byte list option \<Rightarrow> mfa_error + string" where
  "new_handle raw = (case raw of None \<Rightarrow> Inl (MfaFault ''handle'') | Some bs \<Rightarrow> Inr (b64url_encode bs))"

definition put_challenge ::
  "'s challenge_redis option \<Rightarrow> time \<Rightarrow> byte list option \<Rightarrow> challenge \<Rightarrow> duration \<Rightarrow> 's \<Rightarrow> (mfa_error + string) \<times> 's" where
  "put_challenge cr now raw c ttl st =
     (case cr of
        None \<Rightarrow> (Inl (MfaFault ''no challenge store''), st)
      | Some r \<Rightarrow>
          (case new_handle raw of
             Inl e \<Rightarrow> (Inl e, st)
           | Inr handle \<Rightarrow>
               (case rd_setnx (cr_ops r) now (handle_key handle) (Blob c) ttl st of
                  (Inl _, st') \<Rightarrow> (Inl (MfaFault ''storing a challenge''), st')
                | (Inr False, st') \<Rightarrow> (Inl (MfaFault ''handle collided''), st')
                | (Inr True, st') \<Rightarrow> (Inr handle, st'))))"

definition decode_challenge :: "challenge blob \<Rightarrow> mfa_error + challenge" where
  "decode_challenge b =
     (case b of
        Unreadable \<Rightarrow> Inl (MfaFault ''decoding a challenge'')
      | Blob c \<Rightarrow> if ch_user c = [] \<or> ch_org c = [] then Inl (MfaFault ''names no user'') else Inr c)"

definition get_challenge :: "'s challenge_redis option \<Rightarrow> time \<Rightarrow> string \<Rightarrow> 's \<Rightarrow> mfa_error + challenge" where
  "get_challenge cr now handle st =
     (case cr of
        None \<Rightarrow> Inl (MfaFault ''no challenge store'')
      | Some r \<Rightarrow>
          if handle = [] then Inl NoChallenge
          else (case rd_get (cr_ops r) now (handle_key handle) st of
            Inl _ \<Rightarrow> Inl (MfaFault ''reading a challenge'')
          | Inr None \<Rightarrow> Inl NoChallenge
          | Inr (Some b) \<Rightarrow> decode_challenge b))"

text \<open>The errors of \<open>Replace\<close> and \<open>Delete\<close> are logged by every caller and change nothing else.\<close>

definition replace_challenge :: "'s challenge_redis option \<Rightarrow> time \<Rightarrow> string \<Rightarrow> challenge \<Rightarrow> 's \<Rightarrow> 's" where
  "replace_challenge cr now handle c st =
     (case cr of None \<Rightarrow> st | Some r \<Rightarrow> snd (cr_replace r now (handle_key handle) (Blob c) st))"

definition delete_challenge :: "'s challenge_redis option \<Rightarrow> time \<Rightarrow> string \<Rightarrow> 's \<Rightarrow> 's" where
  "delete_challenge cr now handle st =
     (case cr of None \<Rightarrow> st | Some r \<Rightarrow> if handle = [] then st else snd (rd_del (cr_ops r) now (handle_key handle) st))"

section \<open>The bound on guesses\<close>

record 'c attempt_ops =
  at_counter :: "'c counter_ops"
  at_get :: "time \<Rightarrow> string \<Rightarrow> 'c \<Rightarrow> unit + int option"

definition attempt_window :: quota where "attempt_window = \<lparr>q_limit = 10, q_window = 15 * minute\<rparr>"

definition max_attempts_per_window :: int where "max_attempts_per_window = 10"

definition attempt_key :: "string \<Rightarrow> time \<Rightarrow> string" where
  "attempt_key user start = (if user = [] then [] else ''mfa:attempts:'' @ user @ '':'' @ format_int (unix_sec start))"

definition attempts_fail :: "'c attempt_ops \<Rightarrow> string \<Rightarrow> time \<Rightarrow> 'c \<Rightarrow> (mfa_error + bool) \<times> 'c" where
  "attempts_fail ops user now st =
     (let key = attempt_key user (window_start attempt_window now) in
      if key = [] then (Inl (MfaFault ''attempt bound''), st)
      else case ct_consume (at_counter ops) now key (quota_ttl attempt_window now div millisecond) st of
        (None, st') \<Rightarrow> (Inl (MfaFault ''counting''), st')
      | (Some n, st') \<Rightarrow> (Inr (n < max_attempts_per_window), st'))"

definition attempts_allowed :: "'c attempt_ops \<Rightarrow> string \<Rightarrow> time \<Rightarrow> 'c \<Rightarrow> mfa_error + bool" where
  "attempts_allowed ops user now st =
     (let key = attempt_key user (window_start attempt_window now) in
      if key = [] then Inl (MfaFault ''attempt bound'')
      else case at_get ops now key st of
        Inl _ \<Rightarrow> Inl (MfaFault ''reading the count'')
      | Inr None \<Rightarrow> Inr True
      | Inr (Some n) \<Rightarrow> Inr (n < max_attempts_per_window))"

section \<open>The framework\<close>

text \<open>Errors are wrapped with \<open>%w\<close> on their way up, so an error keeps its identity: wrapping is left out.\<close>

record ('s, 'c) mfa_world =
  mw_db :: mfa_db
  mw_challenges :: 's
  mw_attempts :: 'c

text \<open>
  \<open>me_totp\<close> is the registry, which holds the authenticator app or nothing; \<open>me_handle\<close> the random bytes of a handle; the
  faults are those of the transactions that read the factors, once for each read, and the recovery codes.
\<close>

record ('s, 'c) mfa_env =
  me_now :: time
  me_totp :: "totp_env option"
  me_webauthn :: "webauthn_env option"
  me_recovery :: bool
  me_upper :: "nat \<Rightarrow> nat"
  me_attempts :: "'c attempt_ops option"
  me_challenges :: "'s challenge_redis option"
  me_handle :: "byte list option"
  me_resolve_fault :: tx_fault
  me_type_fault :: tx_fault
  me_peek_fault :: tx_fault
  me_unspent_fault :: tx_fault
  me_spend_fault :: tx_fault

definition registered :: "('s, 'c) mfa_env \<Rightarrow> factor_type \<Rightarrow> bool" where
  "registered env t \<longleftrightarrow> t = type_totp \<and> me_totp env \<noteq> None"

definition answerable :: "('s, 'c) mfa_env \<Rightarrow> factor_type \<Rightarrow> bool" where
  "answerable env t = (if t = type_webauthn then me_webauthn env \<noteq> None else registered env t)"

record mfa_decision =
  md_challenge :: bool
  md_handle :: string
  md_offered :: "factor_type list"
  md_options :: "byte list"
  md_recovery :: bool

definition no_challenge :: mfa_decision where
  "no_challenge = \<lparr>md_challenge = False, md_handle = [], md_offered = [], md_options = [], md_recovery = False\<rparr>"

definition offered_types :: "factor list \<Rightarrow> factor_type list" where
  "offered_types fs = dedup_onto [] (map fa_type fs)"

text \<open>Whether an unspent recovery code is there; a failure to read it answers no.\<close>

definition recovery_offered :: "('s, 'c) mfa_env \<Rightarrow> string \<Rightarrow> string \<Rightarrow> mfa_db \<Rightarrow> bool" where
  "recovery_offered env org user db = (me_recovery env \<and> unspent_recovery (me_unspent_fault env) org user db = Inr True)"

definition mfa_required ::
  "('s, 'c) mfa_env \<Rightarrow> string \<Rightarrow> string \<Rightarrow> string \<Rightarrow> ('s, 'c) mfa_world \<Rightarrow> (mfa_error + mfa_decision) \<times> ('s, 'c) mfa_world" where
  "mfa_required env user org pending w =
     (if me_totp env = None \<and> me_webauthn env = None then (Inr no_challenge, w)
      else case confirmed_factors (me_resolve_fault env) org user (mw_db w) of
        Inl e \<Rightarrow> (Inl e, w)
      | Inr fs \<Rightarrow>
          let usable = filter (\<lambda>f. factor_active f \<and> answerable env (fa_type f)) fs in
          if usable = [] then (Inr no_challenge, w)
          else case new_handle (me_handle env) of
            Inl e \<Rightarrow> (Inl e, w)
          | Inr _ \<Rightarrow>
              (case (case me_webauthn env of
                  Some wn \<Rightarrow> if contains (offered_types usable) type_webauthn then begin_login wn user org (mw_db w) else Inr None
                | None \<Rightarrow> Inr None) of
                 Inl e \<Rightarrow> (Inl e, w)
               | Inr ceremony \<Rightarrow>
                   let (options, session) = (case ceremony of None \<Rightarrow> ([], []) | Some p \<Rightarrow> p);
                       c = \<lparr>ch_user = user, ch_org = org, ch_pending = pending, ch_factors = map fa_id usable, ch_attempts = 0,
                            ch_methods = [], ch_options = options, ch_session = session, ch_created = me_now env\<rparr>
                   in
                   (case put_challenge (me_challenges env) (me_now env) (me_handle env) c challenge_ttl (mw_challenges w) of
                      (Inl e, st) \<Rightarrow> (Inl e, w\<lparr>mw_challenges := st\<rparr>)
                    | (Inr handle, st) \<Rightarrow>
                        (Inr \<lparr>md_challenge = True, md_handle = handle, md_offered = offered_types usable, md_options = options,
                           md_recovery = recovery_offered env org user (mw_db w)\<rparr>, w\<lparr>mw_challenges := st\<rparr>))))"

text \<open>The two bookkeeping steps every answer shares: is the user allowed a guess, and what a wrong answer costs.\<close>

definition bound_allows :: "('s, 'c) mfa_env \<Rightarrow> string \<Rightarrow> ('s, 'c) mfa_world \<Rightarrow> mfa_error + unit" where
  "bound_allows env user w =
     (case me_attempts env of
        None \<Rightarrow> Inr ()
      | Some ops \<Rightarrow>
          (case attempts_allowed ops user (me_now env) (mw_attempts w) of
             Inl e \<Rightarrow> Inl e
           | Inr ok \<Rightarrow> if ok then Inr () else Inl TooManyAttempts))"

definition charge_failure :: "('s, 'c) mfa_env \<Rightarrow> string \<Rightarrow> challenge \<Rightarrow> ('s, 'c) mfa_world \<Rightarrow> bool \<times> ('s, 'c) mfa_world" where
  "charge_failure env handle c w =
     (let w1 = (case me_attempts env of
            None \<Rightarrow> w
          | Some ops \<Rightarrow> w\<lparr>mw_attempts := snd (attempts_fail ops (ch_user c) (me_now env) (mw_attempts w))\<rparr>);
          c1 = c\<lparr>ch_attempts := ch_attempts c + 1\<rparr>;
          st = replace_challenge (me_challenges env) (me_now env) handle c1 (mw_challenges w1)
      in
      if challenge_spent c1 then (True, w1\<lparr>mw_challenges := delete_challenge (me_challenges env) (me_now env) handle st\<rparr>)
      else (False, w1\<lparr>mw_challenges := st\<rparr>))"

definition drop_challenge :: "('s, 'c) mfa_env \<Rightarrow> string \<Rightarrow> ('s, 'c) mfa_world \<Rightarrow> ('s, 'c) mfa_world" where
  "drop_challenge env handle w =
     w\<lparr>mw_challenges := delete_challenge (me_challenges env) (me_now env) handle (mw_challenges w)\<rparr>"

definition read_challenge :: "('s, 'c) mfa_env \<Rightarrow> string \<Rightarrow> ('s, 'c) mfa_world \<Rightarrow> mfa_error + challenge" where
  "read_challenge env handle w = get_challenge (me_challenges env) (me_now env) handle (mw_challenges w)"

definition type_of_factor :: "('s, 'c) mfa_env \<Rightarrow> string \<Rightarrow> string \<Rightarrow> string \<Rightarrow> mfa_db \<Rightarrow> mfa_error + factor_type" where
  "type_of_factor env org user i db =
     (case confirmed_factors (me_type_fault env) org user db of
        Inl e \<Rightarrow> Inl e
      | Inr fs \<Rightarrow> (case List.find (\<lambda>f. fa_id f = i) fs of None \<Rightarrow> Inl NoSuchFactor | Some f \<Rightarrow> Inr (fa_type f)))"

definition mfa_answer ::
  "('s, 'c) mfa_env \<Rightarrow> string \<Rightarrow> string \<Rightarrow> string \<Rightarrow> ('s, 'c) mfa_world \<Rightarrow> (mfa_error + factor_type list) \<times> ('s, 'c) mfa_world" where
  "mfa_answer env handle i code w =
     (case read_challenge env handle w of
        Inl e \<Rightarrow> (Inl e, w)
      | Inr c \<Rightarrow>
          if challenge_spent c then (Inl ChallengeSpent, drop_challenge env handle w)
          else if \<not> contains (ch_factors c) i then (Inl NoSuchFactor, w)
          else case bound_allows env (ch_user c) w of
            Inl e \<Rightarrow> (Inl e, w)
          | Inr _ \<Rightarrow>
              (case type_of_factor env (ch_org c) (ch_user c) i (mw_db w) of
                 Inl e \<Rightarrow> (Inl e, w)
               | Inr t \<Rightarrow>
                   (case me_totp env of
                      None \<Rightarrow> (Inl UnsupportedFactor, w)
                    | Some te \<Rightarrow>
                        if t \<noteq> type_totp then (Inl UnsupportedFactor, w)
                        else (case totp_verify te i code (me_now env) (mw_db w) of
                          (Inr _, db) \<Rightarrow> (Inr (ch_methods c @ [t]), drop_challenge env handle (w\<lparr>mw_db := db\<rparr>))
                        | (Inl e, db) \<Rightarrow>
                            let w1 = w\<lparr>mw_db := db\<rparr> in
                            if e = WrongCode then
                              (case charge_failure env handle c w1 of
                                 (True, w2) \<Rightarrow> (Inl ChallengeSpent, w2)
                               | (False, w2) \<Rightarrow> (Inl WrongCode, w2))
                            else (Inl e, w1)))))"

record mfa_outcome =
  mo_complete :: bool
  mo_user :: string
  mo_org :: string
  mo_pending :: string
  mo_methods :: "factor_type list"
  mo_offered :: "factor_type list"
  mo_options :: "byte list"
  mo_recovery_left :: bool
  mo_recovery :: bool
  mo_remaining :: nat

definition no_outcome :: mfa_outcome where
  "no_outcome = \<lparr>mo_complete = False, mo_user = [], mo_org = [], mo_pending = [], mo_methods = [], mo_offered = [], mo_options = [],
     mo_recovery_left = False, mo_recovery = False, mo_remaining = 0\<rparr>"

definition outcome_of :: "challenge \<Rightarrow> mfa_outcome" where
  "outcome_of c = no_outcome\<lparr>mo_user := ch_user c, mo_org := ch_org c, mo_pending := ch_pending c\<rparr>"

record mfa_offer =
  of_types :: "factor_type list"
  of_options :: "byte list"
  of_recovery :: bool

definition offer_empty :: "mfa_offer \<Rightarrow> bool" where "offer_empty f \<longleftrightarrow> of_types f = [] \<and> \<not> of_recovery f"

definition offer_passkey :: "mfa_offer \<Rightarrow> bool" where
  "offer_passkey f \<longleftrightarrow> of_options f \<noteq> [] \<and> contains (of_types f) type_webauthn"

definition mfa_peek :: "('s, 'c) mfa_env \<Rightarrow> string \<Rightarrow> ('s, 'c) mfa_world \<Rightarrow> mfa_error + mfa_offer" where
  "mfa_peek env handle w =
     bindE (read_challenge env handle w) (\<lambda>c.
       if challenge_spent c then Inl ChallengeSpent
       else case confirmed_factors (me_peek_fault env) (ch_org c) (ch_user c) (mw_db w) of
         Inl e \<Rightarrow> Inl e
       | Inr fs \<Rightarrow>
           Inr \<lparr>of_types = offered_types (filter (\<lambda>f. factor_active f \<and> contains (ch_factors c) (fa_id f) \<and> answerable env (fa_type f)) fs),
              of_options = ch_options c, of_recovery = recovery_offered env (ch_org c) (ch_user c) (mw_db w)\<rparr>)"

definition id_of_type :: "('s, 'c) mfa_env \<Rightarrow> challenge \<Rightarrow> factor_type \<Rightarrow> mfa_db \<Rightarrow> mfa_error + string" where
  "id_of_type env c t db =
     (case confirmed_factors (me_resolve_fault env) (ch_org c) (ch_user c) db of
        Inl e \<Rightarrow> Inl e
      | Inr fs \<Rightarrow>
          (case List.find (\<lambda>f. fa_type f = t \<and> factor_active f \<and> contains (ch_factors c) (fa_id f)) fs of
             None \<Rightarrow> Inl NoSuchFactor
           | Some f \<Rightarrow> Inr (fa_id f)))"

text \<open>An outcome that is refused still carries whom it was aimed at, so the answers are an error or none, and the outcome.\<close>

definition offer_again :: "('s, 'c) mfa_env \<Rightarrow> string \<Rightarrow> bool \<Rightarrow> mfa_outcome \<Rightarrow> ('s, 'c) mfa_world \<Rightarrow> mfa_outcome" where
  "offer_again env handle options who w =
     (case mfa_peek env handle w of
        Inl _ \<Rightarrow> who
      | Inr f \<Rightarrow> who\<lparr>mo_offered := of_types f, mo_recovery_left := of_recovery f, mo_options := (if options then of_options f else [])\<rparr>)"

definition answer_type ::
  "('s, 'c) mfa_env \<Rightarrow> string \<Rightarrow> string \<Rightarrow> factor_type \<Rightarrow> string \<Rightarrow> ('s, 'c) mfa_world \<Rightarrow>
   (mfa_error option \<times> mfa_outcome) \<times> ('s, 'c) mfa_world" where
  "answer_type env handle pending t code w =
     (case read_challenge env handle w of
        Inl e \<Rightarrow> ((Some e, no_outcome), w)
      | Inr c \<Rightarrow>
          if ch_pending c \<noteq> pending then ((Some NoChallenge, no_outcome), w)
          else case id_of_type env c t (mw_db w) of
            Inl e \<Rightarrow> ((Some e, outcome_of c), w)
          | Inr i \<Rightarrow>
              (case mfa_answer env handle i code w of
                 (Inl e, w1) \<Rightarrow> ((Some e, if e = WrongCode then offer_again env handle False (outcome_of c) w1 else outcome_of c), w1)
               | (Inr methods, w1) \<Rightarrow> ((None, outcome_of c\<lparr>mo_complete := True, mo_methods := methods\<rparr>), w1)))"

definition answer_recovery ::
  "('s, 'c) mfa_env \<Rightarrow> string \<Rightarrow> string \<Rightarrow> nat list \<Rightarrow> ('s, 'c) mfa_world \<Rightarrow>
   (mfa_error option \<times> mfa_outcome) \<times> ('s, 'c) mfa_world" where
  "answer_recovery env handle pending code w =
     (if \<not> me_recovery env then ((Some NoRecoveryCode, no_outcome), w)
      else case read_challenge env handle w of
        Inl e \<Rightarrow> ((Some e, no_outcome), w)
      | Inr c \<Rightarrow>
          if ch_pending c \<noteq> pending then ((Some NoChallenge, no_outcome), w)
          else if challenge_spent c then ((Some ChallengeSpent, outcome_of c), drop_challenge env handle w)
          else case bound_allows env (ch_user c) w of
            Inl e \<Rightarrow> ((Some e, outcome_of c), w)
          | Inr _ \<Rightarrow>
              (case spend_recovery (me_upper env) (me_spend_fault env) (ch_org c) (ch_user c) code (me_now env) (mw_db w) of
                 (Inr left, db) \<Rightarrow>
                   ((None, outcome_of c\<lparr>mo_complete := True, mo_recovery := True, mo_remaining := left\<rparr>), drop_challenge env handle (w\<lparr>mw_db := db\<rparr>))
               | (Inl e, db) \<Rightarrow>
                   let w1 = w\<lparr>mw_db := db\<rparr> in
                   if e = NoRecoveryCode then
                     (case charge_failure env handle c w1 of
                        (True, w2) \<Rightarrow> ((Some ChallengeSpent, outcome_of c), w2)
                      | (False, w2) \<Rightarrow> ((Some NoRecoveryCode, offer_again env handle False (outcome_of c) w2), w2))
                   else ((Some e, outcome_of c), w1)))"

definition answer_webauthn ::
  "('s, 'c) mfa_env \<Rightarrow> string \<Rightarrow> string \<Rightarrow> byte list \<Rightarrow> ('s, 'c) mfa_world \<Rightarrow>
   (mfa_error option \<times> mfa_outcome) \<times> ('s, 'c) mfa_world" where
  "answer_webauthn env handle pending assertion w =
     (case me_webauthn env of
        None \<Rightarrow> ((Some UnsupportedFactor, no_outcome), w)
      | Some wn \<Rightarrow>
          (case read_challenge env handle w of
             Inl e \<Rightarrow> ((Some e, no_outcome), w)
           | Inr c \<Rightarrow>
               if ch_pending c \<noteq> pending then ((Some NoChallenge, no_outcome), w)
               else if challenge_spent c then ((Some ChallengeSpent, outcome_of c), drop_challenge env handle w)
               else if ch_session c = [] then ((Some NoSuchFactor, outcome_of c), w)
               else case bound_allows env (ch_user c) w of
                 Inl e \<Rightarrow> ((Some e, outcome_of c), w)
               | Inr _ \<Rightarrow>
                   (case verify_assertion wn (ch_org c) (ch_user c) (ch_session c) assertion (me_now env) (mw_db w) of
                      (Inr _, db) \<Rightarrow>
                        ((None, outcome_of c\<lparr>mo_complete := True, mo_methods := ch_methods c @ [type_webauthn]\<rparr>),
                          drop_challenge env handle (w\<lparr>mw_db := db\<rparr>))
                    | (Inl e, db) \<Rightarrow>
                        let w1 = w\<lparr>mw_db := db\<rparr> in
                        if e = WrongCode \<or> e = OriginMismatch \<or> e = ClonedAuthenticator then
                          (case charge_failure env handle c w1 of
                             (True, w2) \<Rightarrow> ((Some ChallengeSpent, outcome_of c), w2)
                           | (False, w2) \<Rightarrow> ((Some e, offer_again env handle True (outcome_of c) w2), w2))
                        else ((Some e, outcome_of c), w1))))"

end
