(* ===== verification/MfaProps.thy ===== *)
theory MfaProps
  imports MfaFramework
begin

text \<open>
  What the second factor guarantees. A challenge is completed only by a factor of the challenged user that the challenge
  names, by an unspent recovery code of that user, or by an assertion checked against the session the challenge
  holds; a code of an authenticator app and a recovery code are accepted once; a batch of recovery codes is minted; what a session records of its methods is what was used.
\<close>

section \<open>Transactions\<close>

lemma in_tenant_ok:
  "in_tenant fault org body db = (Inr a, db') \<longleftrightarrow> org \<noteq> [] \<and> fault = TxOk \<and> body db = Inr (a, db')"
  by (cases fault) (auto simp: in_tenant_def with_tenant_def with_scope_def split: sum.splits prod.splits)

lemma confirmed_ok:
  assumes "confirmed_factors fault org user db = Inr fs"
  shows "fs = filter factor_active (factors_of_user org user db)"
proof -
  obtain r db' where run: "in_tenant fault org (\<lambda>db. Inr (filter factor_active (factors_of_user org user db), db)) db = (r, db')" by (rule prod.exhaust)
  with assms have "r = Inr fs" by (simp add: confirmed_factors_def)
  with run show ?thesis by (auto simp: in_tenant_ok)
qed

lemma confirmed_iff: "confirmed_factors fault org user db = Inr fs \<Longrightarrow> f \<in> set fs \<longleftrightarrow>
    f \<in> set (mf_factors db) \<and> fa_org f = org \<and> fa_user f = user \<and> factor_active f"
  by (auto simp: factors_of_user_def dest!: confirmed_ok)

section \<open>The tables\<close>

definition factors_ok :: "mfa_db \<Rightarrow> bool" where
  "factors_ok db \<longleftrightarrow> distinct (map fa_id (mf_factors db)) \<and>
     (\<forall>f \<in> set (mf_factors db). mf_users db (fa_user f) = Some (fa_org f) \<and> (fa_type f = type_totp \<longrightarrow> fa_secret f \<noteq> None)) \<and>
     (\<forall>f \<in> set (mf_factors db). \<forall>g \<in> set (mf_factors db).
        fa_type f = type_totp \<longrightarrow> fa_type g = type_totp \<longrightarrow> fa_user f = fa_user g \<longrightarrow> f = g)"

lemma factor_by_id: "factors_ok db \<Longrightarrow> f \<in> set (mf_factors db) \<Longrightarrow> g \<in> set (mf_factors db) \<Longrightarrow> fa_id f = fa_id g \<Longrightarrow> f = g"
  by (auto simp: factors_ok_def distinct_map inj_on_def)

lemma find_factor_some: "find_factor org i db = Some f \<Longrightarrow> f \<in> set (mf_factors db) \<and> fa_id f = i \<and> fa_org f = org"
  by (auto simp: find_factor_def find_Some_iff)

section \<open>A code\<close>

text \<open>What a successful check of an authenticator app rests on.\<close>

lemma sealed_secret_ok: "sealed_secret org i db = Inr (sealed, status) \<Longrightarrow>
    \<exists>f. find_factor org i db = Some f \<and> fa_secret f = Some sealed \<and> status = fa_status f"
  by (auto simp: sealed_secret_def split: option.splits if_splits)

lemma check_code_ok:
  assumes "check_code te org i code activating now db = Inr ((), db')"
  shows "\<exists>f sealed secret counter db1. find_factor org i db = Some f \<and> fa_secret f = Some sealed \<and>
    fa_status f = (if activating then PendingFactor else ActiveFactor) \<and> open_secret (te_sealer te) sealed = Inr secret \<and>
    verify_totp (te_mac te) secret code now = (counter, True) \<and> record_use org i counter now db = (False, db1) \<and>
    (if activating then activate_factor org i db1 = Inr db' else db' = db1)"
proof -
  obtain sealed status where s: "sealed_secret org i db = Inr (sealed, status)"
    using assms by (cases "sealed_secret org i db") (auto simp: check_code_def bindE_def)
  from sealed_secret_ok [OF this] obtain f where f: "find_factor org i db = Some f" "fa_secret f = Some sealed" "status = fa_status f" by blast
  from assms s have st: "status = (if activating then PendingFactor else ActiveFactor)"
    by (cases status) (auto simp: check_code_def bindE_def split: if_splits)
  obtain secret where o: "open_secret (te_sealer te) sealed = Inr secret"
    using assms s st by (cases "open_secret (te_sealer te) sealed") (auto simp: check_code_def bindE_def split: if_splits)
  obtain counter ok where v: "verify_totp (te_mac te) secret code now = (counter, ok)" by (rule prod.exhaust)
  obtain replayed db1 where r: "record_use org i counter now db = (replayed, db1)" by (rule prod.exhaust)
  from assms s st o v r have "ok" "\<not> replayed" "if activating then activate_factor org i db1 = Inr db' else db' = db1"
    by (auto simp: check_code_def bindE_def split: if_splits sum.splits)
  with f st o v r show ?thesis by auto
qed

lemma totp_verify_ok:
  assumes "totp_verify te i code now db = (Inr u, db')"
  shows "\<exists>f sealed secret counter. f \<in> set (mf_factors db) \<and> fa_id f = i \<and> factor_active f \<and> fa_secret f = Some sealed \<and>
    open_secret (te_sealer te) sealed = Inr secret \<and> trim_space code = totp_code (te_mac te) secret counter \<and>
    counter \<in> {totp_counter now - 1, totp_counter now, totp_counter now + 1} \<and> record_use (fa_org f) i counter now db = (False, db')"
proof -
  from assms obtain org where run: "in_tenant (te_fault te) org (check_code te org i code False now) db = (Inr u, db')"
    by (auto simp: totp_verify_def totp_check_def split: if_splits option.splits)
  then have "check_code te org i code False now db = Inr ((), db')" by (simp add: in_tenant_ok)
  from check_code_ok [OF this] obtain f sealed secret counter where f: "find_factor org i db = Some f" "fa_secret f = Some sealed" "fa_status f = ActiveFactor"
    and o: "open_secret (te_sealer te) sealed = Inr secret" and v: "verify_totp (te_mac te) secret code now = (counter, True)"
    and r: "record_use org i counter now db = (False, db')" by auto
  from find_factor_some [OF f(1)] verify_totp_ok [OF v] f o r show ?thesis
    by (intro exI [of _ f] exI [of _ sealed] exI [of _ secret] exI [of _ counter]) (simp add: factor_active_def)
qed

section \<open>Completing a challenge\<close>

lemma read_challenge_user: "read_challenge env handle w = Inr c \<Longrightarrow> ch_user c \<noteq> [] \<and> ch_org c \<noteq> []"
  by (auto simp: read_challenge_def get_challenge_def decode_challenge_def split: option.splits if_splits sum.splits blob.splits)

lemma mfa_answer_ok:
  assumes "mfa_answer env handle i code w = (Inr ms, w')" "read_challenge env handle w = Inr c"
  shows "\<not> challenge_spent c \<and> i \<in> set (ch_factors c) \<and> bound_allows env (ch_user c) w = Inr () \<and>
    (\<exists>te. me_totp env = Some te \<and> type_of_factor env (ch_org c) (ch_user c) i (mw_db w) = Inr type_totp \<and>
      fst (totp_verify te i code (me_now env) (mw_db w)) = Inr () \<and> mw_db w' = snd (totp_verify te i code (me_now env) (mw_db w))) \<and>
    ms = ch_methods c @ [type_totp] \<and> mw_challenges w' = delete_challenge (me_challenges env) (me_now env) handle (mw_challenges w)"
  using assms
  by (auto simp: mfa_answer_def drop_challenge_def Let_def split: sum.splits if_splits prod.splits option.splits bool.splits)

definition proves_possession :: "('s, 'c) mfa_env \<Rightarrow> challenge \<Rightarrow> string \<Rightarrow> mfa_db \<Rightarrow> mfa_db \<Rightarrow> bool" where
  "proves_possession env c code db db' \<longleftrightarrow>
     (\<exists>te f sealed secret counter. me_totp env = Some te \<and> f \<in> set (mf_factors db) \<and> fa_user f = ch_user c \<and> fa_org f = ch_org c \<and>
        fa_type f = type_totp \<and> factor_active f \<and> fa_id f \<in> set (ch_factors c) \<and>
        fa_secret f = Some sealed \<and> open_secret (te_sealer te) sealed = Inr secret \<and>
        trim_space code = totp_code (te_mac te) secret counter \<and>
        counter \<in> {totp_counter (me_now env) - 1, totp_counter (me_now env), totp_counter (me_now env) + 1} \<and>
        counter_below f (sint counter) \<and> record_use (ch_org c) (fa_id f) counter (me_now env) db = (False, db'))"

text \<open>
  C36. A login is completed by an authenticator app only with proof of possession: the challenge under the handle was raised for
  this authorization request, is not spent and names an active factor of its own user; the code is the code of that factor's secret for a time step within
  one of now, later than every step the factor was used for, and that step is spent in the same transaction; the
  deletion of the challenge is sent and the outcome names the challenged user.
\<close>

theorem totp_login_proves_possession:
  assumes "factors_ok (mw_db w)" "answer_type env handle pending t code w = ((None, out), w')"
  shows "\<exists>c. read_challenge env handle w = Inr c \<and> ch_pending c = pending \<and> \<not> challenge_spent c \<and>
    bound_allows env (ch_user c) w = Inr () \<and> proves_possession env c code (mw_db w) (mw_db w') \<and>
    mo_complete out \<and> mo_user out = ch_user c \<and> mo_org out = ch_org c \<and> mo_methods out = ch_methods c @ [type_totp] \<and>
    mw_challenges w' = delete_challenge (me_challenges env) (me_now env) handle (mw_challenges w)"
proof -
  from assms(2) obtain c i ms where c: "read_challenge env handle w = Inr c" "ch_pending c = pending"
    and run: "mfa_answer env handle i code w = (Inr ms, w')" and out: "out = outcome_of c\<lparr>mo_complete := True, mo_methods := ms\<rparr>"
    by (auto simp: answer_type_def split: sum.splits if_splits prod.splits)
  from mfa_answer_ok [OF run c(1)] obtain te where te: "me_totp env = Some te"
    and ty: "type_of_factor env (ch_org c) (ch_user c) i (mw_db w) = Inr type_totp"
    and ver: "totp_verify te i code (me_now env) (mw_db w) = (Inr (), mw_db w')" and i: "i \<in> set (ch_factors c)"
    and rest: "\<not> challenge_spent c" "bound_allows env (ch_user c) w = Inr ()" "ms = ch_methods c @ [type_totp]"
      "mw_challenges w' = delete_challenge (me_challenges env) (me_now env) handle (mw_challenges w)"
    by (auto simp: prod_eq_iff)
  from ty obtain fs g where fs: "confirmed_factors (me_type_fault env) (ch_org c) (ch_user c) (mw_db w) = Inr fs"
    and "List.find (\<lambda>f. fa_id f = i) fs = Some g" "fa_type g = type_totp"
    by (auto simp: type_of_factor_def split: sum.splits option.splits)
  then have g: "g \<in> set fs" "fa_id g = i" "fa_type g = type_totp" by (auto simp: find_Some_iff)
  then have g': "g \<in> set (mf_factors (mw_db w))" "fa_org g = ch_org c" "fa_user g = ch_user c" using confirmed_iff [OF fs] by blast+
  from totp_verify_ok [OF ver] obtain f sealed secret counter where f: "f \<in> set (mf_factors (mw_db w))" "fa_id f = i" "factor_active f"
    and proof_: "fa_secret f = Some sealed" "open_secret (te_sealer te) sealed = Inr secret" "trim_space code = totp_code (te_mac te) secret counter"
      "counter \<in> {totp_counter (me_now env) - 1, totp_counter (me_now env), totp_counter (me_now env) + 1}"
      "record_use (fa_org f) i counter (me_now env) (mw_db w) = (False, mw_db w')" by blast
  have "f = g" using factor_by_id [OF assms(1) f(1) g'(1)] f(2) g(2) by simp
  moreover have "counter_below f (sint counter)"
  proof -
    from proof_(5) obtain h where h: "h \<in> set (mf_factors (mw_db w))" "fa_id h = i" "counter_below h (sint counter)"
      by (auto simp: record_use_def list_ex_iff split: if_splits)
    with factor_by_id [OF assms(1) f(1) h(1)] f(2) show ?thesis by simp
  qed
  ultimately have "proves_possession env c code (mw_db w) (mw_db w')"
    unfolding proves_possession_def using te f g g' i proof_
    by (intro exI [of _ te] exI [of _ f] exI [of _ sealed] exI [of _ secret] exI [of _ counter]) simp
  with c rest out show ?thesis by (auto simp: outcome_of_def no_outcome_def)
qed

definition recovery_matches :: "(nat \<Rightarrow> nat) \<Rightarrow> string \<Rightarrow> string \<Rightarrow> nat list \<Rightarrow> recovery_row \<Rightarrow> bool" where
  "recovery_matches upper org user typed r \<longleftrightarrow> rc_org r = org \<and> rc_user r = user \<and>
     rc_hash r = hash_recovery_code upper (runes_of (normalise_recovery_code upper typed))"

lemma consume_recovery_ok:
  assumes "consume_recovery upper org user typed now db = Inr (left, db')"
  shows "valid_recovery_code_shape (normalise_recovery_code upper typed)"
    "\<exists>r \<in> set (mf_codes db). recovery_matches upper org user typed r \<and> rc_used r = None"
    "db' = db\<lparr>mf_codes := map (\<lambda>r. if recovery_matches upper org user typed r \<and> rc_used r = None then r\<lparr>rc_used := Some now\<rparr> else r) (mf_codes db)\<rparr>"
    "left = remaining_codes org user db'"
  using assms
  by (auto simp: consume_recovery_def recovery_matches_def Let_def list_ex_iff split: if_splits)

text \<open>
  A recovery code completes a login only for the challenged user, for whom it was issued and unspent, and is spent by it: the
  challenge was raised for this authorization request, the row of the code is marked used in the same transaction, and
  the session's methods claim no factor that was not shown.
\<close>

theorem recovery_login_spends_code:
  assumes "answer_recovery env handle pending code w = ((None, out), w')"
  shows "\<exists>c r. read_challenge env handle w = Inr c \<and> ch_pending c = pending \<and> \<not> challenge_spent c \<and> bound_allows env (ch_user c) w = Inr () \<and>
    r \<in> set (mf_codes (mw_db w)) \<and> recovery_matches (me_upper env) (ch_org c) (ch_user c) code r \<and> rc_used r = None \<and>
    r\<lparr>rc_used := Some (me_now env)\<rparr> \<in> set (mf_codes (mw_db w')) \<and>
    \<not> (\<exists>q \<in> set (mf_codes (mw_db w')). recovery_matches (me_upper env) (ch_org c) (ch_user c) code q \<and> rc_used q = None) \<and>
    mo_user out = ch_user c \<and> mo_recovery out \<and> mo_methods out = []"
proof -
  from assms obtain c left where c: "read_challenge env handle w = Inr c" "ch_pending c = pending" "\<not> challenge_spent c"
      "bound_allows env (ch_user c) w = Inr ()"
    and run: "spend_recovery (me_upper env) (me_spend_fault env) (ch_org c) (ch_user c) code (me_now env) (mw_db w) = (Inr left, mw_db w')"
    and out: "out = outcome_of c\<lparr>mo_complete := True, mo_recovery := True, mo_remaining := left\<rparr>"
    by (auto simp: answer_recovery_def drop_challenge_def Let_def split: sum.splits if_splits prod.splits bool.splits)
  then have "consume_recovery (me_upper env) (ch_org c) (ch_user c) code (me_now env) (mw_db w) = Inr (left, mw_db w')"
    by (simp add: spend_recovery_def in_tenant_ok)
  note ok = consume_recovery_ok [OF this]
  from ok(2) obtain r where r: "r \<in> set (mf_codes (mw_db w))" "recovery_matches (me_upper env) (ch_org c) (ch_user c) code r" "rc_used r = None" by blast
  have "r\<lparr>rc_used := Some (me_now env)\<rparr> \<in> set (mf_codes (mw_db w'))" unfolding ok(3) using r by force
  moreover have "\<not> (\<exists>q \<in> set (mf_codes (mw_db w')). recovery_matches (me_upper env) (ch_org c) (ch_user c) code q \<and> rc_used q = None)"
    unfolding ok(3) by (auto simp: recovery_matches_def)
  ultimately show ?thesis using c r out by (auto simp: outcome_of_def no_outcome_def)
qed

section \<open>Once\<close>

text \<open>
  What happens to the tables between two presentations of a code, with \<open>i\<close> a factor and \<open>h\<close> the hash of a recovery code of
  \<open>user\<close>: the store methods, with any arguments, except that the identifier of a factor and the hash of a code are not
  drawn a second time.
\<close>

inductive mfa_step :: "string \<Rightarrow> string \<Rightarrow> byte list \<Rightarrow> mfa_db \<Rightarrow> mfa_db \<Rightarrow> bool" for i user h where
  step_insert: "insert_factor_row org f db = Inr db' \<Longrightarrow> fa_id f \<noteq> i \<Longrightarrow> mfa_step i user h db db'"
| step_discard: "mfa_step i user h db (discard_pending org u t db)"
| step_activate: "activate_factor org j db = Inr db' \<Longrightarrow> mfa_step i user h db db'"
| step_use: "record_use org j counter now db = (replayed, db') \<Longrightarrow> mfa_step i user h db db'"
| step_delete: "delete_factor org j db = Inr db' \<Longrightarrow> mfa_step i user h db db'"
| step_sign: "mfa_step i user h db (record_sign_count org j count now db)"
| step_clear_factors: "mfa_step i user h db (snd (clear_factors org u db))"
| step_code: "insert_recovery_row org r db = Inr db' \<Longrightarrow> rc_user r \<noteq> user \<or> rc_hash r \<noteq> h \<Longrightarrow> mfa_step i user h db db'"
| step_consume: "consume_recovery upper org u typed now db = Inr (left, db') \<Longrightarrow> mfa_step i user h db db'"
| step_clear: "mfa_step i user h db (snd (clear_recovery org u db))"


definition code_spent :: "string \<Rightarrow> string \<Rightarrow> byte list \<Rightarrow> mfa_db \<Rightarrow> bool" where
  "code_spent org user h db \<longleftrightarrow> (\<forall>r \<in> set (mf_codes db). rc_org r = org \<longrightarrow> rc_user r = user \<longrightarrow> rc_hash r = h \<longrightarrow> rc_used r \<noteq> None)"


lemma step_code_spent: "mfa_step i user h db db' \<Longrightarrow> code_spent org user h db \<Longrightarrow> code_spent org user h db'"
  by (induction rule: mfa_step.induct)
    (auto simp: code_spent_def insert_factor_row_def discard_pending_def activate_factor_def record_use_def delete_factor_def record_sign_count_def
      clear_factors_def insert_recovery_row_def consume_recovery_def clear_recovery_def update_factor_def Let_def split: if_splits)


lemma steps_code_spent: "(mfa_step i user h)\<^sup>*\<^sup>* db db' \<Longrightarrow> code_spent org user h db \<Longrightarrow> code_spent org user h db'"
  by (induction rule: rtranclp_induct) (auto intro: step_code_spent)


text \<open>
  A recovery code works once: after it was spent, nobody is let in by it again, in whatever way it is typed, until a batch with the same code
  is issued.
\<close>

theorem recovery_code_once:
  assumes "consume_recovery upper org user typed now db = Inr (left, db1)"
    and "(mfa_step i user (hash_recovery_code upper (runes_of (normalise_recovery_code upper typed))))\<^sup>*\<^sup>* db1 db2"
    and "normalise_recovery_code upper typed' = normalise_recovery_code upper typed"
  shows "consume_recovery upper org user typed' later db2 = Inl NoRecoveryCode"
proof -
  let ?h = "hash_recovery_code upper (runes_of (normalise_recovery_code upper typed))"
  have "code_spent org user ?h db1"
    unfolding code_spent_def
  proof (intro ballI impI)
    fix q assume "q \<in> set (mf_codes db1)" and q: "rc_org q = org" "rc_user q = user" "rc_hash q = ?h"
    then have "q \<in> (\<lambda>r. if recovery_matches upper org user typed r \<and> rc_used r = None then r\<lparr>rc_used := Some now\<rparr> else r) ` set (mf_codes db)"
      by (simp add: consume_recovery_ok(3) [OF assms(1)])
    then obtain r where r: "q = (if recovery_matches upper org user typed r \<and> rc_used r = None then r\<lparr>rc_used := Some now\<rparr> else r)" by (rule imageE)
    show "rc_used q \<noteq> None"
    proof (cases "recovery_matches upper org user typed r \<and> rc_used r = None")
      case True
      then have "q = r\<lparr>rc_used := Some now\<rparr>" by (rule trans [OF r if_P])
      then show ?thesis by simp
    next
      case False
      then have "q = r" by (rule trans [OF r if_not_P])
      with q have "recovery_matches upper org user typed r" by (simp add: recovery_matches_def)
      with False \<open>q = r\<close> show ?thesis by simp
    qed
  qed
  from steps_code_spent [OF assms(2) this]
  have "\<not> list_ex (\<lambda>r. rc_org r = org \<and> rc_user r = user \<and> rc_hash r = ?h \<and> rc_used r = None) (mf_codes db2)"
    unfolding code_spent_def list_ex_iff by blast
  then show ?thesis by (simp add: consume_recovery_def assms(3) Let_def)
qed

section \<open>The text of recovery codes\<close>

definition code_char :: "char \<Rightarrow> bool" where "code_char c \<longleftrightarrow> code_rune (ord_of c)"

lemma b32_digit_code: "n < 32 \<Longrightarrow> code_char (b32_digit n)"
proof -
  have "\<forall>n \<in> set [0..<32]. code_char (b32_digit n)" by code_simp
  then show "n < 32 \<Longrightarrow> code_char (b32_digit n)" by simp
qed

lemma bits_value_bound: "length bs = 5 \<Longrightarrow> bits_value bs < 32"
  by (cases bs rule: b32_groups.cases) (auto simp: bits_value_def of_bool_def)

lemma b32_groups_bound: "n \<in> set (b32_groups bs) \<Longrightarrow> n < 32"
  by (induction bs rule: b32_groups.induct) (auto intro: bits_value_bound)

lemma b32_encode_code: "c \<in> set (b32_encode bs) \<Longrightarrow> code_char c"
  by (auto simp: b32_encode_def intro: b32_digit_code b32_groups_bound)

lemma length_b32_groups: "length (b32_groups bs) = (length bs + 4) div 5"
  by (induction bs rule: b32_groups.induct) simp_all

lemma length_b32_encode: "length (b32_encode bs) = (8 * length bs + 4) div 5"
  by (simp add: b32_encode_def length_b32_groups length_concat comp_def byte_bits_def sum_list_triv mult.commute)

lemma code_char_plain: "code_char c \<Longrightarrow> space_len (c # s) = 0 \<and> to_upper_char c = c \<and> c \<noteq> CHR ''-''"
  by (auto simp: code_char_def code_rune_def space_len_ascii ascii_space_def to_upper_char_def is_lower_def)

lemma trim_code: "\<forall>c \<in> set s. code_char c \<Longrightarrow> trim_space s = s"
proof -
  assume a: "\<forall>c \<in> set s. code_char c"
  have left: "trim_left s = s" using a by (cases s) (simp_all add: code_char_plain)
  have "trim_right_rev n (rev s) = rev s" for n
  proof (cases n)
    case (Suc m)
    have "space_len (rev (take k (rev s))) = 0" if "s \<noteq> []" "0 < k" for k
    proof -
      have "rev (take k (rev s)) \<noteq> []" using that by simp
      then obtain c t where ct: "rev (take k (rev s)) = c # t" by (cases "rev (take k (rev s))") auto
      then have "c \<in> set (rev (take k (rev s)))" by simp
      then have "c \<in> set s" by (auto dest: in_set_takeD)
      with a ct show ?thesis by (simp add: code_char_plain)
    qed
    from this [of 1] this [of 2] this [of 3] Suc show ?thesis by (cases "s = []") simp_all
  qed simp
  with left show ?thesis by (simp add: trim_space_def)
qed

text \<open>What a person may type for a code: separators anywhere, lower case, and the digits that no code contains for the letters they are misread for.\<close>

definition separator :: "nat \<Rightarrow> bool" where
  "separator r \<longleftrightarrow> r < 48 \<or> 58 \<le> r \<and> r < 65 \<or> 91 \<le> r \<and> r < 97 \<or> 123 \<le> r \<and> r < 128"

inductive spells :: "nat list \<Rightarrow> string \<Rightarrow> bool" where
  spells_nil: "spells [] []"
| spells_separator: "spells rs s \<Longrightarrow> separator r \<Longrightarrow> spells (r # rs) s"
| spells_char: "spells rs s \<Longrightarrow> r = ord_of c \<or> is_upper c \<and> r = ord_of c + 32 \<or> confusable r = Some (ord_of c) \<Longrightarrow> spells (r # rs) (c # s)"

lemma read_separator: "ascii_upper upper \<Longrightarrow> separator r \<Longrightarrow> \<not> code_rune (repaired (upper r))"
  by (auto simp: ascii_upper_def separator_def repaired_def confusable_def code_rune_def)

lemma read_char:
  assumes "ascii_upper upper" "code_char c" "r = ord_of c \<or> is_upper c \<and> r = ord_of c + 32 \<or> confusable r = Some (ord_of c)"
  shows "repaired (upper r) = ord_of c"
proof -
  have small: "ord_of c < 128" using assms(2) by (auto simp: code_char_def code_rune_def)
  have plain: "confusable (ord_of c) = None" using assms(2) by (auto simp: confusable_def code_char_def code_rune_def)
  consider "r = ord_of c" | "is_upper c" "r = ord_of c + 32" | "confusable r = Some (ord_of c)" using assms(3) by blast
  then show ?thesis
  proof cases
    case 1
    moreover have "upper (ord_of c) = ord_of c" using assms(1,2) small by (auto simp: ascii_upper_def code_char_def code_rune_def)
    ultimately show ?thesis using plain by (simp add: repaired_def)
  next
    case 2
    then have "upper r = ord_of c" using assms(1) by (simp add: ascii_upper_def is_upper_def)
    then show ?thesis using plain by (simp add: repaired_def)
  next
    case 3
    then have "r \<in> {48, 49, 56, 57}" by (auto simp: confusable_def split: if_splits)
    moreover have "upper r = r" if "r < 97" for r using assms(1) that by (simp add: ascii_upper_def)
    ultimately have "upper r = r" by auto
    with 3 show ?thesis by (simp add: repaired_def)
  qed
qed

lemma normalise_spelled:
  assumes "spells typed s" "\<forall>c \<in> set s. code_char c" "ascii_upper upper"
  shows "normalise_recovery_code upper typed = s"
  using assms(1,2)
proof (induction rule: spells.induct)
  case (spells_separator rs s r)
  then show ?case using read_separator [OF assms(3)] by (simp add: normalise_recovery_code_def)
next
  case (spells_char rs s r c)
  then show ?case using read_char [OF assms(3), of c r] by (simp add: normalise_recovery_code_def code_char_def)
qed (simp add: normalise_recovery_code_def)

lemma spells_grouped: "spells (runes_of (grouped_from i s)) s"
  by (induction i s rule: grouped_from.induct)
    (auto simp: runes_of_def separator_def intro: spells.intros)

lemma spelled_code: "spells (runes_of (new_recovery_code raw)) (b32_encode raw)"
proof -
  have code: "\<forall>c \<in> set (b32_encode raw). code_char c" by (simp add: b32_encode_code)
  then have "map to_upper_char (b32_encode raw) = b32_encode raw" by (simp add: map_idI code_char_plain)
  then have "new_recovery_code raw = grouped_from 0 (b32_encode raw)"
    by (simp add: new_recovery_code_def format_recovery_code_def trim_code [OF code])
  then show ?thesis by (simp add: spells_grouped)
qed

text \<open>
  A recovery code is read back as it was drawn: the printed code, and whatever else spells it, with other separators, in
  lower case, or with a digit that no code contains for the letter it is misread for, normalises to the code
  whose hash is stored.
\<close>

theorem recovery_code_round_trip:
  assumes "ascii_upper upper" "length raw = recovery_code_bytes" "spells typed (b32_encode raw)"
  shows "normalise_recovery_code upper typed = b32_encode raw \<and> valid_recovery_code_shape (b32_encode raw) \<and>
    normalise_recovery_code upper (runes_of (new_recovery_code raw)) = b32_encode raw \<and>
    hash_recovery_code upper typed = hash_recovery_code upper (runes_of (new_recovery_code raw))"
proof -
  have code: "\<forall>c \<in> set (b32_encode raw). code_char c" by (simp add: b32_encode_code)
  from normalise_spelled [OF spelled_code code assms(1)] normalise_spelled [OF assms(3) code assms(1)] assms(2) show ?thesis
    by (simp add: hash_recovery_code_def valid_recovery_code_shape_def length_b32_encode recovery_code_length_def)
qed

section \<open>Minting a batch\<close>

lemma bits_value_inj:
  "bits_value [a, b, c, d, e] = bits_value [a', b', c', d', e'] \<Longrightarrow> [a, b, c, d, e] = [a', b', c', d', e']"
proof -
  have step: "(2 * m + of_bool p = 2 * n + of_bool q) \<longleftrightarrow> m = n \<and> p = q" for m n :: nat and p q
    by (cases p; cases q) (auto simp: of_bool_def; presburger)+
  have num: "bits_value [a, b, c, d, e] = 2 * (2 * (2 * (2 * (2 * 0 + of_bool a) + of_bool b) + of_bool c) + of_bool d) + of_bool e" for a b c d e
    by (simp add: bits_value_def)
  assume "bits_value [a, b, c, d, e] = bits_value [a', b', c', d', e']"
  then show ?thesis unfolding num step by blast
qed

lemma b32_groups_inj: "length bs = 5 * n \<Longrightarrow> length cs = 5 * n \<Longrightarrow> b32_groups bs = b32_groups cs \<Longrightarrow> bs = cs"
proof (induction n arbitrary: bs cs)
  case (Suc n)
  then obtain a b c d e bs' where bs: "bs = a # b # c # d # e # bs'" by (auto simp: length_Suc_conv eval_nat_numeral)
  from Suc.prems obtain a' b' c' d' e' cs' where cs: "cs = a' # b' # c' # d' # e' # cs'" by (auto simp: length_Suc_conv eval_nat_numeral)
  have "bs' = cs'" using Suc.prems by (intro Suc.IH) (simp_all add: bs cs)
  moreover have "[a, b, c, d, e] = [a', b', c', d', e']" using Suc.prems(3) by (intro bits_value_inj) (simp add: bs cs)
  ultimately show ?case by (simp add: bs cs)
qed simp

lemma b32_digit_inj: "m < 32 \<Longrightarrow> n < 32 \<Longrightarrow> b32_digit m = b32_digit n \<Longrightarrow> m = n"
proof -
  have "map (of_char :: char \<Rightarrow> nat) ''ABCDEFGHIJKLMNOPQRSTUVWXYZ234567'' =
      [65, 66, 67, 68, 69, 70, 71, 72, 73, 74, 75, 76, 77, 78, 79, 80, 81, 82, 83, 84, 85, 86, 87, 88, 89, 90, 50, 51, 52, 53, 54, 55]" by code_simp
  moreover have "distinct [65, 66, 67, 68, 69, 70, 71, 72, 73, 74, 75, 76, 77, 78, 79, 80, 81, 82, 83, 84, 85, 86, 87, 88, 89, 90, 50, 51, 52, 53, 54, 55 :: nat]" by simp
  ultimately have "distinct (map (of_char :: char \<Rightarrow> nat) ''ABCDEFGHIJKLMNOPQRSTUVWXYZ234567'')" by (simp only:)
  then have "distinct ''ABCDEFGHIJKLMNOPQRSTUVWXYZ234567''" unfolding distinct_map by blast
  then show "m < 32 \<Longrightarrow> n < 32 \<Longrightarrow> b32_digit m = b32_digit n \<Longrightarrow> m = n" by (simp add: b32_digit_def nth_eq_iff_index_eq)
qed

lemma byte_bits_inj:
  assumes "byte_bits a = byte_bits (b :: byte)"
  shows "a = b"
proof (rule bit_word_eqI)
  fix n assume "n < LENGTH(8)"
  then have "n < 8" by simp
  then have "n \<in> {0, 1, 2, 3, 4, 5, 6, 7}" unfolding insert_iff by linarith
  moreover have "\<forall>i \<in> {0, 1, 2, 3, 4, 5, 6, 7}. bit a i = bit b i" using assms unfolding byte_bits_def list.map list.inject by blast
  ultimately show "bit a n = bit b n" by blast
qed

lemma concat_bits_inj: "length bs = length cs \<Longrightarrow> concat (map byte_bits bs) = concat (map byte_bits cs) \<Longrightarrow> bs = cs"
proof (induction bs cs rule: list_induct2)
  case (Cons b bs c cs)
  then have "byte_bits b = byte_bits c \<and> concat (map byte_bits bs) = concat (map byte_bits cs)"
    by (simp add: byte_bits_def append_eq_append_conv)
  with Cons show ?case by (auto dest: byte_bits_inj)
qed simp

lemma b32_encode_inj:
  assumes "length a = 5 * n" "length b = 5 * n" "b32_encode a = b32_encode b"
  shows "a = b"
proof -
  let ?x = "concat (map byte_bits a)" and ?y = "concat (map byte_bits b)"
  have len: "length ?x = 5 * (8 * n)" "length ?y = 5 * (8 * n)"
    using assms(1,2) by (simp_all add: length_concat comp_def byte_bits_def sum_list_triv)
  have "inj_on b32_digit {m. m < 32}" by (auto simp: inj_on_def intro: b32_digit_inj)
  then have "b32_groups ?x = b32_groups ?y"
    by (rule map_inj_on [rotated, OF inj_on_subset]) (use assms(3) b32_groups_bound in \<open>auto simp: b32_encode_def\<close>)
  from concat_bits_inj [OF _ b32_groups_inj [OF len this]] assms(1,2) show ?thesis by simp
qed

text \<open>The printed codes of different draws are different.\<close>

lemma new_recovery_code_inj:
  assumes "length a = recovery_code_bytes" "length b = recovery_code_bytes" "new_recovery_code a = new_recovery_code b"
  shows "a = b"
proof -
  let ?upper = "\<lambda>r :: nat. if 97 \<le> r \<and> r \<le> 122 then r - 32 else r"
  have upper: "ascii_upper ?upper" by (simp add: ascii_upper_def)
  have "normalise_recovery_code ?upper (runes_of (new_recovery_code c)) = b32_encode c" for c
    by (rule normalise_spelled [OF spelled_code _ upper]) (simp add: b32_encode_code)
  then have "b32_encode a = b32_encode b" using assms(3) by metis
  with assms(1,2) b32_encode_inj [of a 2 b] show ?thesis by (simp add: recovery_code_bytes_def)
qed

lemma mint_batch_some:
  "distinct codes \<Longrightarrow> n \<le> card (new_recovery_code ` set draws - set codes) \<Longrightarrow>
    \<exists>out. mint_batch n draws codes = Some out \<and> distinct out \<and> length out = length codes + n \<and>
      set out \<subseteq> set codes \<union> new_recovery_code ` set draws"
proof (induction n draws codes rule: mint_batch.induct)
  case (3 n raw draws codes)
  let ?code = "new_recovery_code raw" and ?new = "new_recovery_code ` set draws"
  show ?case
  proof (cases "?code \<in> set codes")
    case True
    then have "insert ?code ?new - set codes = ?new - set codes" by auto
    with 3(1) [OF refl _ 3(3)] True 3(4) show ?thesis by (auto simp: Let_def)
  next
    case False
    have "insert ?code ?new - set codes = insert ?code (?new - set (codes @ [?code]))" using False by auto
    then have "card (insert ?code ?new - set codes) = Suc (card (?new - set (codes @ [?code])))" by simp
    with 3(4) have "n \<le> card (?new - set (codes @ [?code]))" by simp
    moreover have "distinct (codes @ [?code])" using 3(3) False by simp
    ultimately obtain out where "mint_batch n draws (codes @ [?code]) = Some out" "distinct out" "length out = length (codes @ [?code]) + n"
        "set out \<subseteq> set (codes @ [?code]) \<union> ?new"
      using 3(2) [OF refl] False by auto
    with False show ?thesis by (intro exI [of _ out]) (auto simp: Let_def)
  qed
qed auto

text \<open>
  C40. Minting a batch of recovery codes ends: the loop that redraws a code it has already drawn stops with the batch as soon as
  as many different values were drawn as codes are wanted, whatever else was drawn in between, and the batch is of that many different codes, each
  the code of one of the draws.
\<close>

theorem recovery_batch_completes:
  assumes "0 < count" "\<forall>raw \<in> set draws. length raw = recovery_code_bytes" "nat count \<le> card (set draws)"
  shows "\<exists>codes. new_recovery_codes count draws = Some codes \<and> length codes = nat count \<and> distinct codes \<and> set codes \<subseteq> new_recovery_code ` set draws"
proof -
  have "inj_on new_recovery_code (set draws)" using assms(2) by (auto simp: inj_on_def intro: new_recovery_code_inj)
  then have "nat count \<le> card (new_recovery_code ` set draws - set [])" using assms(3) by (simp add: card_image)
  with mint_batch_some [of "[]" "nat count" draws] assms(1) show ?thesis by (auto simp: new_recovery_codes_def)
qed

theorem recovery_batch_completes_witness:
  "\<exists>codes. new_recovery_codes 2 [replicate 10 0, replicate 10 0, replicate 10 1] = Some codes \<and> length codes = 2 \<and> distinct codes"
proof -
  have "card (set [replicate 10 0, replicate 10 0, replicate 10 (1 :: byte)]) = 2" by simp
  with recovery_batch_completes [of 2 "[replicate 10 0, replicate 10 0, replicate 10 1]"] show ?thesis
    by (auto simp: recovery_code_bytes_def)
qed

section \<open>The methods of a session\<close>

lemma set_insert_string [simp]: "set (insert_string s ts) = insert s (set ts)"
  by (induction ts) auto

lemma set_sort_strings [simp]: "set (sort_strings ss) = set ss"
  by (induction ss) (simp_all add: sort_strings_def)

lemma byte_less_eq_refl [simp]: "byte_less_eq s s"
  by (induction s) simp_all

lemma byte_less_eq_total: "byte_less_eq s t \<or> byte_less_eq t s"
  by (induction s t rule: byte_less_eq.induct) auto

lemma byte_less_eq_trans: "byte_less_eq s t \<Longrightarrow> byte_less_eq t u \<Longrightarrow> byte_less_eq s u"
proof (induction s t arbitrary: u rule: byte_less_eq.induct)
  case (3 c s d t)
  then show ?case by (cases u) auto
qed auto

lemma sorted_insert_string: "sorted_wrt byte_less_eq ts \<Longrightarrow> sorted_wrt byte_less_eq (insert_string s ts)"
  using byte_less_eq_total by (induction ts) (auto intro: byte_less_eq_trans)

lemma sorted_sort_strings: "sorted_wrt byte_less_eq (sort_strings ss)"
  by (induction ss) (simp_all add: sort_strings_def sorted_insert_string)

lemma distinct_insert_string: "s \<notin> set ts \<Longrightarrow> distinct ts \<Longrightarrow> distinct (insert_string s ts)"
  by (induction ts) auto

lemma distinct_sort_strings: "distinct ss \<Longrightarrow> distinct (sort_strings ss)"
  unfolding sort_strings_def
  by (induction ss) (simp_all add: distinct_insert_string set_sort_strings [unfolded sort_strings_def])

lemma set_add_methods: "set (fold add_method ms acc) = set acc \<union> {m \<in> set ms. m \<noteq> []}"
  by (induction ms arbitrary: acc) (auto simp: add_method_def)

lemma distinct_add_methods: "distinct acc \<Longrightarrow> distinct (fold add_method ms acc)"
  by (induction ms arbitrary: acc) (auto simp: add_method_def)

text \<open>
  The methods a session records say what was used: a method is listed exactly when the password was checked, a factor of that
  method was, or more than one kind of method was; never twice, in one order; a recovery code adds only that there was a
  second factor.
\<close>

theorem auth_methods_truthful:
  "set (auth_methods password used) =
     (let ms = {m. m = method_password \<and> password \<or> (\<exists>t \<in> set used. m = factor_amr t \<and> m \<noteq> [])} in
      if 1 < card ms then insert method_multi_factor ms else ms) \<and>
   distinct (auth_methods password used) \<and> sorted_wrt byte_less_eq (auth_methods password used) \<and>
   set (auth_methods_with_recovery password True used) = insert method_multi_factor (set (auth_methods password used)) \<and>
   auth_methods_with_recovery password False used = auth_methods password used"
proof -
  let ?ms = "fold add_method (map factor_amr used) (if password then [method_password] else [])"
  let ?M = "{m. m = method_password \<and> password \<or> (\<exists>t \<in> set used. m = factor_amr t \<and> m \<noteq> [])}"
  have set: "set ?ms = ?M" by (auto simp: set_add_methods)
  have d: "distinct ?ms" by (rule distinct_add_methods) simp
  have card: "length ?ms = card ?M" using distinct_card [OF d] set by simp
  have "set (auth_methods password used) = set (if 1 < length ?ms then add_method method_multi_factor ?ms else ?ms)"
    by (simp add: auth_methods_def Let_def)
  also have "\<dots> = (if 1 < card ?M then insert method_multi_factor (set ?ms) else set ?ms)"
    unfolding card by (simp add: add_method_def method_multi_factor_def insert_absorb)
  finally have 1: "set (auth_methods password used) = (if 1 < card ?M then insert method_multi_factor ?M else ?M)"
    unfolding set .
  have 2: "distinct (auth_methods password used)"
    using d by (auto simp: auth_methods_def Let_def add_method_def intro!: distinct_sort_strings)
  have 3: "sorted_wrt byte_less_eq (auth_methods password used)" by (simp add: auth_methods_def Let_def sorted_sort_strings)
  have 4: "set (auth_methods_with_recovery password True used) = insert method_multi_factor (set (auth_methods password used))"
    by (auto simp: auth_methods_with_recovery_def Let_def)
  show ?thesis using 1 2 3 4 by (simp add: Let_def auth_methods_with_recovery_def)
qed

section \<open>Applied\<close>

text \<open>A challenge store in memory, and a login of \<open>u\<close> who has an authenticator app and one recovery code. The key is not a secret here: the code is the step.\<close>

definition map_challenges :: "(time \<Rightarrow> bool) \<Rightarrow> challenge blob ttl_map challenge_redis" where
  "map_challenges down =
     \<lparr>cr_ops = ttl_redis down,
      cr_replace = (\<lambda>now k v st. if down now then (Inl (), st)
        else case st k of
          None \<Rightarrow> (Inr False, st)
        | Some (x, until) \<Rightarrow> if now < until then (Inr True, st(k \<mapsto> (v, until))) else (Inr False, st))\<rparr>"

definition demo_mac :: mac where "demo_mac secret m = 0 # drop 5 m @ replicate 16 0"

definition demo_totp :: totp_env where
  "demo_totp = \<lparr>te_sealer = Some \<lparr>se_seal = (\<lambda>n p. p), se_open = (\<lambda>n c. Some c)\<rparr>, te_mac = demo_mac, te_fault = TxOk\<rparr>"

definition demo_now :: time where "demo_now = 300 * second"

definition demo_app :: factor where
  "demo_app = \<lparr>fa_id = ''f'', fa_user = ''u'', fa_org = ''o'', fa_type = type_totp, fa_label = [], fa_status = ActiveFactor,
     fa_secret = Some (replicate 20 1), fa_counter = None, fa_credential = None, fa_public_key = [], fa_sign_count = 0, fa_used = None, fa_created = 0\<rparr>"

definition demo_typed :: "nat list" where "demo_typed = replicate 16 65"

definition demo_upper :: "nat \<Rightarrow> nat" where "demo_upper r = (if 97 \<le> r \<and> r \<le> 122 then r - 32 else r)"

definition demo_row :: recovery_row where
  "demo_row = \<lparr>rc_user = ''u'', rc_org = ''o'', rc_hash = hash_recovery_code demo_upper (runes_of (normalise_recovery_code demo_upper demo_typed)),
     rc_batch = ''b'', rc_used = None, rc_created = 0\<rparr>"

definition demo_mfa :: mfa_db where
  "demo_mfa = \<lparr>mf_users = [''u'' \<mapsto> ''o''], mf_factors = [demo_app], mf_codes = [demo_row]\<rparr>"

definition demo_raised :: challenge where
  "demo_raised = \<lparr>ch_user = ''u'', ch_org = ''o'', ch_pending = ''p'', ch_factors = [''f''], ch_attempts = 0, ch_methods = [], ch_options = [],
     ch_session = [], ch_created = 0\<rparr>"

definition demo_login :: "(challenge blob ttl_map, unit) mfa_env" where
  "demo_login = \<lparr>me_now = demo_now, me_totp = Some demo_totp, me_webauthn = None, me_recovery = True, me_upper = demo_upper, me_attempts = None,
     me_challenges = Some (map_challenges (\<lambda>_. False)), me_handle = None, me_resolve_fault = TxOk, me_type_fault = TxOk, me_peek_fault = TxOk,
     me_unspent_fault = TxOk, me_spend_fault = TxOk\<rparr>"

definition demo_world :: "(challenge blob ttl_map, unit) mfa_world" where
  "demo_world = \<lparr>mw_db = demo_mfa, mw_challenges = [handle_key ''h'' \<mapsto> (Blob demo_raised, demo_now + 1)], mw_attempts = ()\<rparr>"

lemma demo_read: "read_challenge demo_login ''h'' demo_world = Inr demo_raised"
  by (simp add: read_challenge_def get_challenge_def demo_login_def demo_world_def map_challenges_def ttl_redis_def ttl_contents_def decode_challenge_def
      demo_raised_def)

lemma demo_factors: "factors_ok demo_mfa"
  by (simp add: factors_ok_def demo_mfa_def demo_app_def type_totp_def)

lemma demo_code: "verify_totp demo_mac (replicate 8 1) ''000010'' demo_now = (10, True)"
  by code_simp

lemma demo_code_later: "verify_totp demo_mac (replicate 8 1) ''000011'' (demo_now + 30 * second) = (11, True)"
  by code_simp

lemmas demo_check_defs = totp_verify_def totp_check_def demo_totp_def org_of_factor_def check_code_def in_tenant_def with_tenant_def with_scope_def
  bindE_def sealed_secret_def find_factor_def demo_mfa_def demo_app_def open_secret_def nonce_bytes_def demo_code demo_code_later
  record_use_def update_factor_def counter_below_def

definition demo_after :: mfa_db where
  "demo_after = demo_mfa\<lparr>mf_factors := [demo_app\<lparr>fa_counter := Some 10, fa_used := Some demo_now\<rparr>]\<rparr>"

lemma demo_verify: "totp_verify demo_totp ''f'' ''000010'' demo_now demo_mfa = (Inr (), demo_after)"
  by (simp add: demo_check_defs demo_after_def)


lemma demo_confirmed: "confirmed_factors TxOk ''o'' ''u'' demo_mfa = Inr [demo_app]"
  by (simp add: confirmed_factors_def in_tenant_def with_tenant_def with_scope_def factors_of_user_def demo_mfa_def demo_app_def factor_active_def)

lemma demo_answer: "fst (fst (answer_type demo_login ''h'' ''p'' type_totp ''000010'' demo_world)) = None"
proof -
  have "mw_db demo_world = demo_mfa" by (simp add: demo_world_def)
  with demo_read demo_confirmed demo_verify show ?thesis
    by (simp add: answer_type_def id_of_type_def mfa_answer_def type_of_factor_def demo_login_def demo_raised_def challenge_spent_def max_attempts_def
        contains_def bound_allows_def demo_app_def factor_active_def split: prod.splits)
qed

theorem totp_login_proves_possession_witness:
  "\<exists>out w'. answer_type demo_login ''h'' ''p'' type_totp ''000010'' demo_world = ((None, out), w') \<and> mo_complete out \<and> mo_user out = ''u'' \<and>
     proves_possession demo_login demo_raised ''000010'' demo_mfa (mw_db w')"
proof -
  obtain e out w' where run: "answer_type demo_login ''h'' ''p'' type_totp ''000010'' demo_world = ((e, out), w')" by (metis prod.exhaust)
  with demo_answer have "e = None" by simp
  note run' = run [unfolded this]
  have db: "mw_db demo_world = demo_mfa" by (simp add: demo_world_def)
  from totp_login_proves_possession [OF _ run'] demo_factors db demo_read run' show ?thesis by (auto simp: demo_raised_def)
qed

lemma demo_shape: "valid_recovery_code_shape (normalise_recovery_code demo_upper demo_typed)"
  by code_simp

lemma demo_consumed: "\<exists>left db. consume_recovery demo_upper ''o'' ''u'' demo_typed demo_now demo_mfa = Inr (left, db)"
  by (simp add: consume_recovery_def demo_shape Let_def demo_mfa_def demo_row_def)

theorem recovery_login_spends_code_witness:
  "\<exists>out w'. answer_recovery demo_login ''h'' ''p'' demo_typed demo_world = ((None, out), w') \<and> mo_user out = ''u'' \<and> mo_recovery out \<and>
     demo_row\<lparr>rc_used := Some demo_now\<rparr> \<in> set (mf_codes (mw_db w'))"
proof -
  obtain left db where "consume_recovery demo_upper ''o'' ''u'' demo_typed demo_now demo_mfa = Inr (left, db)" using demo_consumed by blast
  then have "spend_recovery demo_upper TxOk ''o'' ''u'' demo_typed demo_now demo_mfa = (Inr left, db)" by (simp add: spend_recovery_def in_tenant_ok demo_mfa_def)
  moreover have db: "mw_db demo_world = demo_mfa" by (simp add: demo_world_def)
  ultimately obtain out w' where run: "answer_recovery demo_login ''h'' ''p'' demo_typed demo_world = ((None, out), w')"
    using demo_read by (simp add: answer_recovery_def demo_login_def demo_raised_def challenge_spent_def max_attempts_def bound_allows_def)
  from recovery_login_spends_code [OF run] demo_read db
  have "demo_row\<lparr>rc_used := Some demo_now\<rparr> \<in> set (mf_codes (mw_db w'))" "mo_user out = ''u''" "mo_recovery out"
    by (auto simp: demo_mfa_def demo_login_def demo_raised_def)
  with run show ?thesis by blast
qed


theorem recovery_code_once_witness:
  "\<exists>db. consume_recovery demo_upper ''o'' ''u'' (replicate 16 97) (demo_now + second) db = Inl NoRecoveryCode \<and> length (mf_codes db) = 1"
proof -
  obtain left db where used: "consume_recovery demo_upper ''o'' ''u'' demo_typed demo_now demo_mfa = Inr (left, db)" using demo_consumed by blast
  have "normalise_recovery_code demo_upper (replicate 16 97) = normalise_recovery_code demo_upper demo_typed" by code_simp
  from recovery_code_once [OF used rtranclp.rtrancl_refl this] consume_recovery_ok(3) [OF used] show ?thesis
    by (intro exI [of _ db]) (simp add: demo_mfa_def)
qed

theorem recovery_code_round_trip_witness:
  "normalise_recovery_code demo_upper (runes_of ''aaaa aaaa aaaa aaaa'') = b32_encode (replicate 10 0)"
proof -
  have upper: "ascii_upper demo_upper" by (simp add: ascii_upper_def demo_upper_def)
  have raw: "b32_encode (replicate 10 0) = ''AAAAAAAAAAAAAAAA''" by code_simp
  have a: "spells (97 # rs) (CHR ''A'' # s)" if "spells rs s" for rs s using that by (rule spells_char) (simp add: is_upper_def)
  have blank: "spells (32 # rs) s" if "spells rs s" for rs s using that by (rule spells_separator) (simp add: separator_def)
  have "runes_of ''aaaa aaaa aaaa aaaa'' = [97, 97, 97, 97, 32, 97, 97, 97, 97, 32, 97, 97, 97, 97, 32, 97, 97, 97, 97]" by code_simp
  then have "spells (runes_of ''aaaa aaaa aaaa aaaa'') ''AAAAAAAAAAAAAAAA''"
    by (simp only:) (intro a blank spells_nil)
  from recovery_code_round_trip [OF upper _ this [folded raw]] show ?thesis by (simp add: recovery_code_bytes_def)
qed

end
