(* ===== verification/MfaBounds.thy ===== *)
theory MfaBounds
  imports MfaProps RateLimitProps
begin

text \<open>
  The bounds on guessing a second factor, over the two interfaces of Redis: ten wrong guesses of a user in a window, whatever
  challenges they are spent on, and five minutes for a challenge, whatever is answered to it. And what answers that overlap do to the five attempts of a challenge.
\<close>

section \<open>One guess\<close>

datatype mfa_guess = GuessCode factor_type string | GuessRecovery "nat list" | GuessPasskey "byte list"

definition play ::
  "('s, 'c) mfa_env \<Rightarrow> string \<Rightarrow> string \<Rightarrow> mfa_guess \<Rightarrow> ('s, 'c) mfa_world \<Rightarrow> (mfa_error option \<times> mfa_outcome) \<times> ('s, 'c) mfa_world" where
  "play env handle pending g w =
     (case g of
        GuessCode t code \<Rightarrow> answer_type env handle pending t code w
      | GuessRecovery code \<Rightarrow> answer_recovery env handle pending code w
      | GuessPasskey a \<Rightarrow> answer_webauthn env handle pending a w)"

text \<open>
  A failed guess: the secret was consulted and did not agree. The guess that spends the challenge is reported as such, so an answer that
  says the challenge is spent, of a challenge that was not, is a failed guess too.
\<close>

definition verdict_error :: "mfa_error \<Rightarrow> bool" where
  "verdict_error e \<longleftrightarrow> e \<in> {WrongCode, NoRecoveryCode, OriginMismatch, ClonedAuthenticator, ChallengeSpent}"

definition failed_guess :: "('s, 'c) mfa_env \<Rightarrow> string \<Rightarrow> ('s, 'c) mfa_world \<Rightarrow> mfa_error option \<times> mfa_outcome \<Rightarrow> bool" where
  "failed_guess env handle w r \<longleftrightarrow>
     (case (read_challenge env handle w, fst r) of
        (Inr c, Some e) \<Rightarrow> \<not> challenge_spent c \<and> mo_user (snd r) \<noteq> [] \<and> verdict_error e
      | _ \<Rightarrow> False)"

lemma no_factor_error [simp]: "\<not> verdict_error NoSuchFactor" "\<not> verdict_error NoChallenge" "\<not> verdict_error UnsupportedFactor"
  by (simp_all add: verdict_error_def)

lemma confirmed_error: "confirmed_factors fault org user db = Inl e \<Longrightarrow> \<not> verdict_error e"
  by (auto simp: confirmed_factors_def in_tenant_def with_tenant_def with_scope_def verdict_error_def split: sum.splits if_splits prod.splits)

lemma bound_error: "bound_allows env user w = Inl e \<Longrightarrow> \<not> verdict_error e"
  by (auto simp: bound_allows_def attempts_allowed_def verdict_error_def Let_def split: option.splits sum.splits if_splits)

lemma id_error: "id_of_type env c t db = Inl e \<Longrightarrow> \<not> verdict_error e"
  by (auto simp: id_of_type_def verdict_error_def split: sum.splits option.splits dest!: confirmed_error)

lemma type_error: "type_of_factor env org user i db = Inl e \<Longrightarrow> \<not> verdict_error e"
  by (auto simp: type_of_factor_def verdict_error_def split: sum.splits option.splits dest!: confirmed_error)

lemma tenant_error: "in_tenant fault org body db = (Inl e, db') \<Longrightarrow> body db = Inl e \<or> (\<exists>s. e = MfaFault s)"
  by (auto simp: in_tenant_def with_tenant_def with_scope_def split: sum.splits if_splits prod.splits)

lemma check_error: "check_code te org i code activating now db = Inl e \<Longrightarrow> e = WrongCode \<or> \<not> verdict_error e"
  by (auto simp: check_code_def bindE_def sealed_secret_def open_secret_def activate_factor_def verdict_error_def
      split: sum.splits option.splits if_splits prod.splits)

lemma totp_error: "totp_verify te i code now db = (Inl e, db') \<Longrightarrow> e = WrongCode \<or> \<not> verdict_error e"
  by (auto simp: totp_verify_def totp_check_def verdict_error_def split: if_splits option.splits
      dest!: tenant_error check_error)

lemma recovery_error: "spend_recovery upper fault org user code now db = (Inl e, db') \<Longrightarrow> e = NoRecoveryCode \<or> \<not> verdict_error e"
  by (auto simp: spend_recovery_def consume_recovery_def verdict_error_def Let_def split: if_splits dest!: tenant_error)

lemma assertion_error: "verify_assertion wn org user session a now db = (Inl e, db') \<Longrightarrow>
    e = WrongCode \<or> e = OriginMismatch \<or> e = ClonedAuthenticator \<or> \<not> verdict_error e"
  by (auto simp: verify_assertion_def finish_login_def classify_ceremony_def verdict_error_def split: if_splits option.splits sum.splits prod.splits)

definition charged :: "('s, 'c) mfa_env \<Rightarrow> string \<Rightarrow> 'c \<Rightarrow> 'c" where
  "charged env user st = (case me_attempts env of None \<Rightarrow> st | Some ops \<Rightarrow> snd (attempts_fail ops user (me_now env) st))"

lemma charge_failure_attempts: "mw_attempts (snd (charge_failure env handle c w)) = charged env (ch_user c) (mw_attempts w)"
  by (auto simp: charge_failure_def charged_def Let_def split: option.splits)

lemma drop_challenge_attempts [simp]: "mw_attempts (drop_challenge env handle w) = mw_attempts w"
  by (simp add: drop_challenge_def)

lemma mo_user_offer [simp]: "mo_user (offer_again env handle b who w) = mo_user who"
  by (simp add: offer_again_def split: sum.splits)

lemma mo_user_of [simp]: "mo_user (outcome_of c) = ch_user c" "mo_user no_outcome = []"
  by (simp_all add: outcome_of_def no_outcome_def)

text \<open>A guess leaves the counts alone and is no failed one, or it was allowed and is charged to the user of its challenge.\<close>

definition accounted :: "('s, 'c) mfa_env \<Rightarrow> string \<Rightarrow> ('s, 'c) mfa_world \<Rightarrow> mfa_error option \<times> mfa_outcome \<Rightarrow> ('s, 'c) mfa_world \<Rightarrow> bool" where
  "accounted env handle w r w' \<longleftrightarrow>
     mw_attempts w' = mw_attempts w \<and> \<not> failed_guess env handle w r \<or>
     (\<exists>c. read_challenge env handle w = Inr c \<and> mo_user (snd r) = ch_user c \<and> fst r \<noteq> None \<and> bound_allows env (ch_user c) w = Inr () \<and>
        mw_attempts w' = charged env (ch_user c) (mw_attempts w))"

lemma charged_world:
  "charge_failure env handle c w1 = (b, w2) \<Longrightarrow> mw_attempts w2 = charged env (ch_user c) (mw_attempts w1)"
  using charge_failure_attempts [of env handle c w1] by simp

lemma mfa_answer_counted:
  assumes "mfa_answer env handle i code w = (r, w')" "read_challenge env handle w = Inr c" "\<not> challenge_spent c"
  shows "mw_attempts w' = mw_attempts w \<and> (\<forall>e. r = Inl e \<longrightarrow> \<not> verdict_error e) \<or>
    (\<exists>e. r = Inl e) \<and> bound_allows env (ch_user c) w = Inr () \<and> mw_attempts w' = charged env (ch_user c) (mw_attempts w)"
  using assms
  by (auto simp: mfa_answer_def Let_def verdict_error_def dest: charged_world bound_error type_error totp_error
      split: sum.splits if_splits option.splits prod.splits bool.splits)

lemma spent_answer: "mfa_answer env handle i code w = (r, w') \<Longrightarrow> read_challenge env handle w = Inr c \<Longrightarrow> challenge_spent c \<Longrightarrow> mw_attempts w' = mw_attempts w"
  by (auto simp: mfa_answer_def)

lemma code_accounted: "answer_type env handle pending t code w = (r, w') \<Longrightarrow> accounted env handle w r w'"
proof -
  assume run: "answer_type env handle pending t code w = (r, w')"
  show "accounted env handle w r w'"
  proof (cases "read_challenge env handle w")
    case (Inl e)
    with run show ?thesis by (auto simp: answer_type_def accounted_def failed_guess_def)
  next
    case (Inr c)
    show ?thesis
    proof (cases "ch_pending c = pending")
      case False
      with Inr run show ?thesis by (auto simp: answer_type_def accounted_def failed_guess_def)
    next
      case True
      show ?thesis
      proof (cases "id_of_type env c t (mw_db w)")
        case (Inl e)
        with Inr True run id_error [OF Inl] show ?thesis by (auto simp: answer_type_def accounted_def failed_guess_def)
      next
        case i: (Inr i)
        obtain a w1 where a: "mfa_answer env handle i code w = (a, w1)" by (rule prod.exhaust)
        with Inr True i run have w1: "w' = w1" and user: "mo_user (snd r) = ch_user c" and e: "fst r = (case a of Inl e \<Rightarrow> Some e | Inr _ \<Rightarrow> None)"
          by (auto simp: answer_type_def split: sum.splits)
        show ?thesis
        proof (cases "challenge_spent c")
          case True
          with spent_answer [OF a Inr] Inr w1 show ?thesis by (simp add: accounted_def failed_guess_def split: option.split)
        next
          case False
          from mfa_answer_counted [OF a Inr this] w1 user e Inr show ?thesis
            by (auto simp: accounted_def failed_guess_def split: sum.splits)
        qed
      qed
    qed
  qed
qed

lemma recovery_accounted: "answer_recovery env handle pending code w = (r, w') \<Longrightarrow> accounted env handle w r w'"
  by (auto simp: answer_recovery_def accounted_def failed_guess_def Let_def dest: charged_world bound_error recovery_error
      split: sum.splits if_splits prod.splits bool.splits)

lemma passkey_accounted: "answer_webauthn env handle pending a w = (r, w') \<Longrightarrow> accounted env handle w r w'"
  by (auto simp: answer_webauthn_def accounted_def failed_guess_def Let_def dest: charged_world bound_error assertion_error
      split: sum.splits if_splits prod.splits bool.splits option.splits)

lemma play_accounted: "play env handle pending g w = (r, w') \<Longrightarrow> accounted env handle w r w'"
  by (cases g) (auto simp: play_def intro: code_accounted recovery_accounted passkey_accounted)

section \<open>Ten failed guesses in a window\<close>

text \<open>\<open>GET\<close> reads the count, and the script that counts touches its own key only.\<close>

locale attempt_server = counter_server "at_counter ops" for ops :: "'c attempt_ops" +
  assumes read: "at_get ops t key st = Inr r \<Longrightarrow> (case r of None \<Rightarrow> 0 | Some n \<Rightarrow> n) = ct_count (at_counter ops) st t key"
    and other: "key' \<noteq> key \<Longrightarrow> ct_count (at_counter ops) (snd (ct_consume (at_counter ops) t key ms st)) u key' = ct_count (at_counter ops) st u key'"

text \<open>
  The guesses of a window, one after the other. Only the counts carry over: which factors, codes and challenges a guess meets, and when it
  happens, is up to whoever lists the guesses.
\<close>

record ('s, 'c) guess_at =
  ga_env :: "('s, 'c) mfa_env"
  ga_handle :: string
  ga_pending :: string
  ga_guess :: mfa_guess
  ga_db :: mfa_db
  ga_challenges :: 's

definition world_at :: "('s, 'c) guess_at \<Rightarrow> 'c \<Rightarrow> ('s, 'c) mfa_world" where
  "world_at g st = \<lparr>mw_db = ga_db g, mw_challenges = ga_challenges g, mw_attempts = st\<rparr>"

definition play_at :: "('s, 'c) guess_at \<Rightarrow> 'c \<Rightarrow> (mfa_error option \<times> mfa_outcome) \<times> 'c" where
  "play_at g st = (case play (ga_env g) (ga_handle g) (ga_pending g) (ga_guess g) (world_at g st) of (r, w') \<Rightarrow> (r, mw_attempts w'))"

fun failed_guesses :: "string \<Rightarrow> ('s, 'c) guess_at list \<Rightarrow> 'c \<Rightarrow> nat" where
  "failed_guesses user [] st = 0"
| "failed_guesses user (g # gs) st =
     (case play_at g st of (r, st') \<Rightarrow>
        (if failed_guess (ga_env g) (ga_handle g) (world_at g st) r \<and> mo_user (snd r) = user then 1 else 0) + failed_guesses user gs st')"

definition in_window :: "'c attempt_ops \<Rightarrow> time \<Rightarrow> ('s, 'c) guess_at \<Rightarrow> bool" where
  "in_window ops start g \<longleftrightarrow> me_attempts (ga_env g) = Some ops \<and> window_start attempt_window (me_now (ga_env g)) = start"

lemma attempt_key_other: "user \<noteq> v \<Longrightarrow> user \<noteq> [] \<Longrightarrow> attempt_key user start \<noteq> attempt_key v start"
  by (auto simp: attempt_key_def)

lemma window_bounds: "window_start attempt_window t = start \<Longrightarrow> start \<le> t \<and> t < start + 15 * minute"
  by (auto simp: window_start_def attempt_window_def minute_def second_def)

context attempt_server begin

lemma guess_counts:
  assumes up: "\<forall>t key ms st. fst (ct_consume (at_counter ops) t key ms st) \<noteq> None"
    and "user \<noteq> []" "in_window ops start g" "u0 \<le> me_now (ga_env g)"
    and count: "\<forall>u. u0 \<le> u \<and> u < start + 15 * minute \<longrightarrow> ct_count (at_counter ops) st u (attempt_key user start) = int k"
    and run: "play_at g st = (r, st')"
  shows "(\<forall>u. u0 \<le> u \<and> u < start + 15 * minute \<longrightarrow> ct_count (at_counter ops) st' u (attempt_key user start) = int k) \<and>
      \<not> (failed_guess (ga_env g) (ga_handle g) (world_at g st) r \<and> mo_user (snd r) = user) \<or>
    k < 10 \<and> (\<forall>u. me_now (ga_env g) \<le> u \<and> u < start + 15 * minute \<longrightarrow> ct_count (at_counter ops) st' u (attempt_key user start) = int (Suc k))"
proof -
  let ?e = "ga_env g" and ?w = "world_at g st" and ?key = "attempt_key user start" and ?now = "me_now (ga_env g)"
  obtain w' where p: "play ?e (ga_handle g) (ga_pending g) (ga_guess g) ?w = (r, w')" and st': "st' = mw_attempts w'"
    using run by (auto simp: play_at_def split: prod.splits)
  have w: "mw_attempts ?w = st" by (simp add: world_at_def)
  from assms(3) have ops: "me_attempts ?e = Some ops" and ws: "window_start attempt_window ?now = start" by (simp_all add: in_window_def)
  from play_accounted [OF p] consider (same) "st' = st" "\<not> failed_guess ?e (ga_handle g) ?w r"
    | (charged) c :: challenge where "mo_user (snd r) = ch_user c" "bound_allows ?e (ch_user c) ?w = Inr ()" "st' = charged ?e (ch_user c) st"
    unfolding accounted_def w st' by blast
  then show ?thesis
  proof cases
    case same
    with count show ?thesis by blast
  next
    case charged
    have key: "attempt_key (ch_user c) start \<noteq> []"
      using charged(2) ops ws by (auto simp: bound_allows_def attempts_allowed_def Let_def)
    have st'': "st' = snd (ct_consume (at_counter ops) ?now (attempt_key (ch_user c) start) (quota_ttl attempt_window ?now div millisecond) st)"
      using charged(3) ops ws key by (simp add: charged_def attempts_fail_def Let_def split: prod.split option.split)
    show ?thesis
    proof (cases "ch_user c = user")
      case False
      then have "ct_count (at_counter ops) st' u ?key = ct_count (at_counter ops) st u ?key" for u
        unfolding st'' by (intro other attempt_key_other) (use False assms(2) in auto)
      with False charged(1) count show ?thesis by simp
    next
      case True
      obtain r' where r': "at_get ops ?now ?key st = Inr r'" "(case r' of None \<Rightarrow> 0 | Some n \<Rightarrow> n) < 10"
        using charged(2) ops ws True w key
        by (auto simp: bound_allows_def attempts_allowed_def Let_def max_attempts_per_window_def split: sum.splits option.splits if_splits)
      have t: "u0 \<le> ?now" "?now < start + 15 * minute" using assms(4) window_bounds [OF ws] by simp_all
      have "int k = ct_count (at_counter ops) st ?now ?key" using count t by simp
      also have "\<dots> < 10" using read [OF r'(1)] r'(2) by simp
      finally have k: "k < 10" by simp
      obtain n where n: "ct_consume (at_counter ops) ?now ?key (quota_ttl attempt_window ?now div millisecond) st = (Some n, st')"
        using up st'' True by (metis option.exhaust prod.collapse)
      have q: "0 < q_window attempt_window" "q_window attempt_window \<le> 365 * 24 * hour" "window_start attempt_window ?now + q_window attempt_window = start + 15 * minute"
        using ws by (simp_all add: attempt_window_def minute_def hour_def second_def)
      from count_after [OF q(1,2) order_refl t q(3) count n] k show ?thesis by simp
    qed
  qed
qed

lemma failed_at_most:
  assumes "\<forall>t key ms st. fst (ct_consume (at_counter ops) t key ms st) \<noteq> None" "user \<noteq> []"
    and "sorted (u0 # map (\<lambda>g. me_now (ga_env g)) gs)" "\<forall>g \<in> set gs. in_window ops start g" "k \<le> 10"
    and "\<forall>u. u0 \<le> u \<and> u < start + 15 * minute \<longrightarrow> ct_count (at_counter ops) st u (attempt_key user start) = int k"
  shows "k + failed_guesses user gs st \<le> 10"
  using assms(3-6)
proof (induction gs arbitrary: u0 k st)
  case (Cons g gs)
  obtain r st' where run: "play_at g st = (r, st')" by (rule prod.exhaust)
  let ?failed = "failed_guess (ga_env g) (ga_handle g) (world_at g st) r \<and> mo_user (snd r) = user"
  have later: "u0 \<le> me_now (ga_env g)" "sorted (me_now (ga_env g) # map (\<lambda>g. me_now (ga_env g)) gs)"
    "sorted (u0 # map (\<lambda>g. me_now (ga_env g)) gs)" "in_window ops start g" "\<forall>g \<in> set gs. in_window ops start g"
    using Cons.prems(1,2) by auto
  from guess_counts [OF assms(1,2) later(4,1) Cons.prems(4) run] show ?case
  proof
    assume "(\<forall>u. u0 \<le> u \<and> u < start + 15 * minute \<longrightarrow> ct_count (at_counter ops) st' u (attempt_key user start) = int k) \<and> \<not> ?failed"
    then have "\<forall>u. u0 \<le> u \<and> u < start + 15 * minute \<longrightarrow> ct_count (at_counter ops) st' u (attempt_key user start) = int k" "\<not> ?failed" by blast+
    from Cons.IH [OF later(3,5) Cons.prems(3) this(1)] this(2) run show ?thesis by auto
  next
    assume a: "k < 10 \<and> (\<forall>u. me_now (ga_env g) \<le> u \<and> u < start + 15 * minute \<longrightarrow> ct_count (at_counter ops) st' u (attempt_key user start) = int (Suc k))"
    then have "Suc k \<le> 10" "\<forall>u. me_now (ga_env g) \<le> u \<and> u < start + 15 * minute \<longrightarrow> ct_count (at_counter ops) st' u (attempt_key user start) = int (Suc k)" by auto
    from Cons.IH [OF later(2,5) this] run show ?thesis by auto
  qed
qed simp

end

definition map_attempts :: "(time \<Rightarrow> bool) \<Rightarrow> (string \<Rightarrow> (int \<times> time) option) attempt_ops" where
  "map_attempts down =
     \<lparr>at_counter = map_counter down,
      at_get = (\<lambda>t k st. if down t then Inl () else
        Inr (case st k of None \<Rightarrow> None | Some (n, until) \<Rightarrow> if t < until \<and> 0 < n then Some n else None))\<rparr>"

interpretation map_attempts: attempt_server "map_attempts down"
  by unfold_locales (auto simp: map_attempts_def map_counter_def split: option.splits if_splits)

text \<open>
  C38. A user gets ten failed guesses of a second factor in a window of fifteen minutes, over all challenges, all kinds of factors and the
  recovery codes, whoever makes them, as long as Redis counts and the guesses do not overlap.
\<close>

theorem failed_guesses_bounded:
  assumes "attempt_server ops" "\<forall>t key ms st. fst (ct_consume (at_counter ops) t key ms st) \<noteq> None" "user \<noteq> []"
    and "sorted (start # map (\<lambda>g. me_now (ga_env g)) gs)" "\<forall>g \<in> set gs. in_window ops start g"
    and "\<forall>u. start \<le> u \<and> u < start + 15 * minute \<longrightarrow> ct_count (at_counter ops) st u (attempt_key user start) = 0"
  shows "failed_guesses user gs st \<le> 10"
  using attempt_server.failed_at_most [OF assms(1,2,3,4,5), of 0 st] assms(6) by simp

definition demo_guess :: "time \<Rightarrow> (challenge blob ttl_map, (string \<Rightarrow> (int \<times> time) option)) guess_at" where
  "demo_guess t =
     \<lparr>ga_env = \<lparr>me_now = t, me_totp = Some demo_totp, me_webauthn = None, me_recovery = True, me_upper = demo_upper,
        me_attempts = Some (map_attempts (\<lambda>_. False)), me_challenges = Some (map_challenges (\<lambda>_. False)), me_handle = None, me_resolve_fault = TxOk,
        me_type_fault = TxOk, me_peek_fault = TxOk, me_unspent_fault = TxOk, me_spend_fault = TxOk\<rparr>,
      ga_handle = ''h'', ga_pending = ''p'', ga_guess = GuessCode type_totp ''123456'', ga_db = demo_mfa,
      ga_challenges = [handle_key ''h'' \<mapsto> (Blob demo_raised, demo_now + hour)]\<rparr>"

theorem failed_guesses_bounded_witness:
  "failed_guesses ''u'' (map (\<lambda>i. demo_guess (demo_now + int i * second)) [0..<20]) Map.empty \<le> 10"
proof (rule failed_guesses_bounded [of "map_attempts (\<lambda>_. False)" _ 0])
  show "attempt_server (map_attempts (\<lambda>_. False))" by (rule map_attempts.attempt_server_axioms)
  show "\<forall>t key ms st. fst (ct_consume (at_counter (map_attempts (\<lambda>_. False))) t key ms st) \<noteq> None"
    by (simp add: map_attempts_def map_counter_def split: option.split)
  show "sorted (0 # map (\<lambda>g. me_now (ga_env g)) (map (\<lambda>i. demo_guess (demo_now + int i * second)) [0..<20]))"
    by (simp add: upt_rec demo_guess_def demo_now_def second_def)
  show "\<forall>g \<in> set (map (\<lambda>i. demo_guess (demo_now + int i * second)) [0..<20]). in_window (map_attempts (\<lambda>_. False)) 0 g"
  proof
    fix g assume "g \<in> set (map (\<lambda>i. demo_guess (demo_now + int i * second)) [0..<20])"
    then obtain i where g: "g = demo_guess (demo_now + int i * second)" "i < 20" by auto
    have "demo_now + int i * second - zero_time = (demo_now + int i * second) + 69039552 * (15 * minute)"
      by (simp add: second_def minute_def zero_time_def)
    moreover have "0 \<le> demo_now + int i * second" "demo_now + int i * second < 15 * minute"
      using g(2) by (simp_all add: demo_now_def second_def minute_def)
    ultimately have "(demo_now + int i * second - zero_time) mod (15 * minute) = demo_now + int i * second"
      by (simp only: mod_mult_self1 mod_pos_pos_trivial)
    with g(1) show "in_window (map_attempts (\<lambda>_. False)) 0 g"
      by (simp add: in_window_def demo_guess_def window_start_def attempt_window_def minute_def second_def)
  qed
qed (simp_all add: map_attempts_def map_counter_def)

section \<open>Five minutes\<close>

text \<open>The documented behaviour of \<open>SET key value XX KEEPTTL\<close>: it writes a key that is there and leaves its time to live.\<close>

locale challenge_server = redis "cr_ops cr" for cr :: "'s challenge_redis" +
  assumes replace_keeps: "cr_replace cr now k v st = (r, st') \<Longrightarrow> now \<le> t \<Longrightarrow> rd_contents (cr_ops cr) st t k = None \<Longrightarrow> rd_contents (cr_ops cr) st' t k = None"
    and replace_other: "cr_replace cr now k v st = (r, st') \<Longrightarrow> k' \<noteq> k \<Longrightarrow> same_at (rd_contents (cr_ops cr)) now k' st st'"
    and replace_writes: "cr_replace cr now k v st = (Inr True, st') \<Longrightarrow> rd_contents (cr_ops cr) st' now k = Some v"
begin

lemma gone_mono: "gone_at ct t k st \<Longrightarrow> t \<le> t' \<Longrightarrow> gone_at ct t' k st"
  by (simp add: gone_at_def)

lemma replace_gone:
  "gone_at (rd_contents (cr_ops cr)) t k st \<Longrightarrow> now \<le> t \<Longrightarrow> gone_at (rd_contents (cr_ops cr)) t k (replace_challenge (Some cr) now handle c st)"
  using replace_keeps [of now k "Blob c" st] replace_other [of now "handle_key handle" "Blob c" st _ _ k]
  by (cases "handle_key handle = k"; cases "cr_replace cr now (handle_key handle) (Blob c) st")
    (auto simp: replace_challenge_def gone_at_def same_at_def)

lemma delete_gone:
  "gone_at (rd_contents (cr_ops cr)) t k st \<Longrightarrow> now \<le> t \<Longrightarrow> gone_at (rd_contents (cr_ops cr)) t k (delete_challenge (Some cr) now handle st)"
proof -
  assume g: "gone_at (rd_contents (cr_ops cr)) t k st" "now \<le> t"
  obtain r st' where d: "rd_del (cr_ops cr) now (handle_key handle) st = (r, st')" by (rule prod.exhaust)
  have "gone_at (rd_contents (cr_ops cr)) t k st'"
  proof (cases "handle_key handle = k")
    case True
    show ?thesis
    proof (cases r)
      case (Inl e)
      with del_err d True g show ?thesis by (fastforce simp: gone_at_def same_at_def)
    next
      case (Inr u)
      with del_ok [of now "handle_key handle" st u st'] d True g show ?thesis by (simp add: gone_at_def)
    qed
  next
    case False
    with del_other [OF d, of k] g show ?thesis by (auto simp: gone_at_def same_at_def)
  qed
  with d g show ?thesis by (simp add: delete_challenge_def)
qed

lemma put_other:
  assumes "put_challenge (Some cr) now raw c ttl st = (r, st')" "\<forall>b. raw = Some b \<longrightarrow> handle_key (b64url_encode b) \<noteq> k"
    and "gone_at (rd_contents (cr_ops cr)) t k st" "now \<le> t"
  shows "gone_at (rd_contents (cr_ops cr)) t k st'"
proof (cases raw)
  case None
  with assms show ?thesis by (simp add: put_challenge_def new_handle_def)
next
  case (Some b)
  obtain x st1 where s: "rd_setnx (cr_ops cr) now (handle_key (b64url_encode b)) (Blob c) ttl st = (x, st1)" by (rule prod.exhaust)
  with assms(1) Some have "st' = st1" by (auto simp: put_challenge_def new_handle_def split: sum.splits bool.splits)
  with setnx_other [OF s, of k] assms(2-4) Some show ?thesis by (auto simp: gone_at_def same_at_def)
qed

lemma put_expires:
  assumes "put_challenge (Some cr) now raw c ttl st = (Inr handle, st')" "0 < ttl"
  shows "gone_at (rd_contents (cr_ops cr)) (now + max ttl millisecond) (handle_key handle) st'"
proof -
  from assms(1) have "rd_setnx (cr_ops cr) now (handle_key handle) (Blob c) ttl st = (Inr True, st')"
    by (auto simp: put_challenge_def split: sum.splits bool.splits prod.splits)
  from setnx_ok [OF this assms(2)] show ?thesis by (auto simp: holds_for_def gone_at_def split: if_splits)
qed

end

interpretation map_challenges: challenge_server "map_challenges down"
proof -
  have ops: "cr_ops (map_challenges down) = ttl_redis down" by (simp add: map_challenges_def)
  show "challenge_server (map_challenges down)"
    by (intro challenge_server.intro challenge_server_axioms.intro, unfold ops, rule ttl.redis_axioms)
      (auto simp: map_challenges_def ttl_defs split: option.splits if_splits)
qed

text \<open>
  What happens to the store of challenges, command by command, as the requests of any number of logins send them: a challenge
  rewritten or deleted under any handle, another one stored, and time passing.
\<close>

inductive challenge_command :: "'s challenge_redis \<Rightarrow> string \<Rightarrow> time \<times> 's \<Rightarrow> time \<times> 's \<Rightarrow> bool" for cr h where
  command_replace: "t \<le> now \<Longrightarrow> challenge_command cr h (t, st) (now, replace_challenge (Some cr) now handle c st)"
| command_delete: "t \<le> now \<Longrightarrow> challenge_command cr h (t, st) (now, delete_challenge (Some cr) now handle st)"
| command_put: "t \<le> now \<Longrightarrow> put_challenge (Some cr) now raw c ttl st = (r, st') \<Longrightarrow>
    \<forall>b. raw = Some b \<longrightarrow> handle_key (b64url_encode b) \<noteq> handle_key h \<Longrightarrow> challenge_command cr h (t, st) (now, st')"
| command_none: "t \<le> now \<Longrightarrow> challenge_command cr h (t, st) (now, st)"

text \<open>An answer sends these commands and no others.\<close>

lemma charge_commands:
  assumes "charge_failure env handle c w = (b, w')" "me_challenges env = Some cr" "mw_challenges w = st"
  shows "(challenge_command cr h)\<^sup>*\<^sup>* (me_now env, st) (me_now env, mw_challenges w')"
proof -
  let ?now = "me_now env" and ?c1 = "c\<lparr>ch_attempts := ch_attempts c + 1\<rparr>"
  let ?st = "replace_challenge (Some cr) ?now handle ?c1 (mw_challenges w)"
  have "challenge_command cr h (?now, mw_challenges w) (?now, ?st)" by (simp add: command_replace)
  moreover have "challenge_command cr h (?now, ?st) (?now, delete_challenge (Some cr) ?now handle ?st)" by (simp add: command_delete)
  moreover have "mw_challenges w' \<in> {?st, delete_challenge (Some cr) ?now handle ?st}"
    using assms by (auto simp: charge_failure_def Let_def split: if_splits option.splits)
  ultimately show ?thesis unfolding assms(3) [symmetric] by (auto intro: converse_rtranclp_into_rtranclp)
qed

lemma drop_commands:
  "me_challenges env = Some cr \<Longrightarrow> mw_challenges w = st \<Longrightarrow>
    (challenge_command cr h)\<^sup>*\<^sup>* (me_now env, st) (me_now env, mw_challenges (drop_challenge env handle w))"
  by (auto simp: drop_challenge_def intro: command_delete)

lemma answer_commands:
  assumes "mfa_answer env handle i code w = (r, w')" "me_challenges env = Some cr"
  shows "(challenge_command cr h)\<^sup>*\<^sup>* (me_now env, mw_challenges w) (me_now env, mw_challenges w')"
  using assms
  by (auto simp: mfa_answer_def Let_def intro!: drop_commands elim!: charge_commands split: sum.splits if_splits option.splits prod.splits bool.splits)

lemma play_commands:
  assumes "play env handle pending g w = (r, w')" "me_challenges env = Some cr"
  shows "(challenge_command cr h)\<^sup>*\<^sup>* (me_now env, mw_challenges w) (me_now env, mw_challenges w')"
  using assms
  by (cases g) (auto simp: play_def answer_type_def answer_recovery_def answer_webauthn_def Let_def intro!: drop_commands
      elim!: charge_commands answer_commands split: sum.splits if_splits option.splits prod.splits bool.splits)

context challenge_server begin

lemma command_gone:
  "challenge_command cr h x y \<Longrightarrow> gone_at (rd_contents (cr_ops cr)) (max end (fst x)) (handle_key h) (snd x) \<Longrightarrow>
    gone_at (rd_contents (cr_ops cr)) (max end (fst y)) (handle_key h) (snd y) \<and> fst x \<le> fst y"
proof (induction rule: challenge_command.induct)
  case (command_replace t now st handle c)
  then have "gone_at (rd_contents (cr_ops cr)) (max end now) (handle_key h) st" by (auto elim!: gone_mono)
  with command_replace replace_gone [OF this, of now handle c] show ?case by simp
next
  case (command_delete t now st handle)
  then have "gone_at (rd_contents (cr_ops cr)) (max end now) (handle_key h) st" by (auto elim!: gone_mono)
  with command_delete delete_gone [OF this, of now handle] show ?case by simp
next
  case (command_put t now raw c ttl st r st')
  then have "gone_at (rd_contents (cr_ops cr)) (max end now) (handle_key h) st" by (auto elim!: gone_mono)
  with command_put(1) put_other [OF command_put(2,3) this] show ?case by simp
next
  case (command_none t now st)
  then show ?case by (auto elim!: gone_mono)
qed

lemma commands_gone:
  "(challenge_command cr h)\<^sup>*\<^sup>* x y \<Longrightarrow> gone_at (rd_contents (cr_ops cr)) (max end (fst x)) (handle_key h) (snd x) \<Longrightarrow>
    gone_at (rd_contents (cr_ops cr)) (max end (fst y)) (handle_key h) (snd y) \<and> fst x \<le> fst y"
  by (induction rule: rtranclp_induct) (auto dest!: command_gone)

lemma gone_unreadable:
  assumes "gone_at (rd_contents (cr_ops cr)) t (handle_key h) (mw_challenges w)" "t \<le> me_now env" "me_challenges env = Some cr"
  shows "\<exists>e. read_challenge env h w = Inl e"
  using assms get [of "me_now env" "handle_key h" "mw_challenges w"]
  by (auto simp: read_challenge_def get_challenge_def gone_at_def split: sum.splits option.splits)

end

lemma unread_play: "read_challenge env h w = Inl e \<Longrightarrow> play env h pending g w = (r, w') \<Longrightarrow> fst r \<noteq> None \<and> w' = w"
  by (cases g) (auto simp: play_def answer_type_def answer_recovery_def answer_webauthn_def split: option.splits if_splits)

text \<open>
  C39. A challenge lives five minutes from the password that raised it, whatever commands the answers to it and to other challenges
  send meanwhile, in whatever order: the wrong answers that rewrite it do not prolong it. No code, passkey or recovery code that is
  presented after that completes it, and an answer to it changes nothing.
\<close>

theorem challenge_lives_five_minutes:
  assumes "challenge_server cr" "me_challenges env = Some cr" "mfa_required env user org pending w = (Inr d, w1)" "md_challenge d"
    and "(challenge_command cr (md_handle d))\<^sup>*\<^sup>* (me_now env, mw_challenges w1) (t, mw_challenges w2)"
    and "me_challenges env' = Some cr" "t \<le> me_now env'" "me_now env + 5 * minute \<le> me_now env'"
    and "play env' (md_handle d) pending' g w2 = (r, w3)"
  shows "fst r \<noteq> None \<and> w3 = w2"
proof -
  let ?until = "me_now env + 5 * minute"
  have ttl: "max challenge_ttl millisecond = 5 * minute" "0 < challenge_ttl"
    by (simp_all add: challenge_ttl_def millisecond_def minute_def second_def)
  obtain c where "put_challenge (Some cr) (me_now env) (me_handle env) c challenge_ttl (mw_challenges w) = (Inr (md_handle d), mw_challenges w1)"
    using assms(2-4) by (auto simp: mfa_required_def no_challenge_def Let_def split: if_splits sum.splits option.splits prod.splits)
  from challenge_server.put_expires [OF assms(1) this ttl(2)]
  have "gone_at (rd_contents (cr_ops cr)) ?until (handle_key (md_handle d)) (mw_challenges w1)" by (simp add: ttl)
  moreover have "max ?until (me_now env) = ?until" by (simp add: minute_def second_def)
  ultimately have "gone_at (rd_contents (cr_ops cr)) (max ?until t) (handle_key (md_handle d)) (mw_challenges w2)"
    using challenge_server.commands_gone [OF assms(1,5), of ?until] by simp
  moreover have "max ?until t \<le> me_now env'" using assms(7,8) by simp
  ultimately obtain e where "read_challenge env' (md_handle d) w2 = Inl e"
    using challenge_server.gone_unreadable [OF assms(1) _ _ assms(6)] by blast
  from unread_play [OF this assms(9)] show ?thesis .
qed

definition demo_raise :: "(challenge blob ttl_map, unit) mfa_env" where
  "demo_raise = demo_login\<lparr>me_handle := Some (replicate 32 7)\<rparr>"

theorem challenge_lives_five_minutes_witness:
  "\<exists>d w1. mfa_required demo_raise ''u'' ''o'' ''p'' (demo_world\<lparr>mw_challenges := Map.empty\<rparr>) = (Inr d, w1) \<and> md_challenge d \<and>
     fst (fst (play (demo_raise\<lparr>me_now := demo_now + 5 * minute\<rparr>) (md_handle d) ''p'' (GuessCode type_totp ''000010'') w1)) \<noteq> None"
proof -
  have db: "mw_db (demo_world\<lparr>mw_challenges := Map.empty\<rparr>) = demo_mfa" by (simp add: demo_world_def)
  obtain d w1 where run: "mfa_required demo_raise ''u'' ''o'' ''p'' (demo_world\<lparr>mw_challenges := Map.empty\<rparr>) = (Inr d, w1)" "md_challenge d"
    using demo_confirmed db
    by (simp add: mfa_required_def demo_raise_def demo_login_def demo_app_def factor_active_def answerable_def registered_def type_totp_def type_webauthn_def
        new_handle_def put_challenge_def map_challenges_def ttl_redis_def ttl_contents_def Let_def)
  let ?env' = "demo_raise\<lparr>me_now := demo_now + 5 * minute\<rparr>"
  obtain r w3 where play: "play ?env' (md_handle d) ''p'' (GuessCode type_totp ''000010'') w1 = (r, w3)" by (rule prod.exhaust)
  have cr: "me_challenges demo_raise = Some (map_challenges (\<lambda>_. False))" "me_challenges ?env' = Some (map_challenges (\<lambda>_. False))"
    by (simp_all add: demo_raise_def demo_login_def)
  have now: "me_now demo_raise \<le> me_now ?env'" "me_now demo_raise + 5 * minute \<le> me_now ?env'"
    by (simp_all add: demo_raise_def demo_login_def minute_def second_def)
  from challenge_lives_five_minutes [OF map_challenges.challenge_server_axioms cr(1) run rtranclp.rtrancl_refl cr(2) now play] run play
  show ?thesis by auto
qed

section \<open>Overlapping answers\<close>

text \<open>
  The challenge is read, checked, and written back, by one request after the other without a check that it is still the one that was read. Answers
  that overlap all find the same number of failures, so that any number of them costs the challenge one.
\<close>

fun charge_all :: "('s, 'c) mfa_env \<Rightarrow> string \<Rightarrow> challenge \<Rightarrow> nat \<Rightarrow> ('s, 'c) mfa_world \<Rightarrow> ('s, 'c) mfa_world" where
  "charge_all env handle c 0 w = w"
| "charge_all env handle c (Suc n) w = snd (charge_failure env handle c (charge_all env handle c n w))"

lemma overlapping_guesses_cost_one:
  assumes "challenge_server cr" "me_challenges env = Some cr" "\<forall>now k v st. fst (cr_replace cr now k v st) = Inr True"
    and "ch_attempts c + 1 < max_attempts" "0 < n"
  shows "rd_contents (cr_ops cr) (mw_challenges (charge_all env handle c n w)) (me_now env) (handle_key handle) = Some (Blob (c\<lparr>ch_attempts := ch_attempts c + 1\<rparr>))"
proof (cases n)
  case (Suc m)
  let ?w = "charge_all env handle c m w" and ?c = "c\<lparr>ch_attempts := ch_attempts c + 1\<rparr>"
  obtain st' where r: "cr_replace cr (me_now env) (handle_key handle) (Blob ?c) (mw_challenges ?w) = (Inr True, st')"
    using assms(3) by (metis prod.collapse)
  with assms(2,4) Suc have "mw_challenges (charge_all env handle c n w) = st'"
    by (auto simp: charge_failure_def replace_challenge_def challenge_spent_def Let_def split: option.splits)
  with challenge_server.replace_writes [OF assms(1) r] show ?thesis by simp
qed (use assms in simp)

end
