(* ===== verification/Spec2Isabelle.thy ===== *)
theory Spec2Isabelle
  imports RefreshRaces SessionPages SessionProps KeyVerify AuthorizeProps LifecycleProps RateLimitProps ManagementProps AuthzProps MfaBounds
begin

text \<open>
  \<^bold>\<open>The core of zed-auth, an OAuth 2.0 and OpenID Connect server in Go\<close> (paths below are under \<open>src/backend/internal\<close>).

  \<^bold>\<open>The program.\<close> A browser comes to \<open>GET /oauth/authorize\<close>, which needs a session; without one it parks the request in Redis and sends
  the browser to the login, which checks a password (slowed down by the rate limiter) and a second factor (the challenge in Redis), creates the
  session and continues the parked request. The answer is a code, kept in Redis for thirty seconds and spent by GETDEL at \<open>POST /oauth/token\<close>, which
  issues signed tokens and rows of \<open>refresh_tokens\<close>; a refresh rotates such a row, and the reuse of a rotated one kills its family. Tokens are
  signed with the current key of the table of signing keys and verified against the published set. \<open>POST /oauth/introspect\<close> and
  \<open>POST /oauth/revoke\<close> look tokens up and destroy them. The management API is a chain of guards (authentication by access token, permission
  by manager roles, quota, bounded body, idempotency key, audit) around handlers; those for roles, role grants and project grants keep the
  permission tables, from which the authorization engine answers whether a user may do something, through a cache in Redis.

  \<^bold>\<open>Conventions.\<close> A Go string is a list of 8-bit characters, an integer of a fixed width a word or an \<open>int\<close> with the wrap-around written
  out (\<open>wrap64\<close>), \<open>time.Time\<close> and \<open>time.Duration\<close> integers of nanoseconds (the methods saturate as Go's do), an error the left
  of a sum. A table of PostgreSQL is a list of rows, a statement a function on it with the row-level security of the tenant, the constraints
  and the triggers of the migrations written out; a transaction (\<open>with_tenant\<close>) either keeps or drops the changes of its body. A request
  reads one clock; what it draws at random is an argument. Every collaborator may fail: a failure is an argument too, and every branch it has in
  the code is a branch here.

  \<^bold>\<open>Theories and sources.\<close>
  \<^item> \<open>Prelude\<close>, \<open>GoStd\<close>, \<open>GoJson\<close>, \<open>UrlQuery\<close>, \<open>Sha256\<close>: what the sources use of the standard library (time, strings, base64 and
    base32, \<open>json.Valid\<close>, query strings, SHA-256), the fact collections and shared lemmas.
  \<^item> \<open>Redis\<close>: the client as an interface. The locale \<open>redis\<close> states the documented laws of GET, SET with expiry, GETDEL and DEL;
    \<open>ttl_redis\<close>, a store in memory that may fail, is its interpretation.
  \<^item> \<open>OAuthClient\<close> (\<open>oauth/client\<close>): clients, registration rules, exact matching, secrets and their rotation.
  \<^item> \<open>AuthorizeParams\<close>, \<open>CodeStore\<close>, \<open>Authorize\<close> (\<open>oauth/authorize\<close>): the two phases of the parameters, codes and parked
    requests, the handler. \<open>AuthorizeProps\<close>: where a browser can be redirected to, what a code stands for, who receives it, and that a parked
    request is continued once; sessions are seen through the locale \<open>session_source\<close>, which the session manager interprets.
  \<^item> \<open>TokenAuth\<close>, \<open>Claims\<close>, \<open>RefreshStore\<close>, \<open>AuditLog\<close>, \<open>TokenHandler\<close> (\<open>oauth/token\<close>, \<open>audit\<close>): client authentication, PKCE and
    scopes; payloads; the table of refresh tokens; audit events with their redaction; \<open>POST /oauth/token\<close> as one function on an explicit world.
    \<open>RefreshInv\<close> and \<open>TokenFacts\<close> show that each operation and each request keeps the invariant of the table, \<open>TokenProps\<close> what a
    request promises. \<open>RefreshProtocol\<close> interleaves the transactions of any number of requests (a refresh is a look-up and a rotation, and
    in between others may run) and shows what survives every interleaving: a table whose families are consistent and keep one absolute
    expiry. \<open>RefreshRaces\<close> shows what does not survive: a family can get two live tips, or a live token after it was killed, when
    another transaction falls between the two, and also that of two rotations of one link at most one wins. \<open>HashVectors\<close> computes two SHA-256 digests the
    witnesses need.
  \<^item> \<open>Lifecycle\<close>, \<open>LifecycleProps\<close> (\<open>oauth/token/lifecycle.go\<close>): introspection and revocation.
  \<^item> \<open>SessionStore\<close>, \<open>SessionCache\<close>, \<open>SessionManager\<close>, \<open>SessionCookie\<close> (\<open>session\<close>): policy, table, Redis copy with tombstones, the
    manager over both, the cookie header. \<open>SessionProtocol\<close> interleaves look-ups (read, later populate) with revocations (commit, later
    invalidation); \<open>SessionProps\<close> and \<open>SessionPages\<close> show that look-ups return live sessions, an acknowledged revocation is final, and
    the pages of the list are the list. Locales: \<open>redis_server\<close>, \<open>session_redis\<close>.
  \<^item> \<open>SigningKeys\<close>, \<open>KeyStore\<close> (\<open>signing\<close>): key sets, their publication and cache, signing and verification over a JOSE library that
    is a parameter, the table and its rotation. \<open>KeyProps\<close>, \<open>KeyRotation\<close>, \<open>KeyVerify\<close>: life cycle, overlap, what a verifier accepts.
  \<^item> \<open>ManagerRoles\<close>, \<open>ManagementChain\<close>, \<open>Idempotency\<close> (\<open>management\<close>): the permission model and the table of routes, the guards, the
    table of idempotency keys. \<open>ManagementProps\<close>: nothing changes without passing every guard, and the tokens of the token endpoint are
    understood. \<open>IdempotencyProps\<close>: one runner per key while it lives, for any interleaving of the statements, and exact replay.
  \<^item> \<open>Roles\<close>, \<open>Grants\<close> (\<open>role\<close>, \<open>grant\<close>, \<open>projectgrant\<close>, \<open>grantsql\<close>, and triggers of \<open>migrations\<close>): the permission tables and their
    handlers. \<open>RbacInv\<close>, \<open>RbacProps\<close>: every request keeps them well formed, nobody promotes themselves, and the query that resolves
    roles computes the relation \<open>entitled\<close>. Requests are served one after another there; a lemma shows the race of a deletion.
  \<^item> \<open>Authz\<close>, \<open>AuthzProps\<close> (\<open>authz\<close>): decision, cache with generations, handler; how stale an answer can be and what the end of a project
    grant does at once. Locale: \<open>authz_server\<close>, which extends \<open>redis\<close> by INCR.
  \<^item> \<open>RateLimit\<close>, \<open>RateLimitProps\<close> (\<open>ratelimit\<close>): cooldowns and fixed-window quotas. Locale: \<open>counter_server\<close>.
  \<^item> \<open>Totp\<close>, \<open>MfaStore\<close>, \<open>MfaFramework\<close> (\<open>mfa\<close>): codes of authenticator apps and recovery codes, factors and their tables, the challenge
    and the framework that answers it. \<open>MfaProps\<close>: proof of possession, single use, the minting of a batch. \<open>MfaBounds\<close>: ten wrong guesses in
    a window and five minutes for a challenge. Locales: \<open>attempt_server\<close> and \<open>challenge_server\<close>, which extend the two above.

  \<^bold>\<open>Parameters.\<close> Code that is not in the repository is an argument with stated laws: Redis, the JOSE library, HMAC and the sealing of secrets, the
  WebAuthn library, the parts of \<open>net/url\<close> that parse and print a URL (\<open>url_round_trip\<close>, for absolute URLs: scheme, host and path are kept
  when the query is replaced). Each law that a property uses holds of a concrete function in its witness.

  \<^bold>\<open>Bounds and fuel.\<close> Loops over input recurse on the input. The validator of JSON takes the length of its text as fuel, more than it can
  descend. \<open>NewRecoveryCodes\<close> draws until its codes differ: \<open>mint_batch\<close> recurses on the values that are drawn and is shown to return as soon
  as enough different ones were. SHA-256 is the function itself; no property assumes that it has no collisions unless it says so.

  \<^bold>\<open>Not modelled.\<close> HTML pages and the flow of the login, SAML, mail, metrics, log lines, configuration and wiring; SQL CRUD of users,
  organizations, projects and applications; registration of a passkey; listings of the management API; partitions and pages of the audit log.
  The continuation after a login checks the organization of the session it is given and not its liveness: it is called with the
  session the login has just made. JSON null and names that differ in case are not modelled in the payload of an access token, which this
  service writes itself. What the models showed of the program (races, and comments the code does not keep) stands beside the component
  as a lemma.
\<close>

end
